(* ===== verification/Prelude.thy ===== *)
theory Prelude
  imports
    Main
    "HOL-Library.Word"
    "HOL-Library.AList"
    "HOL-Library.List_Lexorder"
    "HOL-Library.Char_ord"
    "HOL-Library.Monad_Syntax"
    "HOL-Library.State_Monad"
    "HOL-Library.Multiset"
begin

text \<open>
  Shared vocabulary of the development: the machine integers and string maps the Go sources use,
  the outcome of code that may panic, the named theorem collections the component proofs draw on,
  and generic lemmas on lists, options, association lists and words.
\<close>

section \<open>Types shared by every component\<close>

text \<open>
  Go strings are byte strings; \<^typ>\<open>string\<close> is a list of 8-bit characters and its order
  (from \<open>List_Lexorder\<close> and \<open>Char_ord\<close>) is Go's bytewise order. A Go
  \<open>map[string]string\<close> is an association list read by \<^const>\<open>map_of\<close> and written by
  \<^const>\<open>AList.update\<close>; a nil map and an empty map read alike.
\<close>

type_synonym int32 = "32 word"
type_synonym smap = "(string \<times> string) list"

text \<open>
  A Go call either returns or panics (nil dereference, index out of range, negative slice length).
\<close>

datatype 'a outcome = Panic | Return 'a

definition is_panic :: "'a outcome \<Rightarrow> bool" where
  "is_panic x = (case x of Panic \<Rightarrow> True | Return _ \<Rightarrow> False)"

fun bind_outcome :: "('a \<Rightarrow> 'b outcome) \<Rightarrow> 'a outcome \<Rightarrow> 'b outcome" where
  "bind_outcome f Panic = Panic"
| "bind_outcome f (Return x) = f x"

lemma is_panic_simps [simp]: "is_panic Panic" "\<not> is_panic (Return x)"
  by (simp_all add: is_panic_def)

lemma is_panic_iff: "is_panic x \<longleftrightarrow> x = Panic"
  by (cases x) simp_all

lemma not_is_panicE: "\<not> is_panic x \<Longrightarrow> (\<And>y. x = Return y \<Longrightarrow> thesis) \<Longrightarrow> thesis"
  by (cases x) simp_all

text \<open>Loops over a slice whose body may panic.\<close>

fun traverse_outcome :: "('a \<Rightarrow> 'b outcome) \<Rightarrow> 'a list \<Rightarrow> 'b list outcome" where
  "traverse_outcome f [] = Return []"
| "traverse_outcome f (x # xs) =
     (case f x of
        Panic \<Rightarrow> Panic
      | Return y \<Rightarrow> (case traverse_outcome f xs of Panic \<Rightarrow> Panic | Return ys \<Rightarrow> Return (y # ys)))"

lemma traverse_outcome_Return:
  "traverse_outcome f xs = Return ys \<longleftrightarrow> list_all2 (\<lambda>x y. f x = Return y) xs ys"
proof (induction xs arbitrary: ys)
  case (Cons x xs)
  have "traverse_outcome f (x # xs) = Return ys \<longleftrightarrow>
      (\<exists>z zs. ys = z # zs \<and> f x = Return z \<and> traverse_outcome f xs = Return zs)"
    by (auto split: outcome.splits)
  then show ?case by (auto simp: Cons.IH list_all2_Cons1)
qed auto

lemma traverse_outcome_Panic:
  "traverse_outcome f xs = Panic \<longleftrightarrow> (\<exists>x \<in> set xs. f x = Panic)"
  by (induction xs) (auto split: outcome.splits)

lemma traverse_outcome_total:
  "(\<And>x. x \<in> set xs \<Longrightarrow> f x = Return (g x)) \<Longrightarrow> traverse_outcome f xs = Return (map g xs)"
  by (induction xs) simp_all

section \<open>Theorem collections\<close>

named_theorems call_defs \<open>unfolding rules of the primitive requests\<close>
named_theorems emits_steps \<open>introduction rules that walk a handler request by request\<close>
named_theorems label_defs \<open>the names of the labels the operator sets\<close>

section \<open>Lists\<close>

lemma filter_eq_ConsD: "filter P xs = y # ys \<Longrightarrow> y \<in> set xs \<and> P y"
  by (metis filter_set list.set_intros(1) Set.filter_eq mem_Collect_eq)

lemma find_Some_set: "find P xs = Some x \<Longrightarrow> x \<in> set xs \<and> P x"
  by (induction xs) (auto split: if_splits)

lemma find_None_all: "find P xs = None \<longleftrightarrow> (\<forall>x \<in> set xs. \<not> P x)"
  by (induction xs) auto

lemma list_all2_ex1: "list_all2 R xs ys \<Longrightarrow> x \<in> set xs \<Longrightarrow> \<exists>y \<in> set ys. R x y"
  by (induction rule: list_all2_induct) auto

lemma list_all2_ex2: "list_all2 R xs ys \<Longrightarrow> y \<in> set ys \<Longrightarrow> \<exists>x \<in> set xs. R x y"
  by (induction rule: list_all2_induct) auto

lemma card_image_inj_le_length:
  assumes "inj_on f A" "f ` A \<subseteq> set xs" "finite A"
  shows "card A \<le> length xs"
proof -
  have "card A = card (f ` A)" using assms(1) by (simp add: card_image)
  also have "\<dots> \<le> card (set xs)" using assms(2) by (simp add: card_mono)
  also have "\<dots> \<le> length xs" by (rule card_length)
  finally show ?thesis .
qed

section \<open>Association lists as Go maps\<close>

lemma map_of_update [simp]: "map_of (AList.update k v m) = (map_of m)(k \<mapsto> v)"
  by (simp add: update_conv')

lemma map_of_filter_key:
  "map_of (filter (\<lambda>(k, v). P k) m) k = (if P k then map_of m k else None)"
  by (induction m) auto

section \<open>Machine integers\<close>

text \<open>\<open>int32(len(xs))\<close>: a Go conversion keeps the low 32 bits.\<close>

definition int32_len :: "'a list \<Rightarrow> int32" where
  "int32_len xs = word_of_nat (length xs)"

lemma sint_int32_len:
  assumes "length xs < 2 ^ 31"
  shows "sint (int32_len xs) = int (length xs)"
proof -
  have "signed_take_bit 31 (int (length xs)) = int (length xs)"
    using assms by (simp add: signed_take_bit_int_eq_self)
  then show ?thesis
    by (simp add: int32_len_def signed_of_nat)
qed

lemma int32_len_less_iff:
  "length xs < 2 ^ 31 \<Longrightarrow> (int32_len xs <s r) \<longleftrightarrow> int (length xs) < sint r"
  by (simp add: word_sless_alt sint_int32_len)

lemma int32_len_greater_iff:
  "length xs < 2 ^ 31 \<Longrightarrow> (r <s int32_len xs) \<longleftrightarrow> sint r < int (length xs)"
  by (simp add: word_sless_alt sint_int32_len)

end
