(* ===== verification/GoLib.thy ===== *)
theory GoLib
  imports Prelude
begin

text \<open>
  The parts of the Go standard library the operator relies on: \<open>fmt\<close> formatting of integers and
  quoted strings, \<open>strings.Split\<close>, \<open>Join\<close>, \<open>HasPrefix\<close> and \<open>Contains\<close>, and
  \<open>sort.Sort\<close> with the contract of \<open>sort.Interface\<close> as a locale.
\<close>

section \<open>fmt\<close>

definition digit :: "nat \<Rightarrow> char" where
  "digit d = char_of (48 + d)"

fun decimal :: "nat \<Rightarrow> string" where
  "decimal n = (if n < 10 then [digit n] else decimal (n div 10) @ [digit (n mod 10)])"

declare decimal.simps [simp del]

definition undigit :: "char \<Rightarrow> nat" where
  "undigit c = of_char c - 48"

definition undecimal :: "string \<Rightarrow> nat" where
  "undecimal s = foldl (\<lambda>a c. 10 * a + undigit c) 0 s"

lemma undigit_digit [simp]: "d < 10 \<Longrightarrow> undigit (digit d) = d"
  by (simp add: undigit_def digit_def)

lemma undecimal_decimal [simp]: "undecimal (decimal n) = n"
proof (induction n rule: decimal.induct)
  case (1 n)
  show ?case
  proof (cases "n < 10")
    case True
    then show ?thesis by (simp add: undecimal_def decimal.simps [of n])
  next
    case False
    with 1 have "foldl (\<lambda>a c. 10 * a + undigit c) 0 (decimal (n div 10)) = n div 10"
      by (simp add: undecimal_def)
    with False show ?thesis by (simp add: undecimal_def decimal.simps [of n])
  qed
qed

lemma decimal_inject [simp]: "decimal m = decimal n \<longleftrightarrow> m = n"
  by (metis undecimal_decimal)

definition is_digit :: "char \<Rightarrow> bool" where
  "is_digit c \<longleftrightarrow> c \<in> digit ` {0..<10}"

lemma is_digit_digit [simp]: "d < 10 \<Longrightarrow> is_digit (digit d)"
  by (simp add: is_digit_def)

lemma decimal_digits: "c \<in> set (decimal n) \<Longrightarrow> is_digit c"
proof (induction n rule: decimal.induct)
  case (1 n)
  show ?case
  proof (cases "n < 10")
    case True
    with "1.prems" show ?thesis by (simp add: decimal.simps [of n])
  next
    case False
    with "1.prems" "1.IH" show ?thesis by (auto simp: decimal.simps [of n])
  qed
qed

lemma decimal_nonempty [simp]: "decimal n \<noteq> []"
  by (subst decimal.simps) simp

text \<open>\<open>%d\<close> of a signed integer.\<close>

definition decimal_int :: "int \<Rightarrow> string" where
  "decimal_int i = (if i < 0 then CHR ''-'' # decimal (nat (- i)) else decimal (nat i))"

text \<open>
  \<open>%q\<close> (\<open>strconv.Quote\<close>) on bytes below 128; Kubernetes names, the only arguments of \<open>%q\<close>
  in the sources, contain no others.
\<close>

definition hex_digit :: "nat \<Rightarrow> char" where
  "hex_digit d = (if d < 10 then digit d else char_of (87 + d))"

definition quote_char :: "char \<Rightarrow> string" where
  "quote_char c =
     (if c = CHR 34 then [CHR 92, CHR 34]
      else if c = CHR 92 then [CHR 92, CHR 92]
      else if c = CHR 7 then [CHR 92, CHR ''a'']
      else if c = CHR 8 then [CHR 92, CHR ''b'']
      else if c = CHR 12 then [CHR 92, CHR ''f'']
      else if c = CHR 10 then [CHR 92, CHR ''n'']
      else if c = CHR 13 then [CHR 92, CHR ''r'']
      else if c = CHR 9 then [CHR 92, CHR ''t'']
      else if c = CHR 11 then [CHR 92, CHR ''v'']
      else if of_char c < (32 :: nat) \<or> of_char c = (127 :: nat)
        then [CHR 92, CHR ''x'', hex_digit (of_char c div 16), hex_digit (of_char c mod 16)]
      else [c])"

definition quoted :: "string \<Rightarrow> string" where
  "quoted s = [CHR 34] @ concat (map quote_char s) @ [CHR 34]"

section \<open>strings\<close>

text \<open>\<open>strings.Split\<close> with a one-byte separator: always at least one piece.\<close>

fun Split :: "string \<Rightarrow> char \<Rightarrow> string list" where
  "Split [] c = [[]]"
| "Split (x # xs) c =
     (if x = c then [] # Split xs c
      else (case Split xs c of [] \<Rightarrow> [[x]] | y # ys \<Rightarrow> (x # y) # ys))"

fun Join :: "string list \<Rightarrow> string \<Rightarrow> string" where
  "Join [] sep = []"
| "Join [s] sep = s"
| "Join (s # t # ss) sep = s @ sep @ Join (t # ss) sep"

definition HasPrefix :: "string \<Rightarrow> string \<Rightarrow> bool" where
  "HasPrefix s p \<longleftrightarrow> take (length p) s = p"

lemma Split_nonempty [simp]: "Split s c \<noteq> []"
  by (induction s) (auto split: list.splits)

lemma Split_no_sep: "c \<notin> set s \<Longrightarrow> Split s c = [s]"
  by (induction s) auto

lemma Split_append_sep: "c \<notin> set s \<Longrightarrow> Split (s @ c # t) c = s # Split t c"
  by (induction s) auto

lemma hd_Split_append: "c \<notin> set s \<Longrightarrow> hd (Split (s @ c # t) c) = s"
  by (simp add: Split_append_sep)

lemma hd_Split_takeWhile: "hd (Split s c) = takeWhile (\<lambda>x. x \<noteq> c) s"
proof (induction s)
  case (Cons x xs)
  then show ?case by (cases "Split xs c") auto
qed simp

lemma Split_Join:
  assumes "ss \<noteq> []" and "\<And>s. s \<in> set ss \<Longrightarrow> c \<notin> set s"
  shows "Split (Join ss [c]) c = ss"
  using assms
  by (induction ss "[c]" rule: Join.induct) (simp_all add: Split_no_sep Split_append_sep)

lemma HasPrefix_append [simp]: "HasPrefix (p @ s) p"
  by (simp add: HasPrefix_def)

lemma HasPrefix_iff: "HasPrefix s p \<longleftrightarrow> (\<exists>t. s = p @ t)"
proof
  assume "HasPrefix s p"
  then have "s = p @ drop (length p) s"
    by (metis HasPrefix_def append_take_drop_id)
  then show "\<exists>t. s = p @ t" ..
qed auto

section \<open>sort\<close>

text \<open>
  \<open>sort.Sort\<close> sorts by the caller's \<open>Less\<close>. Slices of at most twelve elements are sorted by
  insertion from the left, each element moving left past those it is less than; this is what the
  definition does. For longer slices the library may order elements that are equal under
  \<open>Less\<close> differently, so no property of the development depends on their order.
\<close>

fun insertBy :: "('a \<Rightarrow> 'a \<Rightarrow> bool) \<Rightarrow> 'a \<Rightarrow> 'a list \<Rightarrow> 'a list" where
  "insertBy lt x [] = [x]"
| "insertBy lt x (y # ys) = (if lt x y then x # y # ys else y # insertBy lt x ys)"

definition Sort :: "('a \<Rightarrow> 'a \<Rightarrow> bool) \<Rightarrow> 'a list \<Rightarrow> 'a list" where
  "Sort lt xs = foldl (\<lambda>acc x. insertBy lt x acc) [] xs"

text \<open>\<open>sort.Reverse\<close> swaps the arguments of \<open>Less\<close>.\<close>

definition Reverse :: "('a \<Rightarrow> 'a \<Rightarrow> bool) \<Rightarrow> ('a \<Rightarrow> 'a \<Rightarrow> bool)" where
  "Reverse lt x y = lt y x"

lemma mset_insertBy [simp]: "mset (insertBy lt x ys) = add_mset x (mset ys)"
  by (induction ys) auto

lemma mset_foldl_insertBy:
  "mset (foldl (\<lambda>acc x. insertBy lt x acc) acc xs) = mset acc + mset xs"
  by (induction xs arbitrary: acc) auto

lemma mset_Sort [simp]: "mset (Sort lt xs) = mset xs"
  by (simp add: Sort_def mset_foldl_insertBy)

lemma set_Sort [simp]: "set (Sort lt xs) = set xs"
  by (metis mset_Sort set_mset_mset)

lemma length_Sort [simp]: "length (Sort lt xs) = length xs"
  by (metis mset_Sort size_mset)

lemma Sort_eq_Nil [simp]: "Sort lt xs = [] \<longleftrightarrow> xs = []"
  by (metis length_0_conv length_Sort)

lemma Sort_Nil [simp]: "Sort lt [] = []"
  by simp

lemma distinct_Sort [simp]: "distinct (Sort lt xs) = distinct xs"
  by (metis mset_Sort mset_eq_imp_distinct_iff)

text \<open>
  The contract of \<open>sort.Interface\<close>: \<open>Less\<close> is a strict weak order. Under it the result is
  sorted: no element is less than one that stands before it.
\<close>

locale sort_interface =
  fixes lt :: "'a \<Rightarrow> 'a \<Rightarrow> bool"
  assumes lt_irrefl: "\<not> lt x x"
    and lt_trans: "lt x y \<Longrightarrow> lt y z \<Longrightarrow> lt x z"
    and not_lt_trans: "\<not> lt x y \<Longrightarrow> \<not> lt y z \<Longrightarrow> \<not> lt x z"
begin

definition ordered :: "'a list \<Rightarrow> bool" where
  "ordered xs = sorted_wrt (\<lambda>x y. \<not> lt y x) xs"

lemma ordered_insertBy: "ordered ys \<Longrightarrow> ordered (insertBy lt x ys)"
proof (induction ys)
  case Nil
  then show ?case by (simp add: ordered_def)
next
  case (Cons y ys)
  have set_ins: "set (insertBy lt x ys) = insert x (set ys)"
    by (metis mset_insertBy set_mset_add_mset_insert set_mset_mset)
  show ?case
  proof (cases "lt x y")
    case True
    have "\<not> lt z x" if "z \<in> set (y # ys)" for z
    proof
      assume "lt z x"
      then have "lt z y" using True by (rule lt_trans)
      with that Cons.prems show False by (auto simp: ordered_def lt_irrefl)
    qed
    with True Cons.prems show ?thesis by (simp add: ordered_def)
  next
    case False
    with Cons set_ins show ?thesis by (auto simp: ordered_def)
  qed
qed

lemma ordered_Sort: "ordered (Sort lt xs)"
proof -
  have "ordered acc \<Longrightarrow> ordered (foldl (\<lambda>acc x. insertBy lt x acc) acc xs)" for acc
    by (induction xs arbitrary: acc) (simp_all add: ordered_insertBy)
  moreover have "ordered []" by (simp add: ordered_def)
  ultimately show ?thesis by (simp add: Sort_def)
qed

lemma Sort_head_least: "Sort lt xs = y # ys \<Longrightarrow> z \<in> set xs \<Longrightarrow> \<not> lt z y"
proof -
  assume srt: "Sort lt xs = y # ys" and z: "z \<in> set xs"
  have "ordered (y # ys)" using srt ordered_Sort by metis
  moreover have "z \<in> set (y # ys)" using z srt by (metis set_Sort)
  ultimately show "\<not> lt z y" by (auto simp: ordered_def lt_irrefl)
qed

text \<open>The first element of the sorted list that satisfies \<open>P\<close> is a least one with \<open>P\<close>.\<close>

lemma find_Sort_least:
  assumes fnd: "find P (Sort lt xs) = Some y" and z: "z \<in> set xs" "P z"
  shows "\<not> lt z y"
proof -
  obtain i where i: "i < length (Sort lt xs)" "Sort lt xs ! i = y" "P y"
    and before: "\<And>j. j < i \<Longrightarrow> \<not> P (Sort lt xs ! j)"
    using fnd by (auto simp: find_Some_iff)
  obtain k where k: "k < length (Sort lt xs)" "Sort lt xs ! k = z"
    using z(1) by (metis in_set_conv_nth set_Sort)
  have "i \<le> k" using before k(2) z(2) by (metis not_le)
  show ?thesis
  proof (cases "i = k")
    case True
    then show ?thesis using i k lt_irrefl by simp
  next
    case False
    then have "i < k" using \<open>i \<le> k\<close> by simp
    then show ?thesis
      using ordered_Sort [of xs] i k by (auto simp: ordered_def sorted_wrt_iff_nth_less)
  qed
qed

text \<open>Reversing a strict weak order gives one again.\<close>

lemma reverse_sort_interface: "sort_interface (Reverse lt)"
  by unfold_locales (auto simp: Reverse_def lt_irrefl intro: lt_trans dest: not_lt_trans)

end

end
