(* ===== verification/KubeTypes.thy ===== *)
theory KubeTypes
  imports GoLib
begin

text \<open>
  The Kubernetes API objects the operator builds and reads, with the fields its sources name, and
  the library functions on them that the sources call. The object types come from
  \<open>k8s.io/api\<close> and \<open>k8s.io/apimachinery\<close>; a pointer field is an \<open>option\<close>.
\<close>

section \<open>Metadata\<close>

record NamespacedName =
  nn_Namespace :: string
  nn_Name :: string

record OwnerReference =
  or_Kind :: string
  or_Name :: string
  or_UID :: string
  or_Controller :: bool

text \<open>A set \<open>DeletionTimestamp\<close> marks an object the API server is deleting.\<close>

record ObjectMeta =
  Name :: string
  GenerateName :: string
  Namespace :: string
  UID :: string
  Labels :: smap
  Annotations :: smap
  Finalizers :: "string list"
  OwnerReferences :: "OwnerReference list"
  DeletionTimestamp :: "nat option"

definition emptyMeta :: ObjectMeta where
  "emptyMeta = \<lparr>Name = [], GenerateName = [], Namespace = [], UID = [], Labels = [],
     Annotations = [], Finalizers = [], OwnerReferences = [], DeletionTimestamp = None\<rparr>"

definition key_of :: "ObjectMeta \<Rightarrow> NamespacedName" where
  "key_of m = \<lparr>nn_Namespace = Namespace m, nn_Name = Name m\<rparr>"

section \<open>Resources and volumes\<close>

text \<open>A \<open>resource.Quantity\<close> is seen through the two methods the sources call.\<close>

record Quantity =
  Sign :: int
  MilliValue :: int

record ResourceRequirements =
  Limits :: "(string \<times> Quantity) list"
  Requests :: "(string \<times> Quantity) list"

definition noResources :: ResourceRequirements where
  "noResources = \<lparr>Limits = [], Requests = []\<rparr>"

text \<open>\<open>ResourceList.Cpu()\<close>: the quantity under \<open>cpu\<close>, or the zero quantity.\<close>

definition Cpu :: "(string \<times> Quantity) list \<Rightarrow> Quantity" where
  "Cpu l = (case map_of l ''cpu'' of Some q \<Rightarrow> q | None \<Rightarrow> \<lparr>Sign = 0, MilliValue = 0\<rparr>)"

record PersistentVolumeClaimSpec =
  AccessModes :: "string list option"
  pvc_Resources :: ResourceRequirements
  VolumeMode :: "string option"
  StorageClassName :: "string option"
  VolumeName :: string

record PersistentVolumeClaim =
  pvc_meta :: ObjectMeta
  pvc_spec :: PersistentVolumeClaimSpec

section \<open>Workloads\<close>

datatype Affinity = Affinity string

record EnvVar =
  env_Name :: string
  env_Value :: string

record ContainerPort =
  cp_Name :: string
  cp_ContainerPort :: int

record VolumeMount =
  vm_Name :: string
  vm_ReadOnly :: bool
  vm_MountPath :: string

datatype VolumeSource = NoVolumeSource | PersistentVolumeClaimSource string

record Volume =
  vol_Name :: string
  vol_Source :: VolumeSource

record HostAlias =
  ha_IP :: string
  ha_Hostnames :: "string list"

record Container =
  c_Name :: string
  c_Image :: string
  c_Args :: "string list"
  c_Env :: "EnvVar list"
  c_Ports :: "ContainerPort list"
  c_Resources :: ResourceRequirements
  c_VolumeMounts :: "VolumeMount list"

record PodSpec =
  ps_Hostname :: string
  ps_Subdomain :: string
  ps_HostAliases :: "HostAlias list"
  ps_Containers :: "Container list"
  ps_Volumes :: "Volume list"
  ps_Affinity :: "Affinity option"
  ps_ServiceAccountName :: string
  ps_RestartPolicy :: string

record PodTemplateSpec =
  pt_meta :: ObjectMeta
  pt_spec :: PodSpec

record ReplicaSet =
  rs_meta :: ObjectMeta
  rs_Replicas :: "int32 option"
  rs_Selector :: smap
  rs_Template :: PodTemplateSpec

record Pod =
  pod_meta :: ObjectMeta
  pod_spec :: PodSpec
  pod_Phase :: string

definition PodPending :: string where "PodPending = ''Pending''"
definition PodRunning :: string where "PodRunning = ''Running''"
definition PodSucceeded :: string where "PodSucceeded = ''Succeeded''"
definition PodFailed :: string where "PodFailed = ''Failed''"
definition PodUnknown :: string where "PodUnknown = ''Unknown''"

lemmas pod_phase_defs =
  PodPending_def PodRunning_def PodSucceeded_def PodFailed_def PodUnknown_def

definition RestartPolicyNever :: string where "RestartPolicyNever = ''Never''"
definition ReadWriteOnce :: string where "ReadWriteOnce = ''ReadWriteOnce''"
definition PersistentVolumeFilesystem :: string where "PersistentVolumeFilesystem = ''Filesystem''"
definition ClusterIPNone :: string where "ClusterIPNone = ''None''"

record ServiceAccount =
  sa_meta :: ObjectMeta

record ServicePort =
  sp_Name :: string
  sp_Protocol :: string
  sp_Port :: int

record Service =
  svc_meta :: ObjectMeta
  svc_ClusterIP :: string
  svc_PublishNotReadyAddresses :: bool
  svc_Selector :: smap
  svc_Ports :: "ServicePort list"

section \<open>etcd\<close>

text \<open>The membership record of the etcd v2 client.\<close>

record Member =
  mem_ID :: string
  mem_Name :: string
  PeerURLs :: "string list"
  ClientURLs :: "string list"

record Versions =
  ver_Server :: string
  ver_Cluster :: string

text \<open>An etcd client configuration: its endpoints and the header timeout in seconds.\<close>

record EtcdConfig =
  Endpoints :: "string list"
  HeaderTimeoutPerRequest :: int

section \<open>Errors\<close>

text \<open>
  The errors a Kubernetes client returns, as far as \<open>IsNotFound\<close> and \<open>IsAlreadyExists\<close> tell
  them apart.
\<close>

datatype api_error = NotFound | AlreadyExists | OtherError string

fun IsNotFound :: "api_error option \<Rightarrow> bool" where
  "IsNotFound (Some NotFound) = True"
| "IsNotFound _ = False"

fun IsAlreadyExists :: "api_error option \<Rightarrow> bool" where
  "IsAlreadyExists (Some AlreadyExists) = True"
| "IsAlreadyExists _ = False"

definition IgnoreNotFound :: "api_error option \<Rightarrow> api_error option" where
  "IgnoreNotFound e = (if IsNotFound e then None else e)"

lemma IsNotFound_iff: "IsNotFound e \<longleftrightarrow> e = Some NotFound"
  by (cases e rule: IsNotFound.cases) simp_all

lemma IsAlreadyExists_iff: "IsAlreadyExists e \<longleftrightarrow> e = Some AlreadyExists"
  by (cases e rule: IsAlreadyExists.cases) simp_all

lemma IgnoreNotFound_simps [simp]:
  "IgnoreNotFound None = None"
  "IgnoreNotFound (Some NotFound) = None"
  "IgnoreNotFound (Some AlreadyExists) = Some AlreadyExists"
  "IgnoreNotFound (Some (OtherError m)) = Some (OtherError m)"
  by (simp_all add: IgnoreNotFound_def)

lemma IgnoreNotFound_eq_None: "IgnoreNotFound e = None \<longleftrightarrow> e = None \<or> e = Some NotFound"
  by (auto simp: IgnoreNotFound_def IsNotFound_iff)

text \<open>
  Field errors of \<open>k8s.io/apimachinery/pkg/util/validation/field\<close>, with the path of the field.
\<close>

datatype field_error =
    Required "string list" string
  | Invalid "string list" string string

text \<open>
  Errors of the operator: an error of a client, a new error, a field error, an error decorated
  with a message (\<open>%w\<close> keeps the cause, \<open>%s\<close> its text), and an aggregate.
\<close>

datatype go_error =
    ApiError api_error
  | NewError string
  | FieldError field_error
  | Wrap string go_error
  | Text string go_error
  | Aggregate "go_error list"

text \<open>\<open>kerrors.NewAggregate\<close> drops nil errors and is nil when none is left.\<close>

definition NewAggregate :: "go_error option list \<Rightarrow> go_error option" where
  "NewAggregate es = (let l = List.map_filter id es in if l = [] then None else Some (Aggregate l))"

text \<open>\<open>field.ErrorList.ToAggregate\<close> is nil on the empty list.\<close>

definition ToAggregate :: "field_error list \<Rightarrow> go_error option" where
  "ToAggregate es = (if es = [] then None else Some (Aggregate (map FieldError es)))"

lemma ToAggregate_eq_None [simp]: "ToAggregate es = None \<longleftrightarrow> es = []"
  by (simp add: ToAggregate_def)

section \<open>Library functions on metadata\<close>

text \<open>
  Functions of \<open>metav1\<close>, \<open>controllerutil\<close> and \<open>apiutil\<close> are parameters of the model; what
  their documentation promises and the operator relies on is \<open>lib_ok\<close>.
\<close>

record lib =
  NewControllerRef :: "ObjectMeta \<Rightarrow> string \<Rightarrow> OwnerReference"
  AddFinalizer :: "string list \<Rightarrow> string \<Rightarrow> string list"
  RemoveFinalizer :: "string list \<Rightarrow> string \<Rightarrow> string list"

definition lib_ok :: "lib \<Rightarrow> bool" where
  "lib_ok l \<longleftrightarrow>
     (\<forall>m k. NewControllerRef l m k =
        \<lparr>or_Kind = k, or_Name = Name m, or_UID = UID m, or_Controller = True\<rparr>) \<and>
     (\<forall>fs f. set (AddFinalizer l fs f) = insert f (set fs)) \<and>
     (\<forall>fs f. set (RemoveFinalizer l fs f) = set fs - {f})"

definition std_lib :: lib where
  "std_lib =
     \<lparr>NewControllerRef =
        (\<lambda>m k. \<lparr>or_Kind = k, or_Name = Name m, or_UID = UID m, or_Controller = True\<rparr>),
      AddFinalizer = (\<lambda>fs f. if f \<in> set fs then fs else fs @ [f]),
      RemoveFinalizer = (\<lambda>fs f. filter (\<lambda>g. g \<noteq> f) fs)\<rparr>"

lemma std_lib_ok [simp]: "lib_ok std_lib"
  by (auto simp: lib_ok_def std_lib_def)

lemma lib_okD:
  assumes "lib_ok l"
  shows "NewControllerRef l m k =
           \<lparr>or_Kind = k, or_Name = Name m, or_UID = UID m, or_Controller = True\<rparr>"
    and "set (AddFinalizer l fs f) = insert f (set fs)"
    and "set (RemoveFinalizer l fs f) = set fs - {f}"
  using assms by (auto simp: lib_ok_def)

end
