(* ===== verification/ApiTypes.thy ===== *)
theory ApiTypes
  imports KubeTypes
begin

text \<open>
  The custom resources of \<open>api/v1alpha1\<close>, field by field, and the constants of the operator
  (\<open>controllers/constants.go\<close>, \<open>internal/etcdenvvar/envvars.go\<close>,
  \<open>api/v1alpha1/constants.go\<close>). \<open>object\<close> is the closed union of the API objects that pass
  through the client, Go's \<open>runtime.Object\<close>.
\<close>

section \<open>EtcdPeer\<close>

record InitialClusterMember =
  icm_Name :: string
  icm_Host :: string

record StaticBootstrap =
  InitialCluster :: "InitialClusterMember list"

type_synonym InitialClusterState = string

definition InitialClusterStateNew :: InitialClusterState where
  "InitialClusterStateNew = ''New''"

definition InitialClusterStateExisting :: InitialClusterState where
  "InitialClusterStateExisting = ''Existing''"

record Bootstrap =
  Static :: "StaticBootstrap option"
  bs_InitialClusterState :: InitialClusterState

record EtcdPeerStorage =
  VolumeClaimTemplate :: "PersistentVolumeClaimSpec option"

record EtcdPodTemplateObjectMeta =
  ptm_Annotations :: smap

record EtcdPodTemplateSpec =
  pts_Metadata :: "EtcdPodTemplateObjectMeta option"
  pts_Resources :: "ResourceRequirements option"
  pts_Affinity :: "Affinity option"

record EtcdPeerSpec =
  ps_ClusterName :: string
  ps_Version :: string
  ps_Bootstrap :: "Bootstrap option"
  ps_Storage :: "EtcdPeerStorage option"
  ps_PodTemplate :: "EtcdPodTemplateSpec option"

record EtcdPeerStatus =
  ServerVersion :: string

record EtcdPeer =
  peer_meta :: ObjectMeta
  peer_spec :: EtcdPeerSpec
  peer_status :: EtcdPeerStatus

section \<open>EtcdCluster\<close>

record EtcdClusterSpec =
  cs_Version :: string
  cs_Replicas :: "int32 option"
  cs_Storage :: "EtcdPeerStorage option"
  cs_PodTemplate :: "EtcdPodTemplateSpec option"

record EtcdMember =
  em_Name :: string
  em_ID :: string

record EtcdClusterStatus =
  st_Replicas :: int32
  st_Members :: "EtcdMember list option"
  st_ClusterVersion :: string

record EtcdCluster =
  cluster_meta :: ObjectMeta
  cluster_spec :: EtcdClusterSpec
  cluster_status :: EtcdClusterStatus

section \<open>EtcdBackup and EtcdBackupSchedule\<close>

type_synonym EtcdBackupPhase = string

definition EtcdBackupPhaseBackingUp :: EtcdBackupPhase where
  "EtcdBackupPhaseBackingUp = ''BackingUp''"

definition EtcdBackupPhaseCompleted :: EtcdBackupPhase where
  "EtcdBackupPhaseCompleted = ''Completed''"

definition EtcdBackupPhaseFailed :: EtcdBackupPhase where
  "EtcdBackupPhaseFailed = ''Failed''"

lemmas backup_phase_defs =
  EtcdBackupPhaseBackingUp_def EtcdBackupPhaseCompleted_def EtcdBackupPhaseFailed_def

record EtcdBackupDestination =
  ObjectURLTemplate :: string

record EtcdBackupSource =
  ClusterURL :: string

record EtcdBackupSpec =
  bk_Source :: EtcdBackupSource
  bk_Destination :: EtcdBackupDestination

record EtcdBackupStatus =
  bk_Phase :: EtcdBackupPhase
  StartTime :: "nat option"
  CompletionTime :: "nat option"

record EtcdBackup =
  backup_meta :: ObjectMeta
  backup_spec :: EtcdBackupSpec
  backup_status :: EtcdBackupStatus

record EtcdBackupScheduleSpec =
  sc_Schedule :: string
  BackupTemplate :: EtcdBackupSpec

record EtcdBackupSchedule =
  schedule_meta :: ObjectMeta
  schedule_spec :: EtcdBackupScheduleSpec

section \<open>EtcdRestore\<close>

record EtcdRestoreSource =
  ObjectURL :: string

record EtcdClusterTemplate =
  ct_ClusterName :: string
  ct_Spec :: EtcdClusterSpec

record EtcdRestoreSpec =
  rs_Source :: EtcdRestoreSource
  ClusterTemplate :: EtcdClusterTemplate

type_synonym EtcdRestorePhase = string

definition EtcdRestorePhasePending :: EtcdRestorePhase where
  "EtcdRestorePhasePending = ''Pending''"

definition EtcdRestorePhaseFailed :: EtcdRestorePhase where
  "EtcdRestorePhaseFailed = ''Failed''"

definition EtcdRestorePhaseCompleted :: EtcdRestorePhase where
  "EtcdRestorePhaseCompleted = ''Completed''"

lemmas restore_phase_defs =
  EtcdRestorePhasePending_def EtcdRestorePhaseFailed_def EtcdRestorePhaseCompleted_def

record EtcdRestoreStatus =
  rst_Phase :: EtcdRestorePhase

record EtcdRestore =
  restore_meta :: ObjectMeta
  restore_spec :: EtcdRestoreSpec
  restore_status :: EtcdRestoreStatus

section \<open>Objects\<close>

datatype object =
    OCluster EtcdCluster
  | OPeer EtcdPeer
  | OBackup EtcdBackup
  | OBackupSchedule EtcdBackupSchedule
  | ORestore EtcdRestore
  | OService Service
  | OPVC PersistentVolumeClaim
  | OReplicaSet ReplicaSet
  | OPod Pod
  | OServiceAccount ServiceAccount

fun object_meta :: "object \<Rightarrow> ObjectMeta" where
  "object_meta (OCluster c) = cluster_meta c"
| "object_meta (OPeer p) = peer_meta p"
| "object_meta (OBackup b) = backup_meta b"
| "object_meta (OBackupSchedule s) = schedule_meta s"
| "object_meta (ORestore r) = restore_meta r"
| "object_meta (OService s) = svc_meta s"
| "object_meta (OPVC p) = pvc_meta p"
| "object_meta (OReplicaSet r) = rs_meta r"
| "object_meta (OPod p) = pod_meta p"
| "object_meta (OServiceAccount s) = sa_meta s"

section \<open>Constants\<close>

definition etcdClientPort :: nat where "etcdClientPort = 2379"
definition etcdPeerPort :: nat where "etcdPeerPort = 2380"

text \<open>The ports as they are printed in URLs, for evaluation.\<close>

lemma decimal_ports [code_unfold]: "decimal etcdClientPort = ''2379''" "decimal etcdPeerPort = ''2380''"
  by code_simp+

definition etcdDataMountPath :: string where "etcdDataMountPath = ''/var/lib/etcd''"
definition appName :: string where "appName = ''etcd''"
definition appLabel :: string where "appLabel = ''app.kubernetes.io/name''"
definition clusterLabel :: string where "clusterLabel = ''etcd.improbable.io/cluster-name''"

definition scheduleLabel :: string where
  "scheduleLabel = ''etcd.improbable.io/backup-schedule-name''"

definition scheduleCancelFinalizer :: string where
  "scheduleCancelFinalizer = ''finalizers.etcd.improbable.io/backup-schedule-cancel''"

definition etcdScheme :: string where "etcdScheme = ''http''"
definition peerLabel :: string where "peerLabel = ''etcd.improbable.io/peer-name''"

definition pvcCleanupFinalizer :: string where
  "pvcCleanupFinalizer = ''etcdpeer.etcd.improbable.io/pvc-cleanup''"

definition etcdSupportedVersionMajor :: int where "etcdSupportedVersionMajor = 3"
definition EtcdBackupReasonSucceeded :: string where "EtcdBackupReasonSucceeded = ''BackupSucceeded''"
definition EtcdBackupReasonFailed :: string where "EtcdBackupReasonFailed = ''BackupFailed''"

lemmas api_labels [label_defs] = appLabel_def clusterLabel_def peerLabel_def scheduleLabel_def appName_def

text \<open>Environment variables of the etcd process.\<close>

definition EnvInitialAdvertisePeerURLs :: string where
  "EnvInitialAdvertisePeerURLs = ''ETCD_INITIAL_ADVERTISE_PEER_URLS''"
definition EnvAdvertiseClientURLs :: string where
  "EnvAdvertiseClientURLs = ''ETCD_ADVERTISE_CLIENT_URLS''"
definition EnvListenPeerURLs :: string where "EnvListenPeerURLs = ''ETCD_LISTEN_PEER_URLS''"
definition EnvInitialCluster :: string where "EnvInitialCluster = ''ETCD_INITIAL_CLUSTER''"
definition EnvListenClientURLs :: string where "EnvListenClientURLs = ''ETCD_LISTEN_CLIENT_URLS''"
definition EnvInitialClusterState :: string where
  "EnvInitialClusterState = ''ETCD_INITIAL_CLUSTER_STATE''"
definition EnvInitialClusterToken :: string where
  "EnvInitialClusterToken = ''ETCD_INITIAL_CLUSTER_TOKEN''"
definition EnvName :: string where "EnvName = ''ETCD_NAME''"
definition EnvDataDir :: string where "EnvDataDir = ''ETCD_DATA_DIR''"

lemmas env_defs =
  EnvInitialAdvertisePeerURLs_def EnvAdvertiseClientURLs_def EnvListenPeerURLs_def
  EnvInitialCluster_def EnvListenClientURLs_def EnvInitialClusterState_def
  EnvInitialClusterToken_def EnvName_def EnvDataDir_def

end
