(* ===== verification/Admission.thy ===== *)
theory Admission
  imports ApiTypes
begin

text \<open>
  Defaulting and validation of the custom resources (\<open>api/v1alpha1/defaulting.go\<close>,
  \<open>api/v1alpha1/validation.go\<close>), which the webhooks run on admission and the reconcilers run
  again on every pass. The locale \<open>admission\<close> states what a defaulter and a validator promise
  each other; it is interpreted for \<open>EtcdCluster\<close> and \<open>EtcdPeer\<close>.
\<close>

section \<open>Defaulting\<close>

definition defaultVolumeMode :: string where
  "defaultVolumeMode = PersistentVolumeFilesystem"

definition setDefaults :: "EtcdPeerStorage option \<Rightarrow> EtcdPeerStorage option" where
  "setDefaults o' =
     (case o' of
        None \<Rightarrow> None
      | Some s \<Rightarrow>
          (case VolumeClaimTemplate s of
             None \<Rightarrow> Some s
           | Some t \<Rightarrow>
               let t1 = (if AccessModes t = None then t\<lparr>AccessModes := Some [ReadWriteOnce]\<rparr> else t);
                   t2 = (if VolumeMode t1 = None then t1\<lparr>VolumeMode := Some defaultVolumeMode\<rparr> else t1)
               in Some (s\<lparr>VolumeClaimTemplate := Some t2\<rparr>)))"

definition EtcdCluster_Default :: "EtcdCluster \<Rightarrow> EtcdCluster" where
  "EtcdCluster_Default c =
     c\<lparr>cluster_spec := (cluster_spec c)\<lparr>cs_Storage := setDefaults (cs_Storage (cluster_spec c))\<rparr>\<rparr>"

definition EtcdPeer_Default :: "EtcdPeer \<Rightarrow> EtcdPeer" where
  "EtcdPeer_Default p =
     p\<lparr>peer_spec := (peer_spec p)\<lparr>ps_Storage := setDefaults (ps_Storage (peer_spec p))\<rparr>\<rparr>"

section \<open>Validation\<close>

text \<open>
  \<open>semver.NewVersion\<close> is a parameter: an error message, or the major number of the version.
\<close>

type_synonym semver = "string \<Rightarrow> string + int"

definition validateSemanticVersion :: "semver \<Rightarrow> string \<Rightarrow> string list \<Rightarrow> field_error list" where
  "validateSemanticVersion NewVersion version path =
     (case NewVersion version of
        Inl err \<Rightarrow> [Invalid path version err]
      | Inr major \<Rightarrow>
          if major \<noteq> etcdSupportedVersionMajor
          then [Invalid path version ''only Etcd version 3 is supported'']
          else [])"

definition validatePersistentVolumeClaimSpec ::
    "string list \<Rightarrow> PersistentVolumeClaimSpec option \<Rightarrow> field_error list" where
  "validatePersistentVolumeClaimSpec path o' =
     (case o' of
        None \<Rightarrow> [Required path []]
      | Some t \<Rightarrow>
          if StorageClassName t = None then [Required (path @ [''storageClassName'']) []]
          else if map_of (Requests (pvc_Resources t)) ''storage'' = None
            then [Required (path @ [''resources'', ''requests'', ''storage'']) []]
          else [])"

definition EtcdPeerStorage_validate :: "string list \<Rightarrow> EtcdPeerStorage option \<Rightarrow> field_error list" where
  "EtcdPeerStorage_validate path o' =
     (case o' of
        None \<Rightarrow> [Required path []]
      | Some s \<Rightarrow>
          validatePersistentVolumeClaimSpec (path @ [''volumeClaimTemplate'']) (VolumeClaimTemplate s))"

definition IsInvalidUserProvidedAnnotationName :: "string \<Rightarrow> bool" where
  "IsInvalidUserProvidedAnnotationName annotationName = HasPrefix annotationName ''etcd.improbable.io/''"

text \<open>The range over the annotation map visits each key once, in the order of the list.\<close>

definition EtcdPodTemplateObjectMeta_validate ::
    "string list \<Rightarrow> EtcdPodTemplateObjectMeta option \<Rightarrow> field_error list" where
  "EtcdPodTemplateObjectMeta_validate path o' =
     (case o' of
        None \<Rightarrow> []
      | Some m \<Rightarrow>
          map (\<lambda>name. Invalid path name
                 ''Annotation name is a reserved name ('etcd.improbable.io' prefix)'')
            (filter IsInvalidUserProvidedAnnotationName (map fst (ptm_Annotations m))))"

definition EtcdPodTemplateSpec_validate ::
    "string list \<Rightarrow> EtcdPodTemplateSpec option \<Rightarrow> field_error list" where
  "EtcdPodTemplateSpec_validate path o' =
     (case o' of
        None \<Rightarrow> []
      | Some t \<Rightarrow> EtcdPodTemplateObjectMeta_validate (path @ [''metadata'']) (pts_Metadata t))"

definition EtcdCluster_ValidateCreate :: "semver \<Rightarrow> EtcdCluster \<Rightarrow> go_error option" where
  "EtcdCluster_ValidateCreate sv o' =
     (let path = [''spec'']; spec = cluster_spec o'
      in ToAggregate
           (validateSemanticVersion sv (cs_Version spec) (path @ [''version'']) @
            EtcdPeerStorage_validate (path @ [''storage'']) (cs_Storage spec) @
            EtcdPodTemplateSpec_validate (path @ [''podTemplate'']) (cs_PodTemplate spec)))"

definition EtcdCluster_ValidateDelete :: "EtcdCluster \<Rightarrow> go_error option" where
  "EtcdCluster_ValidateDelete o' = ToAggregate []"

text \<open>
  \<open>cmp.Diff\<close> is a parameter: the report of the differences of two values, empty if they are
  equal.
\<close>

definition diff_ok :: "('a \<Rightarrow> 'a \<Rightarrow> string) \<Rightarrow> bool" where
  "diff_ok d \<longleftrightarrow> (\<forall>a b. d a b = [] \<longleftrightarrow> a = b)"

definition EtcdCluster_ValidateUpdate ::
    "semver \<Rightarrow> (EtcdClusterSpec \<Rightarrow> EtcdClusterSpec \<Rightarrow> string) \<Rightarrow> EtcdCluster \<Rightarrow> object \<Rightarrow> go_error option" where
  "EtcdCluster_ValidateUpdate sv Diff o' old =
     (case old of
        OCluster oldO \<Rightarrow>
          (let oldSpec = (cluster_spec oldO)
                 \<lparr>cs_Replicas := cs_Replicas (cluster_spec o'),
                  cs_Version := cs_Version (cluster_spec o')\<rparr>;
               diff = Diff oldSpec (cluster_spec o')
           in if diff \<noteq> []
              then Some (NewError (''Unsupported changes: (- current, + new) '' @ diff))
              else (case EtcdCluster_ValidateCreate sv o' of
                      None \<Rightarrow> None
                    | Some err \<Rightarrow> Some (Text ''Unsupported changes: '' err)))
      | _ \<Rightarrow> Some (NewError ''Unexpected type for old: ''))"

definition EtcdPeer_ValidateCreate :: "semver \<Rightarrow> EtcdPeer \<Rightarrow> go_error option" where
  "EtcdPeer_ValidateCreate sv o' =
     (let path = [''spec'']; spec = peer_spec o'
      in ToAggregate
           (validateSemanticVersion sv (ps_Version spec) (path @ [''version'']) @
            EtcdPeerStorage_validate (path @ [''storage'']) (ps_Storage spec) @
            EtcdPodTemplateSpec_validate (path @ [''podTemplate'']) (ps_PodTemplate spec)))"

definition EtcdPeer_ValidateDelete :: "EtcdPeer \<Rightarrow> go_error option" where
  "EtcdPeer_ValidateDelete o' = ToAggregate []"

definition EtcdPeer_ValidateUpdate ::
    "(EtcdPeerSpec \<Rightarrow> EtcdPeerSpec \<Rightarrow> string) \<Rightarrow> EtcdPeer \<Rightarrow> object \<Rightarrow> go_error option" where
  "EtcdPeer_ValidateUpdate Diff o' old =
     (case old of
        OPeer oldO \<Rightarrow>
          (let diff = Diff (peer_spec oldO) (peer_spec o')
           in if diff \<noteq> []
              then Some (NewError (''Unsupported changes: (- current, + new) '' @ diff))
              else None)
      | _ \<Rightarrow> Some (NewError ''Unexpected type for old: ''))"

section \<open>What the checks decide\<close>

definition valid_storage :: "EtcdPeerStorage option \<Rightarrow> bool" where
  "valid_storage so \<longleftrightarrow>
     (\<exists>s t c q. so = Some s \<and> VolumeClaimTemplate s = Some t \<and> StorageClassName t = Some c \<and>
        map_of (Requests (pvc_Resources t)) ''storage'' = Some q)"

definition valid_version :: "semver \<Rightarrow> string \<Rightarrow> bool" where
  "valid_version sv v \<longleftrightarrow> sv v = Inr 3"

definition valid_podTemplate :: "EtcdPodTemplateSpec option \<Rightarrow> bool" where
  "valid_podTemplate t \<longleftrightarrow>
     (\<forall>ts m a. t = Some ts \<longrightarrow> pts_Metadata ts = Some m \<longrightarrow> a \<in> fst ` set (ptm_Annotations m) \<longrightarrow>
        \<not> IsInvalidUserProvidedAnnotationName a)"

lemma validateSemanticVersion_iff:
  "validateSemanticVersion sv v p = [] \<longleftrightarrow> valid_version sv v"
  by (auto simp: validateSemanticVersion_def valid_version_def etcdSupportedVersionMajor_def
      split: sum.splits)

lemma EtcdPeerStorage_validate_iff: "EtcdPeerStorage_validate p so = [] \<longleftrightarrow> valid_storage so"
  by (auto simp: EtcdPeerStorage_validate_def validatePersistentVolumeClaimSpec_def
      valid_storage_def split: option.splits)

lemma EtcdPodTemplateSpec_validate_iff:
  "EtcdPodTemplateSpec_validate p t = [] \<longleftrightarrow> valid_podTemplate t"
  by (auto simp: EtcdPodTemplateSpec_validate_def EtcdPodTemplateObjectMeta_validate_def
      valid_podTemplate_def filter_empty_conv split: option.splits)

lemmas validate_iffs =
  validateSemanticVersion_iff EtcdPeerStorage_validate_iff EtcdPodTemplateSpec_validate_iff

lemma EtcdCluster_ValidateCreate_iff:
  "EtcdCluster_ValidateCreate sv c = None \<longleftrightarrow>
     valid_version sv (cs_Version (cluster_spec c)) \<and> valid_storage (cs_Storage (cluster_spec c)) \<and>
     valid_podTemplate (cs_PodTemplate (cluster_spec c))"
  by (simp add: EtcdCluster_ValidateCreate_def Let_def validate_iffs)

lemma EtcdPeer_ValidateCreate_iff:
  "EtcdPeer_ValidateCreate sv p = None \<longleftrightarrow>
     valid_version sv (ps_Version (peer_spec p)) \<and> valid_storage (ps_Storage (peer_spec p)) \<and>
     valid_podTemplate (ps_PodTemplate (peer_spec p))"
  by (simp add: EtcdPeer_ValidateCreate_def Let_def validate_iffs)

lemma setDefaults_idem: "setDefaults (setDefaults so) = setDefaults so"
  by (auto simp: setDefaults_def Let_def split: option.splits)

lemma setDefaults_eq_None [simp]: "setDefaults so = None \<longleftrightarrow> so = None"
  by (auto simp: setDefaults_def Let_def split: option.splits)

lemma EtcdPeerStorage_validate_setDefaults:
  "EtcdPeerStorage_validate p (setDefaults so) = EtcdPeerStorage_validate p so"
  by (auto simp: setDefaults_def Let_def EtcdPeerStorage_validate_def
      validatePersistentVolumeClaimSpec_def split: option.splits)

lemma setDefaults_valid:
  assumes "valid_storage so"
  shows "\<exists>s t am vm. setDefaults so = Some s \<and> VolumeClaimTemplate s = Some t \<and>
           AccessModes t = Some am \<and> VolumeMode t = Some vm"
  using assms by (auto simp: valid_storage_def setDefaults_def Let_def)

section \<open>The contract of admission\<close>

text \<open>
  What \<open>webhook.Defaulter\<close> and \<open>webhook.Validator\<close> promise each other: applying the defaults
  again changes nothing, and defaulting never decides validity. The reconcilers rely on it: they
  default and validate objects that the webhooks may or may not have admitted.
\<close>

locale admission =
  fixes Default :: "'o \<Rightarrow> 'o"
    and ValidateCreate :: "'o \<Rightarrow> go_error option"
  assumes Default_idem: "Default (Default x) = Default x"
    and ValidateCreate_Default: "ValidateCreate (Default x) = ValidateCreate x"
begin

lemma Default_iterated: "0 < n \<Longrightarrow> (Default ^^ n) x = Default x"
proof (induction n)
  case (Suc n)
  then show ?case by (cases n) (simp_all add: Default_idem)
qed simp

lemma ValidateCreate_iterated: "ValidateCreate ((Default ^^ n) x) = ValidateCreate x"
  by (induction n) (simp_all add: ValidateCreate_Default)

text \<open>An object the webhooks admitted passes the reconciler's own check, and unchanged.\<close>

lemma readmitted:
  "ValidateCreate x = None \<Longrightarrow> y = Default x \<Longrightarrow> Default y = y \<and> ValidateCreate (Default y) = None"
  by (simp add: Default_idem ValidateCreate_Default)

end

interpretation cluster_admission: admission EtcdCluster_Default "EtcdCluster_ValidateCreate sv" for sv
  by unfold_locales
    (simp_all add: EtcdCluster_Default_def EtcdCluster_ValidateCreate_def setDefaults_idem Let_def
      EtcdPeerStorage_validate_setDefaults)

interpretation peer_admission: admission EtcdPeer_Default "EtcdPeer_ValidateCreate sv" for sv
  by unfold_locales
    (simp_all add: EtcdPeer_Default_def EtcdPeer_ValidateCreate_def setDefaults_idem Let_def
      EtcdPeerStorage_validate_setDefaults)

lemma EtcdCluster_Default_simps [simp]:
  "cluster_meta (EtcdCluster_Default c) = cluster_meta c"
  "cluster_status (EtcdCluster_Default c) = cluster_status c"
  "cs_Version (cluster_spec (EtcdCluster_Default c)) = cs_Version (cluster_spec c)"
  "cs_Replicas (cluster_spec (EtcdCluster_Default c)) = cs_Replicas (cluster_spec c)"
  "cs_PodTemplate (cluster_spec (EtcdCluster_Default c)) = cs_PodTemplate (cluster_spec c)"
  "cs_Storage (cluster_spec (EtcdCluster_Default c)) = setDefaults (cs_Storage (cluster_spec c))"
  by (simp_all add: EtcdCluster_Default_def)

lemma EtcdPeer_Default_simps [simp]:
  "peer_meta (EtcdPeer_Default p) = peer_meta p"
  "peer_status (EtcdPeer_Default p) = peer_status p"
  "ps_Version (peer_spec (EtcdPeer_Default p)) = ps_Version (peer_spec p)"
  "ps_ClusterName (peer_spec (EtcdPeer_Default p)) = ps_ClusterName (peer_spec p)"
  "ps_Bootstrap (peer_spec (EtcdPeer_Default p)) = ps_Bootstrap (peer_spec p)"
  "ps_PodTemplate (peer_spec (EtcdPeer_Default p)) = ps_PodTemplate (peer_spec p)"
  "ps_Storage (peer_spec (EtcdPeer_Default p)) = setDefaults (ps_Storage (peer_spec p))"
  by (simp_all add: EtcdPeer_Default_def)

end
