(* ===== verification/Client.thy ===== *)
theory Client
  imports Admission
begin

text \<open>
  The world a reconciler acts on. Kubernetes and etcd are outside the sources: the client of
  \<open>controller-runtime\<close> and the etcd client are records of functions on an arbitrary state
  \<open>'w\<close> of the outside world, so that every answer, failure and concurrent change is possible.
  A reconciler is a computation in the state monad over that state and the trace of the calls it
  has made, each with its answer. \<open>emits m P\<close> says that whatever the outside world answers,
  the result of \<open>m\<close> and the calls it makes satisfy \<open>P\<close>.
\<close>

section \<open>Calls\<close>

record event =
  ev_Object :: object
  ev_Type :: string
  ev_Reason :: string
  ev_Message :: string

datatype call =
    GetCluster NamespacedName "api_error + EtcdCluster"
  | GetPeer NamespacedName "api_error + EtcdPeer"
  | GetBackup NamespacedName "api_error + EtcdBackup"
  | GetBackupSchedule NamespacedName "api_error + EtcdBackupSchedule"
  | GetRestore NamespacedName "api_error + EtcdRestore"
  | GetService NamespacedName "api_error + Service"
  | GetPVC NamespacedName "api_error + PersistentVolumeClaim"
  | GetReplicaSet NamespacedName "api_error + ReplicaSet"
  | GetPod NamespacedName "api_error + Pod"
  | GetServiceAccount NamespacedName "api_error + ServiceAccount"
  | ListPeers string string "api_error + EtcdPeer list"
  | Create object "api_error option"
  | Update object "api_error option"
  | Delete object "api_error option"
  | Patch object object "api_error option"
  | StatusUpdate object "api_error option"
  | StatusPatch object object "api_error option"
  | EtcdNew EtcdConfig "string option"
  | EtcdList EtcdConfig "string + Member list"
  | EtcdAdd EtcdConfig string "string + Member"
  | EtcdRemove EtcdConfig string "string option"
  | EtcdGetVersion EtcdConfig "string + Versions"
  | CronAddFunc string NamespacedName "string + nat"
  | CronRemove nat
  | Recorded event

text \<open>The calls that change the outside world; recording an event is not counted.\<close>

fun is_mutation :: "call \<Rightarrow> bool" where
  "is_mutation (Create _ _) = True"
| "is_mutation (Update _ _) = True"
| "is_mutation (Delete _ _) = True"
| "is_mutation (Patch _ _ _) = True"
| "is_mutation (StatusUpdate _ _) = True"
| "is_mutation (StatusPatch _ _ _) = True"
| "is_mutation (EtcdAdd _ _ _) = True"
| "is_mutation (EtcdRemove _ _ _) = True"
| "is_mutation (CronAddFunc _ _ _) = True"
| "is_mutation (CronRemove _) = True"
| "is_mutation _ = False"

text \<open>Writes of the status subresource are counted apart from the actions of a reconciler.\<close>

fun is_status_write :: "call \<Rightarrow> bool" where
  "is_status_write (StatusUpdate _ _) = True"
| "is_status_write (StatusPatch _ _ _) = True"
| "is_status_write _ = False"

definition mutations :: "call list \<Rightarrow> call list" where
  "mutations tr = filter is_mutation tr"

definition actions :: "call list \<Rightarrow> call list" where
  "actions tr = filter (\<lambda>c. is_mutation c \<and> \<not> is_status_write c) tr"

definition recorded :: "call list \<Rightarrow> event list" where
  "recorded tr = List.map_filter (\<lambda>c. case c of Recorded e \<Rightarrow> Some e | _ \<Rightarrow> None) tr"

lemma mutations_simps [simp]:
  "mutations [] = []"
  "mutations (c # tr) = (if is_mutation c then c # mutations tr else mutations tr)"
  "mutations (tr @ tr') = mutations tr @ mutations tr'"
  by (simp_all add: mutations_def)

lemma actions_simps [simp]:
  "actions [] = []"
  "actions (c # tr) = (if is_mutation c \<and> \<not> is_status_write c then c # actions tr else actions tr)"
  "actions (tr @ tr') = actions tr @ actions tr'"
  by (simp_all add: actions_def)

lemma recorded_simps [simp]:
  "recorded [] = []"
  "recorded (Recorded e # tr) = e # recorded tr"
  "recorded (tr @ tr') = recorded tr @ recorded tr'"
  by (simp_all add: recorded_def map_filter_def)

lemma recorded_other [simp]: "(\<And>e. c \<noteq> Recorded e) \<Longrightarrow> recorded (c # tr) = recorded tr"
  by (cases c) (simp_all add: recorded_def map_filter_def)

lemma actions_mutations: "actions tr = filter (\<lambda>c. \<not> is_status_write c) (mutations tr)"
  unfolding actions_def mutations_def filter_filter by (rule filter_cong) auto

lemma length_actions_le: "length (actions tr) \<le> length (mutations tr)"
  unfolding actions_mutations by (rule length_filter_le)

lemma status_writes_mutations: "filter is_status_write tr = filter is_status_write (mutations tr)"
  unfolding mutations_def filter_filter by (rule filter_cong) (auto elim: is_status_write.elims)

lemma map_Recorded [simp]:
  "mutations (map Recorded evs) = []" "actions (map Recorded evs) = []" "recorded (map Recorded evs) = evs"
  by (induction evs) simp_all

lemma set_mutations: "set (mutations tr) = {c \<in> set tr. is_mutation c}"
  by (auto simp: mutations_def)

lemma set_actions: "set (actions tr) = {c \<in> set tr. is_mutation c \<and> \<not> is_status_write c}"
  by (auto simp: actions_def)

section \<open>The clients\<close>

record 'w client =
  c_get_Cluster :: "NamespacedName \<Rightarrow> 'w \<Rightarrow> (api_error + EtcdCluster) \<times> 'w"
  c_get_Peer :: "NamespacedName \<Rightarrow> 'w \<Rightarrow> (api_error + EtcdPeer) \<times> 'w"
  c_get_Backup :: "NamespacedName \<Rightarrow> 'w \<Rightarrow> (api_error + EtcdBackup) \<times> 'w"
  c_get_BackupSchedule :: "NamespacedName \<Rightarrow> 'w \<Rightarrow> (api_error + EtcdBackupSchedule) \<times> 'w"
  c_get_Restore :: "NamespacedName \<Rightarrow> 'w \<Rightarrow> (api_error + EtcdRestore) \<times> 'w"
  c_get_Service :: "NamespacedName \<Rightarrow> 'w \<Rightarrow> (api_error + Service) \<times> 'w"
  c_get_PVC :: "NamespacedName \<Rightarrow> 'w \<Rightarrow> (api_error + PersistentVolumeClaim) \<times> 'w"
  c_get_ReplicaSet :: "NamespacedName \<Rightarrow> 'w \<Rightarrow> (api_error + ReplicaSet) \<times> 'w"
  c_get_Pod :: "NamespacedName \<Rightarrow> 'w \<Rightarrow> (api_error + Pod) \<times> 'w"
  c_get_ServiceAccount :: "NamespacedName \<Rightarrow> 'w \<Rightarrow> (api_error + ServiceAccount) \<times> 'w"
  c_list_Peers :: "string \<Rightarrow> string \<Rightarrow> 'w \<Rightarrow> (api_error + EtcdPeer list) \<times> 'w"
  c_create :: "object \<Rightarrow> 'w \<Rightarrow> api_error option \<times> 'w"
  c_update :: "object \<Rightarrow> 'w \<Rightarrow> api_error option \<times> 'w"
  c_delete :: "object \<Rightarrow> 'w \<Rightarrow> api_error option \<times> 'w"
  c_patch :: "object \<Rightarrow> object \<Rightarrow> 'w \<Rightarrow> api_error option \<times> 'w"
  c_status_update :: "object \<Rightarrow> 'w \<Rightarrow> api_error option \<times> 'w"
  c_status_patch :: "object \<Rightarrow> object \<Rightarrow> 'w \<Rightarrow> api_error option \<times> 'w"

text \<open>
  \<open>etcd.APIBuilder\<close> and the \<open>etcd.API\<close> it builds (\<open>internal/etcd/etcd.go\<close>): the API is
  identified by the configuration it was built from.
\<close>

record 'w etcd_api =
  e_New :: "EtcdConfig \<Rightarrow> 'w \<Rightarrow> string option \<times> 'w"
  e_List :: "EtcdConfig \<Rightarrow> 'w \<Rightarrow> (string + Member list) \<times> 'w"
  e_Add :: "EtcdConfig \<Rightarrow> string \<Rightarrow> 'w \<Rightarrow> (string + Member) \<times> 'w"
  e_Remove :: "EtcdConfig \<Rightarrow> string \<Rightarrow> 'w \<Rightarrow> string option \<times> 'w"
  e_GetVersion :: "EtcdConfig \<Rightarrow> 'w \<Rightarrow> (string + Versions) \<times> 'w"

record 'w world =
  server :: 'w
  trace :: "call list"

type_synonym ('w, 'a) io = "('w world, 'a) state"

abbreviation ret :: "'a \<Rightarrow> ('w, 'a) io" where
  "ret \<equiv> State_Monad.return"

definition call :: "('a \<Rightarrow> call) \<Rightarrow> ('w \<Rightarrow> 'a \<times> 'w) \<Rightarrow> ('w, 'a) io" where
  "call log f = State (\<lambda>s. case f (server s) of
     (a, w) \<Rightarrow> (a, s\<lparr>server := w, trace := trace s @ [log a]\<rparr>))"

definition get_Cluster where "get_Cluster cl k = call (GetCluster k) (c_get_Cluster cl k)"
definition get_Peer where "get_Peer cl k = call (GetPeer k) (c_get_Peer cl k)"
definition get_Backup where "get_Backup cl k = call (GetBackup k) (c_get_Backup cl k)"
definition get_BackupSchedule where
  "get_BackupSchedule cl k = call (GetBackupSchedule k) (c_get_BackupSchedule cl k)"
definition get_Restore where "get_Restore cl k = call (GetRestore k) (c_get_Restore cl k)"
definition get_Service where "get_Service cl k = call (GetService k) (c_get_Service cl k)"
definition get_PVC where "get_PVC cl k = call (GetPVC k) (c_get_PVC cl k)"
definition get_ReplicaSet where "get_ReplicaSet cl k = call (GetReplicaSet k) (c_get_ReplicaSet cl k)"
definition get_Pod where "get_Pod cl k = call (GetPod k) (c_get_Pod cl k)"
definition get_ServiceAccount where
  "get_ServiceAccount cl k = call (GetServiceAccount k) (c_get_ServiceAccount cl k)"
definition list_Peers where "list_Peers cl ns name = call (ListPeers ns name) (c_list_Peers cl ns name)"
definition create where "create cl obj = call (Create obj) (c_create cl obj)"
definition update where "update cl obj = call (Update obj) (c_update cl obj)"
definition delete where "delete cl obj = call (Delete obj) (c_delete cl obj)"
definition patch where "patch cl new base = call (Patch new base) (c_patch cl new base)"
definition status_update where "status_update cl obj = call (StatusUpdate obj) (c_status_update cl obj)"
definition status_patch where
  "status_patch cl new base = call (StatusPatch new base) (c_status_patch cl new base)"
definition etcd_New where "etcd_New e cfg = call (EtcdNew cfg) (e_New e cfg)"
definition etcd_List where "etcd_List e cfg = call (EtcdList cfg) (e_List e cfg)"
definition etcd_Add where "etcd_Add e cfg url = call (EtcdAdd cfg url) (e_Add e cfg url)"
definition etcd_Remove where "etcd_Remove e cfg mid = call (EtcdRemove cfg mid) (e_Remove e cfg mid)"
definition etcd_GetVersion where "etcd_GetVersion e cfg = call (EtcdGetVersion cfg) (e_GetVersion e cfg)"

text \<open>\<open>record.EventRecorder.Event\<close>.\<close>

definition record_event :: "event \<Rightarrow> ('w, unit) io" where
  "record_event ev = State (\<lambda>s. ((), s\<lparr>trace := trace s @ [Recorded ev]\<rparr>))"

lemmas client_calls [call_defs] =
  get_Cluster_def get_Peer_def get_Backup_def get_BackupSchedule_def get_Restore_def
  get_Service_def get_PVC_def get_ReplicaSet_def get_Pod_def get_ServiceAccount_def
  list_Peers_def create_def update_def delete_def patch_def status_update_def status_patch_def
  etcd_New_def etcd_List_def etcd_Add_def etcd_Remove_def etcd_GetVersion_def

lemma run_call [simp]:
  "run_state (call log f) s =
     (fst (f (server s)), s\<lparr>server := snd (f (server s)), trace := trace s @ [log (fst (f (server s)))]\<rparr>)"
  by (simp add: call_def split: prod.splits)

lemma run_record_event [simp]:
  "run_state (record_event ev) s = ((), s\<lparr>trace := trace s @ [Recorded ev]\<rparr>)"
  by (simp add: record_event_def)

text \<open>A read whose \<open>NotFound\<close> error stands for a missing object.\<close>

definition if_found :: "(api_error + 'a) \<Rightarrow> api_error + 'a option" where
  "if_found r =
     (case r of
        Inr x \<Rightarrow> Inr (Some x)
      | Inl err \<Rightarrow> if IgnoreNotFound (Some err) \<noteq> None then Inl err else Inr None)"

lemma if_found_simps [simp]:
  "if_found (Inr x) = Inr (Some x)" "if_found (Inl NotFound) = Inr None"
  "err \<noteq> NotFound \<Longrightarrow> if_found (Inl err) = Inl err"
  by (simp_all add: if_found_def IgnoreNotFound_eq_None)

lemma if_found_Inr: "if_found r = Inr x \<longleftrightarrow> (r = Inl NotFound \<and> x = None) \<or> (\<exists>y. r = Inr y \<and> x = Some y)"
  by (cases r) (auto simp: if_found_def IgnoreNotFound_eq_None)

section \<open>Trace logic\<close>

definition emits :: "('w, 'a) io \<Rightarrow> ('a \<Rightarrow> call list \<Rightarrow> bool) \<Rightarrow> bool" where
  "emits m P \<longleftrightarrow>
     (\<forall>s. \<exists>tr. trace (snd (run_state m s)) = trace s @ tr \<and> P (fst (run_state m s)) tr)"

lemma emitsD:
  assumes "emits m P" and "run_state m s = (r, s')"
  shows "\<exists>tr. trace s' = trace s @ tr \<and> P r tr"
  using assms unfolding emits_def by (metis fst_conv snd_conv)

lemma emitsI:
  assumes "\<And>s r s'. run_state m s = (r, s') \<Longrightarrow> \<exists>tr. trace s' = trace s @ tr \<and> P r tr"
  shows "emits m P"
  unfolding emits_def using assms by (metis prod.collapse)

text \<open>What a computation does when it starts with an empty trace.\<close>

lemma emits_run:
  assumes "emits m P" "trace s = []"
  shows "P (fst (run_state m s)) (trace (snd (run_state m s)))"
  using assms unfolding emits_def by (metis append_Nil)

lemma emits_mono: "emits m P \<Longrightarrow> (\<And>r tr. P r tr \<Longrightarrow> Q r tr) \<Longrightarrow> emits m Q"
  unfolding emits_def by blast

lemma emits_conj: "emits m P \<Longrightarrow> emits m Q \<Longrightarrow> emits m (\<lambda>r tr. P r tr \<and> Q r tr)"
  unfolding emits_def by (metis same_append_eq)

lemma emits_return: "P x [] \<Longrightarrow> emits (State_Monad.return x) P"
  by (simp add: emits_def)

lemma emits_call: "(\<And>r. P r [log r]) \<Longrightarrow> emits (call log f) P"
  by (simp add: emits_def)

lemma emits_record_event: "P () [Recorded ev] \<Longrightarrow> emits (record_event ev) P"
  by (simp add: emits_def)

lemma emits_bind:
  assumes m: "emits m Q" and f: "\<And>r tr. Q r tr \<Longrightarrow> emits (f r) (\<lambda>r' tr'. P r' (tr @ tr'))"
  shows "emits (State_Monad.bind m f) P"
proof (rule emitsI)
  fix s r s' assume run: "run_state (State_Monad.bind m f) s = (r, s')"
  obtain r1 s1 where r1: "run_state m s = (r1, s1)" by fastforce
  with m obtain tr1 where tr1: "trace s1 = trace s @ tr1" "Q r1 tr1" by (blast dest: emitsD)
  from run r1 have "run_state (f r1) s1 = (r, s')" by simp
  with f [OF tr1(2)] obtain tr2 where "trace s' = trace s1 @ tr2" "P r (tr1 @ tr2)"
    by (blast dest: emitsD)
  with tr1 show "\<exists>tr. trace s' = trace s @ tr \<and> P r tr" by auto
qed

lemma emits_bind_call:
  "(\<And>r. emits (f r) (\<lambda>r' tr. P r' (log r # tr))) \<Longrightarrow> emits (State_Monad.bind (call log g) f) P"
  by (rule emits_bind [where Q = "\<lambda>r tr. tr = [log r]"]) (auto intro: emits_call)

lemma emits_bind_record:
  "emits (f ()) (\<lambda>r' tr. P r' (Recorded ev # tr)) \<Longrightarrow> emits (State_Monad.bind (record_event ev) f) P"
  by (rule emits_bind [where Q = "\<lambda>r tr. tr = [Recorded ev]"]) (auto intro: emits_record_event)

lemma emits_case_sum:
  "(\<And>a. x = Inl a \<Longrightarrow> emits (f a) P) \<Longrightarrow> (\<And>b. x = Inr b \<Longrightarrow> emits (g b) P) \<Longrightarrow>
   emits (case x of Inl a \<Rightarrow> f a | Inr b \<Rightarrow> g b) P"
  by (cases x) simp_all

lemma emits_case_option:
  "(x = None \<Longrightarrow> emits f P) \<Longrightarrow> (\<And>b. x = Some b \<Longrightarrow> emits (g b) P) \<Longrightarrow>
   emits (case x of None \<Rightarrow> f | Some b \<Rightarrow> g b) P"
  by (cases x) simp_all

lemma emits_case_outcome:
  "(x = Panic \<Longrightarrow> emits f P) \<Longrightarrow> (\<And>b. x = Return b \<Longrightarrow> emits (g b) P) \<Longrightarrow>
   emits (case x of Panic \<Rightarrow> f | Return b \<Rightarrow> g b) P"
  by (cases x) simp_all

lemma emits_case_list:
  "(x = [] \<Longrightarrow> emits f P) \<Longrightarrow> (\<And>b bs. x = b # bs \<Longrightarrow> emits (g b bs) P) \<Longrightarrow>
   emits (case x of [] \<Rightarrow> f | b # bs \<Rightarrow> g b bs) P"
  by (cases x) simp_all

lemma emits_case_prod:
  "(\<And>a b. x = (a, b) \<Longrightarrow> emits (f a b) P) \<Longrightarrow> emits (case x of (a, b) \<Rightarrow> f a b) P"
  by (cases x) simp

lemma emits_if:
  "(b \<Longrightarrow> emits m P) \<Longrightarrow> (\<not> b \<Longrightarrow> emits n P) \<Longrightarrow> emits (if b then m else n) P"
  by simp

lemma emits_Let: "emits (f x) P \<Longrightarrow> emits (let y = x in f y) P"
  by simp

lemmas emits_primitives [emits_steps] =
  emits_return emits_call emits_record_event emits_bind_call emits_bind_record
  emits_case_sum emits_case_option emits_case_outcome emits_case_list emits_case_prod
  emits_if emits_Let

text \<open>A computation that makes no calls that change anything.\<close>

abbreviation reads_only :: "('w, 'a) io \<Rightarrow> bool" where
  "reads_only m \<equiv> emits m (\<lambda>_ tr. mutations tr = [])"

section \<open>The contract of a reconciler\<close>

text \<open>
  Every reconciler of the operator is called again and again by the manager. Its contract is that
  one call performs at most one action. \<open>reconciler\<close> is that contract; a run of \<open>n\<close>
  calls, whatever happens in between, performs at most \<open>n\<close> actions.
\<close>

definition at_most_one_action :: "('w, 'a) io \<Rightarrow> bool" where
  "at_most_one_action m \<longleftrightarrow> emits m (\<lambda>_ tr. length (actions tr) \<le> 1)"

fun run_all :: "('w, 'a) io list \<Rightarrow> ('w, 'a list) io" where
  "run_all [] = State_Monad.return []"
| "run_all (m # ms) = do { r \<leftarrow> m; rs \<leftarrow> run_all ms; State_Monad.return (r # rs) }"

locale reconciler =
  fixes Reconcile :: "'req \<Rightarrow> ('w, 'a) io"
  assumes one_action: "at_most_one_action (Reconcile req)"
begin

lemma actions_bounded:
  "emits (run_all (map Reconcile reqs)) (\<lambda>_ tr. length (actions tr) \<le> length reqs)"
proof (induction reqs)
  case Nil
  then show ?case by (simp add: emits_return)
next
  case (Cons req reqs)
  have "emits (Reconcile req) (\<lambda>_ tr. length (actions tr) \<le> 1)"
    using one_action [of req] by (simp add: at_most_one_action_def)
  then show ?case
    unfolding list.map run_all.simps
  proof (rule emits_bind)
    fix r tr assume one: "length (actions tr) \<le> 1"
    show "emits (do { rs \<leftarrow> run_all (map Reconcile reqs); State_Monad.return (r # rs) })
        (\<lambda>r' tr'. length (actions (tr @ tr')) \<le> length (req # reqs))"
      by (rule emits_bind [OF Cons.IH]) (use one in \<open>auto intro!: emits_return\<close>)
  qed
qed

end

section \<open>Results of reconcilers\<close>

text \<open>\<open>ctrl.Result\<close>, with the delay in seconds.\<close>

record Result =
  Requeue :: bool
  RequeueAfter :: nat

definition emptyResult :: Result where
  "emptyResult = \<lparr>Requeue = False, RequeueAfter = 0\<rparr>"

definition requeueTenSeconds :: Result where
  "requeueTenSeconds = \<lparr>Requeue = False, RequeueAfter = 10\<rparr>"

type_synonym reconciled = "(Result \<times> go_error option) outcome"

end
