(* ===== verification/Events.thy ===== *)
theory Events
  imports Client
begin

text \<open>
  The events of \<open>internal/reconcilerevent\<close> and how each is published, and the actions of
  \<open>controllers/actions.go\<close>. The interfaces \<open>ReconcilerEvent\<close> and \<open>Action\<close> are locales:
  publishing an event changes nothing else, and executing an action makes at most one change.
\<close>

section \<open>Events\<close>

definition K8sEventTypeNormal :: string where "K8sEventTypeNormal = ''Normal''"
definition K8sEventTypeWarning :: string where "K8sEventTypeWarning = ''Warning''"

datatype ClusterEvent =
    ServiceCreatedEvent object string
  | PeerCreatedEvent object string
  | PeerRemovedEvent object string
  | MemberAddedEvent object Member string
  | MemberRemovedEvent object Member string

definition mk_event :: "object \<Rightarrow> string \<Rightarrow> string \<Rightarrow> string \<Rightarrow> event" where
  "mk_event obj ty reason message =
     \<lparr>ev_Object = obj, ev_Type = ty, ev_Reason = reason, ev_Message = message\<rparr>"

fun ClusterEvent_Record :: "ClusterEvent \<Rightarrow> ('w, unit) io" where
  "ClusterEvent_Record (ServiceCreatedEvent obj n) =
     record_event (mk_event obj K8sEventTypeNormal ''ServiceCreated''
       (''Created service with name '' @ quoted n))"
| "ClusterEvent_Record (PeerCreatedEvent obj n) =
     record_event (mk_event obj K8sEventTypeNormal ''PeerCreated''
       (''Created a new EtcdPeer with name '' @ quoted n))"
| "ClusterEvent_Record (PeerRemovedEvent obj n) =
     record_event (mk_event obj K8sEventTypeNormal ''PeerRemoved''
       (''Removed EtcdPeer with name '' @ quoted n))"
| "ClusterEvent_Record (MemberAddedEvent obj m n) =
     record_event (mk_event obj K8sEventTypeNormal ''MemberAdded''
       (''Added a new member with name '' @ quoted n))"
| "ClusterEvent_Record (MemberRemovedEvent obj m n) =
     record_event (mk_event obj K8sEventTypeNormal ''MemberRemoved''
       (''Removed a member with name '' @ quoted n))"

text \<open>
  \<open>apiutil.GVKForObject\<close> is a parameter: the kind of an object, or an error when the scheme does
  not know it. Every object of the model has metadata, so \<open>meta.Accessor\<close> does not fail.
\<close>

datatype BackupEvent =
    ObjectCreatedEvent object object
  | BackupSucceeded object
  | BackupFailed object

fun BackupEvent_Record :: "(object \<Rightarrow> string + string) \<Rightarrow> BackupEvent \<Rightarrow> ('w, unit) io" where
  "BackupEvent_Record GVKForObject (ObjectCreatedEvent for obj) =
     (case GVKForObject obj of
        Inl err \<Rightarrow> ret ()
      | Inr kind \<Rightarrow>
          record_event (mk_event for K8sEventTypeNormal ''SuccessfulCreate''
            (''Created '' @ kind @ '': '' @ Name (object_meta obj))))"
| "BackupEvent_Record GVKForObject (BackupSucceeded for) =
     record_event (mk_event for K8sEventTypeNormal EtcdBackupReasonSucceeded
       ''Backup completed successfully'')"
| "BackupEvent_Record GVKForObject (BackupFailed for) =
     record_event (mk_event for K8sEventTypeWarning EtcdBackupReasonFailed
       ''Backup failed. See backup-agent pod logs for details.'')"

text \<open>The contract of \<open>ReconcilerEvent\<close>.\<close>

locale reconciler_event =
  fixes Record :: "'e \<Rightarrow> ('w, unit) io"
  assumes Record_publishes: "emits (Record e) (\<lambda>_ tr. \<exists>evs. tr = map Recorded evs \<and> length evs \<le> 1)"
begin

lemma Record_optional:
  "emits (case ev of None \<Rightarrow> ret () | Some e \<Rightarrow> Record e)
     (\<lambda>_ tr. mutations tr = [] \<and> length (recorded tr) \<le> 1)"
proof (cases ev)
  case None
  then show ?thesis by (simp add: emits_return)
next
  case (Some e)
  have "mutations (map Recorded evs) = [] \<and> recorded (map Recorded evs) = evs" for evs
    by (induction evs) simp_all
  then show ?thesis
    using Some by (auto intro!: emits_mono [OF Record_publishes [of e]])
qed

end

interpretation cluster_event: reconciler_event ClusterEvent_Record
proof
  fix e :: ClusterEvent
  show "emits (ClusterEvent_Record e) (\<lambda>_ tr. \<exists>evs. tr = map Recorded evs \<and> length evs \<le> 1)"
    by (cases e)
      (auto intro!: emits_record_event simp: Cons_eq_map_conv)
qed

interpretation backup_event: reconciler_event "BackupEvent_Record gvk" for gvk
proof
  fix e :: BackupEvent
  show "emits (BackupEvent_Record gvk e) (\<lambda>_ tr. \<exists>evs. tr = map Recorded evs \<and> length evs \<le> 1)"
    by (cases e)
      (auto intro!: emits_record_event emits_return simp: Cons_eq_map_conv split: sum.split)
qed

section \<open>Actions\<close>

definition CreateRuntimeObject_Execute :: "'w client \<Rightarrow> object \<Rightarrow> ('w, go_error option) io" where
  "CreateRuntimeObject_Execute cl obj = do {
     err \<leftarrow> create cl obj;
     ret (case err of
            Some e \<Rightarrow> Some (Text ''error while creating object '' (ApiError e))
          | None \<Rightarrow> None)
   }"

definition PatchStatus_Execute :: "'w client \<Rightarrow> object \<Rightarrow> object \<Rightarrow> ('w, go_error option) io" where
  "PatchStatus_Execute cl original new =
     (if original = new then ret None
      else do {
        err \<leftarrow> status_patch cl new original;
        ret (case err of
               Some e \<Rightarrow> Some (Text ''error while patching status'' (ApiError e))
             | None \<Rightarrow> None)
      })"

datatype Action = CreateRuntimeObject object | PatchStatus object object

fun Action_Execute :: "'w client \<Rightarrow> Action \<Rightarrow> ('w, go_error option) io" where
  "Action_Execute cl (CreateRuntimeObject obj) = CreateRuntimeObject_Execute cl obj"
| "Action_Execute cl (PatchStatus original new) = PatchStatus_Execute cl original new"

text \<open>
  The contract of \<open>Action\<close>: one change at most, and an error is returned exactly when the change
  failed.
\<close>

fun failed :: "call \<Rightarrow> bool" where
  "failed (Create _ e) \<longleftrightarrow> e \<noteq> None"
| "failed (Update _ e) \<longleftrightarrow> e \<noteq> None"
| "failed (Delete _ e) \<longleftrightarrow> e \<noteq> None"
| "failed (Patch _ _ e) \<longleftrightarrow> e \<noteq> None"
| "failed (StatusUpdate _ e) \<longleftrightarrow> e \<noteq> None"
| "failed (StatusPatch _ _ e) \<longleftrightarrow> e \<noteq> None"
| "failed (EtcdAdd _ _ r) \<longleftrightarrow> isl r"
| "failed (EtcdRemove _ _ e) \<longleftrightarrow> e \<noteq> None"
| "failed (CronAddFunc _ _ r) \<longleftrightarrow> isl r"
| "failed _ \<longleftrightarrow> False"

locale action =
  fixes Execute :: "'o \<Rightarrow> ('w, go_error option) io"
  assumes Execute_once:
    "emits (Execute a) (\<lambda>err tr. length (mutations tr) \<le> 1 \<and>
       (\<forall>c \<in> set (mutations tr). failed c \<longleftrightarrow> err \<noteq> None))"
begin

lemma Execute_success:
  "emits (Execute a) (\<lambda>err tr. err = None \<longrightarrow> (\<forall>c \<in> set tr. is_mutation c \<longrightarrow> \<not> failed c))"
  by (rule emits_mono [OF Execute_once]) (auto simp: set_mutations)

end

interpretation run_action: action "Action_Execute cl" for cl
proof
  fix a
  show "emits (Action_Execute cl a) (\<lambda>err tr. length (mutations tr) \<le> 1 \<and>
      (\<forall>c \<in> set (mutations tr). failed c \<longleftrightarrow> err \<noteq> None))"
    by (cases a)
      (auto simp: CreateRuntimeObject_Execute_def PatchStatus_Execute_def call_defs
        intro!: emits_steps split: option.splits)
qed

end
