(* ===== verification/GoUrl.thy ===== *)
theory GoUrl
  imports GoLib
begin

text \<open>
  The part of Go's \<open>net/url\<close> the operator calls: \<open>url.Parse\<close> and \<open>(*URL).String\<close>, with the
  percent-encoding, authority and port rules they apply (Go 1.14). The operator builds member
  URLs from host names, reads peer names back out of them, and splits backup URLs into a bucket
  and a path.
\<close>

section \<open>URLs\<close>

record Userinfo =
  ui_Username :: string
  ui_Password :: "string option"

record URL =
  Scheme :: string
  Opaque :: string
  User :: "Userinfo option"
  Host :: string
  Path :: string
  RawPath :: string
  ForceQuery :: bool
  RawQuery :: string
  Fragment :: string

definition emptyURL :: URL where
  "emptyURL = \<lparr>Scheme = [], Opaque = [], User = None, Host = [], Path = [], RawPath = [],
     ForceQuery = False, RawQuery = [], Fragment = []\<rparr>"

section \<open>Characters and percent-encoding\<close>

definition between :: "char \<Rightarrow> char \<Rightarrow> char \<Rightarrow> bool" where
  "between lo hi c \<longleftrightarrow> of_char lo \<le> (of_char c :: nat) \<and> (of_char c :: nat) \<le> of_char hi"

definition is_lower :: "char \<Rightarrow> bool" where "is_lower = between CHR ''a'' CHR ''z''"
definition is_upper :: "char \<Rightarrow> bool" where "is_upper = between CHR ''A'' CHR ''Z''"
definition is_dec :: "char \<Rightarrow> bool" where "is_dec = between CHR ''0'' CHR ''9''"
definition is_alnum :: "char \<Rightarrow> bool" where "is_alnum c \<longleftrightarrow> is_lower c \<or> is_upper c \<or> is_dec c"

datatype encoding = encodePath | encodeHost | encodeZone | encodeUserPassword | encodeFragment

definition shouldEscape :: "char \<Rightarrow> encoding \<Rightarrow> bool" where
  "shouldEscape c mode \<longleftrightarrow>
     (if is_alnum c then False
      else if (mode = encodeHost \<or> mode = encodeZone) \<and>
          c \<in> set (''!$&'' @ [CHR 39] @ ''()*+,;=:[]<>'' @ [CHR 34]) then False
      else if c \<in> set ''-_.~'' then False
      else if c \<in> set ''$&+,/:;=?@'' \<and> mode \<in> {encodePath, encodeUserPassword, encodeFragment} then
        (case mode of
           encodePath \<Rightarrow> c = CHR ''?''
         | encodeUserPassword \<Rightarrow> c \<in> set ''@/?:''
         | _ \<Rightarrow> False)
      else if mode = encodeFragment \<and> c \<in> set ''!()*'' then False
      else True)"

definition upper_hex :: "nat \<Rightarrow> char" where
  "upper_hex d = (if d < 10 then digit d else char_of (55 + d))"

definition escape :: "string \<Rightarrow> encoding \<Rightarrow> string" where
  "escape s mode = concat (map (\<lambda>c.
     if shouldEscape c mode
     then [CHR ''%'', upper_hex (of_char c div 16), upper_hex (of_char c mod 16)]
     else [c]) s)"

definition ishex :: "char \<Rightarrow> bool" where
  "ishex c \<longleftrightarrow> is_dec c \<or> between CHR ''a'' CHR ''f'' c \<or> between CHR ''A'' CHR ''F'' c"

definition unhex :: "char \<Rightarrow> nat" where
  "unhex c =
     (if is_dec c then of_char c - 48
      else if between CHR ''a'' CHR ''f'' c then of_char c - 87
      else if between CHR ''A'' CHR ''F'' c then of_char c - 55 else 0)"

fun unescape :: "encoding \<Rightarrow> string \<Rightarrow> string + string" where
  "unescape mode [] = Inr []"
| "unescape mode (c # cs) =
     (if c = CHR ''%'' then
        (case cs of
           h # l # rest \<Rightarrow>
             if \<not> ishex h \<or> \<not> ishex l then Inl (''invalid URL escape '' @ quoted [c, h, l])
             else if mode = encodeHost \<and> unhex h < 8 \<and> [h, l] \<noteq> ''25''
               then Inl (''invalid URL escape '' @ quoted [c, h, l])
             else if mode = encodeZone \<and> [h, l] \<noteq> ''25'' \<and> unhex h * 16 + unhex l \<noteq> 32 \<and>
                 shouldEscape (char_of (unhex h * 16 + unhex l)) encodeHost
               then Inl (''invalid URL escape '' @ quoted [c, h, l])
             else map_sum id (\<lambda>s. char_of (unhex h * 16 + unhex l) # s) (unescape mode rest)
         | _ \<Rightarrow> Inl (''invalid URL escape '' @ quoted (c # cs)))
      else if (mode = encodeHost \<or> mode = encodeZone) \<and> of_char c < (128 :: nat) \<and> shouldEscape c mode
        then Inl (''invalid character '' @ quoted [c] @ '' in host name'')
      else map_sum id (\<lambda>s. c # s) (unescape mode cs))"

section \<open>Parsing\<close>

text \<open>\<open>split(s, c, cutc)\<close>: at the first \<open>c\<close>, which stays with the second part unless cut.\<close>

definition cut :: "string \<Rightarrow> char \<Rightarrow> bool \<Rightarrow> string \<times> string" where
  "cut s c cutc =
     (let a = takeWhile (\<lambda>x. x \<noteq> c) s; b = dropWhile (\<lambda>x. x \<noteq> c) s
      in (a, if cutc then drop 1 b else b))"

text \<open>\<open>getscheme\<close>: the scheme and the rest.\<close>

fun getscheme_from :: "nat \<Rightarrow> string \<Rightarrow> string \<Rightarrow> string \<Rightarrow> string + (string \<times> string)" where
  "getscheme_from i acc [] raw = Inr ([], raw)"
| "getscheme_from i acc (c # cs) raw =
     (if is_lower c \<or> is_upper c then getscheme_from (Suc i) (acc @ [c]) cs raw
      else if is_dec c \<or> c \<in> set ''+-.'' then
        (if i = 0 then Inr ([], raw) else getscheme_from (Suc i) (acc @ [c]) cs raw)
      else if c = CHR '':'' then
        (if i = 0 then Inl ''missing protocol scheme'' else Inr (acc, cs))
      else Inr ([], raw))"

definition getscheme :: "string \<Rightarrow> string + (string \<times> string)" where
  "getscheme raw = getscheme_from 0 [] raw raw"

definition to_lower :: "char \<Rightarrow> char" where
  "to_lower c = (if is_upper c then char_of (of_char c + 32 :: nat) else c)"

text \<open>\<open>validOptionalPort\<close>: empty, or a colon and digits.\<close>

definition validOptionalPort :: "string \<Rightarrow> bool" where
  "validOptionalPort p = (case p of [] \<Rightarrow> True | c # cs \<Rightarrow> c = CHR '':'' \<and> list_all is_dec cs)"

text \<open>The text from the last \<open>c\<close> on, or nothing.\<close>

definition from_last :: "char \<Rightarrow> string \<Rightarrow> string option" where
  "from_last c s =
     (if c \<in> set s then Some (c # rev (takeWhile (\<lambda>x. x \<noteq> c) (rev s))) else None)"

definition upto_last :: "char \<Rightarrow> string \<Rightarrow> string" where
  "upto_last c s = rev (drop 1 (dropWhile (\<lambda>x. x \<noteq> c) (rev s)))"

fun cut_at :: "string \<Rightarrow> string \<Rightarrow> (string \<times> string) option" where
  "cut_at sub [] = (if sub = [] then Some ([], []) else None)"
| "cut_at sub (c # cs) =
     (if HasPrefix (c # cs) sub then Some ([], c # cs)
      else (case cut_at sub cs of None \<Rightarrow> None | Some (a, b) \<Rightarrow> Some (c # a, b)))"

definition parseHost :: "string \<Rightarrow> string + string" where
  "parseHost host =
     (if HasPrefix host ''['' then
        (case from_last (CHR '']'') host of
           None \<Rightarrow> Inl ''missing ']' in host''
         | Some tl' \<Rightarrow>
             let colonPort = drop 1 tl' in
             if \<not> validOptionalPort colonPort
             then Inl (''invalid port '' @ quoted colonPort @ '' after host'')
             else
               (case cut_at ''%25'' (upto_last (CHR '']'') host) of
                  Some (pre, zone) \<Rightarrow>
                    (case unescape encodeHost pre of Inl e \<Rightarrow> Inl e
                     | Inr host1 \<Rightarrow>
                         (case unescape encodeZone zone of Inl e \<Rightarrow> Inl e
                          | Inr host2 \<Rightarrow>
                              (case unescape encodeHost tl' of Inl e \<Rightarrow> Inl e
                               | Inr host3 \<Rightarrow> Inr (host1 @ host2 @ host3))))
                | None \<Rightarrow> unescape encodeHost host))
      else
        (case from_last (CHR '':'') host of
           Some colonPort \<Rightarrow>
             if \<not> validOptionalPort colonPort
             then Inl (''invalid port '' @ quoted colonPort @ '' after host'')
             else unescape encodeHost host
         | None \<Rightarrow> unescape encodeHost host))"

definition validUserinfo :: "string \<Rightarrow> bool" where
  "validUserinfo s = list_all (\<lambda>c. is_alnum c \<or> c \<in> set (''-._:~!$&'' @ [CHR 39] @ ''()*+,;=%@'')) s"

definition parseAuthority :: "string \<Rightarrow> string + (Userinfo option \<times> string)" where
  "parseAuthority authority =
     (case from_last (CHR ''@'') authority of
        None \<Rightarrow> (case parseHost authority of Inl e \<Rightarrow> Inl e | Inr h \<Rightarrow> Inr (None, h))
      | Some at \<Rightarrow>
          (case parseHost (drop 1 at) of
             Inl e \<Rightarrow> Inl e
           | Inr h \<Rightarrow>
               let userinfo = upto_last (CHR ''@'') authority in
               if \<not> validUserinfo userinfo then Inl ''net/url: invalid userinfo''
               else if CHR '':'' \<notin> set userinfo then
                 (case unescape encodeUserPassword userinfo of Inl e \<Rightarrow> Inl e
                  | Inr u \<Rightarrow> Inr (Some \<lparr>ui_Username = u, ui_Password = None\<rparr>, h))
               else
                 (let (n, p) = cut userinfo (CHR '':'') True in
                  (case unescape encodeUserPassword n of Inl e \<Rightarrow> Inl e
                   | Inr u \<Rightarrow>
                       (case unescape encodeUserPassword p of Inl e \<Rightarrow> Inl e
                        | Inr pw \<Rightarrow> Inr (Some \<lparr>ui_Username = u, ui_Password = Some pw\<rparr>, h))))))"

definition setPath :: "URL \<Rightarrow> string \<Rightarrow> string + URL" where
  "setPath u p =
     (case unescape encodePath p of
        Inl e \<Rightarrow> Inl e
      | Inr path \<Rightarrow>
          Inr (u\<lparr>Path := path, RawPath := (if p = escape path encodePath then [] else p)\<rparr>))"

definition parse_rest :: "URL \<Rightarrow> string \<Rightarrow> string + URL" where
  "parse_rest u rest =
     (if \<not> HasPrefix rest ''/'' \<and> Scheme u \<noteq> [] then Inr (u\<lparr>Opaque := rest\<rparr>)
      else if \<not> HasPrefix rest ''/'' \<and> CHR '':'' \<in> set (fst (cut rest (CHR ''/'') False))
        then Inl ''first path segment in URL cannot contain colon''
      else if (Scheme u \<noteq> [] \<or> \<not> HasPrefix rest ''///'') \<and> HasPrefix rest ''//'' then
        (let (authority, rest') = cut (drop 2 rest) (CHR ''/'') False in
         (case parseAuthority authority of
            Inl e \<Rightarrow> Inl e
          | Inr (user, host) \<Rightarrow> setPath (u\<lparr>User := user, Host := host\<rparr>) rest'))
      else setPath u rest)"

definition parse :: "string \<Rightarrow> string + URL" where
  "parse rawurl =
     (if list_ex (\<lambda>c. of_char c < (32 :: nat) \<or> of_char c = (127 :: nat)) rawurl
      then Inl ''net/url: invalid control character in URL''
      else if rawurl = ''*'' then Inr (emptyURL\<lparr>Path := ''*''\<rparr>)
      else
        (case getscheme rawurl of
           Inl e \<Rightarrow> Inl e
         | Inr (scheme, rest) \<Rightarrow>
             let u = emptyURL\<lparr>Scheme := map to_lower scheme\<rparr> in
             if rest \<noteq> [] \<and> last rest = CHR ''?'' \<and> CHR ''?'' \<notin> set (butlast rest)
             then parse_rest (u\<lparr>ForceQuery := True\<rparr>) (butlast rest)
             else (let (rest', query) = cut rest (CHR ''?'') True
                   in parse_rest (u\<lparr>RawQuery := query\<rparr>) rest')))"

definition Parse :: "string \<Rightarrow> string + URL" where
  "Parse rawurl =
     (let (u, frag) = cut rawurl (CHR ''#'') True in
      (case parse u of
         Inl e \<Rightarrow> Inl e
       | Inr url \<Rightarrow>
           if frag = [] then Inr url
           else (case unescape encodeFragment frag of
                   Inl e \<Rightarrow> Inl e
                 | Inr f \<Rightarrow> Inr (url\<lparr>Fragment := f\<rparr>))))"

section \<open>Printing\<close>

definition validEncodedPath :: "string \<Rightarrow> bool" where
  "validEncodedPath s =
     list_all (\<lambda>c. c \<in> set (''!$&'' @ [CHR 39] @ ''()*+,;=:@[]%'') \<or> \<not> shouldEscape c encodePath) s"

definition EscapedPath :: "URL \<Rightarrow> string" where
  "EscapedPath u =
     (if RawPath u \<noteq> [] \<and> validEncodedPath (RawPath u) \<and> unescape encodePath (RawPath u) = Inr (Path u)
      then RawPath u
      else if Path u = ''*'' then ''*''
      else escape (Path u) encodePath)"

definition Userinfo_String :: "Userinfo \<Rightarrow> string" where
  "Userinfo_String ui =
     escape (ui_Username ui) encodeUserPassword @
     (case ui_Password ui of None \<Rightarrow> [] | Some p \<Rightarrow> '':'' @ escape p encodeUserPassword)"

definition String :: "URL \<Rightarrow> string" where
  "String u =
     (let scheme = (if Scheme u \<noteq> [] then Scheme u @ '':'' else []);
          authority =
            (if Scheme u \<noteq> [] \<or> Host u \<noteq> [] \<or> User u \<noteq> None
             then (if Host u \<noteq> [] \<or> Path u \<noteq> [] \<or> User u \<noteq> None then ''//'' else []) @
                  (case User u of None \<Rightarrow> [] | Some ui \<Rightarrow> Userinfo_String ui @ ''@'') @
                  (if Host u \<noteq> [] then escape (Host u) encodeHost else [])
             else []);
          path = EscapedPath u;
          slash = (if path \<noteq> [] \<and> hd path \<noteq> CHR ''/'' \<and> Host u \<noteq> [] then ''/'' else []);
          dot = (if scheme @ authority @ slash = [] \<and> CHR '':'' \<in> set (fst (cut path (CHR ''/'') False))
                 then ''./'' else []);
          hier = (if Opaque u \<noteq> [] then Opaque u else authority @ slash @ dot @ path);
          query = (if ForceQuery u \<or> RawQuery u \<noteq> [] then ''?'' @ RawQuery u else []);
          fragment = (if Fragment u \<noteq> [] then ''#'' @ escape (Fragment u) encodeFragment else [])
      in scheme @ hier @ query @ fragment)"

section \<open>URLs of hosts\<close>

text \<open>
  The characters of DNS names and of host-and-port texts: none is escaped, none ends the
  authority.
\<close>

definition host_char :: "char \<Rightarrow> bool" where
  "host_char c \<longleftrightarrow> is_alnum c \<or> c \<in> set ''-.''"

lemma special_not_alnum: "list_all (\<lambda>c. \<not> is_alnum c) (''-._~!$&()*+,/:;=?@[]<>#% '' @ [CHR 34, CHR 39])"
  by code_simp

lemma is_alnum_special:
  "is_alnum c \<Longrightarrow> c \<notin> set (''-._~!$&()*+,/:;=?@[]<>#% '' @ [CHR 34, CHR 39])"
  using special_not_alnum unfolding list_all_iff by blast

lemma is_alnum_print: "is_alnum c \<Longrightarrow> \<not> of_char c < (32 :: nat) \<and> of_char c \<noteq> (127 :: nat)"
  by (auto simp: is_alnum_def is_lower_def is_upper_def is_dec_def between_def)

lemma host_char_special:
  "host_char c \<Longrightarrow> c \<notin> set ''/?#@:[%''"
  using is_alnum_special [of c] unfolding host_char_def by fastforce

lemma host_char_print: "host_char c \<Longrightarrow> \<not> of_char c < (32 :: nat) \<and> of_char c \<noteq> (127 :: nat)"
  using is_alnum_print [of c] by (auto simp: host_char_def)

lemma shouldEscape_host: "host_char c \<Longrightarrow> \<not> shouldEscape c encodeHost"
  by (auto simp: host_char_def shouldEscape_def)

lemma shouldEscape_colon: "\<not> shouldEscape (CHR '':'') encodeHost"
  by (simp add: shouldEscape_def)

lemma is_digit_is_dec: "is_digit c \<Longrightarrow> is_dec c"
proof -
  assume "is_digit c"
  then obtain d where "d < 10" "c = digit d" by (auto simp: is_digit_def)
  then show ?thesis by (simp add: digit_def is_dec_def between_def)
qed

lemma decimal_is_dec: "c \<in> set (decimal n) \<Longrightarrow> is_dec c"
  by (simp add: decimal_digits is_digit_is_dec)

lemma is_dec_host_char: "is_dec c \<Longrightarrow> host_char c"
  by (simp add: host_char_def is_alnum_def)

lemma escape_id: "(\<And>c. c \<in> set s \<Longrightarrow> \<not> shouldEscape c mode) \<Longrightarrow> escape s mode = s"
  by (induction s) (auto simp: escape_def)

lemma unescape_host_id:
  "(\<And>c. c \<in> set s \<Longrightarrow> c \<noteq> CHR ''%'' \<and> \<not> shouldEscape c encodeHost) \<Longrightarrow> unescape encodeHost s = Inr s"
  by (induction s) auto

definition host_port :: "string \<Rightarrow> nat \<Rightarrow> string" where
  "host_port h p = h @ '':'' @ decimal p"

lemma host_port_chars:
  "list_all host_char h \<Longrightarrow> c \<in> set (host_port h p) \<Longrightarrow> host_char c \<or> c = CHR '':''"
  by (auto simp: host_port_def list_all_iff dest: decimal_is_dec is_dec_host_char)

text \<open>The URL of a host and a port prints as scheme, host and port.\<close>

lemma String_host_port:
  assumes h: "list_all host_char h"
  shows "String (emptyURL\<lparr>Scheme := ''http'', Host := host_port h p\<rparr>) = ''http://'' @ host_port h p"
proof -
  have "\<not> shouldEscape c encodeHost" if "c \<in> set (host_port h p)" for c
    using host_port_chars [OF h that] shouldEscape_host shouldEscape_colon by blast
  then have "escape (host_port h p) encodeHost = host_port h p" by (rule escape_id)
  moreover have "host_port h p \<noteq> []" by (simp add: host_port_def)
  ultimately show ?thesis by (simp add: String_def emptyURL_def EscapedPath_def escape_def cut_def)
qed

lemma cut_absent: "c \<notin> set s \<Longrightarrow> cut s c b = (s, [])"
proof -
  assume "c \<notin> set s"
  then have "takeWhile (\<lambda>x. x \<noteq> c) s = s" "dropWhile (\<lambda>x. x \<noteq> c) s = []"
    by (auto simp: takeWhile_eq_all_conv dropWhile_eq_Nil_conv)
  then show ?thesis unfolding cut_def Let_def by (simp only: drop_Nil if_cancel)
qed

lemma from_last_append: "c \<notin> set t \<Longrightarrow> from_last c (s @ c # t) = Some (c # t)"
proof -
  assume "c \<notin> set t"
  then have "takeWhile (\<lambda>x. x \<noteq> c) (rev t @ c # rev s) = rev t"
    by (metis (mono_tags, lifting) append_Nil2 set_rev takeWhile.simps(2) takeWhile_append2)
  then show ?thesis by (simp add: from_last_def)
qed

lemma parseHost_host_port:
  assumes h: "list_all host_char h"
  shows "parseHost (host_port h p) = Inr (host_port h p)"
proof -
  have chars: "c \<noteq> CHR ''%'' \<and> \<not> shouldEscape c encodeHost \<and> c \<noteq> CHR ''[''"
    if "c \<in> set (host_port h p)" for c
    using host_port_chars [OF h that] shouldEscape_host [of c] shouldEscape_colon
      host_char_special [of c] by auto
  have "\<not> HasPrefix (host_port h p) ''[''"
    using chars by (cases "host_port h p") (auto simp: HasPrefix_def)
  moreover have "CHR '':'' \<notin> set (decimal p)"
    using decimal_is_dec host_char_special is_dec_host_char by fastforce
  then have "from_last (CHR '':'') (host_port h p) = Some ('':'' @ decimal p)"
    by (simp add: host_port_def from_last_append)
  moreover have "validOptionalPort ('':'' @ decimal p)"
    by (auto simp: validOptionalPort_def list_all_iff decimal_is_dec)
  moreover have "unescape encodeHost (host_port h p) = Inr (host_port h p)"
    using chars by (intro unescape_host_id) blast
  ultimately show ?thesis by (simp add: parseHost_def)
qed

text \<open>Parsing such a URL gives the host and the port back.\<close>

lemma Parse_host_port:
  assumes h: "list_all host_char h"
  shows "Parse (''http://'' @ host_port h p) =
           Inr (emptyURL\<lparr>Scheme := ''http'', Host := host_port h p\<rparr>)"
proof -
  let ?hp = "host_port h p"
  have sp: "c \<notin> set ''/?#@'' \<and> \<not> of_char c < (32 :: nat) \<and> of_char c \<noteq> (127 :: nat)"
    if "c \<in> set ?hp" for c
    using host_port_chars [OF h that] host_char_special [of c] host_char_print [of c] by auto
  have frag: "cut (''http://'' @ ?hp) (CHR ''#'') True = (''http://'' @ ?hp, [])"
    by (rule cut_absent) (use sp in auto)
  have ctl: "\<not> list_ex (\<lambda>c. of_char c < (32 :: nat) \<or> of_char c = (127 :: nat)) (''http://'' @ ?hp)"
    using sp by (auto simp: list_ex_iff)
  have scheme: "getscheme (''http://'' @ ?hp) = Inr (''http'', ''//'' @ ?hp)"
    by (simp add: getscheme_def is_lower_def is_upper_def is_dec_def between_def)
  have noq: "CHR ''?'' \<notin> set (''//'' @ ?hp)" using sp by auto
  have query: "cut (''//'' @ ?hp) (CHR ''?'') True = (''//'' @ ?hp, [])"
    by (rule cut_absent [OF noq])
  have last: "\<not> (last (''//'' @ ?hp) = CHR ''?'')"
    using noq last_in_set by (metis append_is_Nil_conv list.distinct(1))
  have auth: "cut ?hp (CHR ''/'') False = (?hp, [])" by (rule cut_absent) (use sp in auto)
  have noat: "from_last (CHR ''@'') ?hp = None" using sp by (auto simp: from_last_def)
  show ?thesis
    using frag ctl scheme query last auth noat parseHost_host_port [OF h, of p]
    by (simp add: Parse_def parse_def parse_rest_def parseAuthority_def setPath_def HasPrefix_def
        to_lower_def is_upper_def between_def emptyURL_def escape_def)
qed

end
