(* ===== verification/PeerController.thy ===== *)
theory PeerController
  imports Events GoUrl
begin

text \<open>
  The EtcdPeer controller (\<open>controllers/etcdpeer_controller.go\<close>): the environment and ReplicaSet of
  an etcd process, the claim for its data, the clean-up of that claim when the peer is deleted, and
  the handler.
\<close>

section \<open>URLs and environment\<close>

abbreviation peer_Name :: "EtcdPeer \<Rightarrow> string" where
  "peer_Name p \<equiv> Name (peer_meta p)"

abbreviation peer_Namespace :: "EtcdPeer \<Rightarrow> string" where
  "peer_Namespace p \<equiv> Namespace (peer_meta p)"

abbreviation peer_Cluster :: "EtcdPeer \<Rightarrow> string" where
  "peer_Cluster p \<equiv> ps_ClusterName (peer_spec p)"

definition initialMemberURL :: "InitialClusterMember \<Rightarrow> URL" where
  "initialMemberURL member =
     emptyURL\<lparr>Scheme := etcdScheme, Host := icm_Host member @ '':'' @ decimal etcdPeerPort\<rparr>"

definition staticBootstrapInitialCluster :: "StaticBootstrap \<Rightarrow> string" where
  "staticBootstrapInitialCluster static =
     Join (map (\<lambda>member. icm_Name member @ ''='' @ String (initialMemberURL member))
       (InitialCluster static)) '',''"

definition advertiseURL :: "EtcdPeer \<Rightarrow> nat \<Rightarrow> URL" where
  "advertiseURL etcdPeer port =
     emptyURL
       \<lparr>Scheme := etcdScheme,
        Host := peer_Name etcdPeer @ ''.'' @ peer_Cluster etcdPeer @ '':'' @ decimal port\<rparr>"

definition bindAllAddress :: "nat \<Rightarrow> URL" where
  "bindAllAddress port = emptyURL\<lparr>Scheme := etcdScheme, Host := ''0.0.0.0:'' @ decimal port\<rparr>"

definition clusterStateValue :: "InitialClusterState \<Rightarrow> string" where
  "clusterStateValue cs =
     (if cs = InitialClusterStateNew then ''new''
      else if cs = InitialClusterStateExisting then ''existing''
      else [])"

text \<open>Go's division of integers truncates towards zero.\<close>

definition quot :: "int \<Rightarrow> int \<Rightarrow> int" where
  "quot a b = sgn a * sgn b * (\<bar>a\<bar> div \<bar>b\<bar>)"

definition goMaxProcs :: "Quantity \<Rightarrow> int option" where
  "goMaxProcs cpuLimit =
     (if Sign cpuLimit = -1 \<or> Sign cpuLimit = 0 then None
      else
        let n = quot (MilliValue cpuLimit) 1000
        in Some (if n < 1 then 1 else n))"

section \<open>ReplicaSet and claim\<close>

definition peerLabels :: "EtcdPeer \<Rightarrow> smap" where
  "peerLabels peer =
     [(appLabel, appName), (clusterLabel, peer_Cluster peer), (peerLabel, peer_Name peer)]"

definition env :: "string \<Rightarrow> string \<Rightarrow> EnvVar" where
  "env n v = \<lparr>env_Name = n, env_Value = v\<rparr>"

definition etcdContainer :: "EtcdPeer \<Rightarrow> string \<Rightarrow> StaticBootstrap \<Rightarrow> InitialClusterState \<Rightarrow> Container" where
  "etcdContainer peer etcdRepository static initialState =
     (let base =
        \<lparr>c_Name = appName,
         c_Image = etcdRepository @ '':v'' @ ps_Version (peer_spec peer),
         c_Args = [],
         c_Env =
           [env EnvInitialCluster (staticBootstrapInitialCluster static),
            env EnvName (peer_Name peer),
            env EnvInitialClusterToken (peer_Cluster peer),
            env EnvInitialAdvertisePeerURLs (String (advertiseURL peer etcdPeerPort)),
            env EnvAdvertiseClientURLs (String (advertiseURL peer etcdClientPort)),
            env EnvListenPeerURLs (String (bindAllAddress etcdPeerPort)),
            env EnvListenClientURLs (String (bindAllAddress etcdClientPort)),
            env EnvInitialClusterState (clusterStateValue initialState),
            env EnvDataDir etcdDataMountPath],
         c_Ports =
           [\<lparr>cp_Name = ''etcd-client'', cp_ContainerPort = int etcdClientPort\<rparr>,
            \<lparr>cp_Name = ''etcd-peer'', cp_ContainerPort = int etcdPeerPort\<rparr>],
         c_Resources = noResources,
         c_VolumeMounts =
           [\<lparr>vm_Name = ''etcd-data'', vm_ReadOnly = False, vm_MountPath = etcdDataMountPath\<rparr>]\<rparr>
      in (case ps_PodTemplate (peer_spec peer) of
            None \<Rightarrow> base
          | Some template \<Rightarrow>
              (case pts_Resources template of
                 None \<Rightarrow> base
               | Some resources \<Rightarrow>
                   (case goMaxProcs (Cpu (Limits resources)) of
                      None \<Rightarrow> base\<lparr>c_Resources := resources\<rparr>
                    | Some value \<Rightarrow>
                        base\<lparr>c_Resources := resources,
                             c_Env := c_Env base @ [env ''GOMAXPROCS'' (decimal_int value)]\<rparr>))))"

text \<open>
  Stamping the user's annotations: reserved names are skipped, and a name already present keeps
  its value.
\<close>

definition stampAnnotations :: "smap \<Rightarrow> smap \<Rightarrow> smap" where
  "stampAnnotations user start =
     foldl (\<lambda>m (name, value).
        if \<not> IsInvalidUserProvidedAnnotationName name then
          (if map_of m name = None then AList.update name value m else m)
        else m) start user"

text \<open>\<open>*peer.Spec.Bootstrap.Static\<close> panics when either pointer is nil.\<close>

definition defineReplicaSet :: "lib \<Rightarrow> EtcdPeer \<Rightarrow> string \<Rightarrow> ReplicaSet outcome" where
  "defineReplicaSet l peer etcdRepository =
     (case ps_Bootstrap (peer_spec peer) of
        None \<Rightarrow> Panic
      | Some bootstrap \<Rightarrow>
          (case Static bootstrap of
             None \<Rightarrow> Panic
           | Some static \<Rightarrow>
               (let labels = peerLabels peer;
                    container = etcdContainer peer etcdRepository static (bs_InitialClusterState bootstrap);
                    annotations =
                      (case ps_PodTemplate (peer_spec peer) of
                         None \<Rightarrow> []
                       | Some template \<Rightarrow>
                           (case pts_Metadata template of
                              None \<Rightarrow> []
                            | Some md \<Rightarrow> stampAnnotations (ptm_Annotations md) []));
                    affinity =
                      (case ps_PodTemplate (peer_spec peer) of
                         None \<Rightarrow> None
                       | Some template \<Rightarrow> pts_Affinity template)
                in Return
                  \<lparr>rs_meta = emptyMeta
                     \<lparr>Labels := labels,
                      Name := peer_Name peer,
                      Namespace := peer_Namespace peer,
                      OwnerReferences := [NewControllerRef l (peer_meta peer) ''EtcdPeer'']\<rparr>,
                   rs_Replicas = Some 1,
                   rs_Selector = labels,
                   rs_Template =
                     \<lparr>pt_meta = emptyMeta
                        \<lparr>Labels := labels,
                         Annotations := annotations,
                         Name := peer_Name peer,
                         Namespace := peer_Namespace peer\<rparr>,
                      pt_spec =
                        \<lparr>ps_Hostname = peer_Name peer,
                         ps_Subdomain = peer_Cluster peer,
                         ps_HostAliases =
                           [\<lparr>ha_IP = ''127.0.0.1'',
                             ha_Hostnames = [peer_Name peer @ ''.'' @ peer_Cluster peer]\<rparr>],
                         ps_Containers = [container],
                         ps_Volumes =
                           [\<lparr>vol_Name = ''etcd-data'',
                             vol_Source = PersistentVolumeClaimSource (peer_Name peer)\<rparr>],
                         ps_Affinity = affinity,
                         ps_ServiceAccountName = [],
                         ps_RestartPolicy = []\<rparr>\<rparr>\<rparr>)))"

text \<open>\<open>*peer.Spec.Storage.VolumeClaimTemplate.DeepCopy()\<close> panics when either pointer is nil.\<close>

definition pvcForPeer :: "EtcdPeer \<Rightarrow> PersistentVolumeClaim outcome" where
  "pvcForPeer peer =
     (case ps_Storage (peer_spec peer) of
        None \<Rightarrow> Panic
      | Some storage \<Rightarrow>
          (case VolumeClaimTemplate storage of
             None \<Rightarrow> Panic
           | Some template \<Rightarrow>
               Return
                 \<lparr>pvc_meta = emptyMeta
                    \<lparr>Name := peer_Name peer,
                     Namespace := peer_Namespace peer,
                     Labels := peerLabels peer\<rparr>,
                  pvc_spec = template\<rparr>))"

definition hasPvcDeletionFinalizer :: "EtcdPeer \<Rightarrow> bool" where
  "hasPvcDeletionFinalizer peer = List.member (Finalizers (peer_meta peer)) pvcCleanupFinalizer"

section \<open>Steps of the handler\<close>

definition maybeCreatePvc :: "'w client \<Rightarrow> EtcdPeer \<Rightarrow> ('w, (bool \<times> go_error option) outcome) io" where
  "maybeCreatePvc cl peer = do {
     r \<leftarrow> get_PVC cl (key_of (peer_meta peer));
     case r of
       Inr _ \<Rightarrow> ret (Return (False, None))
     | Inl err \<Rightarrow>
         if \<not> IsNotFound (Some err) then ret (Return (False, Some (ApiError err)))
         else
           (case pvcForPeer peer of
              Panic \<Rightarrow> ret Panic
            | Return pvc \<Rightarrow> do {
                err' \<leftarrow> create cl (OPVC pvc);
                ret (Return
                  (if IsAlreadyExists err' then
                     (False, Some (Wrap ''stale cache error: object was not found in cache but creation failed with AlreadyExists error: ''
                                     (ApiError AlreadyExists)))
                   else (case err' of
                           Some e \<Rightarrow> (False, Some (ApiError e))
                         | None \<Rightarrow> (True, None))))
              })
   }"

definition removeCleanup :: "lib \<Rightarrow> EtcdPeer \<Rightarrow> EtcdPeer" where
  "removeCleanup l peer =
     peer\<lparr>peer_meta := (peer_meta peer)
       \<lparr>Finalizers := RemoveFinalizer l (Finalizers (peer_meta peer)) pvcCleanupFinalizer\<rparr>\<rparr>"

definition PeerPVCDeleter_Execute :: "lib \<Rightarrow> 'w client \<Rightarrow> EtcdPeer \<Rightarrow> ('w, go_error option outcome) io" where
  "PeerPVCDeleter_Execute l cl peer =
     (case pvcForPeer peer of
        Panic \<Rightarrow> ret Panic
      | Return expectedPvc \<Rightarrow> do {
          r \<leftarrow> get_PVC cl (key_of (pvc_meta expectedPvc));
          case r of
            Inr actualPvc \<Rightarrow>
              if DeletionTimestamp (pvc_meta actualPvc) = None then do {
                err \<leftarrow> delete cl (OPVC expectedPvc);
                ret (Return (case err of
                               None \<Rightarrow> None
                             | Some e \<Rightarrow> Some (Wrap ''failed to delete PVC for peer: '' (ApiError e))))
              } else do {
                err \<leftarrow> patch cl (OPeer (removeCleanup l peer)) (OPeer peer);
                ret (Return (map_option (\<lambda>e. Wrap ''failed to remove PVC cleanup finalizer: '' (ApiError e)) err))
              }
          | Inl err \<Rightarrow>
              if IsNotFound (Some err) then do {
                err' \<leftarrow> patch cl (OPeer (removeCleanup l peer)) (OPeer peer);
                ret (Return (map_option (\<lambda>e. Wrap ''failed to remove PVC cleanup finalizer: '' (ApiError e)) err'))
              } else ret (Return (Some (Wrap ''failed to get PVC for deleted peer: '' (ApiError err))))
        })"

definition Peer_updateStatus :: "EtcdPeer \<Rightarrow> string \<Rightarrow> EtcdPeer" where
  "Peer_updateStatus peer serverVersion =
     peer\<lparr>peer_status := (peer_status peer)\<lparr>ServerVersion := serverVersion\<rparr>\<rparr>"

definition peerEtcdConfig :: "EtcdPeer \<Rightarrow> EtcdConfig" where
  "peerEtcdConfig peer =
     \<lparr>Endpoints =
        [etcdScheme @ ''://'' @ peer_Name peer @ ''.'' @ peer_Cluster peer @ ''.'' @
         peer_Namespace peer @ '':'' @ decimal etcdClientPort],
      HeaderTimeoutPerRequest = 1\<rparr>"

definition dialPeer :: "'w etcd_api \<Rightarrow> EtcdPeer \<Rightarrow> ('w, string) io" where
  "dialPeer e peer = do {
     err \<leftarrow> etcd_New e (peerEtcdConfig peer);
     case err of
       Some _ \<Rightarrow> ret []
     | None \<Rightarrow> do {
         v \<leftarrow> etcd_GetVersion e (peerEtcdConfig peer);
         ret (case v of Inl _ \<Rightarrow> [] | Inr vs \<Rightarrow> ver_Server vs)
       }
   }"

definition patchPeerStatus :: "'w client \<Rightarrow> EtcdPeer \<Rightarrow> EtcdPeer \<Rightarrow> reconciled \<Rightarrow> ('w, reconciled) io" where
  "patchPeerStatus cl original peer out =
     (if peer_status original = peer_status peer then ret out
      else do {
        err \<leftarrow> status_patch cl (OPeer peer) (OPeer original);
        ret (case err of
               None \<Rightarrow> out
             | Some e \<Rightarrow>
                 (case out of
                    Panic \<Rightarrow> Panic
                  | Return (result, reterr) \<Rightarrow>
                      Return (result, NewAggregate
                        [reterr, Some (Text ''error while patching EtcdPeer.Status: '' (ApiError e))])))
      })"

text \<open>The handler from the deletion check on: what is done for a peer whose status is up to date.\<close>

definition reconcilePeer :: "lib \<Rightarrow> 'w client \<Rightarrow> string \<Rightarrow> EtcdPeer \<Rightarrow> ('w, reconciled) io" where
  "reconcilePeer l cl etcdRepository peer =
     (if DeletionTimestamp (peer_meta peer) \<noteq> None then
        (if hasPvcDeletionFinalizer peer then do {
           r \<leftarrow> PeerPVCDeleter_Execute l cl peer;
           ret (case r of Panic \<Rightarrow> Panic | Return err \<Rightarrow> Return (requeueTenSeconds, err))
         } else ret (Return (requeueTenSeconds, None)))
      else do {
        c \<leftarrow> maybeCreatePvc cl peer;
        case c of
          Panic \<Rightarrow> ret Panic
        | Return (created, err) \<Rightarrow>
            if err \<noteq> None \<or> created then ret (Return (requeueTenSeconds, err))
            else do {
              r \<leftarrow> get_ReplicaSet cl (key_of (peer_meta peer));
              case r of
                Inl e \<Rightarrow>
                  if IsNotFound (Some e) then
                    (case defineReplicaSet l peer etcdRepository of
                       Panic \<Rightarrow> ret Panic
                     | Return replicaSet \<Rightarrow> do {
                         err' \<leftarrow> create cl (OReplicaSet replicaSet);
                         ret (Return (requeueTenSeconds, map_option ApiError err'))
                       })
                  else ret (Return (requeueTenSeconds, Some (ApiError e)))
              | Inr _ \<Rightarrow> ret (Return (requeueTenSeconds, None))
            }
      })"

definition Peer_Reconcile ::
    "lib \<Rightarrow> semver \<Rightarrow> 'w client \<Rightarrow> 'w etcd_api \<Rightarrow> string \<Rightarrow> NamespacedName \<Rightarrow> ('w, reconciled) io" where
  "Peer_Reconcile l sv cl e etcdRepository req = do {
     r \<leftarrow> get_Peer cl req;
     case r of
       Inl err \<Rightarrow> ret (Return (emptyResult, map_option ApiError (IgnoreNotFound (Some err))))
     | Inr fetched \<Rightarrow>
         (let original = EtcdPeer_Default fetched in
          (case EtcdPeer_ValidateCreate sv original of
             Some err \<Rightarrow> ret (Return (emptyResult, None))
           | None \<Rightarrow> do {
               serverVersion \<leftarrow> dialPeer e original;
               let peer = Peer_updateStatus original serverVersion;
               out \<leftarrow> reconcilePeer l cl etcdRepository peer;
               patchPeerStatus cl original peer out
             }))
   }"

section \<open>Waking the handler\<close>

text \<open>\<open>pvcMapper.Map\<close>: a claim wakes the peer its label names, in the claim's namespace.\<close>

definition pvcMapper_Map :: "ObjectMeta \<Rightarrow> NamespacedName list" where
  "pvcMapper_Map m =
     (case map_of (Labels m) peerLabel of
        Some peerName \<Rightarrow> [\<lparr>nn_Namespace = Namespace m, nn_Name = peerName\<rparr>]
      | None \<Rightarrow> [])"

end
