(* ===== verification/ClusterController.thy ===== *)
theory ClusterController
  imports PeerController
begin

text \<open>
  The EtcdCluster controller (\<open>controllers/etcdcluster_controller.go\<close>): the names and objects it
  derives from a cluster, its decisions over peers and etcd members, the single action of one
  reconciliation (\<open>reconcile\<close>) and the handler around it (\<open>Reconcile\<close>).
\<close>

section \<open>Names\<close>

abbreviation cluster_Name :: "EtcdCluster \<Rightarrow> string" where
  "cluster_Name c \<equiv> Name (cluster_meta c)"

abbreviation cluster_Namespace :: "EtcdCluster \<Rightarrow> string" where
  "cluster_Namespace c \<equiv> Namespace (cluster_meta c)"

definition serviceName :: "EtcdCluster \<Rightarrow> NamespacedName" where
  "serviceName cluster =
     \<lparr>nn_Namespace = cluster_Namespace cluster, nn_Name = cluster_Name cluster\<rparr>"

definition nthPeerName :: "EtcdCluster \<Rightarrow> nat \<Rightarrow> string" where
  "nthPeerName cluster i = cluster_Name cluster @ ''-'' @ decimal i"

definition expectedURLForPeer :: "EtcdCluster \<Rightarrow> string \<Rightarrow> string" where
  "expectedURLForPeer cluster peerName = peerName @ ''.'' @ cluster_Name cluster"

text \<open>\<open>make([]string, int( *cluster.Spec.Replicas))\<close> panics on nil and on a negative length.\<close>

definition expectedPeerNamesForCluster :: "EtcdCluster \<Rightarrow> string list outcome" where
  "expectedPeerNamesForCluster cluster =
     (case cs_Replicas (cluster_spec cluster) of
        None \<Rightarrow> Panic
      | Some r \<Rightarrow>
          if sint r < 0 then Panic
          else Return (map (nthPeerName cluster) [0..<nat (sint r)]))"

lemma nthPeerName_inject [simp]: "nthPeerName c i = nthPeerName c j \<longleftrightarrow> i = j"
  by (simp add: nthPeerName_def)

text \<open>
  The search for a free name: the ordinals from \<open>i\<close> on, until one is not the name of a peer. It
  ends because only finitely many ordinals are taken.
\<close>

definition taken :: "EtcdCluster \<Rightarrow> EtcdPeer list \<Rightarrow> nat set" where
  "taken cluster peers = {i. nthPeerName cluster i \<in> peer_Name ` set peers}"

lemma finite_taken: "finite (taken cluster peers)"
proof -
  have "finite (nthPeerName cluster -` (peer_Name ` set peers))"
    by (rule finite_vimageI) (simp_all add: inj_def)
  then show ?thesis by (simp add: taken_def vimage_def)
qed

function nextAvailablePeerNameFrom :: "EtcdCluster \<Rightarrow> EtcdPeer list \<Rightarrow> nat \<Rightarrow> string" where
  "nextAvailablePeerNameFrom cluster peers i =
     (let candidateName = nthPeerName cluster i;
          nameClash = list_ex (\<lambda>peer. peer_Name peer = candidateName) peers
      in if \<not> nameClash then candidateName
         else nextAvailablePeerNameFrom cluster peers (Suc i))"
  by pat_completeness auto
termination
proof (relation "measure (\<lambda>(cluster, peers, i). card {j \<in> taken cluster peers. i \<le> j})")
  fix cluster peers i candidateName nameClash
  assume "candidateName = nthPeerName cluster i"
    and "nameClash = list_ex (\<lambda>peer. peer_Name peer = candidateName) peers" and "\<not> \<not> nameClash"
  then have "i \<in> taken cluster peers" by (force simp: taken_def list_ex_iff)
  then have "{j \<in> taken cluster peers. Suc i \<le> j} \<subset> {j \<in> taken cluster peers. i \<le> j}"
    by (auto simp: Suc_le_eq)
  then show "((cluster, peers, Suc i), cluster, peers, i)
      \<in> measure (\<lambda>(cluster, peers, i). card {j \<in> taken cluster peers. i \<le> j})"
    using finite_taken by (auto intro: psubset_card_mono)
qed simp

declare nextAvailablePeerNameFrom.simps [simp del]

definition nextAvailablePeerName :: "EtcdCluster \<Rightarrow> EtcdPeer list \<Rightarrow> string" where
  "nextAvailablePeerName cluster peers = nextAvailablePeerNameFrom cluster peers 0"

definition peerNameForMember :: "Member \<Rightarrow> go_error + string" where
  "peerNameForMember member =
     (if mem_Name member \<noteq> [] then Inr (mem_Name member)
      else
        (case PeerURLs member of
           peerURL # _ \<Rightarrow>
             (case Parse peerURL of
                Inl err \<Rightarrow> Inl (NewError err)
              | Inr u \<Rightarrow> Inr (hd (Split (Host u) (CHR ''.''))))
         | [] \<Rightarrow> Inl (NewError ''nothing on member that could give a name'')))"

section \<open>Objects\<close>

definition clusterLabels :: "EtcdCluster \<Rightarrow> smap" where
  "clusterLabels cluster = [(appLabel, appName), (clusterLabel, cluster_Name cluster)]"

definition headlessServiceForCluster :: "lib \<Rightarrow> EtcdCluster \<Rightarrow> Service" where
  "headlessServiceForCluster l cluster =
     (let name = serviceName cluster in
      \<lparr>svc_meta = emptyMeta
         \<lparr>Name := nn_Name name,
          Namespace := nn_Namespace name,
          OwnerReferences := [NewControllerRef l (cluster_meta cluster) ''EtcdCluster''],
          Labels := clusterLabels cluster\<rparr>,
       svc_ClusterIP = ClusterIPNone,
       svc_PublishNotReadyAddresses = True,
       svc_Selector = clusterLabels cluster,
       svc_Ports =
         [\<lparr>sp_Name = ''etcd-client'', sp_Protocol = ''TCP'', sp_Port = int etcdClientPort\<rparr>,
          \<lparr>sp_Name = ''etcd-peer'', sp_Protocol = ''TCP'', sp_Port = int etcdPeerPort\<rparr>]\<rparr>)"

definition peerForCluster :: "lib \<Rightarrow> EtcdCluster \<Rightarrow> string \<Rightarrow> EtcdPeer" where
  "peerForCluster l cluster peerName =
     \<lparr>peer_meta = emptyMeta
        \<lparr>Name := peerName,
         Namespace := cluster_Namespace cluster,
         OwnerReferences := [NewControllerRef l (cluster_meta cluster) ''EtcdCluster''],
         Labels := clusterLabels cluster\<rparr>,
      peer_spec =
        \<lparr>ps_ClusterName = cluster_Name cluster,
         ps_Version = cs_Version (cluster_spec cluster),
         ps_Bootstrap = None,
         ps_Storage = cs_Storage (cluster_spec cluster),
         ps_PodTemplate = cs_PodTemplate (cluster_spec cluster)\<rparr>,
      peer_status = \<lparr>ServerVersion = []\<rparr>\<rparr>"

definition initialClusterMembers :: "EtcdCluster \<Rightarrow> InitialClusterMember list outcome" where
  "initialClusterMembers cluster =
     (case expectedPeerNamesForCluster cluster of
        Panic \<Rightarrow> Panic
      | Return names \<Rightarrow>
          Return (map (\<lambda>n. \<lparr>icm_Name = n, icm_Host = expectedURLForPeer cluster n\<rparr>) names))"

text \<open>A member without a name leaves its slot of the slice at the zero value.\<close>

definition initialClusterMembersFromMemberList ::
    "EtcdCluster \<Rightarrow> Member list \<Rightarrow> InitialClusterMember list" where
  "initialClusterMembersFromMemberList cluster members =
     map (\<lambda>member.
        case peerNameForMember member of
          Inl _ \<Rightarrow> \<lparr>icm_Name = [], icm_Host = []\<rparr>
        | Inr name \<Rightarrow> \<lparr>icm_Name = name, icm_Host = expectedURLForPeer cluster name\<rparr>) members"

definition set_bootstrap :: "EtcdPeer \<Rightarrow> InitialClusterMember list \<Rightarrow> InitialClusterState \<Rightarrow> EtcdPeer" where
  "set_bootstrap peer ms st =
     peer\<lparr>peer_spec := (peer_spec peer)\<lparr>ps_Bootstrap :=
       Some \<lparr>Static = Some \<lparr>InitialCluster = ms\<rparr>, bs_InitialClusterState = st\<rparr>\<rparr>\<rparr>"

definition configurePeerBootstrap :: "EtcdPeer \<Rightarrow> EtcdCluster \<Rightarrow> EtcdPeer outcome" where
  "configurePeerBootstrap peer cluster =
     (case initialClusterMembers cluster of
        Panic \<Rightarrow> Panic
      | Return ms \<Rightarrow> Return (set_bootstrap peer ms InitialClusterStateNew))"

definition configureJoinExistingCluster :: "EtcdPeer \<Rightarrow> EtcdCluster \<Rightarrow> Member list \<Rightarrow> EtcdPeer" where
  "configureJoinExistingCluster peer cluster members =
     set_bootstrap peer (initialClusterMembersFromMemberList cluster members)
       InitialClusterStateExisting"

definition etcdClientConfig :: "EtcdCluster \<Rightarrow> EtcdConfig" where
  "etcdClientConfig cluster =
     (let serviceURL = emptyURL
            \<lparr>Scheme := etcdScheme,
             Host := cluster_Name cluster @ ''.'' @ cluster_Namespace cluster @ '':'' @
               decimal etcdClientPort\<rparr>
      in \<lparr>Endpoints = [String serviceURL], HeaderTimeoutPerRequest = 1\<rparr>)"

section \<open>Decisions\<close>

definition hasPeerForMember :: "EtcdPeer list \<Rightarrow> Member \<Rightarrow> go_error + bool" where
  "hasPeerForMember peers member =
     (case peerNameForMember member of
        Inl err \<Rightarrow> Inl err
      | Inr expectedPeerName \<Rightarrow> Inr (list_ex (\<lambda>peer. expectedPeerName = peer_Name peer) peers))"

definition hasTooFewPeers :: "EtcdCluster \<Rightarrow> EtcdPeer list \<Rightarrow> bool" where
  "hasTooFewPeers cluster peers =
     (case cs_Replicas (cluster_spec cluster) of
        None \<Rightarrow> False
      | Some r \<Rightarrow> int32_len peers <s r)"

definition hasTooFewMembers :: "EtcdCluster \<Rightarrow> Member list \<Rightarrow> bool outcome" where
  "hasTooFewMembers cluster members =
     (case cs_Replicas (cluster_spec cluster) of
        None \<Rightarrow> Panic
      | Some r \<Rightarrow> Return (int32_len members <s r))"

definition hasTooManyMembers :: "EtcdCluster \<Rightarrow> Member list \<Rightarrow> bool outcome" where
  "hasTooManyMembers cluster members =
     (case cs_Replicas (cluster_spec cluster) of
        None \<Rightarrow> Panic
      | Some r \<Rightarrow> Return (r <s int32_len members))"

definition isAllMembersStable :: "Member list \<Rightarrow> bool" where
  "isAllMembersStable members = list_all (\<lambda>member. mem_Name member \<noteq> []) members"

text \<open>\<open>MembersByName.Less\<close>.\<close>

definition MembersByName_Less :: "Member \<Rightarrow> Member \<Rightarrow> bool" where
  "MembersByName_Less a b \<longleftrightarrow> mem_Name a < mem_Name b"

definition nextOutdatedPeer :: "EtcdCluster \<Rightarrow> EtcdPeer list \<Rightarrow> EtcdPeer option" where
  "nextOutdatedPeer cluster peers =
     (let peerNames = Sort (Reverse (<)) (map peer_Name peers);
          peersByName = foldl (\<lambda>m peer. AList.update (peer_Name peer) peer m) [] peers
      in (case find (\<lambda>peerName.
                 case map_of peersByName peerName of
                   None \<Rightarrow> False
                 | Some peer \<Rightarrow> ServerVersion (peer_status peer) \<noteq> cs_Version (cluster_spec cluster))
               peerNames of
            None \<Rightarrow> None
          | Some peerName \<Rightarrow> map_of peersByName peerName))"

definition Cluster_updateStatus ::
    "EtcdCluster \<Rightarrow> Member list option \<Rightarrow> EtcdPeer list \<Rightarrow> string \<Rightarrow> EtcdCluster" where
  "Cluster_updateStatus cluster members peers clusterVersion =
     (let st = cluster_status cluster;
          ms = (case members of
                  Some l \<Rightarrow> Some (map (\<lambda>m. \<lparr>em_Name = mem_Name m, em_ID = mem_ID m\<rparr>) l)
                | None \<Rightarrow> (case st_Members st of None \<Rightarrow> Some [] | Some old \<Rightarrow> Some old))
      in cluster\<lparr>cluster_status :=
           st\<lparr>st_Members := ms, st_Replicas := int32_len peers, st_ClusterVersion := clusterVersion\<rparr>\<rparr>)"

section \<open>Calls\<close>

definition hasService :: "'w client \<Rightarrow> EtcdCluster \<Rightarrow> ('w, api_error + bool) io" where
  "hasService cl cluster = do {
     r \<leftarrow> get_Service cl (serviceName cluster);
     ret (case r of
            Inl err \<Rightarrow> if IsNotFound (Some err) then Inr False else Inl err
          | Inr _ \<Rightarrow> Inr True)
   }"

definition createService :: "lib \<Rightarrow> 'w client \<Rightarrow> EtcdCluster \<Rightarrow> ('w, api_error + ClusterEvent) io" where
  "createService l cl cluster = do {
     let service = headlessServiceForCluster l cluster;
     err \<leftarrow> create cl (OService service);
     ret (case err of
            Some e \<Rightarrow> Inl e
          | None \<Rightarrow> Inr (ServiceCreatedEvent (OCluster cluster) (Name (svc_meta service))))
   }"

definition createBootstrapPeer ::
    "lib \<Rightarrow> 'w client \<Rightarrow> EtcdCluster \<Rightarrow> EtcdPeer list \<Rightarrow> ('w, (api_error + ClusterEvent) outcome) io" where
  "createBootstrapPeer l cl cluster peers = (
     let peerName = nextAvailablePeerName cluster peers;
         peer = peerForCluster l cluster peerName
     in (case configurePeerBootstrap peer cluster of
           Panic \<Rightarrow> ret Panic
         | Return peer' \<Rightarrow> do {
             err \<leftarrow> create cl (OPeer peer');
             ret (Return (case err of
                            Some e \<Rightarrow> Inl e
                          | None \<Rightarrow> Inr (PeerCreatedEvent (OCluster cluster) (peer_Name peer'))))
           }))"

definition createPeerForMember ::
    "lib \<Rightarrow> 'w client \<Rightarrow> EtcdCluster \<Rightarrow> Member list \<Rightarrow> Member \<Rightarrow> ('w, go_error + ClusterEvent) io" where
  "createPeerForMember l cl cluster members member =
     (case peerNameForMember member of
        Inl err \<Rightarrow> ret (Inl err)
      | Inr expectedPeerName \<Rightarrow> do {
          let peer = configureJoinExistingCluster (peerForCluster l cluster expectedPeerName) cluster members;
          err \<leftarrow> create cl (OPeer peer);
          ret (case err of
                 Some e \<Rightarrow> Inl (ApiError e)
               | None \<Rightarrow> Inr (PeerCreatedEvent (OCluster cluster) (peer_Name peer)))
        })"

definition addEtcdMember :: "'w etcd_api \<Rightarrow> EtcdCluster \<Rightarrow> string \<Rightarrow> ('w, go_error + Member) io" where
  "addEtcdMember e cluster peerURL = do {
     err \<leftarrow> etcd_New e (etcdClientConfig cluster);
     case err of
       Some m \<Rightarrow> ret (Inl (Wrap ''unable to connect to etcd: '' (NewError m)))
     | None \<Rightarrow> do {
         r \<leftarrow> etcd_Add e (etcdClientConfig cluster) peerURL;
         ret (case r of
                Inl m \<Rightarrow> Inl (Wrap ''unable to add member to etcd cluster: '' (NewError m))
              | Inr member \<Rightarrow> Inr member)
       }
   }"

definition removeEtcdMember :: "'w etcd_api \<Rightarrow> EtcdCluster \<Rightarrow> string \<Rightarrow> ('w, go_error option) io" where
  "removeEtcdMember e cluster memberID = do {
     err \<leftarrow> etcd_New e (etcdClientConfig cluster);
     case err of
       Some m \<Rightarrow> ret (Some (Wrap ''unable to connect to etcd: '' (NewError m)))
     | None \<Rightarrow> do {
         r \<leftarrow> etcd_Remove e (etcdClientConfig cluster) memberID;
         ret (case r of
                Some m \<Rightarrow> Some (Wrap ''unable to remove member from etcd cluster: '' (NewError m))
              | None \<Rightarrow> None)
       }
   }"

definition addNewMember ::
    "'w etcd_api \<Rightarrow> EtcdCluster \<Rightarrow> EtcdPeer list \<Rightarrow> ('w, go_error + (Member \<times> string)) io" where
  "addNewMember e cluster peers = do {
     let peerName = nextAvailablePeerName cluster peers;
     let peerURL = emptyURL
           \<lparr>Scheme := etcdScheme,
            Host := expectedURLForPeer cluster peerName @ '':'' @ decimal etcdPeerPort\<rparr>;
     r \<leftarrow> addEtcdMember e cluster (String peerURL);
     ret (case r of Inl err \<Rightarrow> Inl err | Inr member \<Rightarrow> Inr (member, peerName))
   }"

text \<open>\<open>sortedMembers[0]\<close> panics on an empty list.\<close>

definition removeMember ::
    "'w etcd_api \<Rightarrow> EtcdCluster \<Rightarrow> Member list \<Rightarrow> ('w, (go_error + (Member \<times> string)) outcome) io" where
  "removeMember e cluster members =
     (case Sort (Reverse MembersByName_Less) members of
        [] \<Rightarrow> ret Panic
      | member # _ \<Rightarrow> do {
          err \<leftarrow> removeEtcdMember e cluster (mem_ID member);
          ret (Return (case err of
                         Some e' \<Rightarrow> Inl e'
                       | None \<Rightarrow> Inr (member, mem_Name member)))
        })"

section \<open>One reconciliation\<close>

type_synonym step_result = "(Result \<times> ClusterEvent option \<times> go_error option) outcome"

text \<open>A step that does nothing, a step that fails, a step that acts.\<close>

definition idle :: step_result where
  "idle = Return (requeueTenSeconds, None, None)"

definition fails :: "go_error \<Rightarrow> step_result" where
  "fails err = Return (requeueTenSeconds, None, Some err)"

definition acts :: "ClusterEvent \<Rightarrow> step_result" where
  "acts ev = Return (requeueTenSeconds, Some ev, None)"

text \<open>The branch without contact to the etcd cluster.\<close>

definition reconcileNoContact ::
    "lib \<Rightarrow> 'w client \<Rightarrow> EtcdPeer list \<Rightarrow> EtcdCluster \<Rightarrow> ('w, step_result) io" where
  "reconcileNoContact l cl peers cluster =
     (if hasTooFewPeers cluster peers then do {
        r \<leftarrow> createBootstrapPeer l cl cluster peers;
        ret (case r of
               Panic \<Rightarrow> Panic
             | Return (Inl err) \<Rightarrow> fails (Wrap ''failed to create EtcdPeer '' (ApiError err))
             | Return (Inr peerCreatedEvent) \<Rightarrow> acts peerCreatedEvent)
      } else ret idle)"

text \<open>
  The loop that adds a peer for the first member without one. \<open>None\<close>: every member has a peer.
\<close>

fun addMissingPeer ::
    "lib \<Rightarrow> 'w client \<Rightarrow> EtcdCluster \<Rightarrow> EtcdPeer list \<Rightarrow> Member list \<Rightarrow> Member list \<Rightarrow>
     ('w, step_result option) io" where
  "addMissingPeer l cl cluster peers members [] = ret None"
| "addMissingPeer l cl cluster peers members (member # rest) =
     (case hasPeerForMember peers member of
        Inl err \<Rightarrow> ret (Some (fails err))
      | Inr hasPeer \<Rightarrow>
          if \<not> hasPeer then do {
            r \<leftarrow> createPeerForMember l cl cluster members member;
            ret (Some (case r of
                         Inl err \<Rightarrow> fails (Wrap ''failed to create EtcdPeer '' err)
                       | Inr peerCreatedEvent \<Rightarrow> acts peerCreatedEvent))
          } else addMissingPeer l cl cluster peers members rest)"

text \<open>
  The loop that removes the first surplus peer that is not yet being deleted: first its PVC
  clean-up finalizer is set, in a later reconciliation it is deleted. \<open>None\<close>: nothing to do.
\<close>

fun removeSurplusPeer ::
    "lib \<Rightarrow> 'w client \<Rightarrow> string list \<Rightarrow> EtcdPeer list \<Rightarrow> ('w, step_result option) io" where
  "removeSurplusPeer l cl memberNames [] = ret None"
| "removeSurplusPeer l cl memberNames (peer # rest) =
     (if \<not> List.member memberNames (peer_Name peer) then
        (if DeletionTimestamp (peer_meta peer) \<noteq> None then removeSurplusPeer l cl memberNames rest
         else if \<not> hasPvcDeletionFinalizer peer then do {
           let updated = peer\<lparr>peer_meta := (peer_meta peer)
                 \<lparr>Finalizers := AddFinalizer l (Finalizers (peer_meta peer)) pvcCleanupFinalizer\<rparr>\<rparr>;
           err \<leftarrow> patch cl (OPeer updated) (OPeer peer);
           ret (Some (case err of
                        Some e \<Rightarrow> fails (Wrap ''failed to add PVC cleanup finalizer: '' (ApiError e))
                      | None \<Rightarrow> idle))
         } else do {
           err \<leftarrow> delete cl (OPeer peer);
           ret (Some (case err of
                        Some e \<Rightarrow> fails (Wrap ''failed to remove peer: '' (ApiError e))
                      | None \<Rightarrow> acts (PeerRemovedEvent (OPeer peer) (peer_Name peer))))
         })
      else removeSurplusPeer l cl memberNames rest)"

text \<open>Upgrade: delete the next outdated peer, or wait for one. \<open>None\<close>: every peer is current.\<close>

definition upgradePeer ::
    "'w client \<Rightarrow> EtcdCluster \<Rightarrow> EtcdPeer list \<Rightarrow> ('w, step_result option) io" where
  "upgradePeer cl cluster peers =
     (case nextOutdatedPeer cluster peers of
        None \<Rightarrow> ret None
      | Some peer \<Rightarrow>
          if ps_Version (peer_spec peer) = cs_Version (cluster_spec cluster) then ret (Some idle)
          else if DeletionTimestamp (peer_meta peer) \<noteq> None then ret (Some idle)
          else do {
            err \<leftarrow> delete cl (OPeer peer);
            ret (Some (case err of
                         Some e \<Rightarrow> fails (Text ''failed to delete peer: '' (ApiError e))
                       | None \<Rightarrow> acts (PeerRemovedEvent (OPeer peer) (peer_Name peer))))
          })"

text \<open>
  Scaling. The log lines after a change read \<open>Member.PeerURLs[0]\<close> and panic if there is none.
\<close>

definition scaleMembers ::
    "'w etcd_api \<Rightarrow> EtcdCluster \<Rightarrow> EtcdPeer list \<Rightarrow> Member list \<Rightarrow> ('w, step_result) io" where
  "scaleMembers e cluster peers members =
     (case hasTooFewMembers cluster members of
        Panic \<Rightarrow> ret Panic
      | Return tooFew \<Rightarrow>
          if tooFew then do {
            r \<leftarrow> addNewMember e cluster peers;
            ret (case r of
                   Inl err \<Rightarrow> fails (Wrap ''failed to add new member: '' err)
                 | Inr (member, name) \<Rightarrow>
                     (case PeerURLs member of
                        [] \<Rightarrow> Panic
                      | _ # _ \<Rightarrow> acts (MemberAddedEvent (OCluster cluster) member name)))
          } else
            (case hasTooManyMembers cluster members of
               Panic \<Rightarrow> ret Panic
             | Return tooMany \<Rightarrow>
                 if tooMany then do {
                   r \<leftarrow> removeMember e cluster members;
                   ret (case r of
                          Panic \<Rightarrow> Panic
                        | Return (Inl err) \<Rightarrow> fails (Wrap ''failed to remove member: '' err)
                        | Return (Inr (member, name)) \<Rightarrow>
                            (case PeerURLs member of
                               [] \<Rightarrow> Panic
                             | _ # _ \<Rightarrow> acts (MemberRemovedEvent (OCluster cluster) member name)))
                 } else ret idle))"

text \<open>The branch with a member list.\<close>

definition reconcileMembers ::
    "lib \<Rightarrow> 'w client \<Rightarrow> 'w etcd_api \<Rightarrow> Member list \<Rightarrow> EtcdPeer list \<Rightarrow> EtcdCluster \<Rightarrow> ('w, step_result) io" where
  "reconcileMembers l cl e members peers cluster = do {
     missing \<leftarrow> addMissingPeer l cl cluster peers members members;
     case missing of
       Some out \<Rightarrow> ret out
     | None \<Rightarrow>
         if isAllMembersStable members then do {
           surplus \<leftarrow> removeSurplusPeer l cl (map mem_Name members) peers;
           case surplus of
             Some out \<Rightarrow> ret out
           | None \<Rightarrow> do {
               upgrade \<leftarrow> upgradePeer cl cluster peers;
               case upgrade of
                 Some out \<Rightarrow> ret out
               | None \<Rightarrow> scaleMembers e cluster peers members
             }
         } else ret idle
   }"

definition reconcile ::
    "lib \<Rightarrow> 'w client \<Rightarrow> 'w etcd_api \<Rightarrow> Member list option \<Rightarrow> EtcdPeer list \<Rightarrow> EtcdCluster \<Rightarrow>
     ('w, step_result) io" where
  "reconcile l cl e members peers cluster = do {
     serviceExists \<leftarrow> hasService cl cluster;
     case serviceExists of
       Inl err \<Rightarrow>
         ret (fails (Wrap ''unable to fetch service from Kubernetes API: '' (ApiError err)))
     | Inr found \<Rightarrow>
         if \<not> found then do {
           r \<leftarrow> createService l cl cluster;
           ret (case r of
                  Inl err \<Rightarrow> fails (Wrap ''unable to create service: '' (ApiError err))
                | Inr serviceCreatedEvent \<Rightarrow> acts serviceCreatedEvent)
         } else
           (case members of
              None \<Rightarrow> reconcileNoContact l cl peers cluster
            | Some ms \<Rightarrow> reconcileMembers l cl e ms peers cluster)
   }"

section \<open>The handler\<close>

text \<open>
  The status patch that runs when the handler returns, and also when it panics: only if the status
  changed, and its error is aggregated with the handler's own.
\<close>

definition patchClusterStatus ::
    "'w client \<Rightarrow> EtcdCluster \<Rightarrow> EtcdCluster \<Rightarrow> reconciled \<Rightarrow> ('w, reconciled) io" where
  "patchClusterStatus cl original cluster out =
     (if cluster_status original = cluster_status cluster then ret out
      else do {
        err \<leftarrow> status_patch cl (OCluster cluster) (OCluster original);
        ret (case err of
               None \<Rightarrow> out
             | Some e \<Rightarrow>
                 (case out of
                    Panic \<Rightarrow> Panic
                  | Return (result, reterr) \<Rightarrow>
                      Return (result, NewAggregate
                        [reterr, Some (Text ''error while patching EtcdCluster.Status: '' (ApiError e))])))
      })"

text \<open>Dialling etcd: the member list and the cluster version, as far as they can be had.\<close>

definition dialCluster :: "'w etcd_api \<Rightarrow> EtcdCluster \<Rightarrow> ('w, Member list option \<times> string) io" where
  "dialCluster e cluster = do {
     err \<leftarrow> etcd_New e (etcdClientConfig cluster);
     case err of
       Some _ \<Rightarrow> ret (None, [])
     | None \<Rightarrow> do {
         ms \<leftarrow> etcd_List e (etcdClientConfig cluster);
         v \<leftarrow> etcd_GetVersion e (etcdClientConfig cluster);
         ret (case ms of Inl _ \<Rightarrow> None | Inr l \<Rightarrow> Some l,
              case v of Inl _ \<Rightarrow> [] | Inr vs \<Rightarrow> ver_Cluster vs)
       }
   }"

definition Cluster_Reconcile ::
    "lib \<Rightarrow> semver \<Rightarrow> 'w client \<Rightarrow> 'w etcd_api \<Rightarrow> NamespacedName \<Rightarrow> ('w, reconciled) io" where
  "Cluster_Reconcile l sv cl e req = do {
     r \<leftarrow> get_Cluster cl req;
     case r of
       Inl err \<Rightarrow> ret (Return (emptyResult, map_option ApiError (IgnoreNotFound (Some err))))
     | Inr fetched \<Rightarrow>
         (let original = EtcdCluster_Default fetched in
          (case EtcdCluster_ValidateCreate sv original of
             Some err \<Rightarrow> ret (Return (emptyResult, None))
           | None \<Rightarrow> do {
               (members, clusterVersion) \<leftarrow> dialCluster e original;
               ps \<leftarrow> list_Peers cl (cluster_Namespace original) (cluster_Name original);
               case ps of
                 Inl err \<Rightarrow>
                   patchClusterStatus cl original original
                     (Return (emptyResult, Some (Wrap ''unable to list peers: '' (ApiError err))))
               | Inr peers \<Rightarrow> do {
                   let cluster = Cluster_updateStatus original members peers clusterVersion;
                   out \<leftarrow> reconcile l cl e members peers cluster;
                   case out of
                     Panic \<Rightarrow> patchClusterStatus cl original cluster Panic
                   | Return (result, clusterEvent, err) \<Rightarrow> do {
                       (case clusterEvent of None \<Rightarrow> ret () | Some ev \<Rightarrow> ClusterEvent_Record ev);
                       patchClusterStatus cl original cluster
                         (Return (result, map_option (Text ''Failed to reconcile: '') err))
                     }
                 }
             }))
   }"

end
