(* ===== verification/ClusterCorrect.thy ===== *)
theory ClusterCorrect
  imports ClusterController
begin

text \<open>
  Correctness of the EtcdCluster controller: free names and bootstrap, member URLs and back,
  the choice of the member to remove and of the peer to upgrade, and the justification of every
  action: \<open>justified\<close> is the specification of when the controller may act, and
  \<open>reconcile_ok\<close> the proof that it acts once at most, and only then.
\<close>

section \<open>Free names\<close>

lemma taken_iff: "i \<in> taken c peers \<longleftrightarrow> list_ex (\<lambda>peer. peer_Name peer = nthPeerName c i) peers"
  by (force simp: taken_def list_ex_iff)

lemma nextAvailablePeerNameFrom_least:
  "\<exists>j \<ge> i. nextAvailablePeerNameFrom c peers i = nthPeerName c j \<and> j \<notin> taken c peers \<and>
     (\<forall>k. i \<le> k \<and> k < j \<longrightarrow> k \<in> taken c peers)"
proof (induction c peers i rule: nextAvailablePeerNameFrom.induct)
  case (1 c peers i)
  show ?case
  proof (cases "i \<in> taken c peers")
    case True
    then have clash: "list_ex (\<lambda>peer. peer_Name peer = nthPeerName c i) peers"
      by (simp add: taken_iff)
    with "1.IH" [OF refl refl] obtain j where
      j: "Suc i \<le> j" "nextAvailablePeerNameFrom c peers (Suc i) = nthPeerName c j"
        "j \<notin> taken c peers" "\<forall>k. Suc i \<le> k \<and> k < j \<longrightarrow> k \<in> taken c peers" by blast
    have "k \<in> taken c peers" if "i \<le> k" "k < j" for k
      using True that j(4) by (cases "k = i") auto
    with clash j(1-3) show ?thesis
      by (intro exI [of _ j]) (simp add: nextAvailablePeerNameFrom.simps [of c peers i])
  next
    case False
    then have "\<not> list_ex (\<lambda>peer. peer_Name peer = nthPeerName c i) peers"
      by (simp add: taken_iff)
    with False show ?thesis
      by (intro exI [of _ i]) (auto simp: nextAvailablePeerNameFrom.simps [of c peers i])
  qed
qed

lemma nextAvailablePeerName_ordinal:
  obtains j where "nextAvailablePeerName c peers = nthPeerName c j" "j \<notin> taken c peers"
    "\<And>k. k < j \<Longrightarrow> k \<in> taken c peers" "j \<le> length peers"
proof -
  obtain j where j: "nextAvailablePeerName c peers = nthPeerName c j" "j \<notin> taken c peers"
    "\<forall>k < j. k \<in> taken c peers"
    using nextAvailablePeerNameFrom_least [of 0 c peers] by (auto simp: nextAvailablePeerName_def)
  have "card {..<j} \<le> length (map peer_Name peers)"
    by (rule card_image_inj_le_length [of "nthPeerName c"]) (use j in \<open>auto simp: inj_on_def taken_def\<close>)
  then have "j \<le> length peers" by simp
  with j that show thesis by blast
qed

lemma nextAvailablePeerName_fresh: "nextAvailablePeerName c peers \<notin> peer_Name ` set peers"
  by (rule nextAvailablePeerName_ordinal [of c peers]) (simp add: taken_def)

lemma expectedPeerNames_Return:
  "expectedPeerNamesForCluster c = Return names \<longleftrightarrow>
     (\<exists>r. cs_Replicas (cluster_spec c) = Some r \<and> 0 \<le> sint r \<and>
        names = map (nthPeerName c) [0..<nat (sint r)])"
  by (auto simp: expectedPeerNamesForCluster_def split: option.splits)

lemma distinct_expectedPeerNames: "expectedPeerNamesForCluster c = Return names \<Longrightarrow> distinct names"
  by (auto simp: expectedPeerNames_Return distinct_map inj_on_def)

lemma bootstrap_names:
  assumes few: "hasTooFewPeers c peers" and len: "length peers < 2 ^ 31"
  obtains names where "expectedPeerNamesForCluster c = Return names"
    "nextAvailablePeerName c peers \<in> set names" "distinct names" "length peers < length names"
proof -
  obtain r where r: "cs_Replicas (cluster_spec c) = Some r" "int (length peers) < sint r"
    using few len by (auto simp: hasTooFewPeers_def int32_len_less_iff split: option.splits)
  obtain j where j: "nextAvailablePeerName c peers = nthPeerName c j" "j \<le> length peers"
    by (rule nextAvailablePeerName_ordinal)
  let ?names = "map (nthPeerName c) [0..<nat (sint r)]"
  have ex: "expectedPeerNamesForCluster c = Return ?names" using r by (simp add: expectedPeerNames_Return)
  have "j < nat (sint r)" using j(2) r(2) by linarith
  then have "nextAvailablePeerName c peers \<in> set ?names" using j(1) by auto
  moreover have "length peers < length ?names" using r(2) by simp
  ultimately show thesis using that ex distinct_expectedPeerNames [OF ex] by blast
qed

section \<open>Sorting by name\<close>

interpretation members_by_name: sort_interface MembersByName_Less
  by unfold_locales (auto simp: MembersByName_Less_def)

interpretation members_desc: sort_interface "Reverse MembersByName_Less"
  by (rule members_by_name.reverse_sort_interface)

interpretation string_slice: sort_interface "(<) :: string \<Rightarrow> string \<Rightarrow> bool"
  by unfold_locales auto

interpretation strings_desc: sort_interface "Reverse ((<) :: string \<Rightarrow> string \<Rightarrow> bool)"
  by (rule string_slice.reverse_sort_interface)

lemma removed_member_greatest:
  assumes "Sort (Reverse MembersByName_Less) members = m # ms" and "m' \<in> set members"
  shows "m \<in> set members \<and> mem_Name m' \<le> mem_Name m"
proof
  show "m \<in> set members" using assms(1) by (metis list.set_intros(1) set_Sort)
  show "mem_Name m' \<le> mem_Name m"
    using members_desc.Sort_head_least [OF assms] by (simp add: Reverse_def MembersByName_Less_def)
qed

definition outdated :: "EtcdCluster \<Rightarrow> EtcdPeer \<Rightarrow> bool" where
  "outdated c p \<longleftrightarrow> ServerVersion (peer_status p) \<noteq> cs_Version (cluster_spec c)"

lemma map_of_peersByName:
  "distinct (map peer_Name peers) \<Longrightarrow>
   map_of (foldl (\<lambda>m peer. AList.update (peer_Name peer) peer m) acc peers) n =
     (case find (\<lambda>p. peer_Name p = n) peers of Some p \<Rightarrow> Some p | None \<Rightarrow> map_of acc n)"
proof (induction peers arbitrary: acc)
  case (Cons p peers)
  have "find (\<lambda>q. peer_Name q = peer_Name p) peers = None"
    using Cons.prems by (metis (mono_tags, lifting) distinct.simps(2) find_None_all image_eqI list.set_map list.simps(9))
  with Cons show ?case by (auto split: option.split)
qed simp

lemma find_by_name:
  assumes "distinct (map peer_Name peers)" "p \<in> set peers"
  shows "find (\<lambda>q. peer_Name q = peer_Name p) peers = Some p"
  using assms by (induction peers) force+

lemma nextOutdatedPeer_Some:
  assumes d: "distinct (map peer_Name peers)" and s: "nextOutdatedPeer c peers = Some p"
  shows "p \<in> set peers \<and> outdated c p \<and> (\<forall>q \<in> set peers. outdated c q \<longrightarrow> peer_Name q \<le> peer_Name p)"
proof -
  let ?m = "foldl (\<lambda>m peer. AList.update (peer_Name peer) peer m) [] peers"
  let ?P = "\<lambda>n. case map_of ?m n of None \<Rightarrow> False | Some q \<Rightarrow> ServerVersion (peer_status q) \<noteq> cs_Version (cluster_spec c)"
  have m: "map_of ?m n = find (\<lambda>q. peer_Name q = n) peers" for n
    by (simp add: map_of_peersByName [OF d] split: option.split)
  obtain n where n: "find ?P (Sort (Reverse (<)) (map peer_Name peers)) = Some n" "map_of ?m n = Some p"
    using s by (auto simp: nextOutdatedPeer_def Let_def split: option.splits)
  have p: "p \<in> set peers" "peer_Name p = n" using n(2) m find_Some_set by fastforce+
  have "?P n" using n(1) find_Some_set by fastforce
  then have out: "outdated c p" using n(2) by (simp add: outdated_def)
  have "peer_Name q \<le> n" if "q \<in> set peers" "outdated c q" for q
  proof -
    have "?P (peer_Name q)" using that m find_by_name [OF d that(1)] by (simp add: outdated_def)
    then have "\<not> Reverse (<) (peer_Name q) n"
      using strings_desc.find_Sort_least [OF n(1)] that(1) by simp
    then show ?thesis by (simp add: Reverse_def)
  qed
  with p out show ?thesis by blast
qed

lemma nextOutdatedPeer_None:
  assumes d: "distinct (map peer_Name peers)"
  shows "nextOutdatedPeer c peers = None \<longleftrightarrow> (\<forall>q \<in> set peers. \<not> outdated c q)"
proof -
  let ?m = "foldl (\<lambda>m peer. AList.update (peer_Name peer) peer m) [] peers"
  let ?P = "\<lambda>n. case map_of ?m n of None \<Rightarrow> False | Some q \<Rightarrow> ServerVersion (peer_status q) \<noteq> cs_Version (cluster_spec c)"
  have m: "map_of ?m n = find (\<lambda>q. peer_Name q = n) peers" for n
    by (simp add: map_of_peersByName [OF d] split: option.split)
  have P: "?P (peer_Name q) \<longleftrightarrow> outdated c q" if "q \<in> set peers" for q
    using m find_by_name [OF d that] by (simp add: outdated_def)
  have "nextOutdatedPeer c peers = None \<longleftrightarrow> find ?P (Sort (Reverse (<)) (map peer_Name peers)) = None"
    using find_Some_set by (fastforce simp: nextOutdatedPeer_def Let_def split: option.splits)
  also have "\<dots> \<longleftrightarrow> (\<forall>q \<in> set peers. \<not> ?P (peer_Name q))" by (auto simp: find_None_all)
  also have "\<dots> \<longleftrightarrow> (\<forall>q \<in> set peers. \<not> outdated c q)" using P by blast
  finally show ?thesis .
qed

section \<open>Names and member URLs\<close>

definition newMemberURL :: "EtcdCluster \<Rightarrow> string \<Rightarrow> string" where
  "newMemberURL c n = String (emptyURL
     \<lparr>Scheme := etcdScheme, Host := expectedURLForPeer c n @ '':'' @ decimal etcdPeerPort\<rparr>)"

lemma peerNameForMember_of_url:
  assumes chars: "list_all host_char (cluster_Name c)" and dots: "CHR ''.'' \<notin> set (cluster_Name c)"
    and m: "mem_Name m = []" "PeerURLs m = newMemberURL c (nthPeerName c i) # us"
  shows "peerNameForMember m = Inr (nthPeerName c i)"
proof -
  have nth: "list_all host_char (nthPeerName c i)"
    using chars by (auto simp: nthPeerName_def list_all_iff host_char_def is_alnum_def dest: decimal_is_dec)
  have "host_char (CHR ''.'')" by (simp add: host_char_def)
  with nth chars have "list_all host_char (expectedURLForPeer c (nthPeerName c i))"
    by (simp add: expectedURLForPeer_def)
  note hp = String_host_port [OF this] Parse_host_port [OF this]
  have "Parse (newMemberURL c (nthPeerName c i)) =
      Inr (emptyURL\<lparr>Scheme := ''http'', Host := host_port (expectedURLForPeer c (nthPeerName c i)) etcdPeerPort\<rparr>)"
    using hp [of etcdPeerPort] by (simp add: newMemberURL_def etcdScheme_def host_port_def)
  moreover have "CHR ''.'' \<notin> set (decimal i)"
    using decimal_is_dec [of "CHR ''.''" i] by (auto simp: is_dec_def between_def)
  then have "CHR ''.'' \<notin> set (nthPeerName c i)"
    using dots by (simp add: nthPeerName_def)
  then have "hd (Split (host_port (expectedURLForPeer c (nthPeerName c i)) etcdPeerPort) (CHR ''.'')) = nthPeerName c i"
    by (simp add: host_port_def expectedURLForPeer_def hd_Split_append)
  ultimately show ?thesis using m by (simp add: peerNameForMember_def)
qed

section \<open>What each call does\<close>

lemma hasService_emits:
  "emits (hasService cl c) (\<lambda>r tr. \<exists>a. tr = [GetService (serviceName c) a] \<and>
     r = (case a of Inl err \<Rightarrow> if IsNotFound (Some err) then Inr False else Inl err | Inr _ \<Rightarrow> Inr True))"
  unfolding hasService_def call_defs by (intro emits_steps) blast

lemma createService_emits:
  "emits (createService l cl c) (\<lambda>r tr. \<exists>a. tr = [Create (OService (headlessServiceForCluster l c)) a] \<and>
     r = (case a of Some e \<Rightarrow> Inl e | None \<Rightarrow> Inr (ServiceCreatedEvent (OCluster c) (cluster_Name c))))"
  unfolding createService_def call_defs
  by (intro emits_steps) (simp add: headlessServiceForCluster_def serviceName_def Let_def split: option.split)

lemma set_bootstrap_meta [simp]: "peer_meta (set_bootstrap p ms st) = peer_meta p"
  by (simp add: set_bootstrap_def)

lemma peerForCluster_meta [simp]:
  "peer_Name (peerForCluster l c n) = n"
  "Namespace (peer_meta (peerForCluster l c n)) = cluster_Namespace c"
  by (simp_all add: peerForCluster_def)

lemma configurePeerBootstrap_meta:
  "configurePeerBootstrap p c = Return p' \<Longrightarrow> peer_meta p' = peer_meta p"
  by (auto simp: configurePeerBootstrap_def split: outcome.splits)

definition bootstrapPeer :: "lib \<Rightarrow> EtcdCluster \<Rightarrow> EtcdPeer list \<Rightarrow> EtcdPeer outcome" where
  "bootstrapPeer l c peers = configurePeerBootstrap (peerForCluster l c (nextAvailablePeerName c peers)) c"

definition joiningPeer :: "lib \<Rightarrow> EtcdCluster \<Rightarrow> Member list \<Rightarrow> string \<Rightarrow> EtcdPeer" where
  "joiningPeer l c members n = configureJoinExistingCluster (peerForCluster l c n) c members"

lemma joiningPeer_Name [simp]: "peer_Name (joiningPeer l c members n) = n"
  by (simp add: joiningPeer_def configureJoinExistingCluster_def)

lemma bootstrapPeer_Name: "bootstrapPeer l c peers = Return p \<Longrightarrow> peer_Name p = nextAvailablePeerName c peers"
  by (auto simp: bootstrapPeer_def dest: configurePeerBootstrap_meta)

lemma createBootstrapPeer_emits:
  "emits (createBootstrapPeer l cl c peers) (\<lambda>r tr.
     (case bootstrapPeer l c peers of
        Panic \<Rightarrow> tr = [] \<and> r = Panic
      | Return p \<Rightarrow> (\<exists>a. tr = [Create (OPeer p) a] \<and>
          r = Return (case a of Some e \<Rightarrow> Inl e | None \<Rightarrow> Inr (PeerCreatedEvent (OCluster c) (peer_Name p))))))"
  unfolding createBootstrapPeer_def call_defs bootstrapPeer_def [symmetric] Let_def
  by (auto intro!: emits_steps)

lemma createPeerForMember_emits:
  "emits (createPeerForMember l cl c members m) (\<lambda>r tr.
     (case peerNameForMember m of
        Inl err \<Rightarrow> tr = [] \<and> r = Inl err
      | Inr n \<Rightarrow> (\<exists>a. tr = [Create (OPeer (joiningPeer l c members n)) a] \<and>
          r = (case a of Some e \<Rightarrow> Inl (ApiError e) | None \<Rightarrow> Inr (PeerCreatedEvent (OCluster c) n)))))"
  unfolding createPeerForMember_def call_defs joiningPeer_def [symmetric] Let_def joiningPeer_Name
  by (auto intro!: emits_steps)

lemma addMissingPeer_emits:
  "emits (addMissingPeer l cl c peers members rest) (\<lambda>r tr.
     (r = None \<and> tr = [] \<and> (\<forall>m \<in> set rest. hasPeerForMember peers m = Inr True)) \<or>
     (\<exists>err. r = Some (fails err) \<and> tr = [] \<and> (\<exists>m \<in> set rest. isl (peerNameForMember m))) \<or>
     (\<exists>m \<in> set rest. \<exists>n a. peerNameForMember m = Inr n \<and> n \<notin> peer_Name ` set peers \<and>
        tr = [Create (OPeer (joiningPeer l c members n)) a] \<and>
        r = Some (case a of
              Some e \<Rightarrow> fails (Wrap ''failed to create EtcdPeer '' (ApiError e))
            | None \<Rightarrow> acts (PeerCreatedEvent (OCluster c) n))))"
proof (induction rest)
  case Nil
  then show ?case by (auto intro!: emits_steps)
next
  case (Cons m rest)
  have create: "emits (do { r \<leftarrow> createPeerForMember l cl c members m;
            ret (Some (case r of
                         Inl err \<Rightarrow> fails (Wrap ''failed to create EtcdPeer '' err)
                       | Inr ev \<Rightarrow> acts ev)) })
      (\<lambda>r tr. \<exists>a. tr = [Create (OPeer (joiningPeer l c members n)) a] \<and>
        r = Some (case a of
              Some e \<Rightarrow> fails (Wrap ''failed to create EtcdPeer '' (ApiError e))
            | None \<Rightarrow> acts (PeerCreatedEvent (OCluster c) n)))"
    if "peerNameForMember m = Inr n" for n
    by (rule emits_bind [OF createPeerForMember_emits])
      (use that in \<open>auto intro!: emits_steps split: option.splits\<close>)
  show ?case
  proof (cases "hasPeerForMember peers m")
    case (Inl err)
    then have "isl (peerNameForMember m)" by (auto simp: hasPeerForMember_def split: sum.splits)
    with Inl show ?thesis by (auto intro!: emits_steps)
  next
    case (Inr b)
    then obtain n where n: "peerNameForMember m = Inr n" "b \<longleftrightarrow> n \<in> peer_Name ` set peers"
      by (force simp: hasPeerForMember_def list_ex_iff split: sum.splits)
    show ?thesis
    proof (cases b)
      case True
      with Inr show ?thesis by (auto intro!: emits_mono [OF Cons.IH])
    next
      case False
      with Inr n show ?thesis by (auto intro!: emits_mono [OF create [OF n(1)]])
    qed
  qed
qed

text \<open>A surplus peer: not named by any member, and not yet being deleted.\<close>

definition surplus :: "string list \<Rightarrow> EtcdPeer \<Rightarrow> bool" where
  "surplus memberNames p \<longleftrightarrow> peer_Name p \<notin> set memberNames \<and> DeletionTimestamp (peer_meta p) = None"

definition withCleanup :: "lib \<Rightarrow> EtcdPeer \<Rightarrow> EtcdPeer" where
  "withCleanup l p = p\<lparr>peer_meta := (peer_meta p)
     \<lparr>Finalizers := AddFinalizer l (Finalizers (peer_meta p)) pvcCleanupFinalizer\<rparr>\<rparr>"

lemma removeSurplusPeer_emits:
  "emits (removeSurplusPeer l cl names peers) (\<lambda>r tr.
     (r = None \<and> tr = [] \<and> (\<forall>p \<in> set peers. \<not> surplus names p)) \<or>
     (\<exists>p \<in> set peers. surplus names p \<and> \<not> hasPvcDeletionFinalizer p \<and>
        (\<exists>a. tr = [Patch (OPeer (withCleanup l p)) (OPeer p) a] \<and>
           r = Some (case a of
                 Some e \<Rightarrow> fails (Wrap ''failed to add PVC cleanup finalizer: '' (ApiError e))
               | None \<Rightarrow> idle))) \<or>
     (\<exists>p \<in> set peers. surplus names p \<and> hasPvcDeletionFinalizer p \<and>
        (\<exists>a. tr = [Delete (OPeer p) a] \<and>
           r = Some (case a of
                 Some e \<Rightarrow> fails (Wrap ''failed to remove peer: '' (ApiError e))
               | None \<Rightarrow> acts (PeerRemovedEvent (OPeer p) (peer_Name p))))))"
proof (induction peers)
  case Nil
  then show ?case by (auto intro!: emits_steps)
next
  case (Cons p peers)
  show ?case
  proof (cases "surplus names p")
    case True
    then show ?thesis
      by (auto simp: surplus_def withCleanup_def call_defs intro!: emits_steps)
  next
    case False
    then show ?thesis
      by (auto simp: surplus_def intro!: emits_mono [OF Cons.IH])
  qed
qed

lemma upgradePeer_emits:
  "emits (upgradePeer cl c peers) (\<lambda>r tr.
     (r = None \<and> tr = [] \<and> nextOutdatedPeer c peers = None) \<or>
     (r = Some idle \<and> tr = [] \<and> nextOutdatedPeer c peers \<noteq> None) \<or>
     (\<exists>p a. nextOutdatedPeer c peers = Some p \<and> ps_Version (peer_spec p) \<noteq> cs_Version (cluster_spec c) \<and>
        DeletionTimestamp (peer_meta p) = None \<and> tr = [Delete (OPeer p) a] \<and>
        r = Some (case a of
              Some e \<Rightarrow> fails (Text ''failed to delete peer: '' (ApiError e))
            | None \<Rightarrow> acts (PeerRemovedEvent (OPeer p) (peer_Name p)))))"
  unfolding upgradePeer_def call_defs by (auto intro!: emits_steps)

lemma addEtcdMember_emits:
  "emits (addEtcdMember e c url) (\<lambda>r tr.
     (\<exists>m. tr = [EtcdNew (etcdClientConfig c) (Some m)] \<and> isl r) \<or>
     (\<exists>a. tr = [EtcdNew (etcdClientConfig c) None, EtcdAdd (etcdClientConfig c) url a] \<and>
        ((\<exists>msg. a = Inl msg) \<and> isl r \<or> (\<exists>m. a = Inr m \<and> r = Inr m))))"
  unfolding addEtcdMember_def call_defs
  by (intro emits_steps) (auto split: sum.split)

lemma removeEtcdMember_emits:
  "emits (removeEtcdMember e c mid) (\<lambda>r tr.
     (\<exists>m. tr = [EtcdNew (etcdClientConfig c) (Some m)] \<and> r \<noteq> None) \<or>
     (\<exists>a. tr = [EtcdNew (etcdClientConfig c) None, EtcdRemove (etcdClientConfig c) mid a] \<and>
        (r = None \<longleftrightarrow> a = None)))"
  unfolding removeEtcdMember_def call_defs
  by (intro emits_steps) (auto split: option.split)

lemma addNewMember_emits:
  "emits (addNewMember e c peers) (\<lambda>r tr.
     (\<exists>m. tr = [EtcdNew (etcdClientConfig c) (Some m)] \<and> isl r) \<or>
     (\<exists>a. tr = [EtcdNew (etcdClientConfig c) None,
          EtcdAdd (etcdClientConfig c) (newMemberURL c (nextAvailablePeerName c peers)) a] \<and>
        ((\<exists>msg. a = Inl msg) \<and> isl r \<or> (\<exists>m. a = Inr m \<and> r = Inr (m, nextAvailablePeerName c peers)))))"
  unfolding addNewMember_def newMemberURL_def [symmetric] Let_def
  by (rule emits_bind [OF addEtcdMember_emits], rule emits_return) (auto simp: isl_def)

lemma removeMember_emits:
  "emits (removeMember e c members) (\<lambda>r tr.
     (r = Panic \<and> tr = [] \<and> members = []) \<or>
     (\<exists>m ms. Sort (Reverse MembersByName_Less) members = m # ms \<and>
        ((\<exists>msg err. tr = [EtcdNew (etcdClientConfig c) (Some msg)] \<and> r = Return (Inl err)) \<or>
         (\<exists>a. tr = [EtcdNew (etcdClientConfig c) None, EtcdRemove (etcdClientConfig c) (mem_ID m) a] \<and>
            (a \<noteq> None \<and> (\<exists>err. r = Return (Inl err)) \<or> a = None \<and> r = Return (Inr (m, mem_Name m)))))))"
proof (cases "Sort (Reverse MembersByName_Less) members")
  case Nil
  then have "members = []" by simp
  then show ?thesis by (simp add: removeMember_def Sort_def emits_return)
next
  case (Cons m ms)
  then show ?thesis unfolding removeMember_def
    by (auto intro!: emits_bind [OF removeEtcdMember_emits] emits_return split: option.splits)
qed

section \<open>What is reported\<close>

fun is_patch :: "call \<Rightarrow> bool" where
  "is_patch (Patch _ _ _) = True"
| "is_patch _ = False"

text \<open>
  What a reconciliation reports: an event exactly when a change other than setting the finalizer
  succeeded, an error whenever the change failed, and always a requeue after ten seconds.
\<close>

definition reported :: "step_result \<Rightarrow> call list \<Rightarrow> bool" where
  "reported r tr \<longleftrightarrow>
     (case r of
        Panic \<Rightarrow> True
      | Return (result, ev, err) \<Rightarrow>
          result = requeueTenSeconds \<and>
          (ev \<noteq> None \<longleftrightarrow> (\<exists>x. mutations tr = [x] \<and> \<not> failed x \<and> \<not> is_patch x)) \<and>
          (\<forall>x \<in> set (mutations tr). failed x \<longleftrightarrow> err \<noteq> None))"

lemma reported_simps [simp]:
  "reported Panic tr"
  "reported idle tr \<longleftrightarrow> mutations tr = [] \<or> (\<forall>x \<in> set (mutations tr). \<not> failed x) \<and> (\<forall>x. mutations tr = [x] \<longrightarrow> is_patch x)"
  "reported (fails err) tr \<longleftrightarrow> (\<forall>x \<in> set (mutations tr). failed x)"
  "reported (acts ev) tr \<longleftrightarrow> (\<exists>x. mutations tr = [x] \<and> \<not> failed x \<and> \<not> is_patch x)"
  by (auto simp: reported_def idle_def fails_def acts_def)

text \<open>The calls of a step: changes, and dialling etcd for them.\<close>

fun step_call :: "call \<Rightarrow> bool" where
  "step_call (EtcdNew _ _) = True"
| "step_call x = is_mutation x"

lemma step_calls_recorded: "list_all step_call tr \<Longrightarrow> recorded tr = []"
proof (induction tr)
  case (Cons x tr)
  then show ?case by (cases x) auto
qed simp

lemma scaleMembers_emits:
  "emits (scaleMembers e c peers members) (\<lambda>r tr. list_all step_call tr \<and> reported r tr \<and>
     (mutations tr = [] \<or>
     (\<exists>a. mutations tr = [EtcdAdd (etcdClientConfig c) (newMemberURL c (nextAvailablePeerName c peers)) a] \<and>
        hasTooFewMembers c members = Return True) \<or>
     (\<exists>m ms a. mutations tr = [EtcdRemove (etcdClientConfig c) (mem_ID m) a] \<and>
        hasTooFewMembers c members = Return False \<and> hasTooManyMembers c members = Return True \<and>
        Sort (Reverse MembersByName_Less) members = m # ms)))"
  unfolding scaleMembers_def
proof (intro emits_case_outcome emits_if emits_return, goal_cases)
  case (2 tooFew)
  show ?case
    by (rule emits_bind [OF addNewMember_emits], rule emits_return)
      (use 2 in \<open>auto simp: isl_def split: list.split\<close>)
next
  case (4 tooFew tooMany)
  show ?case
    by (rule emits_bind [OF removeMember_emits], rule emits_return)
      (use 4 in \<open>auto split: list.split\<close>)
qed auto

section \<open>When the controller acts\<close>

definition settled :: "EtcdPeer list \<Rightarrow> Member list \<Rightarrow> bool" where
  "settled peers members \<longleftrightarrow>
     (\<forall>m \<in> set members. hasPeerForMember peers m = Inr True) \<and> isAllMembersStable members"

definition no_surplus :: "EtcdPeer list \<Rightarrow> Member list \<Rightarrow> bool" where
  "no_surplus peers members \<longleftrightarrow> (\<forall>p \<in> set peers. \<not> surplus (map mem_Name members) p)"

text \<open>Without a member list, only a bootstrap peer may be created.\<close>

definition bootstraps :: "lib \<Rightarrow> EtcdPeer list \<Rightarrow> EtcdCluster \<Rightarrow> call \<Rightarrow> bool" where
  "bootstraps l peers c x \<longleftrightarrow>
     (\<exists>p e. x = Create (OPeer p) e \<and> hasTooFewPeers c peers \<and> bootstrapPeer l c peers = Return p)"

text \<open>With a member list, the actions and what each requires.\<close>

fun warranted :: "lib \<Rightarrow> Member list \<Rightarrow> EtcdPeer list \<Rightarrow> EtcdCluster \<Rightarrow> call \<Rightarrow> bool" where
  "warranted l ms peers c (Create obj _) \<longleftrightarrow>
     (\<exists>m \<in> set ms. \<exists>n. peerNameForMember m = Inr n \<and> n \<notin> peer_Name ` set peers \<and>
        obj = OPeer (joiningPeer l c ms n))"
| "warranted l ms peers c (Patch new old _) \<longleftrightarrow>
     settled peers ms \<and>
     (\<exists>p \<in> set peers. surplus (map mem_Name ms) p \<and> \<not> hasPvcDeletionFinalizer p \<and>
        old = OPeer p \<and> new = OPeer (withCleanup l p))"
| "warranted l ms peers c (Delete obj _) \<longleftrightarrow>
     settled peers ms \<and>
     (\<exists>p. obj = OPeer p \<and>
        (p \<in> set peers \<and> surplus (map mem_Name ms) p \<and> hasPvcDeletionFinalizer p \<or>
         no_surplus peers ms \<and> nextOutdatedPeer c peers = Some p \<and>
         ps_Version (peer_spec p) \<noteq> cs_Version (cluster_spec c) \<and>
         DeletionTimestamp (peer_meta p) = None))"
| "warranted l ms peers c (EtcdAdd cfg url _) \<longleftrightarrow>
     settled peers ms \<and> no_surplus peers ms \<and> nextOutdatedPeer c peers = None \<and>
     hasTooFewMembers c ms = Return True \<and> cfg = etcdClientConfig c \<and>
     url = newMemberURL c (nextAvailablePeerName c peers)"
| "warranted l ms peers c (EtcdRemove cfg mid _) \<longleftrightarrow>
     settled peers ms \<and> no_surplus peers ms \<and> nextOutdatedPeer c peers = None \<and>
     hasTooManyMembers c ms = Return True \<and> cfg = etcdClientConfig c \<and>
     (\<exists>m rest. Sort (Reverse MembersByName_Less) ms = m # rest \<and> mid = mem_ID m)"
| "warranted l ms peers c _ \<longleftrightarrow> False"

definition justified ::
    "lib \<Rightarrow> (api_error + Service) \<Rightarrow> Member list option \<Rightarrow> EtcdPeer list \<Rightarrow> EtcdCluster \<Rightarrow> call \<Rightarrow> bool" where
  "justified l a members peers c x \<longleftrightarrow>
     (case a of
        Inl err \<Rightarrow> IsNotFound (Some err) \<and> (\<exists>e. x = Create (OService (headlessServiceForCluster l c)) e)
      | Inr _ \<Rightarrow> (case members of None \<Rightarrow> bootstraps l peers c x | Some ms \<Rightarrow> warranted l ms peers c x))"

lemma justified_simps [simp]:
  "justified l (Inr svc) None peers c x = bootstraps l peers c x"
  "justified l (Inr svc) (Some ms) peers c x = warranted l ms peers c x"
  "justified l (Inl err) members peers c (Create (OService s) e) \<longleftrightarrow>
     IsNotFound (Some err) \<and> s = headlessServiceForCluster l c"
  by (auto simp: justified_def)

definition one_justified :: "lib \<Rightarrow> (api_error + Service) \<Rightarrow> Member list option \<Rightarrow> EtcdPeer list \<Rightarrow> EtcdCluster \<Rightarrow> call list \<Rightarrow> bool" where
  "one_justified l a members peers c tr \<longleftrightarrow>
     mutations tr = [] \<or> (\<exists>x. mutations tr = [x] \<and> justified l a members peers c x)"

lemma one_justified_simps [simp]:
  "one_justified l a members peers c []"
  "is_mutation x \<Longrightarrow> one_justified l a members peers c [x] \<longleftrightarrow> justified l a members peers c x"
  "\<not> is_mutation x \<Longrightarrow> one_justified l a members peers c (x # tr) \<longleftrightarrow> one_justified l a members peers c tr"
  by (simp_all add: one_justified_def)

definition step_ok ::
    "lib \<Rightarrow> (api_error + Service) \<Rightarrow> Member list option \<Rightarrow> EtcdPeer list \<Rightarrow> EtcdCluster \<Rightarrow> step_result \<Rightarrow> call list \<Rightarrow> bool" where
  "step_ok l a members peers c r tr \<longleftrightarrow>
     list_all step_call tr \<and> reported r tr \<and> one_justified l a members peers c tr"

lemma reported_read [simp]: "\<not> is_mutation x \<Longrightarrow> reported r (x # tr) \<longleftrightarrow> reported r tr"
  by (cases r) (auto simp: reported_def)

lemma step_ok_read [simp]:
  "\<not> is_mutation x \<Longrightarrow> step_call x \<Longrightarrow>
   step_ok l a members peers c r (x # tr) \<longleftrightarrow> step_ok l a members peers c r tr"
  by (simp add: step_ok_def)

lemma step_ok_single [simp]:
  "is_mutation x \<Longrightarrow> step_ok l a members peers c r [x] \<longleftrightarrow> reported r [x] \<and> justified l a members peers c x"
  by (cases x) (simp_all add: step_ok_def)

lemma step_ok_nothing [simp]: "step_ok l a members peers c idle []"
    "step_ok l a members peers c (fails err) []" "step_ok l a members peers c Panic []"
  by (simp_all add: step_ok_def)

lemma reconcileNoContact_ok: "emits (reconcileNoContact l cl peers c) (step_ok l (Inr svc) None peers c)"
  unfolding reconcileNoContact_def
  by (intro emits_if emits_bind [OF createBootstrapPeer_emits] emits_return)
    (auto simp: bootstraps_def split: outcome.splits option.split)

lemma reconcileMembers_ok: "emits (reconcileMembers l cl e ms peers c) (step_ok l (Inr svc) (Some ms) peers c)"
proof -
  have scale: "emits (scaleMembers e c peers ms) (step_ok l (Inr svc) (Some ms) peers c)"
    if "settled peers ms" "no_surplus peers ms" "nextOutdatedPeer c peers = None"
    by (rule emits_mono [OF scaleMembers_emits]) (use that in \<open>auto simp: step_ok_def one_justified_def\<close>)
  have upgrade: "emits (do { u \<leftarrow> upgradePeer cl c peers;
         case u of Some out \<Rightarrow> ret out | None \<Rightarrow> scaleMembers e c peers ms })
       (step_ok l (Inr svc) (Some ms) peers c)"
    if "settled peers ms" "no_surplus peers ms"
    by (rule emits_bind [OF upgradePeer_emits])
      (use that scale in \<open>auto intro!: emits_return split: option.split\<close>)
  have surplus: "emits (do { s \<leftarrow> removeSurplusPeer l cl (map mem_Name ms) peers;
         case s of Some out \<Rightarrow> ret out
         | None \<Rightarrow> do { u \<leftarrow> upgradePeer cl c peers;
             case u of Some out \<Rightarrow> ret out | None \<Rightarrow> scaleMembers e c peers ms } })
       (step_ok l (Inr svc) (Some ms) peers c)"
    if "settled peers ms"
    by (rule emits_bind [OF removeSurplusPeer_emits])
      (use that upgrade in \<open>auto intro!: emits_return simp: no_surplus_def split: option.split\<close>)
  show ?thesis
    unfolding reconcileMembers_def
    by (rule emits_bind [OF addMissingPeer_emits])
      (use surplus in \<open>(auto intro!: emits_return simp: settled_def split: option.split; blast)\<close>)
qed

lemma reconcile_ok:
  "emits (reconcile l cl e members peers c) (\<lambda>r tr.
     \<exists>a tr'. tr = GetService (serviceName c) a # tr' \<and> step_ok l a members peers c r tr')"
  unfolding reconcile_def
proof (rule emits_bind [OF hasService_emits])
  fix r tr
  assume "\<exists>a. tr = [GetService (serviceName c) a] \<and>
     r = (case a of Inl err \<Rightarrow> if IsNotFound (Some err) then Inr False else Inl err | Inr _ \<Rightarrow> Inr True)"
  then obtain a where tr: "tr = [GetService (serviceName c) a]" 
    and r: "r = (case a of Inl err \<Rightarrow> if IsNotFound (Some err) then Inr False else Inl err | Inr _ \<Rightarrow> Inr True)"
    by blast
  show "emits (case r of
       Inl err \<Rightarrow>
         ret (fails (Wrap ''unable to fetch service from Kubernetes API: '' (ApiError err)))
     | Inr found \<Rightarrow>
         if \<not> found then do {
           r \<leftarrow> createService l cl c;
           ret (case r of
                  Inl err \<Rightarrow> fails (Wrap ''unable to create service: '' (ApiError err))
                | Inr serviceCreatedEvent \<Rightarrow> acts serviceCreatedEvent)
         } else
           (case members of
              None \<Rightarrow> reconcileNoContact l cl peers c
            | Some ms \<Rightarrow> reconcileMembers l cl e ms peers c))
     (\<lambda>r' tr'. \<exists>a tr''. tr @ tr' = GetService (serviceName c) a # tr'' \<and> step_ok l a members peers c r' tr'')"
    unfolding tr
    by (intro emits_case_sum emits_if emits_case_option emits_return emits_bind [OF createService_emits])
      (auto simp: r split: option.split sum.splits if_splits
        intro!: emits_mono [OF reconcileNoContact_ok] emits_mono [OF reconcileMembers_ok])
qed

end
