(* ===== verification/ClusterProgress.thy ===== *)
theory ClusterProgress
  imports ClusterCorrect
begin

text \<open>
  Progress of the EtcdCluster controller: with a member list, a reconciliation acts, or waits for
  the world, or has nothing left to do.
\<close>

section \<open>Acting, waiting, converged\<close>

text \<open>States in which there is nothing to do, and states in which the controller waits.\<close>

definition converged :: "EtcdPeer list \<Rightarrow> Member list \<Rightarrow> EtcdCluster \<Rightarrow> bool" where
  "converged peers ms c \<longleftrightarrow>
     settled peers ms \<and> no_surplus peers ms \<and> nextOutdatedPeer c peers = None \<and>
     hasTooFewMembers c ms = Return False \<and> hasTooManyMembers c ms = Return False"

definition waiting :: "EtcdPeer list \<Rightarrow> Member list \<Rightarrow> EtcdCluster \<Rightarrow> bool" where
  "waiting peers ms c \<longleftrightarrow>
     (\<forall>m \<in> set ms. hasPeerForMember peers m = Inr True) \<and> (\<exists>m \<in> set ms. mem_Name m = []) \<or>
     (\<exists>p. nextOutdatedPeer c peers = Some p \<and>
        (ps_Version (peer_spec p) = cs_Version (cluster_spec c) \<or> (\<exists>t. DeletionTimestamp (peer_meta p) = Some t)))"

text \<open>
  A reconciliation that neither acts nor is idle: it cannot build a client or cannot read the URL of
  a member, or the desired size is missing or negative.
\<close>

definition obstructed :: "Member list \<Rightarrow> EtcdCluster \<Rightarrow> step_result \<Rightarrow> call list \<Rightarrow> bool" where
  "obstructed ms c r tr \<longleftrightarrow>
     (\<exists>err. r = fails err) \<and>
       ((\<exists>cfg msg. EtcdNew cfg (Some msg) \<in> set tr) \<or> (\<exists>m \<in> set ms. isl (peerNameForMember m))) \<or>
     r = Panic \<and> (case cs_Replicas (cluster_spec c) of None \<Rightarrow> True | Some n \<Rightarrow> sint n < 0)"

definition progresses :: "EtcdPeer list \<Rightarrow> Member list \<Rightarrow> EtcdCluster \<Rightarrow> step_result \<Rightarrow> call list \<Rightarrow> bool" where
  "progresses peers ms c r tr \<longleftrightarrow>
     (\<exists>x. mutations tr = [x]) \<or> obstructed ms c r tr \<or>
     r = idle \<and> (waiting peers ms c \<or> converged peers ms c)"

lemma progresses_simps [simp]:
  "is_mutation x \<Longrightarrow> progresses peers ms c r [x]"
  "m \<in> set ms \<Longrightarrow> isl (peerNameForMember m) \<Longrightarrow> progresses peers ms c (fails err) tr"
  "EtcdNew cfg (Some msg) \<in> set tr \<Longrightarrow> progresses peers ms c (fails err) tr"
  "waiting peers ms c \<Longrightarrow> progresses peers ms c idle tr"
  unfolding progresses_def obstructed_def by auto

lemma scaleMembers_progresses:
  assumes "settled peers ms" "no_surplus peers ms" "nextOutdatedPeer c peers = None"
  shows "emits (scaleMembers e c peers ms) (progresses peers ms c)"
  unfolding scaleMembers_def
proof (intro emits_case_outcome emits_if emits_return, goal_cases)
  case (2 tooFew)
  show ?case
    by (rule emits_bind [OF addNewMember_emits], rule emits_return)
      (auto simp: progresses_def obstructed_def isl_def split: list.split)
next
  case (4 tooFew tooMany)
  then have "case cs_Replicas (cluster_spec c) of None \<Rightarrow> True | Some n \<Rightarrow> sint n < 0" if "ms = []"
    using that by (auto simp: hasTooManyMembers_def int32_len_def word_sless_alt split: option.splits)
  then show ?case
    by (intro emits_bind [OF removeMember_emits] emits_return)
      (auto simp: progresses_def obstructed_def split: list.split)
next
  case (5 tooFew tooMany)
  then show ?case using assms by (simp add: progresses_def converged_def)
qed (auto simp: progresses_def obstructed_def hasTooFewMembers_def hasTooManyMembers_def split: option.splits)

lemma upgradePeer_waits:
  "emits (upgradePeer cl c peers) (\<lambda>r tr.
     r = None \<and> tr = [] \<and> nextOutdatedPeer c peers = None \<or>
     r = Some idle \<and> tr = [] \<and> waiting peers ms c \<or> (\<exists>p out e. r = Some out \<and> tr = [Delete (OPeer p) e]))"
  unfolding upgradePeer_def call_defs
  by (intro emits_steps) (auto simp: waiting_def)

lemma reconcileMembers_progresses:
  "emits (reconcileMembers l cl e ms peers c) (progresses peers ms c)"
proof -
  have upgrade: "emits (do { u \<leftarrow> upgradePeer cl c peers;
         case u of Some out \<Rightarrow> ret out | None \<Rightarrow> scaleMembers e c peers ms })
       (progresses peers ms c)"
    if "settled peers ms" "no_surplus peers ms"
    by (rule emits_bind [OF upgradePeer_waits [of _ _ _ ms]])
      (use that scaleMembers_progresses in \<open>auto intro!: emits_return\<close>)
  have surplus: "emits (do { s \<leftarrow> removeSurplusPeer l cl (map mem_Name ms) peers;
         case s of Some out \<Rightarrow> ret out
         | None \<Rightarrow> do { u \<leftarrow> upgradePeer cl c peers;
             case u of Some out \<Rightarrow> ret out | None \<Rightarrow> scaleMembers e c peers ms } })
       (progresses peers ms c)"
    if "settled peers ms"
    by (rule emits_bind [OF removeSurplusPeer_emits])
      (use that upgrade in \<open>auto intro!: emits_return simp: no_surplus_def\<close>)
  have unstable: "progresses peers ms c idle []" if "\<not> isAllMembersStable ms" "\<forall>m \<in> set ms. hasPeerForMember peers m = Inr True"
    using that by (auto simp: progresses_def waiting_def isAllMembersStable_def list_all_iff)
  show ?thesis
    unfolding reconcileMembers_def
    by (rule emits_bind [OF addMissingPeer_emits])
      (use surplus unstable in \<open>auto intro!: emits_return simp: settled_def\<close>)
qed

section \<open>A reconciliation as a whole\<close>

lemma reconcile_progresses:
  "emits (reconcile l cl e members peers c) (\<lambda>r tr.
     \<forall>svc steps ms. tr = GetService (serviceName c) (Inr svc) # steps \<longrightarrow> members = Some ms \<longrightarrow>
       progresses peers ms c r steps)"
proof -
  have found: "emits (case members of None \<Rightarrow> reconcileNoContact l cl peers c | Some ms \<Rightarrow> reconcileMembers l cl e ms peers c)
      (\<lambda>r tr. \<forall>ms. members = Some ms \<longrightarrow> progresses peers ms c r tr)"
    by (intro emits_case_option emits_mono [OF reconcileNoContact_ok] emits_mono [OF reconcileMembers_progresses]) auto
  have missing: "emits (do { r \<leftarrow> createService l cl c;
         ret (case r of Inl err \<Rightarrow> fails (Wrap ''unable to create service: '' (ApiError err))
              | Inr serviceCreatedEvent \<Rightarrow> acts serviceCreatedEvent) }) (\<lambda>_ _. True)"
    by (intro emits_bind [OF createService_emits] emits_return) simp
  show ?thesis
    unfolding reconcile_def
  proof (rule emits_bind [OF hasService_emits], elim exE conjE, goal_cases)
    case (1 r tr a)
    show ?case
      unfolding 1
      by (cases a) (auto intro!: emits_return emits_mono [OF missing] emits_mono [OF found])
  qed
qed

lemma reconcile_steps:
  "emits (reconcile l cl e members peers c) (\<lambda>r tr.
     \<exists>a tr'. tr = GetService (serviceName c) a # tr' \<and> step_ok l a members peers c r tr' \<and>
       (\<forall>svc ms. a = Inr svc \<longrightarrow> members = Some ms \<longrightarrow> progresses peers ms c r tr'))"
  by (rule emits_mono [OF emits_conj [OF reconcile_ok reconcile_progresses]]) auto

end
