(* ===== verification/ClusterHandler.thy ===== *)
theory ClusterHandler
  imports ClusterProgress
begin

text \<open>
  The EtcdCluster handler as a whole. \<open>cluster_pass\<close> is the grammar of its passes: which calls
  one run of \<open>Reconcile\<close> makes, in which order, and what it returns; every run follows it,
  whatever the API server and etcd answer. The properties of the controller are read off it.
\<close>

section \<open>The status does not steer the controller\<close>

lemma names_status [simp]:
  "serviceName (c\<lparr>cluster_status := s\<rparr>) = serviceName c"
  "nthPeerName (c\<lparr>cluster_status := s\<rparr>) = nthPeerName c"
  "expectedURLForPeer (c\<lparr>cluster_status := s\<rparr>) = expectedURLForPeer c"
  "clusterLabels (c\<lparr>cluster_status := s\<rparr>) = clusterLabels c"
  "etcdClientConfig (c\<lparr>cluster_status := s\<rparr>) = etcdClientConfig c"
  "newMemberURL (c\<lparr>cluster_status := s\<rparr>) = newMemberURL c"
  by (auto simp: serviceName_def nthPeerName_def expectedURLForPeer_def clusterLabels_def
      etcdClientConfig_def newMemberURL_def intro!: ext)

lemma objects_status [simp]:
  "headlessServiceForCluster l (c\<lparr>cluster_status := s\<rparr>) = headlessServiceForCluster l c"
  "peerForCluster l (c\<lparr>cluster_status := s\<rparr>) = peerForCluster l c"
  "expectedPeerNamesForCluster (c\<lparr>cluster_status := s\<rparr>) = expectedPeerNamesForCluster c"
  "initialClusterMembersFromMemberList (c\<lparr>cluster_status := s\<rparr>) = initialClusterMembersFromMemberList c"
  by (auto simp: headlessServiceForCluster_def peerForCluster_def expectedPeerNamesForCluster_def
      initialClusterMembersFromMemberList_def split: option.split sum.split intro!: ext)

lemma nextAvailablePeerName_status [simp]:
  "nextAvailablePeerName (c\<lparr>cluster_status := s\<rparr>) peers = nextAvailablePeerName c peers"
proof -
  have "nextAvailablePeerNameFrom (c\<lparr>cluster_status := s\<rparr>) peers i = nextAvailablePeerNameFrom c peers i" for i
    by (induction c peers i rule: nextAvailablePeerNameFrom.induct)
      (subst nextAvailablePeerNameFrom.simps, subst (2) nextAvailablePeerNameFrom.simps, simp add: Let_def)
  then show ?thesis by (simp add: nextAvailablePeerName_def)
qed

lemma decisions_status [simp]:
  "hasTooFewPeers (c\<lparr>cluster_status := s\<rparr>) = hasTooFewPeers c"
  "hasTooFewMembers (c\<lparr>cluster_status := s\<rparr>) = hasTooFewMembers c"
  "hasTooManyMembers (c\<lparr>cluster_status := s\<rparr>) = hasTooManyMembers c"
  "nextOutdatedPeer (c\<lparr>cluster_status := s\<rparr>) = nextOutdatedPeer c"
  "bootstrapPeer l (c\<lparr>cluster_status := s\<rparr>) = bootstrapPeer l c"
  "joiningPeer l (c\<lparr>cluster_status := s\<rparr>) = joiningPeer l c"
  by (auto simp: hasTooFewPeers_def hasTooFewMembers_def hasTooManyMembers_def nextOutdatedPeer_def
      bootstrapPeer_def joiningPeer_def configurePeerBootstrap_def initialClusterMembers_def
      configureJoinExistingCluster_def split: option.split outcome.split intro!: ext)

lemma justified_status [simp]:
  "justified l a members peers (c\<lparr>cluster_status := s\<rparr>) x = justified l a members peers c x"
  by (cases x) (simp_all add: justified_def bootstraps_def split: sum.split option.split)

lemma step_ok_status [simp]:
  "step_ok l a members peers (c\<lparr>cluster_status := s\<rparr>) r tr = step_ok l a members peers c r tr"
  by (simp add: step_ok_def one_justified_def)

lemma progresses_status [simp]:
  "progresses peers ms (c\<lparr>cluster_status := s\<rparr>) r tr = progresses peers ms c r tr"
  by (simp add: progresses_def obstructed_def waiting_def converged_def)

lemma updateStatus_status: "\<exists>s. Cluster_updateStatus c members peers v = c\<lparr>cluster_status := s\<rparr>"
  unfolding Cluster_updateStatus_def Let_def by blast

lemma updateStatus_simps [simp]:
  "serviceName (Cluster_updateStatus c members peers v) = serviceName c"
  "step_ok l a ms ps (Cluster_updateStatus c members peers v) r tr = step_ok l a ms ps c r tr"
  "progresses ps ms' (Cluster_updateStatus c members peers v) r tr = progresses ps ms' c r tr"
  using updateStatus_status [of c members peers v] by auto

section \<open>Parts of a pass\<close>

text \<open>Dialling: the configuration used, the calls made, and what they yield.\<close>

inductive dialled :: "EtcdConfig \<Rightarrow> call list \<Rightarrow> Member list option \<Rightarrow> string \<Rightarrow> bool" for cfg where
  no_client: "dialled cfg [EtcdNew cfg (Some msg)] None []"
| asked: "dialled cfg [EtcdNew cfg None, EtcdList cfg a, EtcdGetVersion cfg b]
     (case a of Inl _ \<Rightarrow> None | Inr ms \<Rightarrow> Some ms) (case b of Inl _ \<Rightarrow> [] | Inr vs \<Rightarrow> ver_Cluster vs)"

lemma dialCluster_emits:
  "emits (dialCluster e c) (\<lambda>r tr. dialled (etcdClientConfig c) tr (fst r) (snd r))"
  unfolding dialCluster_def call_defs by (intro emits_steps) (auto intro: dialled.intros)

lemma dialled_quiet [simp]: "dialled cfg tr ms v \<Longrightarrow> mutations tr = [] \<and> actions tr = [] \<and> recorded tr = []"
  by (erule dialled.cases) simp_all

lemma dialled_members:
  "dialled cfg tr ms v \<Longrightarrow> EtcdList cfg (Inr l) \<in> set tr \<longleftrightarrow> ms = Some l"
  by (erule dialled.cases) (auto split: sum.splits)

text \<open>The event published for a step, and the status patch.\<close>

fun published :: "ClusterEvent \<Rightarrow> event" where
  "published (ServiceCreatedEvent obj n) =
     mk_event obj K8sEventTypeNormal ''ServiceCreated'' (''Created service with name '' @ quoted n)"
| "published (PeerCreatedEvent obj n) =
     mk_event obj K8sEventTypeNormal ''PeerCreated'' (''Created a new EtcdPeer with name '' @ quoted n)"
| "published (PeerRemovedEvent obj n) =
     mk_event obj K8sEventTypeNormal ''PeerRemoved'' (''Removed EtcdPeer with name '' @ quoted n)"
| "published (MemberAddedEvent obj m n) =
     mk_event obj K8sEventTypeNormal ''MemberAdded'' (''Added a new member with name '' @ quoted n)"
| "published (MemberRemovedEvent obj m n) =
     mk_event obj K8sEventTypeNormal ''MemberRemoved'' (''Removed a member with name '' @ quoted n)"

fun events_of :: "step_result \<Rightarrow> call list" where
  "events_of (Return (_, Some ev, _)) = [Recorded (published ev)]"
| "events_of _ = []"

fun result_of :: "step_result \<Rightarrow> reconciled" where
  "result_of Panic = Panic"
| "result_of (Return (result, _, err)) = Return (result, map_option (Text ''Failed to reconcile: '') err)"

lemma ClusterEvent_Record_emits: "emits (ClusterEvent_Record ev) (\<lambda>_ tr. tr = [Recorded (published ev)])"
  by (cases ev) (simp_all add: emits_record_event)

fun with_patch_error :: "reconciled \<Rightarrow> api_error option \<Rightarrow> reconciled" where
  "with_patch_error (Return (result, reterr)) (Some e) =
     Return (result, NewAggregate
       [reterr, Some (Text ''error while patching EtcdCluster.Status: '' (ApiError e))])"
| "with_patch_error out _ = out"

inductive status_patched :: "EtcdCluster \<Rightarrow> EtcdCluster \<Rightarrow> reconciled \<Rightarrow> call list \<Rightarrow> reconciled \<Rightarrow> bool"
  for original cluster out where
  unchanged: "cluster_status original = cluster_status cluster \<Longrightarrow> status_patched original cluster out [] out"
| patched: "cluster_status original \<noteq> cluster_status cluster \<Longrightarrow>
     status_patched original cluster out [StatusPatch (OCluster cluster) (OCluster original) a]
       (with_patch_error out a)"

lemma patchClusterStatus_emits:
  "emits (patchClusterStatus cl original cluster out) (\<lambda>r tr. status_patched original cluster out tr r)"
proof (cases "cluster_status original = cluster_status cluster")
  case True
  then show ?thesis by (simp add: patchClusterStatus_def emits_return unchanged)
next
  case False
  have "(case a of None \<Rightarrow> out
        | Some e \<Rightarrow> (case out of Panic \<Rightarrow> Panic
           | Return (result, reterr) \<Rightarrow> Return (result, NewAggregate
                [reterr, Some (Text ''error while patching EtcdCluster.Status: '' (ApiError e))])))
      = with_patch_error out a" for a
    by (cases "(out, a)" rule: with_patch_error.cases) (auto split: option.splits)
  with False show ?thesis
    unfolding patchClusterStatus_def call_defs
    by (auto intro!: emits_steps patched)
qed

lemma status_patched_quiet [simp]:
  "status_patched original cluster out tr r \<Longrightarrow> actions tr = [] \<and> recorded tr = []"
  by (erule status_patched.cases) simp_all

lemma finish_emits:
  "emits (case out of
       Panic \<Rightarrow> patchClusterStatus cl original cluster Panic
     | Return (result, ev, err) \<Rightarrow> do {
         (case ev of None \<Rightarrow> ret () | Some ev \<Rightarrow> ClusterEvent_Record ev);
         patchClusterStatus cl original cluster
           (Return (result, map_option (Text ''Failed to reconcile: '') err))
       })
     (\<lambda>r tr. \<exists>pat. tr = events_of out @ pat \<and> status_patched original cluster (result_of out) pat r)"
proof (cases out)
  case Panic
  then show ?thesis by (auto intro: emits_mono [OF patchClusterStatus_emits])
next
  case (Return x)
  obtain result ev err where x: "x = (result, ev, err)" by (cases x) auto
  have "emits (case ev of None \<Rightarrow> ret () | Some ev \<Rightarrow> ClusterEvent_Record ev) (\<lambda>_ tr. tr = events_of out)"
    by (cases ev) (auto simp: Return x intro: emits_return emits_mono [OF ClusterEvent_Record_emits])
  then show ?thesis
    unfolding Return x outcome.case prod.case
    by (rule emits_bind) (auto intro: emits_mono [OF patchClusterStatus_emits])
qed

section \<open>The passes of the handler\<close>

inductive cluster_pass :: "lib \<Rightarrow> semver \<Rightarrow> NamespacedName \<Rightarrow> reconciled \<Rightarrow> call list \<Rightarrow> bool"
  for l sv req where
  gone: "cluster_pass l sv req (Return (emptyResult, map_option ApiError (IgnoreNotFound (Some err))))
     [GetCluster req (Inl err)]"
| invalid: "EtcdCluster_ValidateCreate sv fetched \<noteq> None \<Longrightarrow>
     cluster_pass l sv req (Return (emptyResult, None)) [GetCluster req (Inr fetched)]"
| no_peers:
    "c = EtcdCluster_Default fetched \<Longrightarrow> EtcdCluster_ValidateCreate sv fetched = None \<Longrightarrow>
     dialled (etcdClientConfig c) dial members v \<Longrightarrow>
     cluster_pass l sv req
       (Return (emptyResult, Some (Wrap ''unable to list peers: '' (ApiError err))))
       (GetCluster req (Inr fetched) # dial @ [ListPeers (cluster_Namespace c) (cluster_Name c) (Inl err)])"
| full:
    "c = EtcdCluster_Default fetched \<Longrightarrow> EtcdCluster_ValidateCreate sv fetched = None \<Longrightarrow>
     dialled (etcdClientConfig c) dial members v \<Longrightarrow>
     step_ok l a members peers c r steps \<Longrightarrow>
     status_patched c (Cluster_updateStatus c members peers v) (result_of r) pat out \<Longrightarrow>
     (\<And>svc ms. a = Inr svc \<Longrightarrow> members = Some ms \<Longrightarrow> progresses peers ms c r steps) \<Longrightarrow>
     cluster_pass l sv req out
       (GetCluster req (Inr fetched) # dial @ ListPeers (cluster_Namespace c) (cluster_Name c) (Inr peers) #
        GetService (serviceName c) a # steps @ events_of r @ pat)"

lemma Cluster_Reconcile_pass:
  "emits (Cluster_Reconcile l sv cl e req) (cluster_pass l sv req)"
  unfolding Cluster_Reconcile_def get_Cluster_def
proof (rule emits_bind_call, rule emits_case_sum, goal_cases)
  case (1 r err)
  then show ?case by (auto intro!: emits_return gone)
next
  case (2 r fetched)
  let ?c = "EtcdCluster_Default fetched"
  show ?case unfolding Let_def 2
  proof (rule emits_case_option, goal_cases)
    case (2 err)
    then show ?case by (auto intro!: emits_return invalid simp: cluster_admission.ValidateCreate_Default)
  next
    case 1
    then have valid: "EtcdCluster_ValidateCreate sv fetched = None"
      by (simp add: cluster_admission.ValidateCreate_Default)
    show ?case
    proof (rule emits_bind [OF dialCluster_emits], rule emits_case_prod, unfold call_defs,
        rule emits_bind_call, rule emits_case_sum, goal_cases)
      case (1 d dial members v ps err)
      then have "dialled (etcdClientConfig ?c) dial members v" by simp
      note no_peers [OF refl valid this, of l req err]
      with 1 show ?case by (auto simp: patchClusterStatus_def intro!: emits_return)
    next
      case (2 d dial members v ps peers)
      then have d: "dialled (etcdClientConfig ?c) dial members v" by simp
      let ?c' = "Cluster_updateStatus ?c members peers v"
      have "cluster_pass l sv req r (GetCluster req (Inr fetched) # dial @
          ListPeers (cluster_Namespace ?c) (cluster_Name ?c) (Inr peers) #
          GetService (serviceName ?c) a # steps @ events_of out @ pat)"
        if "step_ok l a members peers ?c out steps" "status_patched ?c ?c' (result_of out) pat r"
          "\<forall>svc ms. a = Inr svc \<longrightarrow> members = Some ms \<longrightarrow> progresses peers ms ?c out steps"
        for a out steps pat r
        using full [OF refl valid d that(1,2)] that(3) by blast
      then show ?case
        unfolding 2 Let_def
        by (intro emits_bind [OF reconcile_steps] emits_mono [OF finish_emits]) auto
    qed
  qed
qed

end
