(* ===== verification/MemServer.thy ===== *)
theory MemServer
  imports Client
begin

text \<open>
  A small in-memory API server and etcd cluster: one concrete instance of the clients the model is
  parametrised by. Objects are kept in a list, identified by kind, namespace and name; an object
  with finalizers is only marked as being deleted. The examples and witnesses run on it; no theorem
  about the operator assumes it.
\<close>

fun kind_of :: "object \<Rightarrow> string" where
  "kind_of (OCluster _) = ''EtcdCluster''"
| "kind_of (OPeer _) = ''EtcdPeer''"
| "kind_of (OBackup _) = ''EtcdBackup''"
| "kind_of (OBackupSchedule _) = ''EtcdBackupSchedule''"
| "kind_of (ORestore _) = ''EtcdRestore''"
| "kind_of (OService _) = ''Service''"
| "kind_of (OPVC _) = ''PersistentVolumeClaim''"
| "kind_of (OReplicaSet _) = ''ReplicaSet''"
| "kind_of (OPod _) = ''Pod''"
| "kind_of (OServiceAccount _) = ''ServiceAccount''"

fun map_meta :: "(ObjectMeta \<Rightarrow> ObjectMeta) \<Rightarrow> object \<Rightarrow> object" where
  "map_meta f (OCluster c) = OCluster (c\<lparr>cluster_meta := f (cluster_meta c)\<rparr>)"
| "map_meta f (OPeer p) = OPeer (p\<lparr>peer_meta := f (peer_meta p)\<rparr>)"
| "map_meta f (OBackup b) = OBackup (b\<lparr>backup_meta := f (backup_meta b)\<rparr>)"
| "map_meta f (OBackupSchedule s) = OBackupSchedule (s\<lparr>schedule_meta := f (schedule_meta s)\<rparr>)"
| "map_meta f (ORestore r) = ORestore (r\<lparr>restore_meta := f (restore_meta r)\<rparr>)"
| "map_meta f (OService s) = OService (s\<lparr>svc_meta := f (svc_meta s)\<rparr>)"
| "map_meta f (OPVC p) = OPVC (p\<lparr>pvc_meta := f (pvc_meta p)\<rparr>)"
| "map_meta f (OReplicaSet r) = OReplicaSet (r\<lparr>rs_meta := f (rs_meta r)\<rparr>)"
| "map_meta f (OPod p) = OPod (p\<lparr>pod_meta := f (pod_meta p)\<rparr>)"
| "map_meta f (OServiceAccount s) = OServiceAccount (s\<lparr>sa_meta := f (sa_meta s)\<rparr>)"

text \<open>The server's objects, and the members of etcd if it can be reached.\<close>

record mem =
  objects :: "object list"
  etcd :: "Member list option"

definition is_at :: "string \<Rightarrow> NamespacedName \<Rightarrow> object \<Rightarrow> bool" where
  "is_at kind k obj \<longleftrightarrow> kind_of obj = kind \<and> key_of (object_meta obj) = k"

definition same_object :: "object \<Rightarrow> object \<Rightarrow> bool" where
  "same_object a b = is_at (kind_of a) (key_of (object_meta a)) b"

definition mem_get :: "string \<Rightarrow> (object \<Rightarrow> 'a option) \<Rightarrow> NamespacedName \<Rightarrow> mem \<Rightarrow> (api_error + 'a) \<times> mem" where
  "mem_get kind proj k w =
     (case find (is_at kind k) (objects w) of
        None \<Rightarrow> (Inl NotFound, w)
      | Some obj \<Rightarrow> (case proj obj of None \<Rightarrow> (Inl NotFound, w) | Some x \<Rightarrow> (Inr x, w)))"

definition mem_create :: "object \<Rightarrow> mem \<Rightarrow> api_error option \<times> mem" where
  "mem_create obj w =
     (if list_ex (same_object obj) (objects w) then (Some AlreadyExists, w)
      else (None, w\<lparr>objects := objects w @ [obj]\<rparr>))"

definition mem_update :: "object \<Rightarrow> mem \<Rightarrow> api_error option \<times> mem" where
  "mem_update obj w =
     (if list_ex (same_object obj) (objects w)
      then (None, w\<lparr>objects := map (\<lambda>x. if same_object obj x then obj else x) (objects w)\<rparr>)
      else (Some NotFound, w))"

definition mem_delete :: "object \<Rightarrow> mem \<Rightarrow> api_error option \<times> mem" where
  "mem_delete obj w =
     (case find (same_object obj) (objects w) of
        None \<Rightarrow> (Some NotFound, w)
      | Some x \<Rightarrow>
          if Finalizers (object_meta x) = []
          then (None, w\<lparr>objects := filter (\<lambda>y. \<not> same_object obj y) (objects w)\<rparr>)
          else mem_update (map_meta (\<lambda>m. m\<lparr>DeletionTimestamp := Some 0\<rparr>) x) w)"

definition mem_list_Peers :: "string \<Rightarrow> string \<Rightarrow> mem \<Rightarrow> (api_error + EtcdPeer list) \<times> mem" where
  "mem_list_Peers ns name w =
     (Inr (List.map_filter (\<lambda>obj. case obj of
        OPeer p \<Rightarrow> if Namespace (peer_meta p) = ns \<and> ps_ClusterName (peer_spec p) = name then Some p else None
      | _ \<Rightarrow> None) (objects w)), w)"

definition mem_client :: "mem client" where
  "mem_client =
     \<lparr>c_get_Cluster = mem_get ''EtcdCluster'' (\<lambda>x. case x of OCluster c \<Rightarrow> Some c | _ \<Rightarrow> None),
      c_get_Peer = mem_get ''EtcdPeer'' (\<lambda>x. case x of OPeer c \<Rightarrow> Some c | _ \<Rightarrow> None),
      c_get_Backup = mem_get ''EtcdBackup'' (\<lambda>x. case x of OBackup c \<Rightarrow> Some c | _ \<Rightarrow> None),
      c_get_BackupSchedule =
        mem_get ''EtcdBackupSchedule'' (\<lambda>x. case x of OBackupSchedule c \<Rightarrow> Some c | _ \<Rightarrow> None),
      c_get_Restore = mem_get ''EtcdRestore'' (\<lambda>x. case x of ORestore c \<Rightarrow> Some c | _ \<Rightarrow> None),
      c_get_Service = mem_get ''Service'' (\<lambda>x. case x of OService c \<Rightarrow> Some c | _ \<Rightarrow> None),
      c_get_PVC = mem_get ''PersistentVolumeClaim'' (\<lambda>x. case x of OPVC c \<Rightarrow> Some c | _ \<Rightarrow> None),
      c_get_ReplicaSet = mem_get ''ReplicaSet'' (\<lambda>x. case x of OReplicaSet c \<Rightarrow> Some c | _ \<Rightarrow> None),
      c_get_Pod = mem_get ''Pod'' (\<lambda>x. case x of OPod c \<Rightarrow> Some c | _ \<Rightarrow> None),
      c_get_ServiceAccount =
        mem_get ''ServiceAccount'' (\<lambda>x. case x of OServiceAccount c \<Rightarrow> Some c | _ \<Rightarrow> None),
      c_list_Peers = mem_list_Peers,
      c_create = mem_create,
      c_update = mem_update,
      c_delete = mem_delete,
      c_patch = (\<lambda>new base. mem_update new),
      c_status_update = mem_update,
      c_status_patch = (\<lambda>new base. mem_update new)\<rparr>"

text \<open>A new member has no name until its process has started.\<close>

definition mem_etcd :: "mem etcd_api" where
  "mem_etcd =
     \<lparr>e_New = (\<lambda>cfg w. (None, w)),
      e_List = (\<lambda>cfg w. (case etcd w of None \<Rightarrow> Inl ''unreachable'' | Some ms \<Rightarrow> Inr ms, w)),
      e_Add = (\<lambda>cfg url w.
        (case etcd w of
           None \<Rightarrow> (Inl ''unreachable'', w)
         | Some ms \<Rightarrow>
             (let m = \<lparr>mem_ID = url, mem_Name = [], PeerURLs = [url], ClientURLs = []\<rparr>
              in (Inr m, w\<lparr>etcd := Some (ms @ [m])\<rparr>)))),
      e_Remove = (\<lambda>cfg i w.
        (case etcd w of
           None \<Rightarrow> (Some ''unreachable'', w)
         | Some ms \<Rightarrow> (None, w\<lparr>etcd := Some (filter (\<lambda>m. mem_ID m \<noteq> i) ms)\<rparr>))),
      e_GetVersion = (\<lambda>cfg w.
        (case etcd w of
           None \<Rightarrow> Inl ''unreachable''
         | Some _ \<Rightarrow> Inr \<lparr>ver_Server = ''3.2.28'', ver_Cluster = ''3.2.28''\<rparr>, w))\<rparr>"

definition mem_world :: "object list \<Rightarrow> Member list option \<Rightarrow> mem world" where
  "mem_world objs ms = \<lparr>server = \<lparr>objects = objs, etcd = ms\<rparr>, trace = []\<rparr>"

text \<open>Sample resources.\<close>

definition sample_meta :: "string \<Rightarrow> ObjectMeta" where
  "sample_meta n = emptyMeta\<lparr>Name := n, Namespace := ''default'', UID := n\<rparr>"

definition sample_storage :: EtcdPeerStorage where
  "sample_storage =
     \<lparr>VolumeClaimTemplate = Some
        \<lparr>AccessModes = None,
         pvc_Resources = \<lparr>Limits = [], Requests = [(''storage'', \<lparr>Sign = 1, MilliValue = 1000\<rparr>)]\<rparr>,
         VolumeMode = None, StorageClassName = Some ''standard'', VolumeName = []\<rparr>\<rparr>"

definition sample_cluster :: "int32 \<Rightarrow> EtcdCluster" where
  "sample_cluster n =
     \<lparr>cluster_meta = sample_meta ''c'',
      cluster_spec =
        \<lparr>cs_Version = ''3.2.28'', cs_Replicas = Some n, cs_Storage = Some sample_storage,
         cs_PodTemplate = None\<rparr>,
      cluster_status = \<lparr>st_Replicas = 0, st_Members = None, st_ClusterVersion = []\<rparr>\<rparr>"

definition sample_peer :: "string \<Rightarrow> EtcdPeer" where
  "sample_peer n =
     \<lparr>peer_meta = sample_meta n,
      peer_spec =
        \<lparr>ps_ClusterName = ''c'', ps_Version = ''3.2.28'',
         ps_Bootstrap = Some
           \<lparr>Static = Some \<lparr>InitialCluster = [\<lparr>icm_Name = n, icm_Host = n @ ''.c''\<rparr>]\<rparr>,
            bs_InitialClusterState = InitialClusterStateNew\<rparr>,
         ps_Storage = Some sample_storage, ps_PodTemplate = None\<rparr>,
      peer_status = \<lparr>ServerVersion = ''3.2.28''\<rparr>\<rparr>"

definition sample_member :: "string \<Rightarrow> Member" where
  "sample_member n =
     \<lparr>mem_ID = n, mem_Name = n, PeerURLs = [''http://'' @ n @ ''.c:2380''], ClientURLs = []\<rparr>"

definition sample_semver :: "string \<Rightarrow> string + int" where
  "sample_semver v = (if v = ''3.2.28'' then Inr 3 else Inl ''malformed'')"

lemmas sample_defs =
  sample_meta_def sample_storage_def sample_cluster_def sample_peer_def sample_member_def
  sample_semver_def emptyMeta_def

end
