(* ===== verification/ClusterProps.thy ===== *)
theory ClusterProps
  imports ClusterHandler MemServer
begin

text \<open>
  The properties of the EtcdCluster controller: what one pass may do, what it reports, when it has
  nothing left to do and when it must act, which names, members and peers it picks, and that it
  does not panic. The helper lemmas come first, the properties with their witnesses after them.
\<close>

section \<open>Helper lemmas\<close>

text \<open>What a pass of the handler has observed: the answers its decision rests on.\<close>

definition observed ::
    "semver \<Rightarrow> NamespacedName \<Rightarrow> call list \<Rightarrow> EtcdCluster \<Rightarrow> Member list option \<Rightarrow> EtcdPeer list \<Rightarrow>
     (api_error + Service) \<Rightarrow> bool" where
  "observed sv req tr c members peers a \<longleftrightarrow>
     (\<exists>fetched. GetCluster req (Inr fetched) \<in> set tr \<and> c = EtcdCluster_Default fetched) \<and>
     EtcdCluster_ValidateCreate sv c = None \<and>
     (\<forall>ms. EtcdList (etcdClientConfig c) (Inr ms) \<in> set tr \<longleftrightarrow> members = Some ms) \<and>
     ListPeers (cluster_Namespace c) (cluster_Name c) (Inr peers) \<in> set tr \<and>
     GetService (serviceName c) a \<in> set tr"

lemma step_ok_actions:
  assumes "step_ok l a members peers c r tr"
  shows "actions tr = mutations tr"
    and "mutations tr = [] \<or> (\<exists>x. mutations tr = [x] \<and> justified l a members peers c x)"
proof -
  show one: "mutations tr = [] \<or> (\<exists>x. mutations tr = [x] \<and> justified l a members peers c x)"
    using assms by (simp add: step_ok_def one_justified_def)
  have "\<not> is_status_write x" if "justified l a members peers c x" for x
    using that by (cases x) (auto simp: justified_def bootstraps_def split: sum.splits option.splits)
  then have "\<not> is_status_write x" if "x \<in> set (mutations tr)" for x
    using one that by auto
  then show "actions tr = mutations tr"
    unfolding actions_def mutations_def by (intro filter_cong) auto
qed

lemma full_pass_observed:
  assumes c: "c = EtcdCluster_Default fetched" and v: "EtcdCluster_ValidateCreate sv fetched = None"
    and d: "dialled (etcdClientConfig c) dial members ver" and s: "step_ok l a members peers c r steps"
    and p: "status_patched c c' out pat out'"
    and tr: "tr = GetCluster req (Inr fetched) # dial @
      ListPeers (cluster_Namespace c) (cluster_Name c) (Inr peers) #
      GetService (serviceName c) a # steps @ events_of r @ pat"
  shows "observed sv req tr c members peers a"
proof -
  have "\<not> step_call (EtcdList cfg (Inr ms))" for cfg ms by simp
  then have "EtcdList cfg (Inr ms) \<notin> set steps" for cfg ms
    using s unfolding step_ok_def list_all_iff by blast
  moreover have "EtcdList cfg (Inr ms) \<notin> set pat" for cfg ms
    using p by (auto elim!: status_patched.cases)
  moreover have "EtcdList cfg (Inr ms) \<notin> set (events_of r)" for cfg ms
    by (cases r rule: events_of.cases) auto
  ultimately show ?thesis
    using c v dialled_members [OF d]
    by (auto simp: observed_def tr cluster_admission.ValidateCreate_Default)
qed

lemma events_of_quiet [simp]: "mutations (events_of r) = []" "actions (events_of r) = []"
  by (cases r rule: events_of.cases; simp)+

lemma cluster_pass_actions:
  assumes "cluster_pass l sv req out tr"
  shows "actions tr = [] \<or>
    (\<exists>x c members peers a. actions tr = [x] \<and> observed sv req tr c members peers a \<and>
       justified l a members peers c x)"
  using assms
proof cases
  case (full c fetched dial members v a peers r steps pat)
  have obs: "observed sv req tr c members peers a"
    by (rule full_pass_observed [OF full(2,3,4,5,6,1)])
  have "actions tr = mutations steps"
    using full(4,6) step_ok_actions(1) [OF full(5)] by (simp add: full(1))
  with step_ok_actions(2) [OF full(5)] obs show ?thesis by auto
qed auto

lemma cluster_pass_no_contact:
  assumes "cluster_pass l sv req out tr"
  shows "(\<exists>cfg ms. EtcdList cfg (Inr ms) \<in> set tr) \<or> actions tr = [] \<or> (\<exists>obj e. actions tr = [Create obj e])"
proof -
  have "\<exists>obj e. x = Create obj e" if "justified l a None peers c x" for a peers c x
    using that by (auto simp: justified_def bootstraps_def split: sum.splits)
  moreover have "EtcdList (etcdClientConfig c) (Inr ms) \<in> set tr"
    if "observed sv req tr c (Some ms) peers a" for c ms peers a
    using that by (simp add: observed_def)
  ultimately show ?thesis
    using cluster_pass_actions [OF assms] by (metis not_None_eq)
qed

lemma reported_Return:
  assumes "reported (Return (result, ev, err)) tr"
  shows "result = requeueTenSeconds"
    "ev \<noteq> None \<longleftrightarrow> (\<exists>x. mutations tr = [x] \<and> \<not> failed x \<and> \<not> is_patch x)"
    "\<forall>x \<in> set (mutations tr). failed x \<longleftrightarrow> err \<noteq> None"
  using assms by (auto simp: reported_def)

lemma status_patched_report:
  assumes "status_patched original cluster (Return (result, err)) pat out"
  shows "\<exists>err'. out = Return (result, err') \<and> (err \<noteq> None \<longrightarrow> err' \<noteq> None) \<and>
    (\<forall>x \<in> set (mutations pat). failed x \<longrightarrow> err' \<noteq> None)"
  using assms
proof cases
  case (patched a)
  then show ?thesis
    by (cases a; cases err) (auto simp: NewAggregate_def map_filter_def)
qed simp

text \<open>What a pass that returned has reported.\<close>

definition pass_reported :: "call list \<Rightarrow> Result \<Rightarrow> go_error option \<Rightarrow> bool" where
  "pass_reported tr result err \<longleftrightarrow>
     length (recorded tr) \<le> 1 \<and>
     ((\<exists>ev. recorded tr = [ev]) \<longleftrightarrow> (\<exists>x. actions tr = [x] \<and> \<not> failed x \<and> \<not> is_patch x)) \<and>
     (err = None \<longrightarrow> list_all (\<lambda>x. \<not> failed x) tr) \<and>
     (actions tr \<noteq> [] \<longrightarrow> result = requeueTenSeconds)"

lemma failed_mutation: "failed x \<Longrightarrow> is_mutation x"
  by (cases x) simp_all

lemma list_all_failed: "list_all (\<lambda>x. \<not> failed x) tr \<longleftrightarrow> (\<forall>x \<in> set (mutations tr). \<not> failed x)"
  using failed_mutation by (auto simp: list_all_iff set_mutations)

lemma cluster_pass_reported:
  assumes "cluster_pass l sv req out tr"
  shows "out = Panic \<or> (\<exists>result err. out = Return (result, err) \<and> pass_reported tr result err)"
  using assms
proof cases
  case (full c fetched dial members v a peers r steps pat)
  note s = step_ok_actions [OF full(5)]
  have acts: "actions tr = mutations steps" and muts: "mutations tr = mutations steps @ mutations pat"
    and recs: "recorded tr = recorded (events_of r)"
    using full(4,5,6) s(1) step_calls_recorded [of steps] by (auto simp: full(1) step_ok_def)
  show ?thesis
  proof (cases r)
    case Panic
    then show ?thesis using full(6) by (auto elim: status_patched.cases)
  next
    case (Return y)
    obtain result ev err where y: "y = (result, ev, err)" by (cases y) auto
    have "reported (Return (result, ev, err)) steps" using full(5) by (simp add: step_ok_def Return y)
    note rep = reported_Return [OF this]
    obtain err' where out: "out = Return (result, err')" "err \<noteq> None \<longrightarrow> err' \<noteq> None"
      "\<forall>x \<in> set (mutations pat). failed x \<longrightarrow> err' \<noteq> None"
      using status_patched_report full(6) unfolding Return y result_of.simps by fastforce
    have ev: "recorded tr = (case ev of None \<Rightarrow> [] | Some e \<Rightarrow> [published e])"
      by (cases ev) (simp_all add: recs Return y)
    have "pass_reported tr result err'"
      unfolding pass_reported_def acts list_all_failed muts
      using rep out(2,3) by (auto simp: ev split: option.split)
    with out(1) show ?thesis by blast
  qed
qed (simp_all add: pass_reported_def)

text \<open>
  The status that the answers of a pass stand for: the number of peers listed, the members listed by
  etcd (or, when etcd gave no list, those the status already had) and the version etcd gave, if any.
\<close>

definition status_read :: "EtcdCluster \<Rightarrow> call list \<Rightarrow> EtcdClusterStatus \<Rightarrow> bool" where
  "status_read c tr st \<longleftrightarrow>
     (\<exists>peers. ListPeers (cluster_Namespace c) (cluster_Name c) (Inr peers) \<in> set tr \<and>
        st_Replicas st = word_of_nat (length peers)) \<and>
     ((\<exists>ms. EtcdList (etcdClientConfig c) (Inr ms) \<in> set tr \<and>
         st_Members st = Some (map (\<lambda>m. \<lparr>em_Name = mem_Name m, em_ID = mem_ID m\<rparr>) ms)) \<or>
      (\<forall>ms. EtcdList (etcdClientConfig c) (Inr ms) \<notin> set tr) \<and>
         st_Members st = Some (case st_Members (cluster_status c) of None \<Rightarrow> [] | Some old \<Rightarrow> old)) \<and>
     ((\<exists>vs. EtcdGetVersion (etcdClientConfig c) (Inr vs) \<in> set tr \<and> st_ClusterVersion st = ver_Cluster vs) \<or>
      (\<forall>vs. EtcdGetVersion (etcdClientConfig c) (Inr vs) \<notin> set tr) \<and> st_ClusterVersion st = [])"

text \<open>The peers were not listed.\<close>

fun lists_peers :: "call \<Rightarrow> bool" where
  "lists_peers (ListPeers ns n (Inr peers)) \<longleftrightarrow> True"
| "lists_peers _ \<longleftrightarrow> False"

text \<open>Only dialling asks etcd for its members and its version.\<close>

lemma full_pass_asks:
  assumes "step_ok l a members peers c r steps" "status_patched c c' out pat out'"
  shows "EtcdList cfg x \<notin> set (steps @ events_of r @ pat)" "EtcdGetVersion cfg y \<notin> set (steps @ events_of r @ pat)"
proof -
  have "\<not> step_call (EtcdList cfg x)" "\<not> step_call (EtcdGetVersion cfg y)" by simp_all
  then have "EtcdList cfg x \<notin> set steps" "EtcdGetVersion cfg y \<notin> set steps"
    using assms(1) unfolding step_ok_def list_all_iff by blast+
  moreover have "EtcdList cfg x \<notin> set pat" "EtcdGetVersion cfg y \<notin> set pat"
    using assms(2) by (auto elim!: status_patched.cases)
  moreover have "EtcdList cfg x \<notin> set (events_of r)" "EtcdGetVersion cfg y \<notin> set (events_of r)"
    by (cases r rule: events_of.cases; simp)+
  ultimately show "EtcdList cfg x \<notin> set (steps @ events_of r @ pat)" "EtcdGetVersion cfg y \<notin> set (steps @ events_of r @ pat)"
    by simp_all
qed

lemma updateStatus_read:
  assumes "dialled (etcdClientConfig c) dial members v" "ListPeers (cluster_Namespace c) (cluster_Name c) (Inr peers) \<in> set tr"
    and "\<And>x. EtcdList (etcdClientConfig c) x \<in> set tr \<longleftrightarrow> EtcdList (etcdClientConfig c) x \<in> set dial"
    and "\<And>y. EtcdGetVersion (etcdClientConfig c) y \<in> set tr \<longleftrightarrow> EtcdGetVersion (etcdClientConfig c) y \<in> set dial"
  shows "status_read c tr (cluster_status (Cluster_updateStatus c members peers v))"
  unfolding status_read_def assms(3,4)
proof (intro conjI)
  let ?st = "cluster_status (Cluster_updateStatus c members peers v)"
  show "\<exists>peers. ListPeers (cluster_Namespace c) (cluster_Name c) (Inr peers) \<in> set tr \<and> st_Replicas ?st = word_of_nat (length peers)"
    using assms(2) by (auto simp: Cluster_updateStatus_def Let_def int32_len_def)
  show "(\<exists>ms. EtcdList (etcdClientConfig c) (Inr ms) \<in> set dial \<and>
       st_Members ?st = Some (map (\<lambda>m. \<lparr>em_Name = mem_Name m, em_ID = mem_ID m\<rparr>) ms)) \<or>
     (\<forall>ms. EtcdList (etcdClientConfig c) (Inr ms) \<notin> set dial) \<and>
       st_Members ?st = Some (case st_Members (cluster_status c) of None \<Rightarrow> [] | Some old \<Rightarrow> old)"
    unfolding dialled_members [OF assms(1)]
    by (cases members) (simp_all add: Cluster_updateStatus_def Let_def split: option.split)
  show "(\<exists>vs. EtcdGetVersion (etcdClientConfig c) (Inr vs) \<in> set dial \<and> st_ClusterVersion ?st = ver_Cluster vs) \<or>
     (\<forall>vs. EtcdGetVersion (etcdClientConfig c) (Inr vs) \<notin> set dial) \<and> st_ClusterVersion ?st = []"
    using assms(1) by cases (auto simp: Cluster_updateStatus_def Let_def split: sum.split)
qed

lemma no_status_writes:
  "dialled cfg dial ms v \<Longrightarrow> filter is_status_write dial = []"
  "filter is_status_write (events_of r) = []"
  "step_ok l a members peers c r' steps \<Longrightarrow> filter is_status_write steps = []"
proof -
  show "dialled cfg dial ms v \<Longrightarrow> filter is_status_write dial = []" by (erule dialled.cases) simp_all
  show "filter is_status_write (events_of r) = []" by (cases r rule: events_of.cases) simp_all
  assume "step_ok l a members peers c r' steps"
  then have "actions steps = mutations steps" by (rule step_ok_actions)
  moreover have "is_mutation x" if "is_status_write x" for x using that by (cases x) simp_all
  ultimately show "filter is_status_write steps = []"
    unfolding actions_def mutations_def filter_empty_conv by (metis (mono_tags, lifting) mem_Collect_eq set_filter)
qed

definition status_settled :: "NamespacedName \<Rightarrow> call list \<Rightarrow> bool" where
  "status_settled req tr \<longleftrightarrow> filter lists_peers tr = [] \<or>
     (\<exists>fetched. GetCluster req (Inr fetched) \<in> set tr \<and>
        status_read (EtcdCluster_Default fetched) tr (cluster_status (EtcdCluster_Default fetched)))"

lemma cluster_pass_status:
  assumes "cluster_pass l sv req out tr"
  shows "filter is_status_write tr = [] \<and> status_settled req tr \<or>
    (\<exists>tr' fetched st err. tr = tr' @
        [StatusPatch (OCluster ((EtcdCluster_Default fetched)\<lparr>cluster_status := st\<rparr>)) (OCluster (EtcdCluster_Default fetched)) err] \<and>
      filter is_status_write tr' = [] \<and> GetCluster req (Inr fetched) \<in> set tr' \<and>
      EtcdCluster_ValidateCreate sv fetched = None \<and>
      status_read (EtcdCluster_Default fetched) tr' st \<and> st \<noteq> cluster_status (EtcdCluster_Default fetched))"
  using assms
proof cases
  case (no_peers c fetched dial members v err)
  moreover have "filter lists_peers dial = []" using no_peers(5) by cases simp_all
  ultimately show ?thesis using no_status_writes(1) [OF no_peers(5)] by (simp add: status_settled_def)
next
  case (full c fetched dial members v a peers r steps pat)
  note none = no_status_writes(1) [OF full(4)] no_status_writes(2) [of r] no_status_writes(3) [OF full(5)]
  let ?tr' = "GetCluster req (Inr fetched) # dial @
      ListPeers (cluster_Namespace c) (cluster_Name c) (Inr peers) # GetService (serviceName c) a # steps @ events_of r"
  obtain st where st: "Cluster_updateStatus c members peers v = c\<lparr>cluster_status := st\<rparr>"
    using updateStatus_status by blast
  have "status_read c ?tr' (cluster_status (Cluster_updateStatus c members peers v))"
    by (rule updateStatus_read [OF full(4)]) (use full_pass_asks [OF full(5,6)] in auto)
  then have read: "status_read c ?tr' st" by (simp add: st)
  from full(6) show ?thesis
  proof cases
    case unchanged
    then have "tr = ?tr'" "cluster_status c = st" by (simp_all add: full(1) st)
    then have "status_settled req tr" using read unfolding status_settled_def by (auto simp: full(2))
    then show ?thesis using none unchanged by (simp add: full(1))
  next
    case (patched err)
    then have "tr = ?tr' @ [StatusPatch (OCluster (c\<lparr>cluster_status := st\<rparr>)) (OCluster c) err]" "st \<noteq> cluster_status c"
      by (auto simp: full(1) st)
    moreover have "filter is_status_write ?tr' = []" using none by simp
    ultimately show ?thesis using read full(2,3) by (intro disjI2 exI [of _ ?tr'] exI [of _ fetched] exI [of _ st] exI [of _ err]) auto
  qed
qed (simp_all add: status_settled_def)

lemma addMissingPeer_none:
  "(\<forall>m \<in> set rest. hasPeerForMember peers m = Inr True) \<Longrightarrow>
   addMissingPeer l cl c peers members rest = ret None"
  by (induction rest) simp_all

lemma removeSurplusPeer_none:
  "(\<forall>p \<in> set peers. \<not> surplus names p) \<Longrightarrow> removeSurplusPeer l cl names peers = ret None"
  by (induction peers) (auto simp: surplus_def)

lemma reconcileMembers_converged:
  "converged peers ms c \<Longrightarrow> reconcileMembers l cl e ms peers c = ret idle"
  by (simp add: converged_def settled_def no_surplus_def reconcileMembers_def addMissingPeer_none
      removeSurplusPeer_none upgradePeer_def scaleMembers_def)

lemma replicas_match:
  assumes "cs_Replicas (cluster_spec c) = Some r" "int (length ms) = sint r" "length ms < 2 ^ 31"
  shows "hasTooFewMembers c ms = Return False" "hasTooManyMembers c ms = Return False"
  using assms
  by (simp_all add: hasTooFewMembers_def hasTooManyMembers_def int32_len_less_iff int32_len_greater_iff)

lemma hasPeerForMember_named:
  "mem_Name m \<noteq> [] \<Longrightarrow> hasPeerForMember peers m = Inr (mem_Name m \<in> peer_Name ` set peers)"
  by (auto simp: hasPeerForMember_def peerNameForMember_def list_ex_iff)

lemma converged_explicit:
  assumes d: "distinct (map peer_Name peers)"
    and ms: "\<forall>m \<in> set ms. mem_Name m \<noteq> [] \<and> mem_Name m \<in> peer_Name ` set peers"
    and ps: "\<forall>p \<in> set peers. peer_Name p \<in> mem_Name ` set ms"
    and up: "\<forall>p \<in> set peers. ServerVersion (peer_status p) = cs_Version (cluster_spec c)"
    and r: "cs_Replicas (cluster_spec c) = Some r" "int (length ms) = sint r" "length ms < 2 ^ 31"
  shows "converged peers ms c"
proof -
  have "settled peers ms"
    using ms by (simp add: settled_def hasPeerForMember_named isAllMembersStable_def list_all_iff)
  moreover have "no_surplus peers ms" using ps by (simp add: no_surplus_def surplus_def)
  moreover have "nextOutdatedPeer c peers = None"
    using up by (simp add: nextOutdatedPeer_None [OF d] outdated_def)
  ultimately show ?thesis using replicas_match [OF r] by (simp add: converged_def)
qed

lemma reconcileNoContact_no_panic:
  assumes "cs_Replicas (cluster_spec c) = Some r" "0 \<le> sint r"
  shows "emits (reconcileNoContact l cl peers c) (\<lambda>out tr. \<exists>y. out = Return y)"
proof -
  obtain p where "bootstrapPeer l c peers = Return p"
    using assms by (simp add: bootstrapPeer_def configurePeerBootstrap_def initialClusterMembers_def
        expectedPeerNamesForCluster_def)
  then show ?thesis
    unfolding reconcileNoContact_def
    by (intro emits_if emits_bind [OF createBootstrapPeer_emits] emits_return)
      (auto simp: fails_def acts_def idle_def split: option.split)
qed

text \<open>The one panic left: etcd answered an addition with a member without URLs.\<close>

abbreviation urlless_added :: "call list \<Rightarrow> bool" where
  "urlless_added tr \<equiv> (\<exists>cfg url m. EtcdAdd cfg url (Inr m) \<in> set tr \<and> PeerURLs m = [])"

lemma scaleMembers_no_panic:
  assumes r: "cs_Replicas (cluster_spec c) = Some r" "0 \<le> sint r"
    and urls: "\<forall>m \<in> set ms. PeerURLs m \<noteq> []"
  shows "emits (scaleMembers e c peers ms) (\<lambda>out tr. (\<exists>y. out = Return y) \<or> urlless_added tr)"
  unfolding scaleMembers_def
proof (intro emits_case_outcome emits_if emits_return, goal_cases)
  case (2 tooFew)
  show ?case
    by (rule emits_bind [OF addNewMember_emits], rule emits_return)
      (auto simp: isl_def fails_def acts_def split: list.split)
next
  case (4 tooFew tooMany)
  have "ms \<noteq> []"
  proof
    assume "ms = []"
    with 4 r have "sint r < 0" by (auto simp: hasTooManyMembers_def int32_len_greater_iff)
    with r(2) show False by simp
  qed
  then have "PeerURLs m \<noteq> []" if "Sort (Reverse MembersByName_Less) ms = m # rest" for m rest
    using urls removed_member_greatest [OF that] by (metis list.set_intros(1) neq_Nil_conv)
  with \<open>ms \<noteq> []\<close> show ?case
    by (intro emits_bind [OF removeMember_emits] emits_return)
      (auto simp: fails_def acts_def split: list.split)
qed (use r in \<open>simp_all add: hasTooFewMembers_def hasTooManyMembers_def idle_def\<close>)

lemma reconcileMembers_no_panic:
  assumes "cs_Replicas (cluster_spec c) = Some r" "0 \<le> sint r" "\<forall>m \<in> set ms. PeerURLs m \<noteq> []"
  shows "emits (reconcileMembers l cl e ms peers c) (\<lambda>out tr. (\<exists>y. out = Return y) \<or> urlless_added tr)"
proof -
  note scale = scaleMembers_no_panic [OF assms, of e peers]
  have upgrade: "emits (do { u \<leftarrow> upgradePeer cl c peers;
         case u of Some out \<Rightarrow> ret out | None \<Rightarrow> scaleMembers e c peers ms })
       (\<lambda>out tr. (\<exists>y. out = Return y) \<or> urlless_added tr)"
    by (rule emits_bind [OF upgradePeer_emits])
      (use scale in \<open>auto intro!: emits_return simp: idle_def fails_def acts_def split: option.split\<close>)
  have surplus: "emits (do { s \<leftarrow> removeSurplusPeer l cl (map mem_Name ms) peers;
         case s of Some out \<Rightarrow> ret out
         | None \<Rightarrow> do { u \<leftarrow> upgradePeer cl c peers;
             case u of Some out \<Rightarrow> ret out | None \<Rightarrow> scaleMembers e c peers ms } })
       (\<lambda>out tr. (\<exists>y. out = Return y) \<or> urlless_added tr)"
    by (rule emits_bind [OF removeSurplusPeer_emits])
      (use upgrade in \<open>auto intro!: emits_return simp: idle_def fails_def acts_def split: option.split\<close>)
  show ?thesis
    unfolding reconcileMembers_def
    by (rule emits_bind [OF addMissingPeer_emits])
      (use surplus in \<open>auto intro!: emits_return simp: idle_def fails_def acts_def split: option.split\<close>)
qed

lemma reconcile_no_panic:
  assumes "cs_Replicas (cluster_spec c) = Some r" "0 \<le> sint r"
    "\<forall>ms m. members = Some ms \<longrightarrow> m \<in> set ms \<longrightarrow> PeerURLs m \<noteq> []"
  shows "emits (reconcile l cl e members peers c) (\<lambda>out tr. (\<exists>y. out = Return y) \<or> urlless_added tr)"
  unfolding reconcile_def
proof (rule emits_bind [OF hasService_emits], intro emits_case_sum emits_if emits_case_option, goal_cases)
  case (2 r tr found)
  then show ?case
    by (intro emits_bind [OF createService_emits] emits_return) (auto simp: fails_def acts_def split: option.split)
next
  case (3 r tr found)
  show ?case by (rule emits_mono [OF reconcileNoContact_no_panic [OF assms(1,2)]]) auto
next
  case (4 r tr found ms)
  then show ?case
    using assms(3) by (intro emits_mono [OF reconcileMembers_no_panic [OF assms(1,2)]]) auto
qed (auto intro!: emits_return simp: fails_def)

interpretation cluster_reconciler: reconciler "Cluster_Reconcile l sv cl e" for l sv cl e
proof
  fix req
  show "at_most_one_action (Cluster_Reconcile l sv cl e req)"
    unfolding at_most_one_action_def
    by (rule emits_mono [OF Cluster_Reconcile_pass]) (use cluster_pass_actions in fastforce)
qed

lemma bootstrapPeer_static:
  assumes "bootstrapPeer l c peers = Return p"
  obtains names where "expectedPeerNamesForCluster c = Return names"
    "ps_Bootstrap (peer_spec p) = Some \<lparr>Static = Some \<lparr>InitialCluster =
       map (\<lambda>n. \<lparr>icm_Name = n, icm_Host = expectedURLForPeer c n\<rparr>) names\<rparr>,
       bs_InitialClusterState = InitialClusterStateNew\<rparr>"
  using assms
  by (auto simp: bootstrapPeer_def configurePeerBootstrap_def initialClusterMembers_def set_bootstrap_def
      split: outcome.splits)

lemma joiningPeer_static:
  "ps_Bootstrap (peer_spec (joiningPeer l c ms n)) = Some
     \<lparr>Static = Some \<lparr>InitialCluster = initialClusterMembersFromMemberList c ms\<rparr>,
      bs_InitialClusterState = InitialClusterStateExisting\<rparr>"
  by (simp add: joiningPeer_def configureJoinExistingCluster_def set_bootstrap_def)

lemma member_in_initial_cluster:
  assumes "m \<in> set ms" "peerNameForMember m = Inr n"
  shows "\<lparr>icm_Name = n, icm_Host = expectedURLForPeer c n\<rparr> \<in> set (initialClusterMembersFromMemberList c ms)"
  using assms by (force simp: initialClusterMembersFromMemberList_def)

section \<open>Properties\<close>

text \<open>C5: whatever the API server and etcd answer, one pass of the EtcdCluster handler changes at most one
  thing besides the status, and the change is justified by what the same pass read: the
  defaulted, valid cluster, the member list (or its absence), the peers and the service. In
  particular the service comes first; without a member list only a bootstrap peer is created; peers
  are created for members that have none; a peer is deleted only if every member has a name and a
  peer and it is either surplus with its clean-up finalizer set or the outdated peer next in
  order; members are added or removed only when no peer is surplus or outdated.\<close>

theorem cluster_one_justified_action:
  "emits (Cluster_Reconcile l sv cl e req) (\<lambda>out tr.
     actions tr = [] \<or>
     (\<exists>x c members peers a. actions tr = [x] \<and> observed sv req tr c members peers a \<and>
        justified l a members peers c x))"
  by (rule emits_mono [OF Cluster_Reconcile_pass cluster_pass_actions])

text \<open>Without an answer from etcd about its members nothing is destroyed: the handler deletes no peer, sets
  no clean-up finalizer and changes no member unless the same pass obtained the member list; all
  it may do is create an object.\<close>

lemma cluster_no_contact_only_creates:
  "emits (Cluster_Reconcile l sv cl e req) (\<lambda>out tr.
     (\<exists>cfg ms. EtcdList cfg (Inr ms) \<in> set tr) \<or> actions tr = [] \<or>
     (\<exists>obj err. actions tr = [Create obj err]))"
  by (rule emits_mono [OF Cluster_Reconcile_pass cluster_pass_no_contact])

text \<open>C28: a pass that returns has told what it did: it publishes one event exactly when it made one
  successful change other than setting the finalizer, it returns an error if any call that changes
  something failed, the status patch included, and after an action it asks to run again in ten
  seconds.\<close>

theorem cluster_pass_reports:
  "emits (Cluster_Reconcile l sv cl e req) (\<lambda>out tr.
     out = Panic \<or> (\<exists>result err. out = Return (result, err) \<and> pass_reported tr result err))"
  by (rule emits_mono [OF Cluster_Reconcile_pass cluster_pass_reported])

text \<open>C27: the status is written at most once in a pass and by its last call. What is written is the defaulted
  cluster as read, with another status: as many replicas as this pass listed peers; the names and
  identifiers of the members etcd listed in this pass, in their order, or the members the status
  already had (none, if it had none) when etcd gave no list; and the cluster version etcd gave in
  this pass, or an empty one when it gave none. Nothing is written only when the peers were not
  listed or the status that was read already says all this.\<close>

theorem cluster_status_write:
  "emits (Cluster_Reconcile l sv cl e req) (\<lambda>out tr.
     filter is_status_write tr = [] \<and> status_settled req tr \<or>
     (\<exists>tr' fetched st err. tr = tr' @
         [StatusPatch (OCluster ((EtcdCluster_Default fetched)\<lparr>cluster_status := st\<rparr>)) (OCluster (EtcdCluster_Default fetched)) err] \<and>
       filter is_status_write tr' = [] \<and> GetCluster req (Inr fetched) \<in> set tr' \<and>
       EtcdCluster_ValidateCreate sv fetched = None \<and>
       status_read (EtcdCluster_Default fetched) tr' st \<and> st \<noteq> cluster_status (EtcdCluster_Default fetched)))"
  by (rule emits_mono [OF Cluster_Reconcile_pass cluster_pass_status])

text \<open>C8: progress. With a member list, a reconciliation attempts one change or is idle, unless it is obstructed:
  it fails only when no client can be built or the URL of a member cannot be read, and panics only
  when no size or a negative one is desired. It is idle only when it waits (for a member that has not started, or for the next outdated peer to
  be replaced) or when the cluster has converged: every member has a name and a peer, no peer is
  surplus or outdated and the number of members is the desired one.\<close>

theorem cluster_progress:
  "emits (reconcileMembers l cl e ms peers c) (\<lambda>r tr.
     (\<exists>x. mutations tr = [x]) \<or> obstructed ms c r tr \<or>
     r = idle \<and> (waiting peers ms c \<or> converged peers ms c))"
  using reconcileMembers_progresses [of l cl e ms peers c] unfolding progresses_def .

text \<open>Quiescence. When the peers have distinct names, members and peers name each other, every peer runs
  the desired version and the number of members is the desired one, the reconciliation makes no call
  at all and reports that it is idle.\<close>

lemma cluster_quiescent:
  assumes "distinct (map peer_Name peers)"
    and "\<forall>m \<in> set ms. mem_Name m \<noteq> [] \<and> mem_Name m \<in> peer_Name ` set peers"
    and "\<forall>p \<in> set peers. peer_Name p \<in> mem_Name ` set ms"
    and "\<forall>p \<in> set peers. ServerVersion (peer_status p) = cs_Version (cluster_spec c)"
    and "cs_Replicas (cluster_spec c) = Some r" "int (length ms) = sint r" "length ms < 2 ^ 31"
  shows "reconcileMembers l cl e ms peers c = ret idle"
  by (rule reconcileMembers_converged [OF converged_explicit [OF assms]])

text \<open>C29: a cluster with a desired size that is not negative never makes the reconciliation panic as long as
  every member reported by etcd has a peer URL, unless etcd answers the addition of a member with
  a member that has none.\<close>

theorem cluster_no_panic:
  assumes "cs_Replicas (cluster_spec c) = Some r" "0 \<le> sint r"
    "\<forall>ms m. members = Some ms \<longrightarrow> m \<in> set ms \<longrightarrow> PeerURLs m \<noteq> []"
  shows "emits (reconcile l cl e members peers c) (\<lambda>out tr.
     (\<exists>y. out = Return y) \<or> (\<exists>cfg url m. EtcdAdd cfg url (Inr m) \<in> set tr \<and> PeerURLs m = []))"
  by (rule reconcile_no_panic [OF assms])

theorem cluster_no_panic_witness:
  "emits (reconcile std_lib mem_client mem_etcd (Some [sample_member ''c-0'']) [sample_peer ''c-0'']
       (sample_cluster 3)) (\<lambda>out tr.
     (\<exists>y. out = Return y) \<or> (\<exists>cfg url m. EtcdAdd cfg url (Inr m) \<in> set tr \<and> PeerURLs m = []))"
  by (rule cluster_no_panic [where r = 3]) (simp_all add: sample_defs)

text \<open>Any number of passes, on any clusters and with any changes of the outside world in between,
  performs at most as many actions as there are passes.\<close>

lemma cluster_actions_bounded:
  "emits (run_all (map (Cluster_Reconcile l sv cl e) reqs)) (\<lambda>_ tr. length (actions tr) \<le> length reqs)"
  by (rule cluster_reconciler.actions_bounded)

text \<open>A pass on a cluster that cannot be read, is gone or is invalid stops there: it makes no other call
  and asks for no requeue, and it returns an error only if the read failed otherwise than by not
  finding the cluster.\<close>

lemma cluster_stops_early:
  "emits (Cluster_Reconcile l sv cl e req) (\<lambda>out tr.
     (\<exists>c tr'. tr = GetCluster req (Inr c) # tr' \<and> EtcdCluster_ValidateCreate sv c = None) \<or>
     (\<exists>c err. tr = [GetCluster req (Inr c)] \<and> EtcdCluster_ValidateCreate sv c = Some err \<and>
        out = Return (emptyResult, None)) \<or>
     (tr = [GetCluster req (Inl NotFound)] \<and> out = Return (emptyResult, None)) \<or>
     (\<exists>err. tr = [GetCluster req (Inl err)] \<and> out = Return (emptyResult, Some (ApiError err))))"
proof (rule emits_mono [OF Cluster_Reconcile_pass])
  fix out tr assume "cluster_pass l sv req out tr"
  then show "(\<exists>c tr'. tr = GetCluster req (Inr c) # tr' \<and> EtcdCluster_ValidateCreate sv c = None) \<or>
     (\<exists>c err. tr = [GetCluster req (Inr c)] \<and> EtcdCluster_ValidateCreate sv c = Some err \<and>
        out = Return (emptyResult, None)) \<or>
     (tr = [GetCluster req (Inl NotFound)] \<and> out = Return (emptyResult, None)) \<or>
     (\<exists>err. tr = [GetCluster req (Inl err)] \<and> out = Return (emptyResult, Some (ApiError err)))"
  proof cases
    case (gone err)
    then show ?thesis by (cases err) auto
  qed auto
qed

text \<open>The search for a peer name ends, and with the name of the cluster, a dash and the least ordinal that
  no peer has; the ordinal is at most the number of peers.\<close>

lemma next_name_least_free:
  "\<exists>j \<le> length peers. nextAvailablePeerName c peers = nthPeerName c j \<and>
     nthPeerName c j \<notin> peer_Name ` set peers \<and> nthPeerName c ` {..<j} \<subseteq> peer_Name ` set peers"
proof (rule nextAvailablePeerName_ordinal [of c peers])
  fix j
  assume "nextAvailablePeerName c peers = nthPeerName c j" "j \<notin> taken c peers"
    "\<And>k. k < j \<Longrightarrow> k \<in> taken c peers" "j \<le> length peers"
  then show ?thesis by (intro exI [of _ j]) (auto simp: taken_def)
qed

text \<open>Bootstrapping. While peers are missing and etcd cannot be reached, the peer that is created has a
  name no peer has, and its initial cluster lists exactly the expected peers of the cluster, each
  once and with its own host: the same list for every bootstrap peer, and the new peer is in it.\<close>

lemma bootstrap_peer_in_its_initial_cluster:
  assumes "hasTooFewPeers c peers" "length peers < 2 ^ 31"
  shows "\<exists>p names. bootstrapPeer l c peers = Return p \<and> expectedPeerNamesForCluster c = Return names \<and>
     ps_Bootstrap (peer_spec p) = Some \<lparr>Static = Some \<lparr>InitialCluster =
       map (\<lambda>n. \<lparr>icm_Name = n, icm_Host = expectedURLForPeer c n\<rparr>) names\<rparr>,
       bs_InitialClusterState = InitialClusterStateNew\<rparr> \<and>
     peer_Name p \<in> set names \<and> distinct names \<and> peer_Name p \<notin> peer_Name ` set peers \<and>
     length peers < length names"
proof -
  obtain names where n: "expectedPeerNamesForCluster c = Return names"
    "nextAvailablePeerName c peers \<in> set names" "distinct names" "length peers < length names"
    using bootstrap_names [OF assms] by blast
  then obtain p where p: "bootstrapPeer l c peers = Return p"
    by (simp add: bootstrapPeer_def configurePeerBootstrap_def initialClusterMembers_def)
  from bootstrapPeer_static [OF p] n(1) have "ps_Bootstrap (peer_spec p) = Some \<lparr>Static = Some \<lparr>InitialCluster =
       map (\<lambda>n. \<lparr>icm_Name = n, icm_Host = expectedURLForPeer c n\<rparr>) names\<rparr>,
       bs_InitialClusterState = InitialClusterStateNew\<rparr>" by force
  with p n bootstrapPeer_Name [OF p] nextAvailablePeerName_fresh [of c peers] show ?thesis by auto
qed

text \<open>C30: joining. The peer created for a member that has none is named like the member, and its initial
  cluster, with state Existing, has one entry for each member, in the order of the list: the name of
  the member with the host of that peer for every member that can be named, itself included, and an
  entry with empty name and host for a member that cannot.\<close>

theorem joining_peer_in_its_initial_cluster:
  assumes "m \<in> set ms" "peerNameForMember m = Inr n"
  shows "\<exists>ics. peer_Name (joiningPeer l c ms n) = n \<and>
     ps_Bootstrap (peer_spec (joiningPeer l c ms n)) = Some \<lparr>Static = Some \<lparr>InitialCluster = ics\<rparr>,
       bs_InitialClusterState = InitialClusterStateExisting\<rparr> \<and>
     \<lparr>icm_Name = n, icm_Host = n @ ''.'' @ cluster_Name c\<rparr> \<in> set ics \<and>
     list_all2 (\<lambda>x i. case peerNameForMember x of
         Inr k \<Rightarrow> icm_Name i = k \<and> icm_Host i = k @ ''.'' @ cluster_Name c
       | Inl err \<Rightarrow> icm_Name i = [] \<and> icm_Host i = []) ms ics"
  using member_in_initial_cluster [OF assms, of c]
  by (auto simp: joiningPeer_static initialClusterMembersFromMemberList_def expectedURLForPeer_def list_all2_conv_all_nth
      split: sum.splits)

text \<open>Two members that have started and one that was only added, under the name \<open>c-2\<close>: all are listed.\<close>

theorem joining_peer_in_its_initial_cluster_witness:
  "\<exists>ics. ps_Bootstrap (peer_spec (joiningPeer std_lib (sample_cluster 3)
       [sample_member ''c-0'', sample_member ''c-1'', (sample_member ''c-2'')\<lparr>mem_Name := []\<rparr>] ''c-2'')) =
       Some \<lparr>Static = Some \<lparr>InitialCluster = ics\<rparr>, bs_InitialClusterState = InitialClusterStateExisting\<rparr> \<and>
     map icm_Name ics = [''c-0'', ''c-1'', ''c-2''] \<and> map icm_Host ics = [''c-0.c'', ''c-1.c'', ''c-2.c'']"
proof -
  have names: "peerNameForMember (sample_member ''c-0'') = Inr ''c-0''" "peerNameForMember (sample_member ''c-1'') = Inr ''c-1''"
    "peerNameForMember ((sample_member ''c-2'')\<lparr>mem_Name := []\<rparr>) = Inr ''c-2''" by code_simp+
  have c: "cluster_Name (sample_cluster 3) = ''c''" by code_simp
  from joining_peer_in_its_initial_cluster [OF _ names(3),
      of "[sample_member ''c-0'', sample_member ''c-1'', (sample_member ''c-2'')\<lparr>mem_Name := []\<rparr>]" std_lib "sample_cluster 3"]
  show ?thesis by (auto simp: list_all2_Cons1 names c)
qed

text \<open>Scaling down removes a member whose name is greatest among the members in Go's order of strings,
  by its identifier and through the configuration of the cluster; the attempt is made unless no
  client can be built.\<close>

lemma removed_member_is_greatest:
  assumes "ms \<noteq> []"
  shows "emits (removeMember e c ms) (\<lambda>r tr.
     \<exists>m \<in> set ms. Max (mem_Name ` set ms) = mem_Name m \<and>
       ((\<exists>msg. tr = [EtcdNew (etcdClientConfig c) (Some msg)]) \<or>
        (\<exists>a. tr = [EtcdNew (etcdClientConfig c) None, EtcdRemove (etcdClientConfig c) (mem_ID m) a])))"
proof -
  have "m \<in> set ms \<and> Max (mem_Name ` set ms) = mem_Name m"
    if "Sort (Reverse MembersByName_Less) ms = m # rest" for m rest
  proof
    show m: "m \<in> set ms" using removed_member_greatest [OF that last_in_set [OF assms]] ..
    show "Max (mem_Name ` set ms) = mem_Name m"
      by (rule Max_eqI) (use m removed_member_greatest [OF that] in auto)
  qed
  with assms show ?thesis
    by (intro emits_mono [OF removeMember_emits]) blast
qed

text \<open>Upgrades replace, one at a time, the peer with the greatest name among those whose server does not
  run the desired version; there is one to replace exactly when such a peer exists.\<close>

lemma next_outdated_peer_is_greatest:
  assumes "distinct (map peer_Name peers)"
  shows "case nextOutdatedPeer c peers of
      None \<Rightarrow> \<forall>q \<in> set peers. ServerVersion (peer_status q) = cs_Version (cluster_spec c)
    | Some p \<Rightarrow> p \<in> set peers \<and> ServerVersion (peer_status p) \<noteq> cs_Version (cluster_spec c) \<and>
        (\<forall>q \<in> set peers. peer_Name p < peer_Name q \<longrightarrow>
           ServerVersion (peer_status q) = cs_Version (cluster_spec c))"
  using nextOutdatedPeer_Some [OF assms, of c] nextOutdatedPeer_None [OF assms, of c]
  by (auto simp: outdated_def not_less [symmetric] split: option.split)

text \<open>A member the controller added and whose process has not started yet is recognised: the name read
  back from the first peer URL of the member is the name of the peer it was added for, for every
  cluster whose name consists of host characters without dots.\<close>

lemma added_member_name_roundtrip:
  assumes "list_all host_char (cluster_Name c)" "CHR ''.'' \<notin> set (cluster_Name c)"
    and "mem_Name m = []" "PeerURLs m = newMemberURL c (nthPeerName c i) # us"
  shows "peerNameForMember m = Inr (nthPeerName c i)"
  by (rule peerNameForMember_of_url [OF assms])

end
