(* ===== verification/ClusterPlan.thy ===== *)
theory ClusterPlan
  imports Prelude
begin

text \<open>
  An abstract specification of how a cluster changes: its members as etcd lists them, its peers as
  the API server lists them, the steps the operator may take towards a number of members and a
  version, and the steps of the world around it. The steps end, they end where the cluster is as
  desired, and on the way at most one member is without a running server, not counting those whose servers fall
  silent by themselves.
\<close>

section \<open>States\<close>

text \<open>
  A member goes by the name it has or, before it has started, by the name it was added under. Of a
  peer the plan knows the desired and the reported version, and whether it is being deleted and
  marked for the clean-up of its claim.
\<close>

record amember =
  am_ID :: string
  am_Name :: string
  am_Started :: bool

record apeer =
  ap_Name :: string
  ap_Version :: string
  ap_Server :: string
  ap_Deleting :: bool
  ap_Marked :: bool

record plan =
  pl_members :: "amember multiset"
  pl_peers :: "apeer multiset"

definition member_names :: "plan \<Rightarrow> string set" where
  "member_names s = am_Name ` set_mset (pl_members s)"

definition peer_names :: "plan \<Rightarrow> string set" where
  "peer_names s = ap_Name ` set_mset (pl_peers s)"

lemma member_namesI: "m \<in># pl_members s \<Longrightarrow> am_Name m \<in> member_names s"
  by (simp add: member_names_def)

lemma peer_namesI: "p \<in># pl_peers s \<Longrightarrow> ap_Name p \<in> peer_names s"
  by (simp add: peer_names_def)

definition fresh_peer :: "string \<Rightarrow> string \<Rightarrow> apeer" where
  "fresh_peer n v = \<lparr>ap_Name = n, ap_Version = v, ap_Server = [], ap_Deleting = False, ap_Marked = False\<rparr>"

definition put_peer :: "apeer \<Rightarrow> apeer \<Rightarrow> plan \<Rightarrow> plan" where
  "put_peer p q s = s\<lparr>pl_peers := pl_peers s - {#p#} + {#q#}\<rparr>"

definition drop_peer :: "apeer \<Rightarrow> plan \<Rightarrow> plan" where
  "drop_peer p s = s\<lparr>pl_peers := pl_peers s - {#p#}\<rparr>"

section \<open>Steps\<close>

text \<open>Every member has a peer and has started.\<close>

definition all_settled :: "plan \<Rightarrow> bool" where
  "all_settled s \<longleftrightarrow> member_names s \<subseteq> peer_names s \<and> (\<forall>m \<in># pl_members s. am_Started m)"

definition is_surplus :: "plan \<Rightarrow> apeer \<Rightarrow> bool" where
  "is_surplus s p \<longleftrightarrow> ap_Name p \<notin> member_names s \<and> \<not> ap_Deleting p"

definition none_surplus :: "plan \<Rightarrow> bool" where
  "none_surplus s \<longleftrightarrow> (\<forall>p \<in># pl_peers s. \<not> is_surplus s p)"

text \<open>Deleting a peer: it goes at once, unless something still holds it.\<close>

inductive deleted :: "apeer \<Rightarrow> plan \<Rightarrow> plan \<Rightarrow> bool" where
  held: "deleted p s (put_peer p (p\<lparr>ap_Deleting := True\<rparr>) s)"
| gone: "\<not> ap_Marked p \<Longrightarrow> deleted p s (drop_peer p s)"

text \<open>The operator, for \<open>r\<close> members of version \<open>v\<close>.\<close>

inductive operator_step :: "nat \<Rightarrow> string \<Rightarrow> plan \<Rightarrow> plan \<Rightarrow> bool" for r v where
  create: "m \<in># pl_members s \<Longrightarrow> am_Name m \<notin> peer_names s \<Longrightarrow>
    operator_step r v s (s\<lparr>pl_peers := add_mset (fresh_peer (am_Name m) v) (pl_peers s)\<rparr>)"
| mark: "all_settled s \<Longrightarrow> p \<in># pl_peers s \<Longrightarrow> is_surplus s p \<Longrightarrow> \<not> ap_Marked p \<Longrightarrow>
    operator_step r v s (put_peer p (p\<lparr>ap_Marked := True\<rparr>) s)"
| retire: "all_settled s \<Longrightarrow> p \<in># pl_peers s \<Longrightarrow> is_surplus s p \<Longrightarrow> ap_Marked p \<Longrightarrow> deleted p s s' \<Longrightarrow>
    operator_step r v s s'"
| upgrade: "all_settled s \<Longrightarrow> none_surplus s \<Longrightarrow> p \<in># pl_peers s \<Longrightarrow> ap_Server p \<noteq> v \<Longrightarrow>
    (\<forall>q \<in># pl_peers s. ap_Server q \<noteq> v \<longrightarrow> ap_Name q \<le> ap_Name p) \<Longrightarrow>
    ap_Version p \<noteq> v \<Longrightarrow> \<not> ap_Deleting p \<Longrightarrow> deleted p s s' \<Longrightarrow> operator_step r v s s'"
| add: "all_settled s \<Longrightarrow> none_surplus s \<Longrightarrow> \<forall>p \<in># pl_peers s. ap_Server p = v \<Longrightarrow>
    size (pl_members s) < r \<Longrightarrow> n \<notin> peer_names s \<Longrightarrow>
    operator_step r v s (s\<lparr>pl_members := add_mset \<lparr>am_ID = i, am_Name = n, am_Started = False\<rparr> (pl_members s)\<rparr>)"
| remove: "all_settled s \<Longrightarrow> none_surplus s \<Longrightarrow> \<forall>p \<in># pl_peers s. ap_Server p = v \<Longrightarrow>
    r < size (pl_members s) \<Longrightarrow> m \<in># pl_members s \<Longrightarrow>
    operator_step r v s (s\<lparr>pl_members := pl_members s - {#m#}\<rparr>)"

text \<open>
  Without an answer from etcd the operator does not know the members; it may then only create
  peers, up to the desired number.
\<close>

definition bootstrap_step :: "nat \<Rightarrow> string \<Rightarrow> plan \<Rightarrow> plan \<Rightarrow> bool" where
  "bootstrap_step r v s s' \<longleftrightarrow> size (pl_peers s) < r \<and>
     (\<exists>n. n \<notin> peer_names s \<and> s' = s\<lparr>pl_peers := add_mset (fresh_peer n v) (pl_peers s)\<rparr>)"

text \<open>
  The world: the server of a peer starts and its member gets its name, a peer reports the version
  its server runs, the mark is taken off a peer that is being deleted, and what holds a peer that is
  being deleted lets go of it.
\<close>

inductive world_step :: "plan \<Rightarrow> plan \<Rightarrow> bool" where
  start: "m \<in># pl_members s \<Longrightarrow> \<not> am_Started m \<Longrightarrow> am_Name m \<in> peer_names s \<Longrightarrow>
    world_step s (s\<lparr>pl_members := pl_members s - {#m#} + {#m\<lparr>am_Started := True\<rparr>#}\<rparr>)"
| report: "p \<in># pl_peers s \<Longrightarrow> ap_Server p \<noteq> ap_Version p \<Longrightarrow>
    world_step s (put_peer p (p\<lparr>ap_Server := ap_Version p\<rparr>) s)"
| unmark: "p \<in># pl_peers s \<Longrightarrow> ap_Deleting p \<Longrightarrow> ap_Marked p \<Longrightarrow>
    world_step s (put_peer p (p\<lparr>ap_Marked := False\<rparr>) s)"
| release: "p \<in># pl_peers s \<Longrightarrow> ap_Deleting p \<Longrightarrow> world_step s (drop_peer p s)"

definition plan_step :: "nat \<Rightarrow> string \<Rightarrow> plan \<Rightarrow> plan \<Rightarrow> bool" where
  "plan_step r v s s' \<longleftrightarrow> operator_step r v s s' \<or> world_step s s'"

section \<open>The steps end\<close>

text \<open>How many elements of a multiset satisfy a predicate, and what replacing one of them does.\<close>

definition countp :: "('a \<Rightarrow> bool) \<Rightarrow> 'a multiset \<Rightarrow> nat" where
  "countp P M = size (filter_mset P M)"

lemma countp_add [simp]: "countp P (add_mset x M) = (if P x then 1 else 0) + countp P M"
  by (simp add: countp_def)

lemma countp_remove:
  assumes "x \<in># M"
  shows "countp P M = (if P x then 1 else 0) + countp P (M - {#x#})"
proof -
  from assms obtain N where "M = add_mset x N" by (metis insert_DiffM)
  then show ?thesis by simp
qed

lemma countp_cong: "(\<And>x. x \<in># M \<Longrightarrow> P x \<longleftrightarrow> Q x) \<Longrightarrow> countp P M = countp Q M"
  unfolding countp_def by (metis (mono_tags, lifting) filter_mset_cong0)

lemma countp_mono: "(\<And>x. x \<in># M \<Longrightarrow> P x \<Longrightarrow> Q x) \<Longrightarrow> countp P M \<le> countp Q M"
  by (induction M) (auto simp: countp_def)

lemma countp_pos: "x \<in># M \<Longrightarrow> P x \<Longrightarrow> 0 < countp P M"
  by (auto simp: countp_def nonempty_has_size [symmetric] filter_mset_eq_conv)

lemma countp_none: "(\<And>x. x \<in># M \<Longrightarrow> \<not> P x) \<Longrightarrow> countp P M = 0"
  by (induction M) (auto simp: countp_def)

text \<open>The measures, most significant first.\<close>

definition distance :: "nat \<Rightarrow> plan \<Rightarrow> nat" where
  "distance r s = (size (pl_members s) - r) + (r - size (pl_members s))"

definition to_replace :: "string \<Rightarrow> plan \<Rightarrow> nat" where
  "to_replace v s = countp (\<lambda>p. ap_Version p \<noteq> v \<and> \<not> ap_Deleting p) (pl_peers s)"

definition to_retire :: "plan \<Rightarrow> nat" where
  "to_retire s = countp (is_surplus s) (pl_peers s)"

definition to_mark :: "plan \<Rightarrow> nat" where
  "to_mark s = countp (\<lambda>p. is_surplus s p \<and> \<not> ap_Marked p) (pl_peers s)"

definition to_release :: "plan \<Rightarrow> nat" where
  "to_release s = countp ap_Deleting (pl_peers s)"

definition to_create :: "plan \<Rightarrow> nat" where
  "to_create s = countp (\<lambda>m. am_Name m \<notin> peer_names s) (pl_members s)"

definition to_start :: "plan \<Rightarrow> nat" where
  "to_start s = countp (\<lambda>m. \<not> am_Started m) (pl_members s)"

definition to_report :: "plan \<Rightarrow> nat" where
  "to_report s = countp (\<lambda>p. ap_Server p \<noteq> ap_Version p) (pl_peers s)"

definition to_unmark :: "plan \<Rightarrow> nat" where
  "to_unmark s = countp (\<lambda>p. ap_Deleting p \<and> ap_Marked p) (pl_peers s)"

lemmas plan_measures = to_unmark_def to_replace_def to_retire_def to_mark_def to_release_def to_create_def to_start_def to_report_def

definition plan_order :: "nat \<Rightarrow> string \<Rightarrow> (plan \<times> plan) set" where
  "plan_order r v = measures
     [distance r, to_replace v, to_retire, to_mark, to_release, to_create, to_start, to_report, to_unmark]"

lemma wf_plan_order: "wf (plan_order r v)"
  by (simp add: plan_order_def)

lemma put_peer_simps [simp]:
  "pl_members (put_peer p q s) = pl_members s" "member_names (put_peer p q s) = member_names s"
  "pl_members (drop_peer p s) = pl_members s" "member_names (drop_peer p s) = member_names s"
  by (simp_all add: put_peer_def drop_peer_def member_names_def)

lemma is_surplus_frame [simp]:
  "is_surplus (put_peer p q s) = is_surplus s" "is_surplus (drop_peer p s) = is_surplus s"
  "is_surplus (s\<lparr>pl_peers := ps\<rparr>) = is_surplus s"
  by (auto simp: is_surplus_def member_names_def intro!: ext)

lemma distance_frame [simp]:
  "distance r (put_peer p q s) = distance r s" "distance r (drop_peer p s) = distance r s"
  "distance r (s\<lparr>pl_peers := ps\<rparr>) = distance r s"
  by (simp_all add: distance_def)

lemma countp_put:
  assumes "p \<in># pl_peers s"
  shows "countp P (pl_peers (put_peer p q s)) + (if P p then 1 else 0) = countp P (pl_peers s) + (if P q then 1 else 0)"
  using countp_remove [OF assms, of P] by (simp add: put_peer_def)

lemma countp_drop:
  assumes "p \<in># pl_peers s"
  shows "countp P (pl_peers (drop_peer p s)) + (if P p then 1 else 0) = countp P (pl_peers s)"
  using countp_remove [OF assms, of P] by (simp add: drop_peer_def)

lemma peer_names_put:
  assumes "p \<in># pl_peers s" "ap_Name q = ap_Name p"
  shows "peer_names (put_peer p q s) = peer_names s"
proof -
  have "pl_peers s = add_mset p (pl_peers s - {#p#})" using assms(1) by simp
  then have "peer_names s = insert (ap_Name p) (ap_Name ` set_mset (pl_peers s - {#p#}))"
    unfolding peer_names_def by (metis image_insert set_mset_add_mset_insert)
  then show ?thesis using assms(2) by (simp add: put_peer_def peer_names_def)
qed

lemma deleted_decreases:
  assumes "deleted p s s'" "p \<in># pl_peers s" "\<not> ap_Deleting p"
  shows "distance r s' = distance r s \<and> to_replace v s' \<le> to_replace v s \<and>
    (ap_Version p \<noteq> v \<longrightarrow> to_replace v s' < to_replace v s) \<and> (is_surplus s p \<longrightarrow> to_retire s' < to_retire s)"
  using assms(1)
proof cases
  case held
  note c = countp_put [OF assms(2), of _ "p\<lparr>ap_Deleting := True\<rparr>"]
  show ?thesis
    using c [of "\<lambda>p. ap_Version p \<noteq> v \<and> \<not> ap_Deleting p"] c [of "is_surplus s"] assms(3)
    by (simp add: held to_replace_def to_retire_def is_surplus_def split: if_splits)
next
  case gone
  note c = countp_drop [OF assms(2)]
  show ?thesis
    using c [of "\<lambda>p. ap_Version p \<noteq> v \<and> \<not> ap_Deleting p"] c [of "is_surplus s"] assms(3)
    by (simp add: gone to_replace_def to_retire_def split: if_splits)
qed

lemma operator_step_decreases:
  assumes "operator_step r v s s'"
  shows "(s', s) \<in> plan_order r v"
  using assms
proof cases
  case (create m)
  let ?q = "fresh_peer (am_Name m) v"
  have surplus: "\<not> is_surplus s ?q" using create(2) by (auto simp: is_surplus_def fresh_peer_def member_names_def)
  have "to_create s' < to_create s"
  proof -
    have "countp (\<lambda>x. am_Name x \<notin> peer_names s') (pl_members s - {#m#}) \<le> countp (\<lambda>x. am_Name x \<notin> peer_names s) (pl_members s - {#m#})"
      by (rule countp_mono) (auto simp: create(1) peer_names_def)
    then show ?thesis
      using create(3) countp_remove [OF create(2), of "\<lambda>x. am_Name x \<notin> peer_names s"]
        countp_remove [OF create(2), of "\<lambda>x. am_Name x \<notin> peer_names s'"]
      by (simp add: to_create_def create(1) peer_names_def fresh_peer_def)
  qed
  moreover have "to_replace v s' = to_replace v s" "to_release s' = to_release s"
    by (simp_all add: create(1) to_replace_def to_release_def fresh_peer_def)
  moreover have "to_retire s' = to_retire s" "to_mark s' = to_mark s"
    using surplus by (simp_all add: create(1) to_retire_def to_mark_def)
  moreover have "distance r s' = distance r s" by (simp add: create(1))
  ultimately show ?thesis by (simp add: plan_order_def)
next
  case (mark p)
  let ?q = "p\<lparr>ap_Marked := True\<rparr>"
  have "is_surplus s ?q = is_surplus s p" by (simp add: is_surplus_def)
  then show ?thesis
    using mark(4,5) countp_put [OF mark(3), of "is_surplus s" ?q]
      countp_put [OF mark(3), of "\<lambda>p. ap_Version p \<noteq> v \<and> \<not> ap_Deleting p" ?q]
      countp_put [OF mark(3), of "\<lambda>p. is_surplus s p \<and> \<not> ap_Marked p" ?q]
    by (simp add: plan_order_def mark(1) to_replace_def to_retire_def to_mark_def)
next
  case (retire p)
  then have "\<not> ap_Deleting p" by (simp add: is_surplus_def)
  from deleted_decreases [OF retire(5,2) this, of r v] retire(3) show ?thesis
    by (auto simp: plan_order_def)
next
  case (upgrade p)
  from deleted_decreases [OF upgrade(8,3,7), of r v] upgrade(6) show ?thesis
    by (simp add: plan_order_def)
next
  case (add n i)
  then have "distance r s' < distance r s" by (simp add: distance_def)
  then show ?thesis by (simp add: plan_order_def)
next
  case (remove m)
  then have "distance r s' < distance r s" by (simp add: distance_def size_Diff_singleton)
  then show ?thesis by (simp add: plan_order_def)
qed

lemma member_names_start:
  assumes "m \<in># pl_members s" "am_Name q = am_Name m"
  shows "member_names (s\<lparr>pl_members := pl_members s - {#m#} + {#q#}\<rparr>) = member_names s"
proof -
  have "pl_members s = add_mset m (pl_members s - {#m#})" using assms(1) by simp
  then have "member_names s = insert (am_Name m) (am_Name ` set_mset (pl_members s - {#m#}))"
    unfolding member_names_def by (metis image_insert set_mset_add_mset_insert)
  then show ?thesis by (simp add: assms(2) member_names_def)
qed

lemma world_step_decreases:
  assumes "world_step s s'"
  shows "(s', s) \<in> plan_order r v"
  using assms
proof cases
  case (start m)
  let ?q = "m\<lparr>am_Started := True\<rparr>"
  have "member_names s' = member_names s"
    unfolding start(1) by (rule member_names_start [OF start(2)]) simp
  then have "is_surplus s' = is_surplus s" by (auto simp: is_surplus_def)
  moreover have "size (pl_members s') = size (pl_members s)"
    using start(2) by (simp add: start(1) size_Suc_Diff1)
  moreover have "to_create s' = to_create s"
    using countp_remove [OF start(2), of "\<lambda>x. am_Name x \<notin> peer_names s"]
    by (simp add: to_create_def start(1) peer_names_def)
  moreover have "to_start s' < to_start s"
    using start(3) countp_remove [OF start(2), of "\<lambda>x. \<not> am_Started x"]
    by (simp add: to_start_def start(1))
  ultimately show ?thesis
    by (simp add: plan_order_def distance_def to_replace_def to_retire_def to_mark_def to_release_def start(1))
next
  case (report p)
  let ?q = "p\<lparr>ap_Server := ap_Version p\<rparr>"
  have same: "countp P (pl_peers s') = countp P (pl_peers s)" if "P ?q = P p" for P
    using countp_put [OF report(2), of P ?q] that by (simp add: report(1) split: if_splits)
  have "is_surplus s ?q = is_surplus s p" by (simp add: is_surplus_def)
  then have "to_retire s' = to_retire s" "to_mark s' = to_mark s"
    using same [of "is_surplus s"] same [of "\<lambda>p. is_surplus s p \<and> \<not> ap_Marked p"]
    by (simp_all add: to_retire_def to_mark_def report(1))
  moreover have "to_replace v s' = to_replace v s" "to_release s' = to_release s"
    unfolding to_replace_def to_release_def by (rule same, simp)+
  moreover have "to_create s' = to_create s" "to_start s' = to_start s" "distance r s' = distance r s"
    using peer_names_put [OF report(2), of ?q] by (simp_all add: report(1) to_create_def to_start_def)
  moreover have "to_report s' < to_report s"
    using countp_put [OF report(2), of "\<lambda>p. ap_Server p \<noteq> ap_Version p" ?q] report(3)
    by (simp add: to_report_def report(1))
  ultimately show ?thesis by (simp add: plan_order_def)
next
  case (unmark p)
  let ?q = "p\<lparr>ap_Marked := False\<rparr>"
  have same: "countp P (pl_peers s') = countp P (pl_peers s)" if "P ?q = P p" for P
    using countp_put [OF unmark(2), of P ?q] that by (simp add: unmark(1) split: if_splits)
  have "\<not> is_surplus s ?q" "\<not> is_surplus s p" using unmark(3) by (simp_all add: is_surplus_def)
  then have "to_retire s' = to_retire s" "to_mark s' = to_mark s"
    using same [of "is_surplus s"] same [of "\<lambda>p. is_surplus s p \<and> \<not> ap_Marked p"]
    by (simp_all add: to_retire_def to_mark_def unmark(1))
  moreover have "to_replace v s' = to_replace v s" "to_release s' = to_release s" "to_report s' = to_report s"
    unfolding to_replace_def to_release_def to_report_def by (rule same, simp)+
  moreover have "to_create s' = to_create s" "to_start s' = to_start s" "distance r s' = distance r s"
    using peer_names_put [OF unmark(2), of ?q] by (simp_all add: unmark(1) to_create_def to_start_def)
  moreover have "to_unmark s' < to_unmark s"
    using countp_put [OF unmark(2), of "\<lambda>p. ap_Deleting p \<and> ap_Marked p" ?q] unmark(3,4)
    by (simp add: to_unmark_def unmark(1))
  ultimately show ?thesis by (simp add: plan_order_def)
next
  case (release p)
  note c = countp_drop [OF release(2)]
  have "\<not> is_surplus s p" using release(3) by (simp add: is_surplus_def)
  then show ?thesis
    using c [of "\<lambda>p. ap_Version p \<noteq> v \<and> \<not> ap_Deleting p"] c [of "is_surplus s"]
      c [of "\<lambda>p. is_surplus s p \<and> \<not> ap_Marked p"] c [of ap_Deleting] release(3)
    by (simp add: plan_order_def release(1) plan_measures)
qed

lemma plan_step_decreases: "plan_step r v s s' \<Longrightarrow> (s', s) \<in> plan_order r v"
  unfolding plan_step_def using operator_step_decreases world_step_decreases by blast

section \<open>Where the steps end\<close>

definition plan_done :: "nat \<Rightarrow> string \<Rightarrow> plan \<Rightarrow> bool" where
  "plan_done r v s \<longleftrightarrow>
     size (pl_members s) = r \<and> (\<forall>m \<in># pl_members s. am_Started m) \<and> member_names s = peer_names s \<and>
     (\<forall>p \<in># pl_peers s. ap_Version p = v \<and> ap_Server p = v \<and> \<not> ap_Deleting p)"

lemma greatest_peer:
  assumes "p \<in># pl_peers s" "P p"
  obtains q where "q \<in># pl_peers s" "P q" "\<forall>x \<in># pl_peers s. P x \<longrightarrow> ap_Name x \<le> ap_Name q"
proof -
  let ?N = "ap_Name ` {x \<in> set_mset (pl_peers s). P x}"
  have "Max ?N \<in> ?N" using assms by (intro Max_in) auto
  then obtain q where "q \<in># pl_peers s" "P q" "ap_Name q = Max ?N" by auto
  moreover have "ap_Name x \<le> Max ?N" if "x \<in># pl_peers s" "P x" for x
    using that by (intro Max_ge) auto
  ultimately show thesis using that by auto
qed

lemma fresh_name: "\<exists>n. n \<notin> peer_names s"
  using ex_new_if_finite [of "peer_names s"] infinite_UNIV_listI by (auto simp: peer_names_def)

text \<open>A state in which nothing can happen: peer by peer, then as a whole.\<close>

lemma no_world_step:
  assumes "\<nexists>s'. world_step s s'"
  shows "p \<in># pl_peers s \<Longrightarrow> ap_Server p = ap_Version p \<and> \<not> ap_Deleting p"
    and "m \<in># pl_members s \<Longrightarrow> am_Name m \<in> peer_names s \<Longrightarrow> am_Started m"
  using assms world_step.intros by blast+

lemma stuck_settled:
  assumes "\<nexists>s'. plan_step r v s s'"
  shows "all_settled s" "none_surplus s"
proof -
  have stuck: "\<nexists>s'. operator_step r v s s'" "\<nexists>s'. world_step s s'" using assms by (auto simp: plan_step_def)
  have "am_Name m \<in> peer_names s" if "m \<in># pl_members s" for m using stuck(1) that operator_step.create by blast
  with no_world_step(2) [OF stuck(2)] show settled: "all_settled s" by (auto simp: all_settled_def member_names_def)
  show "none_surplus s"
    unfolding none_surplus_def using stuck(1) settled operator_step.mark operator_step.retire deleted.held by blast
qed

lemma stuck_done:
  assumes "\<nexists>s'. plan_step r v s s'"
  shows "plan_done r v s"
proof -
  have stuck: "\<nexists>s'. operator_step r v s s'" "\<nexists>s'. world_step s s'" using assms by (auto simp: plan_step_def)
  note settled = stuck_settled [OF assms] and quiet = no_world_step [OF stuck(2)]
  have current: "ap_Server p = v" if p: "p \<in># pl_peers s" for p
  proof (rule ccontr)
    assume out: "ap_Server p \<noteq> v"
    obtain q where q: "q \<in># pl_peers s" "ap_Server q \<noteq> v" "\<forall>x \<in># pl_peers s. ap_Server x \<noteq> v \<longrightarrow> ap_Name x \<le> ap_Name q"
      by (rule greatest_peer [where P = "\<lambda>x. ap_Server x \<noteq> v", OF p out])
    then show False
      using stuck(1) operator_step.upgrade [OF settled q _ _ deleted.held] quiet(1) [OF q(1)] by metis
  qed
  have "\<not> size (pl_members s) < r"
    using stuck(1) operator_step.add [OF settled] current fresh_name by metis
  moreover have "\<not> r < size (pl_members s)"
  proof
    assume more: "r < size (pl_members s)"
    then obtain m where "m \<in># pl_members s" by (metis less_nat_zero_code multiset_nonemptyE size_empty)
    with more show False using stuck(1) operator_step.remove [OF settled] current by metis
  qed
  moreover have "peer_names s \<subseteq> member_names s"
    using settled(2) quiet(1) by (auto simp: none_surplus_def is_surplus_def peer_names_def)
  ultimately show ?thesis
    using settled(1) quiet(1) current by (auto simp: plan_done_def all_settled_def)
qed

lemma done_stuck:
  assumes "plan_done r v s"
  shows "\<not> plan_step r v s s'"
proof
  assume "plan_step r v s s'"
  then consider "operator_step r v s s'" | "world_step s s'" by (auto simp: plan_step_def)
  then show False
    by cases (use assms in \<open>auto simp: plan_done_def is_surplus_def elim!: operator_step.cases world_step.cases
        dest: member_namesI peer_namesI\<close>)
qed

section \<open>One member at a time\<close>

text \<open>A member runs if it has started and has a peer that is not going away and has reported a version.\<close>

definition runs :: "plan \<Rightarrow> amember \<Rightarrow> bool" where
  "runs s m \<longleftrightarrow> am_Started m \<and>
     (\<exists>p \<in># pl_peers s. ap_Name p = am_Name m \<and> \<not> ap_Deleting p \<and> ap_Server p \<noteq> [])"

text \<open>
  Peers report nothing or what they were asked to run; the peer of a member is deleted only to be
  replaced; members have different names.
\<close>

definition sound :: "string \<Rightarrow> plan \<Rightarrow> bool" where
  "sound v s \<longleftrightarrow> v \<noteq> [] \<and>
     (\<forall>p \<in># pl_peers s. ap_Version p \<noteq> [] \<and> (ap_Server p = [] \<or> ap_Server p = ap_Version p)) \<and>
     (\<forall>p \<in># pl_peers s. ap_Deleting p \<longrightarrow> ap_Name p \<in> member_names s \<longrightarrow> ap_Version p \<noteq> v) \<and>
     (\<forall>n. countp (\<lambda>m. am_Name m = n) (pl_members s) \<le> 1)"

text \<open>
  A server that has reported may stop answering, and its peer then reports nothing. Such members are
  set aside: they have started and have a peer that is not going away.
\<close>

definition attended :: "plan \<Rightarrow> amember \<Rightarrow> bool" where
  "attended s m \<longleftrightarrow> am_Started m \<and> (\<exists>p \<in># pl_peers s. ap_Name p = am_Name m \<and> \<not> ap_Deleting p)"

definition all_attended :: "string set \<Rightarrow> plan \<Rightarrow> bool" where
  "all_attended F s \<longleftrightarrow> (\<forall>m \<in># pl_members s. am_Name m \<in> F \<longrightarrow> attended s m)"

text \<open>
  Apart from the members set aside, at most the member \<open>n\<close> does not run, and if it does not, every
  peer of a member after \<open>n\<close> in the order of names is to run the desired version or going away.
\<close>

definition lone :: "string \<Rightarrow> string set \<Rightarrow> string \<Rightarrow> plan \<Rightarrow> bool" where
  "lone v F n s \<longleftrightarrow>
     (\<forall>m \<in># pl_members s. am_Name m \<noteq> n \<longrightarrow> am_Name m \<notin> F \<longrightarrow> runs s m) \<and>
     ((\<forall>m \<in># pl_members s. am_Name m \<notin> F \<longrightarrow> runs s m) \<or>
      (\<forall>p \<in># pl_peers s. n < ap_Name p \<longrightarrow> ap_Name p \<in> member_names s \<longrightarrow> ap_Version p = v \<or> ap_Deleting p))"

lemma in_diff_neq: "x \<noteq> p \<Longrightarrow> x \<in># M - {#p#} \<longleftrightarrow> x \<in># M"
  by (simp add: in_diff_count)

lemma in_put:
  "q \<in># pl_peers (put_peer p q s)"
  "x \<in># pl_peers s \<Longrightarrow> x \<noteq> p \<Longrightarrow> x \<in># pl_peers (put_peer p q s)"
  "x \<in># pl_peers (put_peer p q s) \<Longrightarrow> x = q \<or> x \<in># pl_peers s"
  by (auto simp: put_peer_def in_diff_neq dest: in_diffD)

lemma in_drop:
  "x \<in># pl_peers s \<Longrightarrow> x \<noteq> p \<Longrightarrow> x \<in># pl_peers (drop_peer p s)"
  "x \<in># pl_peers (drop_peer p s) \<Longrightarrow> x \<in># pl_peers s"
  by (auto simp: drop_peer_def in_diff_neq dest: in_diffD)

lemma runs_transfer:
  assumes "runs s m"
    and "\<And>p. p \<in># pl_peers s \<Longrightarrow> ap_Name p = am_Name m \<Longrightarrow> \<not> ap_Deleting p \<Longrightarrow> ap_Server p \<noteq> [] \<Longrightarrow>
      \<exists>q \<in># pl_peers s'. ap_Name q = am_Name m \<and> \<not> ap_Deleting q \<and> ap_Server q \<noteq> []"
  shows "runs s' m"
  using assms unfolding runs_def by blast

lemma sound_names:
  assumes "sound v s" "m \<in># pl_members s" "m' \<in># pl_members s" "am_Name m' = am_Name m" "m' \<noteq> m"
  shows False
proof -
  have "m' \<in># pl_members s - {#m#}" using assms(3,5) by (simp add: in_diff_neq)
  then have "0 < countp (\<lambda>x. am_Name x = am_Name m) (pl_members s - {#m#})"
    by (rule countp_pos) (simp add: assms(4))
  with countp_remove [OF assms(2), of "\<lambda>x. am_Name x = am_Name m"]
  have "1 < countp (\<lambda>x. am_Name x = am_Name m) (pl_members s)" by simp
  with assms(1) show False unfolding sound_def by (meson not_le)
qed

text \<open>A step that replaces a peer by one of the same name and version, still sound.\<close>

lemma sound_put:
  assumes "sound v s" "p \<in># pl_peers s"
    and "ap_Name q = ap_Name p" "ap_Version q = ap_Version p" "ap_Server q \<in> {ap_Server p, ap_Version p, []}"
    and "ap_Deleting q \<Longrightarrow> ap_Name p \<in> member_names s \<Longrightarrow> \<not> ap_Deleting p \<Longrightarrow> ap_Version p \<noteq> v"
  shows "sound v (put_peer p q s)"
  using assms unfolding sound_def by (auto dest!: in_put(3))

lemma sound_drop: "sound v s \<Longrightarrow> sound v (drop_peer p s)"
  unfolding sound_def by (auto dest!: in_drop(2))

lemma sound_deleted:
  assumes "deleted p s s'" "sound v s" "p \<in># pl_peers s" "ap_Name p \<in> member_names s \<Longrightarrow> ap_Version p \<noteq> v"
  shows "sound v s'"
  using assms by cases (auto intro!: sound_put sound_drop)

lemma operator_step_sound:
  assumes "operator_step r v s s'" "sound v s"
  shows "sound v s'"
  using assms(1)
proof cases
  case (create m)
  then show ?thesis using assms(2) by (auto simp: sound_def fresh_peer_def member_names_def)
next
  case (mark p)
  then show ?thesis by (auto intro!: sound_put assms(2))
next
  case (retire p)
  then show ?thesis by (intro sound_deleted [OF retire(5) assms(2)]) (simp_all add: is_surplus_def)
next
  case (upgrade p)
  then show ?thesis by (intro sound_deleted [OF upgrade(8) assms(2)])
next
  case (add n i)
  then have "n \<notin> member_names s" by (auto simp: all_settled_def)
  then have "countp (\<lambda>m. am_Name m = n) (pl_members s) = 0"
    by (intro countp_none) (auto simp: member_names_def)
  then show ?thesis
    using assms(2) add(6) by (auto simp: sound_def add(1) member_names_def dest: peer_namesI)
next
  case (remove m)
  have "countp P (pl_members s') \<le> countp P (pl_members s)" for P
    using countp_remove [OF remove(6), of P] by (simp add: remove(1))
  then have "\<forall>n. countp (\<lambda>m. am_Name m = n) (pl_members s') \<le> 1"
    using assms(2) unfolding sound_def by (meson order_trans)
  moreover have "member_names s' \<subseteq> member_names s"
    by (auto simp: remove(1) member_names_def dest: in_diffD)
  moreover have "pl_peers s' = pl_peers s" by (simp add: remove(1))
  ultimately show ?thesis using assms(2) unfolding sound_def by (metis subsetD)
qed

lemma world_step_sound:
  assumes "world_step s s'" "sound v s"
  shows "sound v s'"
  using assms(1)
proof cases
  case (start m)
  have "countp (\<lambda>x. am_Name x = n) (pl_members s') = countp (\<lambda>x. am_Name x = n) (pl_members s)" for n
    using countp_remove [OF start(2), of "\<lambda>x. am_Name x = n"] by (simp add: start(1))
  then show ?thesis
    using assms(2) member_names_start [OF start(2)] by (simp add: sound_def start(1))
next
  case (report p)
  then show ?thesis by (auto intro!: sound_put assms(2))
next
  case (unmark p)
  then show ?thesis by (auto intro!: sound_put assms(2))
next
  case (release p)
  then show ?thesis by (simp add: sound_drop assms(2))
qed

text \<open>
  The peer that the operator replaces is the one of the member that does not run, if there is one
  besides those set aside.
\<close>

lemma upgraded_is_lone:
  assumes sound: "sound v s" and lone: "lone v F n s" and settled: "all_settled s" "none_surplus s"
    and p: "p \<in># pl_peers s" "\<forall>q \<in># pl_peers s. ap_Server q \<noteq> v \<longrightarrow> ap_Name q \<le> ap_Name p"
    and out: "ap_Version p \<noteq> v" "\<not> ap_Deleting p"
    and m: "m \<in># pl_members s" "am_Name m \<notin> F" "\<not> runs s m"
  shows "ap_Name p = n"
proof -
  have n: "am_Name m = n" using lone m by (auto simp: lone_def)
  obtain q where q: "q \<in># pl_peers s" "ap_Name q = n"
    using settled(1) m(1) n by (force simp: all_settled_def member_names_def peer_names_def)
  have "ap_Deleting q \<or> ap_Server q = []"
    using m q n settled(1) by (auto simp: runs_def all_settled_def)
  then have "ap_Server q \<noteq> v"
    using sound q m(1) n member_namesI [OF m(1)] unfolding sound_def by metis
  then have "n \<le> ap_Name p" using p(2) q by auto
  moreover have "ap_Name p \<in> member_names s"
    using settled(2) p(1) out(2) by (auto simp: none_surplus_def is_surplus_def)
  then have "\<not> n < ap_Name p" using lone m p(1) out unfolding lone_def by blast
  ultimately show ?thesis by simp
qed

lemma all_run_when_current:
  assumes "sound v s" "all_settled s" "\<forall>p \<in># pl_peers s. ap_Server p = v" "m \<in># pl_members s"
  shows "runs s m"
proof -
  obtain q where q: "q \<in># pl_peers s" "ap_Name q = am_Name m"
    using assms(2,4) by (force simp: all_settled_def member_names_def peer_names_def)
  have "\<not> ap_Deleting q"
    using assms(1,3) q member_namesI [OF assms(4)] unfolding sound_def by metis
  with q assms show ?thesis by (auto simp: runs_def all_settled_def sound_def)
qed

lemma runs_put:
  assumes "runs s x" "ap_Name p = am_Name x \<Longrightarrow> \<not> ap_Deleting p \<Longrightarrow> ap_Server p \<noteq> [] \<Longrightarrow>
      ap_Name q = ap_Name p \<and> \<not> ap_Deleting q \<and> ap_Server q \<noteq> []"
  shows "runs (put_peer p q s) x"
  using assms(1)
proof (rule runs_transfer)
  fix y assume y: "y \<in># pl_peers s" "ap_Name y = am_Name x" "\<not> ap_Deleting y" "ap_Server y \<noteq> []"
  show "\<exists>q' \<in># pl_peers (put_peer p q s). ap_Name q' = am_Name x \<and> \<not> ap_Deleting q' \<and> ap_Server q' \<noteq> []"
  proof (cases "y = p")
    case True
    then show ?thesis using assms(2) y in_put(1) [of q p s] by (intro bexI [of _ q]) auto
  next
    case False
    then show ?thesis using y in_put(2) by blast
  qed
qed

lemma runs_drop:
  assumes "runs s x" "ap_Name p = am_Name x \<Longrightarrow> ap_Deleting p"
  shows "runs (drop_peer p s) x"
  using assms(1) by (rule runs_transfer) (use assms(2) in_drop(1) in metis)

lemma runs_deleted: "deleted p s s' \<Longrightarrow> runs s x \<Longrightarrow> ap_Name p \<noteq> am_Name x \<Longrightarrow> runs s' x"
  by (erule deleted.cases) (auto intro: runs_put runs_drop)

lemma deleted_peers:
  assumes "deleted p s s'"
  shows "pl_members s' = pl_members s" "x \<in># pl_peers s' \<Longrightarrow> x \<in># pl_peers s \<or> ap_Deleting x"
  using assms by (cases; auto dest: in_put(3) in_drop(2))+

text \<open>What the steps keep of the peers of a member.\<close>

lemma attended_transfer:
  assumes "attended s m"
    and "\<And>p. p \<in># pl_peers s \<Longrightarrow> ap_Name p = am_Name m \<Longrightarrow> \<not> ap_Deleting p \<Longrightarrow>
      \<exists>q \<in># pl_peers s'. ap_Name q = am_Name m \<and> \<not> ap_Deleting q"
  shows "attended s' m"
  using assms unfolding attended_def by blast

lemma attended_put:
  assumes "attended s x" "ap_Name p = am_Name x \<Longrightarrow> \<not> ap_Deleting p \<Longrightarrow> ap_Name q = ap_Name p \<and> \<not> ap_Deleting q"
  shows "attended (put_peer p q s) x"
  using assms(1)
proof (rule attended_transfer)
  fix y assume y: "y \<in># pl_peers s" "ap_Name y = am_Name x" "\<not> ap_Deleting y"
  show "\<exists>q' \<in># pl_peers (put_peer p q s). ap_Name q' = am_Name x \<and> \<not> ap_Deleting q'"
    using assms(2) y in_put(1) [of q p s] in_put(2) [OF y(1), of p q] by (cases "y = p") auto
qed

lemma attended_drop:
  assumes "attended s x" "ap_Name p = am_Name x \<Longrightarrow> ap_Deleting p"
  shows "attended (drop_peer p s) x"
  using assms(1) by (rule attended_transfer) (use assms(2) in_drop(1) in metis)

lemma attended_deleted: "deleted p s s' \<Longrightarrow> attended s x \<Longrightarrow> ap_Name p \<noteq> am_Name x \<Longrightarrow> attended s' x"
  by (erule deleted.cases) (auto intro: attended_put attended_drop)

lemma more_peers:
  "runs s x \<Longrightarrow> runs (s\<lparr>pl_peers := add_mset q (pl_peers s)\<rparr>) x"
  "attended s x \<Longrightarrow> attended (s\<lparr>pl_peers := add_mset q (pl_peers s)\<rparr>) x"
  by (auto simp: runs_def attended_def)

lemma runs_attended: "runs s m \<Longrightarrow> attended s m"
  by (auto simp: runs_def attended_def)

text \<open>A step that keeps members running and attended, and brings no outdated peer for one of them.\<close>

lemma lone_keep:
  assumes "lone v F n s" "all_attended F s" "pl_members s' = pl_members s"
    and "\<And>m. m \<in># pl_members s \<Longrightarrow> runs s m \<Longrightarrow> runs s' m"
    and "\<And>m. m \<in># pl_members s \<Longrightarrow> attended s m \<Longrightarrow> attended s' m"
    and "\<And>p. p \<in># pl_peers s' \<Longrightarrow> ap_Name p \<in> member_names s \<Longrightarrow>
      ap_Version p = v \<or> ap_Deleting p \<or> (\<exists>q \<in># pl_peers s. ap_Name q = ap_Name p \<and> ap_Version q = ap_Version p \<and> \<not> ap_Deleting q)"
  shows "lone v F n s' \<and> all_attended F s'"
proof -
  have "member_names s' = member_names s" by (simp add: member_names_def assms(3))
  then have "ap_Version p = v \<or> ap_Deleting p"
    if "\<forall>p \<in># pl_peers s. n < ap_Name p \<longrightarrow> ap_Name p \<in> member_names s \<longrightarrow> ap_Version p = v \<or> ap_Deleting p"
      "p \<in># pl_peers s'" "n < ap_Name p" "ap_Name p \<in> member_names s'" for p
    using that assms(6) [of p] by metis
  then show ?thesis using assms(1-5) unfolding lone_def all_attended_def by (elim conjE disjE) auto
qed

text \<open>
  The invariant: the state is sound, and some of the members \<open>F\<close> are attended and can be set aside
  so that at most one more does not run.
\<close>

definition guarded :: "string \<Rightarrow> string set \<Rightarrow> plan \<Rightarrow> bool" where
  "guarded v F s \<longleftrightarrow> sound v s \<and> (\<exists>G n. G \<subseteq> F \<and> all_attended G s \<and> lone v G n s)"

lemma guardedI: "sound v s \<Longrightarrow> lone v G n s \<and> all_attended G s \<Longrightarrow> G \<subseteq> F \<Longrightarrow> guarded v F s"
  unfolding guarded_def by blast

lemma guarded_mono: "guarded v F s \<Longrightarrow> F \<subseteq> H \<Longrightarrow> guarded v H s"
  unfolding guarded_def by blast

lemma guarded_start: "sound v s \<Longrightarrow> \<forall>m \<in># pl_members s. runs s m \<Longrightarrow> guarded v F s"
  by (rule guardedI [of _ _ "{}"]) (simp_all add: lone_def all_attended_def)

lemma operator_step_guarded:
  assumes "operator_step r v s s'" "guarded v F s"
  shows "guarded v F s'"
proof -
  from assms(2) obtain G n where G: "sound v s" "G \<subseteq> F" "all_attended G s" "lone v G n s" by (auto simp: guarded_def)
  note sound' = operator_step_sound [OF assms(1) G(1)]
  from assms(1) show ?thesis
  proof cases
    case (create m)
    have "lone v G n s' \<and> all_attended G s'"
      by (rule lone_keep [OF G(4,3)])
        (auto simp: create(1) fresh_peer_def intro: more_peers)
    then show ?thesis using sound' G(2) by (intro guardedI)
  next
    case (mark p)
    have "lone v G n s' \<and> all_attended G s'"
      by (rule lone_keep [OF G(4,3)])
        (use mark(3) in \<open>auto simp: mark(1) intro: runs_put attended_put dest!: in_put(3)\<close>)
    then show ?thesis using sound' G(2) by (intro guardedI)
  next
    case (retire p)
    have p: "ap_Name p \<noteq> am_Name x" if "x \<in># pl_members s" for x
      using retire(3) member_namesI [OF that] by (auto simp: is_surplus_def)
    have "lone v G n s' \<and> all_attended G s'"
      by (rule lone_keep [OF G(4,3)])
        (use p runs_deleted [OF retire(5)] attended_deleted [OF retire(5)] deleted_peers [OF retire(5)] in blast)+
    then show ?thesis using sound' G(2) by (intro guardedI)
  next
    case (upgrade p)
    note peers = deleted_peers [OF upgrade(8)]
    let ?G = "G - {ap_Name p}"
    have "(\<forall>m \<in># pl_members s. am_Name m \<noteq> ap_Name p \<longrightarrow> am_Name m \<notin> G \<longrightarrow> runs s m) \<and>
      (\<forall>x \<in># pl_peers s. ap_Name p < ap_Name x \<longrightarrow> ap_Name x \<in> member_names s \<longrightarrow> ap_Version x = v \<or> ap_Deleting x)"
    proof (cases "\<forall>m \<in># pl_members s. am_Name m \<notin> G \<longrightarrow> runs s m")
      case True
      moreover have "\<forall>x \<in># pl_peers s. ap_Name p < ap_Name x \<longrightarrow> ap_Version x = v"
        using upgrade(5) G(1) unfolding sound_def by (metis not_le)
      ultimately show ?thesis by blast
    next
      case False
      then have "ap_Name p = n"
        using upgraded_is_lone [OF G(1,4) upgrade(1,2,3,5,6,7)] by blast
      then show ?thesis using G(4) False by (auto simp: lone_def)
    qed
    then have "lone v ?G (ap_Name p) s'"
      using runs_deleted [OF upgrade(8)] peers unfolding lone_def member_names_def
      by (metis DiffI singletonD)
    moreover have "all_attended ?G s'"
      using G(3) attended_deleted [OF upgrade(8)] peers(1) unfolding all_attended_def by (metis DiffE singletonI)
    ultimately show ?thesis using sound' G(2) by (intro guardedI [where G = ?G]) auto
  next
    case (add n' i)
    have "runs s' x" if "x \<in># pl_members s" for x
      by (rule runs_transfer [OF all_run_when_current [OF G(1) add(2,4) that]]) (auto simp: add(1))
    moreover have "\<forall>p \<in># pl_peers s. ap_Version p = v" using add(4) G(1) unfolding sound_def by metis
    ultimately have "lone v {} n' s'" unfolding lone_def by (auto simp: add(1))
    then show ?thesis using sound' by (intro guardedI [where G = "{}"]) (simp_all add: all_attended_def)
  next
    case (remove m)
    have "runs s' x" if "x \<in># pl_members s'" for x
      by (rule runs_transfer [OF all_run_when_current [OF G(1) remove(2,4)]])
        (use that in \<open>auto simp: remove(1) dest: in_diffD\<close>)
    then show ?thesis using sound' by (intro guarded_start) auto
  qed
qed

lemma world_step_guarded:
  assumes "world_step s s'" "guarded v F s"
  shows "guarded v F s'"
proof -
  from assms(2) obtain G n where G: "sound v s" "G \<subseteq> F" "all_attended G s" "lone v G n s" by (auto simp: guarded_def)
  note sound' = world_step_sound [OF assms(1) G(1)]
  from assms(1) have "lone v G n s' \<and> all_attended G s'"
  proof cases
    case (start m)
    have keeps: "runs s x \<Longrightarrow> runs s' x" "attended s x \<Longrightarrow> attended s' x" for x
      by (erule runs_transfer attended_transfer; auto simp: start(1))+
    have "am_Name m \<notin> G" "\<not> runs s m"
      using start(2,3) G(3) by (auto simp: all_attended_def attended_def runs_def)
    moreover have "member_names s' = member_names s"
      unfolding start(1) by (rule member_names_start [OF start(2)]) simp
    ultimately show ?thesis
      using G(3,4) start(2) keeps unfolding lone_def all_attended_def
      by (auto simp: start(1) dest!: in_diffD)
  next
    case (report p)
    have "ap_Version p \<noteq> []" using G(1) report(2) by (simp add: sound_def)
    then show ?thesis
      by (intro lone_keep [OF G(4,3)])
        (use report(2) in \<open>auto simp: report(1) intro: runs_put attended_put dest!: in_put(3)\<close>)
  next
    case (unmark p)
    then show ?thesis
      by (intro lone_keep [OF G(4,3)]) (auto simp: unmark(1) intro: runs_put attended_put dest!: in_put(3))
  next
    case (release p)
    then show ?thesis
      by (intro lone_keep [OF G(4,3)]) (auto simp: release(1) intro: runs_drop attended_drop dest!: in_drop(2))
  qed
  then show ?thesis using sound' G(2) by (intro guardedI)
qed

lemma plan_step_guarded: "plan_step r v s s' \<Longrightarrow> guarded v F s \<Longrightarrow> guarded v F s'"
  unfolding plan_step_def using operator_step_guarded world_step_guarded by blast

lemma bootstrap_step_guarded:
  assumes "bootstrap_step r v s s'" "guarded v F s"
  shows "guarded v F s'"
proof -
  from assms(2) obtain G n where G: "sound v s" "G \<subseteq> F" "all_attended G s" "lone v G n s" by (auto simp: guarded_def)
  obtain k where k: "s' = s\<lparr>pl_peers := add_mset (fresh_peer k v) (pl_peers s)\<rparr>"
    using assms(1) by (auto simp: bootstrap_step_def)
  have "sound v s'" using G(1) by (auto simp: k sound_def fresh_peer_def member_names_def)
  moreover have "lone v G n s' \<and> all_attended G s'"
    by (rule lone_keep [OF G(4,3)]) (auto simp: k fresh_peer_def intro: more_peers)
  ultimately show ?thesis using G(2) by (intro guardedI)
qed

section \<open>Servers that stop answering\<close>

text \<open>
  A peer whose server does not answer reports nothing any more, though it reported a version before.
  The names of the members in that state are kept along a run: a member enters when it ran and its
  peer, which stays, has nothing reported after the step; it leaves when it runs again or its peer
  goes.
\<close>

inductive silence :: "plan \<Rightarrow> plan \<Rightarrow> bool" where
  silence: "p \<in># pl_peers s \<Longrightarrow> silence s (put_peer p (p\<lparr>ap_Server := []\<rparr>) s)"

definition silent :: "plan \<Rightarrow> amember \<Rightarrow> bool" where
  "silent s m \<longleftrightarrow> attended s m \<and> \<not> runs s m"

definition unanswered :: "string set \<Rightarrow> plan \<Rightarrow> plan \<Rightarrow> string set" where
  "unanswered F s s' = am_Name `
     {m \<in> set_mset (pl_members s'). silent s' m \<and> (am_Name m \<in> F \<or> m \<in># pl_members s \<and> runs s m)}"

text \<open>Only members that are silent need to be set aside.\<close>

lemma guarded_silent:
  assumes "guarded v F s"
  shows "guarded v (F \<inter> am_Name ` {m \<in> set_mset (pl_members s). silent s m}) s"
proof -
  from assms obtain G n where G: "sound v s" "G \<subseteq> F" "all_attended G s" "lone v G n s" by (auto simp: guarded_def)
  let ?H = "G \<inter> am_Name ` {m \<in> set_mset (pl_members s). silent s m}"
  have "runs s m" if "m \<in># pl_members s" "am_Name m \<in> G" "am_Name m \<notin> ?H" for m
    using that G(3) by (auto simp: all_attended_def silent_def)
  then have "lone v ?H n s" using G(4) unfolding lone_def by blast
  moreover have "all_attended ?H s" using G(3) by (auto simp: all_attended_def)
  ultimately show ?thesis using G(1,2) by (intro guardedI [where G = ?H]) auto
qed

lemma silence_guarded:
  assumes "silence s s'" "guarded v F s"
  shows "guarded v (F \<union> am_Name ` {m \<in> set_mset (pl_members s). runs s m}) s'"
proof -
  from assms(2) obtain G n where G: "sound v s" "G \<subseteq> F" "all_attended G s" "lone v G n s" by (auto simp: guarded_def)
  from assms(1) obtain p where p: "p \<in># pl_peers s" and s': "s' = put_peer p (p\<lparr>ap_Server := []\<rparr>) s"
    by (auto elim: silence.cases)
  let ?H = "G \<union> am_Name ` {m \<in> set_mset (pl_members s). runs s m \<and> am_Name m = ap_Name p}"
  have same: "pl_members s' = pl_members s" by (simp add: s')
  have "sound v s'" unfolding s' by (rule sound_put [OF G(1) p]) simp_all
  moreover have att: "attended s x \<Longrightarrow> attended s' x" for x unfolding s' by (erule attended_put) simp
  have "am_Name x \<in> ?H \<Longrightarrow> x \<in># pl_members s \<Longrightarrow> attended s x" for x
    using G(1,3) sound_names runs_attended unfolding all_attended_def by blast
  then have "all_attended ?H s'" using att unfolding all_attended_def same by blast
  moreover have "runs s' x" if "runs s x" "x \<in># pl_members s" "am_Name x \<notin> ?H" for x
    unfolding s' by (rule runs_put [OF that(1)]) (use that in auto)
  moreover have "member_names s' = member_names s" by (simp add: s')
  ultimately have "lone v ?H n s' \<and> all_attended ?H s'"
    using G(4) p unfolding lone_def same by (auto simp: s' dest!: in_put(3))
  with \<open>sound v s'\<close> show ?thesis by (rule guardedI) (rule Un_mono [OF G(2) image_mono], blast)
qed

lemma steps_unanswered:
  assumes "guarded v F s'"
  shows "guarded v (unanswered F s s') s'"
  by (rule guarded_mono [OF guarded_silent [OF assms]]) (auto simp: unanswered_def)

lemma silence_unanswered:
  assumes "silence u s'" "guarded v F u" "pl_members u = pl_members s" "\<And>m. runs u m \<Longrightarrow> runs s m"
  shows "guarded v (unanswered F s s') s'"
proof -
  have same: "pl_members s' = pl_members u" using assms(1) by (auto elim: silence.cases)
  have one: "m' = m" if "m \<in># pl_members u" "m' \<in># pl_members u" "am_Name m' = am_Name m" for m m'
    using sound_names [OF _ that(1,2)] that(3) assms(2) unfolding guarded_def by blast
  have "(F \<union> am_Name ` {m \<in> set_mset (pl_members u). runs u m}) \<inter>
      am_Name ` {m \<in> set_mset (pl_members s'). silent s' m} \<subseteq> unanswered F s s'"
  proof
    fix x assume "x \<in> (F \<union> am_Name ` {m \<in> set_mset (pl_members u). runs u m}) \<inter>
      am_Name ` {m \<in> set_mset (pl_members s'). silent s' m}"
    then obtain m where m: "m \<in># pl_members s'" "silent s' m" "x = am_Name m"
      and x: "x \<in> F \<or> (\<exists>m' \<in># pl_members u. runs u m' \<and> x = am_Name m')" by blast
    then have "am_Name m \<in> F \<or> m \<in># pl_members s \<and> runs s m"
      using one assms(3,4) same by metis
    with m show "x \<in> unanswered F s s'" by (auto simp: unanswered_def)
  qed
  with guarded_silent [OF silence_guarded [OF assms(1,2)]] show ?thesis by (rule guarded_mono)
qed

text \<open>At most one member that is not set aside does not run.\<close>

definition one_down :: "string set \<Rightarrow> plan \<Rightarrow> bool" where
  "one_down F s \<longleftrightarrow> countp (\<lambda>m. \<not> runs s m \<and> am_Name m \<notin> F) (pl_members s) \<le> 1"

lemma guarded_one_down:
  assumes "guarded v F s"
  shows "one_down F s"
proof -
  from assms obtain G n where G: "sound v s" "G \<subseteq> F" "lone v G n s" by (auto simp: guarded_def)
  have "countp (\<lambda>m. \<not> runs s m \<and> am_Name m \<notin> F) (pl_members s) \<le> countp (\<lambda>m. am_Name m = n) (pl_members s)"
    by (rule countp_mono) (use G(2,3) in \<open>auto simp: lone_def\<close>)
  also have "\<dots> \<le> 1" using G(1) by (simp add: sound_def)
  finally show ?thesis by (simp add: one_down_def)
qed

section \<open>The peer to be replaced\<close>

text \<open>
  When every member has started and has a peer, no peer is spare, and the last peer that does not
  report the desired version is not asked to run it either, the operator can only delete that peer.
  It does so whether or not the other members run.
\<close>

definition to_upgrade :: "string \<Rightarrow> apeer \<Rightarrow> plan \<Rightarrow> bool" where
  "to_upgrade v p s \<longleftrightarrow> all_settled s \<and> none_surplus s \<and> p \<in># pl_peers s \<and> ap_Server p \<noteq> v \<and>
     (\<forall>q \<in># pl_peers s. ap_Server q \<noteq> v \<longrightarrow> ap_Name q \<le> ap_Name p) \<and> ap_Version p \<noteq> v \<and> \<not> ap_Deleting p"

lemma operator_step_upgrades:
  assumes "operator_step r v s s'" "to_upgrade v p s" "\<forall>q \<in># pl_peers s - {#p#}. ap_Name q \<noteq> ap_Name p"
  shows "deleted p s s'"
  using assms(1)
proof cases
  case (upgrade q)
  have "ap_Name q = ap_Name p" using upgrade(3-5) assms(2) by (simp add: to_upgrade_def antisym)
  then have "q = p" using upgrade(3) assms(3) in_diff_neq by metis
  with upgrade(8) show ?thesis by simp
qed (use assms(2) in \<open>auto simp: to_upgrade_def all_settled_def none_surplus_def dest: member_namesI\<close>)

lemma deleted_down:
  assumes "deleted p s s'" "\<forall>q \<in># pl_peers s - {#p#}. ap_Name q \<noteq> ap_Name p"
  shows "am_Name m = ap_Name p \<Longrightarrow> \<not> runs s' m" "am_Name m \<noteq> ap_Name p \<Longrightarrow> \<not> runs s m \<Longrightarrow> \<not> runs s' m"
  using assms(1) by (cases; use assms(2) in \<open>auto simp: runs_def put_peer_def drop_peer_def dest: in_diffD\<close>)+

lemma countp_two:
  assumes "x \<in># M" "y \<in># M" "x \<noteq> y" "P x" "P y"
  shows "2 \<le> countp P M"
proof -
  have "0 < countp P (M - {#x#})" using assms by (intro countp_pos [of y]) (simp_all add: in_diff_neq)
  then show ?thesis using countp_remove [OF assms(1), of P] assms(4) by simp
qed

lemma upgrade_takes_down:
  assumes "to_upgrade v p s" "deleted p s s'" "\<forall>q \<in># pl_peers s - {#p#}. ap_Name q \<noteq> ap_Name p"
    and "m \<in># pl_members s" "am_Name m \<noteq> ap_Name p" "\<not> runs s m"
  shows "2 \<le> countp (\<lambda>m. \<not> runs s' m) (pl_members s')"
proof -
  have "ap_Name p \<in> member_names s" using assms(1) by (auto simp: to_upgrade_def none_surplus_def is_surplus_def)
  then obtain x where "x \<in># pl_members s" "am_Name x = ap_Name p" by (auto simp: member_names_def)
  moreover note deleted_down [OF assms(2,3)] deleted_peers(1) [OF assms(2)]
  ultimately show ?thesis using assms(4-6) by (intro countp_two [of x _ m]) auto
qed

end
