(* ===== verification/Tracking.thy ===== *)
theory Tracking
  imports Client
begin

text \<open>
  Following what a server holds through the requests of a handler: a law says what a request with its
  answer may do to the view of the objects, and a handler that only makes requests for which the server
  keeps the law moves the view along the law, request by request.
\<close>

section \<open>Servers that keep a law\<close>

text \<open>\<open>good\<close> are the states a server can be in, and \<open>view\<close> is what it holds in them.\<close>

definition serves :: "(call \<Rightarrow> 'v \<Rightarrow> 'v \<Rightarrow> bool) \<Rightarrow> ('w \<Rightarrow> bool) \<Rightarrow> ('w \<Rightarrow> 'v) \<Rightarrow> ('a \<Rightarrow> call) \<Rightarrow> ('w \<Rightarrow> 'a \<times> 'w) \<Rightarrow> bool" where
  "serves law good view log f \<longleftrightarrow>
     (\<forall>w. good w \<longrightarrow> (case f w of (a, w') \<Rightarrow> good w' \<and> law (log a) (view w) (view w')))"

section \<open>Objects along a trace\<close>

fun path :: "(call \<Rightarrow> 'v \<Rightarrow> 'v \<Rightarrow> bool) \<Rightarrow> call list \<Rightarrow> 'v \<Rightarrow> 'v \<Rightarrow> bool" where
  "path law [] v v' \<longleftrightarrow> v' = v"
| "path law (x # tr) v v' \<longleftrightarrow> (\<exists>u. law x v u \<and> path law tr u v')"

lemma path_append: "path law (xs @ ys) v v' \<longleftrightarrow> (\<exists>u. path law xs v u \<and> path law ys u v')"
  by (induction xs arbitrary: v) auto

definition tracks :: "(call \<Rightarrow> 'v \<Rightarrow> 'v \<Rightarrow> bool) \<Rightarrow> ('w \<Rightarrow> bool) \<Rightarrow> ('w \<Rightarrow> 'v) \<Rightarrow> ('w, 'a) io \<Rightarrow> bool" where
  "tracks law good view m \<longleftrightarrow>
     (\<forall>s. good (server s) \<longrightarrow>
        (\<exists>tr. trace (snd (run_state m s)) = trace s @ tr \<and> good (server (snd (run_state m s))) \<and>
           path law tr (view (server s)) (view (server (snd (run_state m s))))))"

named_theorems tracks_steps \<open>rules that follow the objects through a handler\<close>

lemma tracks_return [tracks_steps]: "tracks law good view (State_Monad.return x)"
  by (simp add: tracks_def)

lemma tracks_call: "serves law good view log f \<Longrightarrow> tracks law good view (call log f)"
  by (simp add: tracks_def serves_def case_prod_beta)

lemma tracks_bind [tracks_steps]:
  assumes m: "tracks law good view m" and f: "\<And>x. tracks law good view (f x)"
  shows "tracks law good view (State_Monad.bind m f)"
  unfolding tracks_def
proof (intro allI impI)
  fix s :: "'b world" assume g: "good (server s)"
  obtain x s1 where x: "run_state m s = (x, s1)" by fastforce
  with m g obtain t1 where t1: "trace s1 = trace s @ t1" "good (server s1)" "path law t1 (view (server s)) (view (server s1))"
    unfolding tracks_def by (metis snd_conv)
  obtain y s2 where y: "run_state (f x) s1 = (y, s2)" by fastforce
  with f [of x] t1(2) obtain t2 where t2: "trace s2 = trace s1 @ t2" "good (server s2)" "path law t2 (view (server s1)) (view (server s2))"
    unfolding tracks_def by (metis snd_conv)
  have "path law (t1 @ t2) (view (server s)) (view (server s2))" using t1(3) t2(3) by (auto simp: path_append)
  with t1 t2 x y show "\<exists>tr. trace (snd (run_state (State_Monad.bind m f) s)) = trace s @ tr \<and>
      good (server (snd (run_state (State_Monad.bind m f) s))) \<and>
      path law tr (view (server s)) (view (server (snd (run_state (State_Monad.bind m f) s))))"
    by (intro exI [of _ "t1 @ t2"]) simp
qed

lemma tracks_case [tracks_steps]:
  "(\<And>a. tracks law good view (f a)) \<Longrightarrow> (\<And>b. tracks law good view (g b)) \<Longrightarrow>
     tracks law good view (case x of Inl a \<Rightarrow> f a | Inr b \<Rightarrow> g b)"
  "tracks law good view m \<Longrightarrow> (\<And>b. tracks law good view (h b)) \<Longrightarrow>
     tracks law good view (case y of None \<Rightarrow> m | Some b \<Rightarrow> h b)"
  "tracks law good view m \<Longrightarrow> (\<And>b. tracks law good view (h' b)) \<Longrightarrow>
     tracks law good view (case z of Panic \<Rightarrow> m | Return b \<Rightarrow> h' b)"
  "(\<And>a b. tracks law good view (k a b)) \<Longrightarrow> tracks law good view (case p of (a, b) \<Rightarrow> k a b)"
  "tracks law good view m \<Longrightarrow> tracks law good view n \<Longrightarrow> tracks law good view (if c then m else n)"
  by (auto split: sum.split option.split outcome.split prod.split)

lemma tracks_list [tracks_steps]:
  "tracks law good view m \<Longrightarrow> (\<And>a as. tracks law good view (k a as)) \<Longrightarrow>
     tracks law good view (case xs of [] \<Rightarrow> m | a # as \<Rightarrow> k a as)"
  by (cases xs) simp_all

lemma tracks_Let [tracks_steps]: "tracks law good view (f x) \<Longrightarrow> tracks law good view (let y = x in f y)"
  by simp

text \<open>A pass of a handler, from an empty trace.\<close>

lemma tracks_run:
  assumes "tracks law good view m" "good w"
  shows "good (server (snd (run_state m \<lparr>server = w, trace = []\<rparr>)))"
    "path law (trace (snd (run_state m \<lparr>server = w, trace = []\<rparr>))) (view w)
       (view (server (snd (run_state m \<lparr>server = w, trace = []\<rparr>))))"
  using assms unfolding tracks_def by (metis append_Nil world.select_convs)+

text \<open>
  The contract of a law: events are not requests, and recording one changes nothing.
\<close>

locale server_law =
  fixes law :: "call \<Rightarrow> 'v \<Rightarrow> 'v \<Rightarrow> bool"
  assumes recorded: "law (Recorded ev) v v"
begin

lemma tracks_record [tracks_steps]: "tracks law good view (record_event ev)"
  by (simp add: tracks_def recorded)

end

section \<open>Servers shared with others\<close>

text \<open>Others may act before each request: \<open>drift\<close> is what they do, \<open>exec\<close> what the request does.\<close>

definition between :: "('v \<Rightarrow> 'v \<Rightarrow> bool) \<Rightarrow> (call \<Rightarrow> 'v \<Rightarrow> 'v \<Rightarrow> bool) \<Rightarrow> call \<Rightarrow> 'v \<Rightarrow> 'v \<Rightarrow> bool" where
  "between drift exec x v v' \<longleftrightarrow> (\<exists>u. drift v u \<and> exec x u v')"

text \<open>
  The contract: requests that are no changes and recorded events change nothing, and neither requests
  nor others undo what is to be kept.
\<close>

locale shared_server =
  fixes drift :: "'v \<Rightarrow> 'v \<Rightarrow> bool" and keep :: "'v \<Rightarrow> 'v \<Rightarrow> bool" and exec :: "call \<Rightarrow> 'v \<Rightarrow> 'v \<Rightarrow> bool"
  assumes drift_refl: "drift v v" and drift_trans: "drift u v \<Longrightarrow> drift v w \<Longrightarrow> drift u w"
    and keep_trans: "keep u v \<Longrightarrow> keep v w \<Longrightarrow> keep u w" and drift_keep: "drift v v' \<Longrightarrow> keep v v'"
    and exec_keep: "exec x v v' \<Longrightarrow> keep v v'" and exec_quiet: "exec x v v' \<Longrightarrow> \<not> is_mutation x \<Longrightarrow> v' = v"
    and exec_recorded: "exec (Recorded ev) v v"
begin

lemma executed: "exec x v v' \<Longrightarrow> between drift exec x v v'"
  unfolding between_def using drift_refl by blast

lemma path_Cons:
  "path (between drift exec) (x # tr) v v' \<longleftrightarrow> (\<exists>u w. drift v u \<and> exec x u w \<and> path (between drift exec) tr w v')"
  unfolding path.simps by (metis between_def)

lemma path_keep: "path (between drift exec) tr v v' \<Longrightarrow> keep v v'"
proof (induction tr arbitrary: v)
  case Nil
  then show ?case using drift_refl drift_keep by simp
next
  case (Cons x tr)
  then obtain u w where "drift v u" "exec x u w" "path (between drift exec) tr w v'" unfolding path_Cons by blast
  with Cons.IH show ?case by (blast intro: keep_trans drift_keep exec_keep)
qed

text \<open>Without a change of its own, a handler sees only what others do.\<close>

lemma quiet_drift: "path (between drift exec) tr v v' \<Longrightarrow> mutations tr = [] \<Longrightarrow> drift v v'"
proof (induction tr arbitrary: v)
  case (Cons x tr)
  then obtain u w where "drift v u" "exec x u w" "path (between drift exec) tr w v'" "\<not> is_mutation x" "mutations tr = []"
    unfolding path_Cons by (auto split: if_splits)
  with Cons.IH exec_quiet show ?case by (blast intro: drift_trans)
qed (simp add: drift_refl)

text \<open>The moment of a request, of the one change of a pass, and of a read in a pass without changes.\<close>

lemma split_path:
  assumes "path (between drift exec) (a @ x # b) v v'"
  obtains u1 u2 u' where "path (between drift exec) a v u1" "drift u1 u2" "exec x u2 u'" "path (between drift exec) b u' v'"
  using assms unfolding path_append path_Cons by blast

lemma moment_of_read:
  assumes "path (between drift exec) tr v v'" "x \<in> set tr"
  obtains u u' where "keep v u" "exec x u u'" "keep u' v'"
proof -
  obtain a b where tr: "tr = a @ x # b" using assms(2) by (metis split_list)
  obtain u1 u2 u' where "path (between drift exec) a v u1" "drift u1 u2" "exec x u2 u'" "path (between drift exec) b u' v'"
    using split_path assms(1) unfolding tr .
  with that show thesis by (blast intro: keep_trans drift_keep path_keep)
qed

lemma moment_of_change:
  assumes "path (between drift exec) tr v v'" "mutations tr = [x]"
  obtains u u' where "drift v u" "exec x u u'" "drift u' v'"
proof -
  obtain a b where tr: "tr = a @ x # b" "mutations a = []" "mutations b = []"
    using assms(2) unfolding mutations_def by (metis Cons_eq_filterD filter_empty_conv)
  obtain u1 u2 u' where "path (between drift exec) a v u1" "drift u1 u2" "exec x u2 u'" "path (between drift exec) b u' v'"
    using split_path assms(1) unfolding tr(1) .
  with that quiet_drift tr(2,3) show thesis by (blast intro: drift_trans)
qed

lemma quiet_moment:
  assumes "path (between drift exec) tr v v'" "mutations tr = []" "x \<in> set tr"
  obtains w where "drift v w" "exec x w w" "drift w v'"
proof -
  obtain a b where tr: "tr = a @ x # b" using assms(3) by (metis split_list)
  then have quiet: "\<not> is_mutation x" "mutations a = []" "mutations b = []" using assms(2) by (auto split: if_splits)
  obtain u1 u2 u' where u: "path (between drift exec) a v u1" "drift u1 u2" "exec x u2 u'" "path (between drift exec) b u' v'"
    using split_path assms(1) unfolding tr .
  then have "u' = u2" using exec_quiet quiet(1) by blast
  with that u quiet(2,3) show thesis by (blast intro: drift_trans quiet_drift)
qed

end

sublocale shared_server \<subseteq> server_law "between drift exec"
  by unfold_locales (rule executed [OF exec_recorded])

text \<open>A pod whose phase is final: it stays as it is.\<close>

definition finished :: "Pod \<Rightarrow> bool" where
  "finished pod \<longleftrightarrow> pod_Phase pod = PodSucceeded \<or> pod_Phase pod = PodFailed"

section \<open>Descent\<close>

text \<open>
  A run in which nothing adds to what is left to do, and in which always, sooner or later, something is
  done or the end is reached, ends.
\<close>

lemma descent:
  fixes left :: "nat \<Rightarrow> nat"
  assumes "\<And>n. left (Suc n) \<le> left n" "\<And>n. \<exists>m \<ge> n. P m \<or> left (Suc m) < left m"
  shows "\<exists>n. P n"
proof (rule ccontr)
  assume none: "\<nexists>n. P n"
  obtain N where N: "\<And>n. left N \<le> left n"
    using exists_least_iff [of "\<lambda>k. \<exists>n. left n = k"] by (metis not_le)
  obtain m where m: "N \<le> m" "left (Suc m) < left m" using assms(2) none by blast
  have "left m \<le> left N" using m(1) by (induction rule: dec_induct) (auto intro: order_trans [OF assms(1)])
  with m(2) N [of "Suc m"] show False by simp
qed

end
