(* ===== verification/ClusterRefines.thy ===== *)
theory ClusterRefines
  imports ClusterPlan ClusterHandler Tracking
begin

text \<open>
  The EtcdCluster handler implements the plan. What an API server and an etcd cluster promise, to the
  handlers of clusters and of peers, is
  stated request by request, as what an answer says about the objects and what a request may do to
  them; along the requests of a pass the objects change as the plan allows.
\<close>

section \<open>What the plan sees\<close>

text \<open>
  The cluster (up to its status), its members and its peers, as the servers hold them, whether
  etcd answers, and which claims there are and whether they are being deleted.
\<close>

record cview =
  cv_cluster :: EtcdCluster
  cv_members :: "Member multiset"
  cv_peers :: "EtcdPeer multiset"
  cv_contact :: bool
  cv_claims :: "NamespacedName \<rightharpoonup> bool"

definition abs_member :: "Member \<Rightarrow> amember" where
  "abs_member m =
     \<lparr>am_ID = mem_ID m, am_Name = (case peerNameForMember m of Inr n \<Rightarrow> n | Inl _ \<Rightarrow> []),
      am_Started = (mem_Name m \<noteq> [])\<rparr>"

definition abs_peer :: "EtcdPeer \<Rightarrow> apeer" where
  "abs_peer p =
     \<lparr>ap_Name = peer_Name p, ap_Version = ps_Version (peer_spec p), ap_Server = ServerVersion (peer_status p),
      ap_Deleting = (DeletionTimestamp (peer_meta p) \<noteq> None), ap_Marked = hasPvcDeletionFinalizer p\<rparr>"

definition abs_view :: "cview \<Rightarrow> plan" where
  "abs_view v = \<lparr>pl_members = image_mset abs_member (cv_members v), pl_peers = image_mset abs_peer (cv_peers v)\<rparr>"

section \<open>What the servers promise\<close>

text \<open>A peer of the cluster, as created: with an empty status and not being deleted.\<close>

definition peer_of :: "cview \<Rightarrow> EtcdPeer \<Rightarrow> bool" where
  "peer_of v p \<longleftrightarrow> peer_Namespace p = cluster_Namespace (cv_cluster v) \<and> peer_Cluster p = cluster_Name (cv_cluster v)"

definition created_as :: "EtcdPeer \<Rightarrow> EtcdPeer \<Rightarrow> bool" where
  "created_as p q \<longleftrightarrow> peer_Name q = peer_Name p \<and> peer_Namespace q = peer_Namespace p \<and> peer_spec q = peer_spec p \<and>
     ServerVersion (peer_status q) = [] \<and> DeletionTimestamp (peer_meta q) = None \<and>
     Finalizers (peer_meta q) = Finalizers (peer_meta p)"

definition put_finalizers :: "string list \<Rightarrow> EtcdPeer \<Rightarrow> EtcdPeer" where
  "put_finalizers fs p = p\<lparr>peer_meta := (peer_meta p)\<lparr>Finalizers := fs\<rparr>\<rparr>"

definition put_deletion :: "nat \<Rightarrow> EtcdPeer \<Rightarrow> EtcdPeer" where
  "put_deletion t p = p\<lparr>peer_meta := (peer_meta p)\<lparr>DeletionTimestamp := Some t\<rparr>\<rparr>"

definition swap_peer :: "EtcdPeer \<Rightarrow> EtcdPeer \<Rightarrow> cview \<Rightarrow> cview" where
  "swap_peer p q v = v\<lparr>cv_peers := cv_peers v - {#p#} + {#q#}\<rparr>"

text \<open>
  What a request with its answer says about the objects (\<open>v\<close> before, \<open>v'\<close> after). A request that
  reports an error may or may not have taken effect; one that reports none has. Deleting removes a
  peer without finalizers and otherwise stamps it; a merge patch of the finalizers replaces them, and
  removes a peer that is being deleted when none is left; a new member has no name and the given URL.
\<close>

fun served :: "NamespacedName \<Rightarrow> call \<Rightarrow> cview \<Rightarrow> cview \<Rightarrow> bool" where
  "served req (GetCluster k a) v v' \<longleftrightarrow> v' = v \<and>
     (\<forall>c. k = req \<longrightarrow> a = Inr c \<longrightarrow> (\<exists>st. c = (cv_cluster v)\<lparr>cluster_status := st\<rparr>))"
| "served req (ListPeers ns n a) v v' \<longleftrightarrow> v' = v \<and>
     (\<forall>ps. a = Inr ps \<longrightarrow> ns = cluster_Namespace (cv_cluster v) \<longrightarrow> n = cluster_Name (cv_cluster v) \<longrightarrow>
        mset ps = cv_peers v)"
| "served req (EtcdList cfg a) v v' \<longleftrightarrow> v' = v \<and>
     (cv_contact v \<longrightarrow> cfg = etcdClientConfig (cv_cluster v) \<longrightarrow> \<not> isl a) \<and>
     (\<forall>ms. a = Inr ms \<longrightarrow> cfg = etcdClientConfig (cv_cluster v) \<longrightarrow> mset ms = cv_members v)"
| "served req (Create (OPeer p) a) v v' \<longleftrightarrow>
     (if peer_of v p
      then v' = v \<and> a \<noteq> None \<or> (\<exists>q. created_as p q \<and> v' = v\<lparr>cv_peers := add_mset q (cv_peers v)\<rparr>)
      else v' = v)"
| "served req (Delete (OPeer p) a) v v' \<longleftrightarrow>
     v' = v \<and> a \<noteq> None \<or>
     (\<exists>q \<in># cv_peers v. key_of (peer_meta q) = key_of (peer_meta p) \<and>
        (Finalizers (peer_meta q) = [] \<and> v' = v\<lparr>cv_peers := cv_peers v - {#q#}\<rparr> \<or>
         (\<exists>t. v' = swap_peer q (put_deletion t q) v)))"
| "served req (Patch (OPeer new) (OPeer old) a) v v' \<longleftrightarrow>
     (\<forall>fs. new = put_finalizers fs old \<longrightarrow>
        (if peer_of v old
         then v' = v \<and> a \<noteq> None \<or>
           (\<exists>q \<in># cv_peers v. key_of (peer_meta q) = key_of (peer_meta old) \<and>
              (if fs = [] \<and> DeletionTimestamp (peer_meta q) \<noteq> None then v' = v\<lparr>cv_peers := cv_peers v - {#q#}\<rparr>
               else v' = swap_peer q (put_finalizers fs q) v))
         else v' = v))"
| "served req (EtcdAdd cfg url a) v v' \<longleftrightarrow>
     (cfg = etcdClientConfig (cv_cluster v) \<longrightarrow>
        v' = v \<and> isl a \<or>
        (\<exists>m. mem_Name m = [] \<and> PeerURLs m = [url] \<and> v' = v\<lparr>cv_members := add_mset m (cv_members v)\<rparr>))"
| "served req (EtcdRemove cfg mid a) v v' \<longleftrightarrow>
     (cfg = etcdClientConfig (cv_cluster v) \<longrightarrow>
        v' = v \<and> (a \<noteq> None \<or> mid \<notin> mem_ID ` set_mset (cv_members v)) \<or>
        (\<exists>m \<in># cv_members v. mem_ID m = mid \<and> v' = v\<lparr>cv_members := cv_members v - {#m#}\<rparr>))"
| "served req (GetService k a) v v' \<longleftrightarrow> v' = v"
| "served req (Create (OService svc) a) v v' \<longleftrightarrow> v' = v"
| "served req (StatusPatch (OCluster new) (OCluster old) a) v v' \<longleftrightarrow> v' = v"
| "served req (EtcdNew cfg a) v v' \<longleftrightarrow> v' = v \<and>
     (cv_contact v \<longrightarrow> cfg = etcdClientConfig (cv_cluster v) \<longrightarrow> a = None)"
| "served req (EtcdGetVersion cfg a) v v' \<longleftrightarrow> v' = v"
| "served req (Recorded ev) v v' \<longleftrightarrow> v' = v"
| "served req (GetPeer k a) v v' \<longleftrightarrow> v' = v \<and>
     (\<forall>p. a = Inr p \<longrightarrow> key_of (peer_meta p) = k \<and> (peer_of v p \<longrightarrow> p \<in># cv_peers v)) \<and>
     (\<forall>q \<in># cv_peers v. key_of (peer_meta q) = k \<longrightarrow> a \<noteq> Inl NotFound \<and> (\<forall>p. a = Inr p \<longrightarrow> p = q))"
| "served req (GetPVC k a) v v' \<longleftrightarrow> v' = v \<and> (a = Inl NotFound \<longrightarrow> cv_claims v k = None) \<and>
     (\<forall>c. a = Inr c \<longrightarrow> cv_claims v k = Some (DeletionTimestamp (pvc_meta c) \<noteq> None))"
| "served req (GetReplicaSet k a) v v' \<longleftrightarrow> v' = v"
| "served req (Create (OPVC c) a) v v' \<longleftrightarrow>
     v' = v \<and> a \<noteq> None \<or>
     cv_claims v (key_of (pvc_meta c)) = None \<and> v' = v\<lparr>cv_claims := (cv_claims v)(key_of (pvc_meta c) \<mapsto> False)\<rparr>"
| "served req (Delete (OPVC c) a) v v' \<longleftrightarrow>
     v' = v \<and> a \<noteq> None \<or>
     (\<exists>d. d \<noteq> Some False \<and> v' = v\<lparr>cv_claims := (cv_claims v)(key_of (pvc_meta c) := d)\<rparr>)"
| "served req (Create (OReplicaSet rs) a) v v' \<longleftrightarrow> v' = v"
| "served req (StatusPatch (OPeer new) (OPeer old) a) v v' \<longleftrightarrow>
     (if peer_of v old
      then v' = v \<and> a \<noteq> None \<or>
        (\<exists>q \<in># cv_peers v. key_of (peer_meta q) = key_of (peer_meta old) \<and>
           v' = swap_peer q (q\<lparr>peer_status := peer_status new\<rparr>) v)
      else v' = v)"
| "served req _ v v' \<longleftrightarrow> True"

text \<open>
  The names of peers and the identifiers of members are unique, the URLs of members can be read, and
  the numbers of members and peers fit an \<open>int32\<close>.
\<close>

definition uniq :: "('a \<Rightarrow> 'b) \<Rightarrow> 'a multiset \<Rightarrow> bool" where
  "uniq f M \<longleftrightarrow> (\<forall>xs. mset xs = M \<longrightarrow> distinct (map f xs))"

lemma uniq_mset: "uniq f (mset xs) \<longleftrightarrow> distinct (map f xs)"
  unfolding uniq_def by (metis mset_eq_imp_distinct_iff mset_map)

lemma uniq_add [simp]: "uniq f (add_mset x M) \<longleftrightarrow> f x \<notin> f ` set_mset M \<and> uniq f M"
proof -
  obtain xs where "M = mset xs" by (metis ex_mset)
  then show ?thesis using uniq_mset [of f "x # xs"] uniq_mset [of f xs] by simp
qed

lemma uniq_remove: "uniq f M \<Longrightarrow> uniq f (M - {#x#})"
  by (cases "x \<in># M") (metis insert_DiffM uniq_add, simp add: diff_single_trivial)

lemma uniq_replace:
  assumes "uniq f M" "x \<in># M" "f y = f x"
  shows "uniq f (add_mset y (M - {#x#}))"
  using assms by (metis insert_DiffM uniq_add)

lemma uniq_eq: "uniq f M \<Longrightarrow> x \<in># M \<Longrightarrow> y \<in># M \<Longrightarrow> f x = f y \<Longrightarrow> x = y"
  by (metis ex_mset uniq_mset distinct_map inj_onD set_mset_mset)

definition view_ok :: "cview \<Rightarrow> bool" where
  "view_ok v \<longleftrightarrow> uniq peer_Name (cv_peers v) \<and> uniq mem_ID (cv_members v) \<and>
     (\<forall>p \<in># cv_peers v. peer_of v p) \<and> (\<forall>m \<in># cv_members v. \<exists>n. peerNameForMember m = Inr n) \<and>
     size (cv_members v) < 2 ^ 31 \<and> size (cv_peers v) < 2 ^ 31"

interpretation cluster_law: server_law "served req" for req
  by unfold_locales simp

definition lawful ::
    "'w client \<Rightarrow> 'w etcd_api \<Rightarrow> NamespacedName \<Rightarrow> ('w \<Rightarrow> bool) \<Rightarrow> ('w \<Rightarrow> cview) \<Rightarrow> bool" where
  "lawful cl e req good view \<longleftrightarrow>
     (\<forall>w. good w \<longrightarrow> view_ok (view w)) \<and>
     (\<forall>k. serves (served req) good view (GetCluster k) (c_get_Cluster cl k)) \<and>
     (\<forall>k. serves (served req) good view (GetService k) (c_get_Service cl k)) \<and>
     (\<forall>k. serves (served req) good view (GetPeer k) (c_get_Peer cl k)) \<and>
     (\<forall>k. serves (served req) good view (GetPVC k) (c_get_PVC cl k)) \<and>
     (\<forall>k. serves (served req) good view (GetReplicaSet k) (c_get_ReplicaSet cl k)) \<and>
     (\<forall>ns n. serves (served req) good view (ListPeers ns n) (c_list_Peers cl ns n)) \<and>
     (\<forall>obj. serves (served req) good view (Create obj) (c_create cl obj)) \<and>
     (\<forall>obj. serves (served req) good view (Delete obj) (c_delete cl obj)) \<and>
     (\<forall>new old. serves (served req) good view (Patch new old) (c_patch cl new old)) \<and>
     (\<forall>new old. serves (served req) good view (StatusPatch new old) (c_status_patch cl new old)) \<and>
     (\<forall>cfg. serves (served req) good view (EtcdNew cfg) (e_New e cfg)) \<and>
     (\<forall>cfg. serves (served req) good view (EtcdList cfg) (e_List e cfg)) \<and>
     (\<forall>cfg. serves (served req) good view (EtcdGetVersion cfg) (e_GetVersion e cfg)) \<and>
     (\<forall>cfg url. serves (served req) good view (EtcdAdd cfg url) (e_Add e cfg url)) \<and>
     (\<forall>cfg mid. serves (served req) good view (EtcdRemove cfg mid) (e_Remove e cfg mid))"

section \<open>Objects along a trace\<close>

lemma lawful_calls:
  assumes "lawful cl e req good view"
  shows "tracks (served req) good view (get_Cluster cl k)" "tracks (served req) good view (get_Service cl k)"
    "tracks (served req) good view (list_Peers cl ns n)" "tracks (served req) good view (create cl obj)"
    "tracks (served req) good view (delete cl obj)" "tracks (served req) good view (patch cl new old)"
    "tracks (served req) good view (status_patch cl new old)" "tracks (served req) good view (etcd_New e cfg)"
    "tracks (served req) good view (etcd_List e cfg)" "tracks (served req) good view (etcd_GetVersion e cfg)"
    "tracks (served req) good view (etcd_Add e cfg url)" "tracks (served req) good view (etcd_Remove e cfg mid)"
    "tracks (served req) good view (get_Peer cl k)" "tracks (served req) good view (get_PVC cl k)" "tracks (served req) good view (get_ReplicaSet cl k)"
  using assms unfolding lawful_def call_defs by (simp_all add: tracks_call)

section \<open>The handler follows the objects\<close>

lemma ClusterEvent_Record_tracks: "tracks (served req) good view (ClusterEvent_Record ev)"
  by (cases ev) (simp_all add: cluster_law.tracks_record)

lemma addMissingPeer_tracks:
  assumes "lawful cl e req good view"
  shows "tracks (served req) good view (addMissingPeer l cl c peers members rest)"
  by (induction rest) (auto simp: createPeerForMember_def Let_def intro!: tracks_steps lawful_calls [OF assms])

lemma removeSurplusPeer_tracks:
  assumes "lawful cl e req good view"
  shows "tracks (served req) good view (removeSurplusPeer l cl names peers)"
  by (induction peers) (auto simp: Let_def intro!: tracks_steps lawful_calls [OF assms])

lemma reconcile_tracks:
  assumes "lawful cl e req good view"
  shows "tracks (served req) good view (reconcile l cl e members peers c)"
  unfolding reconcile_def hasService_def createService_def reconcileNoContact_def createBootstrapPeer_def
    reconcileMembers_def upgradePeer_def scaleMembers_def addNewMember_def addEtcdMember_def removeMember_def
    removeEtcdMember_def
  by (intro tracks_steps lawful_calls [OF assms] addMissingPeer_tracks [OF assms] removeSurplusPeer_tracks [OF assms])

lemma Cluster_Reconcile_tracks:
  assumes "lawful cl e req good view"
  shows "tracks (served req) good view (Cluster_Reconcile l sv cl e req)"
  unfolding Cluster_Reconcile_def dialCluster_def patchClusterStatus_def
  by (intro tracks_steps lawful_calls [OF assms] reconcile_tracks [OF assms] ClusterEvent_Record_tracks)

section \<open>The plan's view of the code's conditions\<close>

text \<open>What a pass has read: the members and peers of the view, and the cluster with its defaults.\<close>

definition sees :: "cview \<Rightarrow> EtcdCluster \<Rightarrow> Member list \<Rightarrow> EtcdPeer list \<Rightarrow> bool" where
  "sees v c ms peers \<longleftrightarrow> mset ms = cv_members v \<and> mset peers = cv_peers v \<and>
     (\<exists>st. c = EtcdCluster_Default ((cv_cluster v)\<lparr>cluster_status := st\<rparr>))"

lemma sees_cluster:
  assumes "sees v c ms peers"
  shows "cluster_meta c = cluster_meta (cv_cluster v)" "cs_Version (cluster_spec c) = cs_Version (cluster_spec (cv_cluster v))"
    "cs_Replicas (cluster_spec c) = cs_Replicas (cluster_spec (cv_cluster v))"
    "etcdClientConfig c = etcdClientConfig (cv_cluster v)"
  using assms by (auto simp: sees_def EtcdCluster_Default_def etcdClientConfig_def)

lemma sees_names:
  assumes "sees v c ms peers"
  shows "member_names (abs_view v) = (\<lambda>m. am_Name (abs_member m)) ` set ms"
    "peer_names (abs_view v) = peer_Name ` set peers"
    "size (pl_members (abs_view v)) = length ms"
proof -
  have m: "cv_members v = mset ms" "cv_peers v = mset peers" using assms by (simp_all add: sees_def)
  show "member_names (abs_view v) = (\<lambda>m. am_Name (abs_member m)) ` set ms"
    "peer_names (abs_view v) = peer_Name ` set peers" "size (pl_members (abs_view v)) = length ms"
    by (auto simp: member_names_def peer_names_def abs_view_def m abs_peer_def image_image)
qed

lemma am_Name_named: "peerNameForMember m = Inr n \<Longrightarrow> am_Name (abs_member m) = n"
  by (simp add: abs_member_def)

lemma am_Name_started: "mem_Name m \<noteq> [] \<Longrightarrow> am_Name (abs_member m) = mem_Name m"
  by (simp add: abs_member_def peerNameForMember_def)

lemma settled_abs:
  assumes "sees v c ms peers" "settled peers ms"
  shows "all_settled (abs_view v)" "member_names (abs_view v) = mem_Name ` set ms"
proof -
  have started: "mem_Name m \<noteq> []" if "m \<in> set ms" for m
    using assms(2) that by (auto simp: settled_def isAllMembersStable_def list_all_iff)
  then show names: "member_names (abs_view v) = mem_Name ` set ms"
    by (auto simp: sees_names [OF assms(1)] am_Name_started)
  have "mem_Name m \<in> peer_Name ` set peers" if "m \<in> set ms" for m
  proof -
    have "hasPeerForMember peers m = Inr True" using assms(2) that by (simp add: settled_def)
    then show ?thesis
      using started [OF that] by (force simp: hasPeerForMember_def peerNameForMember_def list_ex_iff)
  qed
  then have "member_names (abs_view v) \<subseteq> peer_names (abs_view v)"
    by (auto simp: names sees_names(2) [OF assms(1)])
  moreover have "set_mset (cv_members v) = set ms" using assms(1) by (metis sees_def set_mset_mset)
  ultimately show "all_settled (abs_view v)"
    using started by (auto simp: all_settled_def abs_view_def abs_member_def)
qed

lemma surplus_abs:
  assumes "sees v c ms peers" "settled peers ms"
  shows "is_surplus (abs_view v) (abs_peer p) \<longleftrightarrow> surplus (map mem_Name ms) p"
  using settled_abs(2) [OF assms] by (auto simp: is_surplus_def surplus_def abs_peer_def)

lemma in_view:
  assumes "sees v c ms peers"
  shows "p \<in># cv_peers v \<longleftrightarrow> p \<in> set peers" "m \<in># cv_members v \<longleftrightarrow> m \<in> set ms"
  using assms unfolding sees_def by (metis set_mset_mset)+

lemma abs_peers: "x \<in># pl_peers (abs_view v) \<longleftrightarrow> (\<exists>p \<in># cv_peers v. x = abs_peer p)"
  by (auto simp: abs_view_def)

lemma abs_peerI: "p \<in># cv_peers v \<Longrightarrow> abs_peer p \<in># pl_peers (abs_view v)"
  by (auto simp: abs_view_def)

lemma none_surplus_abs:
  assumes "sees v c ms peers" "settled peers ms" "no_surplus peers ms"
  shows "none_surplus (abs_view v)"
  using assms(3) in_view(1) [OF assms(1)] surplus_abs [OF assms(1,2)]
  by (auto simp: none_surplus_def no_surplus_def abs_peers)

lemma abs_swap:
  assumes "p \<in># cv_peers v"
  shows "abs_view (swap_peer p q v) = put_peer (abs_peer p) (abs_peer q) (abs_view v)"
    "abs_view (v\<lparr>cv_peers := cv_peers v - {#p#}\<rparr>) = drop_peer (abs_peer p) (abs_view v)"
  using assms by (simp_all add: abs_view_def swap_peer_def put_peer_def drop_peer_def image_mset_Diff)

lemma view_ok_unique:
  assumes "view_ok v"
  shows "p \<in># cv_peers v \<Longrightarrow> q \<in># cv_peers v \<Longrightarrow> peer_Name p = peer_Name q \<Longrightarrow> p = q"
    "m \<in># cv_members v \<Longrightarrow> m' \<in># cv_members v \<Longrightarrow> mem_ID m = mem_ID m' \<Longrightarrow> m = m'"
  using assms uniq_eq unfolding view_ok_def by metis+

lemma key_of_name: "key_of (peer_meta q) = key_of (peer_meta p) \<Longrightarrow> peer_Name q = peer_Name p"
  by (simp add: key_of_def)

section \<open>One request, one step\<close>

text \<open>The view after a request is the one before it, to the plan, or one step of the operator further.\<close>

definition advances :: "nat \<Rightarrow> string \<Rightarrow> cview \<Rightarrow> cview \<Rightarrow> bool" where
  "advances r v u u' \<longleftrightarrow> cv_cluster u' = cv_cluster u \<and> cv_contact u' = cv_contact u \<and> cv_claims u' = cv_claims u \<and>
     (abs_view u' = abs_view u \<or> operator_step r v (abs_view u) (abs_view u') \<or>
      \<not> cv_contact u \<and> bootstrap_step r v (abs_view u) (abs_view u'))"

text \<open>A request that changes something: it fails without effect, or the operator takes a step.\<close>

definition achieves :: "nat \<Rightarrow> string \<Rightarrow> call \<Rightarrow> cview \<Rightarrow> cview \<Rightarrow> bool" where
  "achieves r v x u u' \<longleftrightarrow> cv_cluster u' = cv_cluster u \<and> cv_contact u' = cv_contact u \<and> cv_claims u' = cv_claims u \<and>
     (u' = u \<and> failed x \<or> operator_step r v (abs_view u) (abs_view u'))"

text \<open>Clusters whose member URLs can be read back: names of host characters without dots.\<close>

definition named_ok :: "EtcdCluster \<Rightarrow> bool" where
  "named_ok c \<longleftrightarrow> list_all host_char (cluster_Name c) \<and> CHR ''.'' \<notin> set (cluster_Name c)"

lemma joiningPeer_abs:
  assumes "created_as (joiningPeer l c ms n) q"
  shows "abs_peer q = fresh_peer n (cs_Version (cluster_spec c))"
proof -
  have "Finalizers (peer_meta (joiningPeer l c ms n)) = []"
    by (simp add: joiningPeer_def configureJoinExistingCluster_def peerForCluster_def emptyMeta_def)
  moreover have "ps_Version (peer_spec (joiningPeer l c ms n)) = cs_Version (cluster_spec c)"
    by (simp add: joiningPeer_def configureJoinExistingCluster_def set_bootstrap_def peerForCluster_def)
  ultimately show ?thesis
    using assms by (simp add: created_as_def abs_peer_def fresh_peer_def hasPvcDeletionFinalizer_def)
qed

lemma joiningPeer_of:
  assumes "sees v c ms peers"
  shows "peer_of v (joiningPeer l c ms n)"
  using sees_cluster(1) [OF assms]
  by (simp add: peer_of_def joiningPeer_def configureJoinExistingCluster_def set_bootstrap_def peerForCluster_def)

lemma create_achieves:
  assumes s: "sees v c ms peers" and r: "cs_Replicas (cluster_spec c) = Some r"
    and w: "warranted l ms peers c (Create obj a)" and x: "served req (Create obj a) v v'"
  shows "achieves (nat (sint r)) (cs_Version (cluster_spec c)) (Create obj a) v v'"
proof -
  from w obtain m n where m: "m \<in> set ms" "peerNameForMember m = Inr n" "n \<notin> peer_Name ` set peers"
    and obj: "obj = OPeer (joiningPeer l c ms n)" by auto
  from x joiningPeer_of [OF s] consider "v' = v" "a \<noteq> None"
    | q where "created_as (joiningPeer l c ms n) q" "v' = v\<lparr>cv_peers := add_mset q (cv_peers v)\<rparr>"
    unfolding obj by auto
  then show ?thesis
  proof cases
    case (2 q)
    have "operator_step (nat (sint r)) (cs_Version (cluster_spec c)) (abs_view v)
        (abs_view v\<lparr>pl_peers := add_mset (fresh_peer (am_Name (abs_member m)) (cs_Version (cluster_spec c))) (pl_peers (abs_view v))\<rparr>)"
      using m in_view(2) [OF s] sees_names(2) [OF s]
      by (intro operator_step.create) (auto simp: am_Name_named abs_view_def)
    then show ?thesis
      using r joiningPeer_abs [OF 2(1)] by (simp add: achieves_def 2(2) abs_view_def am_Name_named [OF m(2)])
  qed (simp add: achieves_def)
qed

lemma patch_achieves:
  assumes s: "sees v c ms peers" "view_ok v" and r: "cs_Replicas (cluster_spec c) = Some r" and l: "lib_ok l"
    and w: "warranted l ms peers c (Patch new old a)" and x: "served req (Patch new old a) v v'"
  shows "achieves (nat (sint r)) (cs_Version (cluster_spec c)) (Patch new old a) v v'"
proof -
  from w obtain p where p: "p \<in> set peers" "surplus (map mem_Name ms) p" "\<not> hasPvcDeletionFinalizer p"
    and obj: "old = OPeer p" "new = OPeer (withCleanup l p)" and settled: "settled peers ms" by auto
  let ?fs = "AddFinalizer l (Finalizers (peer_meta p)) pvcCleanupFinalizer"
  have "withCleanup l p = put_finalizers ?fs p" by (simp add: withCleanup_def put_finalizers_def)
  moreover have "?fs \<noteq> []" using lib_okD(2) [OF l] by (metis empty_iff empty_set insertI1)
  moreover have "peer_of v p" using p(1) in_view(1) [OF s(1)] s(2) by (simp add: view_ok_def)
  ultimately consider "v' = v" "a \<noteq> None"
    | q where "q \<in># cv_peers v" "key_of (peer_meta q) = key_of (peer_meta p)" "v' = swap_peer q (put_finalizers ?fs q) v"
    using x unfolding obj by auto
  then show ?thesis
  proof cases
    case (2 q)
    have pv: "p \<in># cv_peers v" using p(1) in_view(1) [OF s(1)] by simp
    have q: "q = p" using view_ok_unique(1) [OF s(2) 2(1) pv] key_of_name [OF 2(2)] by simp
    have "abs_peer (put_finalizers ?fs p) = (abs_peer p)\<lparr>ap_Marked := True\<rparr>"
      using lib_okD(2) [OF l] by (simp add: abs_peer_def put_finalizers_def hasPvcDeletionFinalizer_def)
    moreover have "operator_step (nat (sint r)) (cs_Version (cluster_spec c)) (abs_view v)
        (put_peer (abs_peer p) ((abs_peer p)\<lparr>ap_Marked := True\<rparr>) (abs_view v))"
      using p surplus_abs [OF s(1) settled, of p]
      by (intro operator_step.mark settled_abs(1) [OF s(1) settled] abs_peerI [OF pv]) (simp, simp add: abs_peer_def)
    ultimately show ?thesis
      using r by (simp add: achieves_def 2(3) q abs_swap(1) [OF pv]) (simp add: swap_peer_def)
  qed (simp add: achieves_def)
qed

lemma delete_deleted:
  assumes ok: "view_ok v" and p: "p \<in># cv_peers v" and x: "served req (Delete (OPeer p) a) v v'"
  shows "cv_cluster v' = cv_cluster v \<and> cv_contact v' = cv_contact v \<and> cv_claims v' = cv_claims v \<and>
    (v' = v \<and> a \<noteq> None \<or> deleted (abs_peer p) (abs_view v) (abs_view v'))"
proof -
  from x consider "v' = v" "a \<noteq> None"
    | q where "q \<in># cv_peers v" "key_of (peer_meta q) = key_of (peer_meta p)"
        "Finalizers (peer_meta q) = []" "v' = v\<lparr>cv_peers := cv_peers v - {#q#}\<rparr>"
    | q t where "q \<in># cv_peers v" "key_of (peer_meta q) = key_of (peer_meta p)" "v' = swap_peer q (put_deletion t q) v"
    by auto
  then show ?thesis
  proof cases
    case (2 q)
    have q: "q = p" using view_ok_unique(1) [OF ok 2(1) p] key_of_name [OF 2(2)] by simp
    have "\<not> ap_Marked (abs_peer p)" using 2(3) by (simp add: q abs_peer_def hasPvcDeletionFinalizer_def)
    from deleted.gone [OF this] show ?thesis by (simp add: 2(4) q abs_swap(2) [OF p])
  next
    case (3 q t)
    have q: "q = p" using view_ok_unique(1) [OF ok 3(1) p] key_of_name [OF 3(2)] by simp
    have "abs_peer (put_deletion t p) = (abs_peer p)\<lparr>ap_Deleting := True\<rparr>"
      by (simp add: abs_peer_def put_deletion_def hasPvcDeletionFinalizer_def)
    with deleted.held [of "abs_peer p" "abs_view v"] show ?thesis
      by (simp add: 3(3) q abs_swap(1) [OF p]) (simp add: swap_peer_def)
  qed simp
qed

lemma delete_achieves:
  assumes s: "sees v c ms peers" "view_ok v" and r: "cs_Replicas (cluster_spec c) = Some r"
    and w: "warranted l ms peers c (Delete obj a)" and x: "served req (Delete obj a) v v'"
  shows "achieves (nat (sint r)) (cs_Version (cluster_spec c)) (Delete obj a) v v'"
proof -
  let ?step = "operator_step (nat (sint r)) (cs_Version (cluster_spec c)) (abs_view v)"
  from w obtain p where obj: "obj = OPeer p" and settled: "settled peers ms"
    and why: "p \<in> set peers \<and> surplus (map mem_Name ms) p \<and> hasPvcDeletionFinalizer p \<or>
      no_surplus peers ms \<and> nextOutdatedPeer c peers = Some p \<and>
      ps_Version (peer_spec p) \<noteq> cs_Version (cluster_spec c) \<and> DeletionTimestamp (peer_meta p) = None" by auto
  have d: "distinct (map peer_Name peers)" using s by (auto simp: view_ok_def sees_def uniq_def)
  have p: "p \<in># cv_peers v" using why nextOutdatedPeer_Some [OF d, of c p] in_view(1) [OF s(1)] by auto
  note settled' = settled_abs(1) [OF s(1) settled]
  have step: "?step s'" if "deleted (abs_peer p) (abs_view v) s'" for s'
    using why
  proof (elim disjE conjE)
    assume "surplus (map mem_Name ms) p" "hasPvcDeletionFinalizer p"
    then show ?thesis
      using surplus_abs [OF s(1) settled, of p]
      by (intro operator_step.retire [OF settled' abs_peerI [OF p] _ _ that]) (simp, simp add: abs_peer_def)
  next
    assume ns: "no_surplus peers ms" and out: "nextOutdatedPeer c peers = Some p"
      and rest: "ps_Version (peer_spec p) \<noteq> cs_Version (cluster_spec c)" "DeletionTimestamp (peer_meta p) = None"
    have "\<forall>q \<in># pl_peers (abs_view v). ap_Server q \<noteq> cs_Version (cluster_spec c) \<longrightarrow> ap_Name q \<le> ap_Name (abs_peer p)"
      using nextOutdatedPeer_Some [OF d out] in_view(1) [OF s(1)]
      by (auto simp: abs_peers) (auto simp: abs_peer_def outdated_def)
    then show ?thesis
      using nextOutdatedPeer_Some [OF d out] rest
      by (intro operator_step.upgrade [OF settled' none_surplus_abs [OF s(1) settled ns] abs_peerI [OF p] _ _ _ _ that])
        (simp_all add: abs_peer_def outdated_def)
  qed
  then show ?thesis using delete_deleted [OF s(2) p] x r unfolding obj achieves_def failed.simps by blast
qed

lemma current_abs:
  assumes s: "sees v c ms peers" "view_ok v" and "nextOutdatedPeer c peers = None"
  shows "\<forall>p \<in># pl_peers (abs_view v). ap_Server p = cs_Version (cluster_spec c)"
proof -
  have d: "distinct (map peer_Name peers)" using s by (auto simp: view_ok_def sees_def uniq_def)
  show ?thesis
    using assms(3) in_view(1) [OF s(1)] unfolding nextOutdatedPeer_None [OF d]
    by (auto simp: abs_peers abs_peer_def outdated_def)
qed

lemma add_achieves:
  assumes s: "sees v c ms peers" "view_ok v" and r: "cs_Replicas (cluster_spec c) = Some r" and n: "named_ok c"
    and w: "warranted l ms peers c (EtcdAdd cfg url a)" and x: "served req (EtcdAdd cfg url a) v v'"
  shows "achieves (nat (sint r)) (cs_Version (cluster_spec c)) (EtcdAdd cfg url a) v v'"
proof -
  let ?n = "nextAvailablePeerName c peers"
  from w have settled: "settled peers ms" "no_surplus peers ms" "nextOutdatedPeer c peers = None"
    and few: "hasTooFewMembers c ms = Return True" and req: "cfg = etcdClientConfig c" "url = newMemberURL c ?n" by auto
  from x consider "v' = v" "isl a"
    | m where "mem_Name m = []" "PeerURLs m = [url]" "v' = v\<lparr>cv_members := add_mset m (cv_members v)\<rparr>"
    unfolding req(1) sees_cluster(4) [OF s(1)] by auto
  then show ?thesis
  proof cases
    case (2 m)
    obtain j where j: "?n = nthPeerName c j" by (rule nextAvailablePeerName_ordinal)
    have "peerNameForMember m = Inr ?n"
      using peerNameForMember_of_url [of c m j "[]"] n 2(1,2) j by (simp add: named_ok_def req(2))
    then have m: "abs_member m = \<lparr>am_ID = mem_ID m, am_Name = ?n, am_Started = False\<rparr>"
      using 2(1) by (simp add: abs_member_def)
    have len: "length ms < 2 ^ 31" using s by (metis sees_def size_mset view_ok_def)
    have "int (length ms) < sint r"
      using few r int32_len_less_iff [OF len] by (simp add: hasTooFewMembers_def)
    then have "length ms < nat (sint r)" by simp
    moreover have "?n \<notin> peer_names (abs_view v)"
      using nextAvailablePeerName_fresh [of c peers] sees_names(2) [OF s(1)] by auto
    ultimately have "operator_step (nat (sint r)) (cs_Version (cluster_spec c)) (abs_view v)
        (abs_view v\<lparr>pl_members := add_mset (abs_member m) (pl_members (abs_view v))\<rparr>)"
      unfolding m using sees_names(3) [OF s(1)]
      by (intro operator_step.add settled_abs(1) [OF s(1) settled(1)] none_surplus_abs [OF s(1) settled(1,2)]
          current_abs [OF s settled(3)]) simp_all
    then show ?thesis using r by (simp add: achieves_def 2(3) abs_view_def)
  qed (auto simp: achieves_def isl_def)
qed

lemma remove_achieves:
  assumes s: "sees v c ms peers" "view_ok v" and r: "cs_Replicas (cluster_spec c) = Some r" "0 \<le> sint r"
    and w: "warranted l ms peers c (EtcdRemove cfg mid a)" and x: "served req (EtcdRemove cfg mid a) v v'"
  shows "achieves (nat (sint r)) (cs_Version (cluster_spec c)) (EtcdRemove cfg mid a) v v'"
proof -
  from w obtain m rest where settled: "settled peers ms" "no_surplus peers ms" "nextOutdatedPeer c peers = None"
    and many: "hasTooManyMembers c ms = Return True" and req: "cfg = etcdClientConfig c" "mid = mem_ID m"
    and m: "Sort (Reverse MembersByName_Less) ms = m # rest" by auto
  have "m \<in> set ms" using m by (metis list.set_intros(1) set_Sort)
  then have mid: "mid \<in> mem_ID ` set_mset (cv_members v)" using in_view(2) [OF s(1)] req(2) by auto
  from x consider "v' = v" "a \<noteq> None"
    | m' where "m' \<in># cv_members v" "mem_ID m' = mid" "v' = v\<lparr>cv_members := cv_members v - {#m'#}\<rparr>"
    using mid unfolding req(1) sees_cluster(4) [OF s(1)] by auto
  then show ?thesis
  proof cases
    case (2 m')
    have len: "length ms < 2 ^ 31" using s by (metis sees_def size_mset view_ok_def)
    have "sint r < int (length ms)"
      using many r int32_len_greater_iff [OF len] by (simp add: hasTooManyMembers_def)
    then have "nat (sint r) < length ms" using r(2) by linarith
    then have "operator_step (nat (sint r)) (cs_Version (cluster_spec c)) (abs_view v)
        (abs_view v\<lparr>pl_members := pl_members (abs_view v) - {#abs_member m'#}\<rparr>)"
      using sees_names(3) [OF s(1)] 2(1)
      by (intro operator_step.remove settled_abs(1) [OF s(1) settled(1)] none_surplus_abs [OF s(1) settled(1,2)]
          current_abs [OF s settled(3)]) (auto simp: abs_view_def)
    then show ?thesis using r(1) 2(1) by (simp add: achieves_def 2(3) abs_view_def image_mset_Diff)
  qed (simp add: achieves_def)
qed

lemma warranted_achieves:
  assumes "sees v c ms peers" "view_ok v" "cs_Replicas (cluster_spec c) = Some r" "0 \<le> sint r" "lib_ok l" "named_ok c"
    and "warranted l ms peers c x" "served req x v v'"
  shows "achieves (nat (sint r)) (cs_Version (cluster_spec c)) x v v'"
  using assms(7,8) create_achieves [OF assms(1,3)] patch_achieves [OF assms(1,2,3,5)] delete_achieves [OF assms(1,2,3)]
    add_achieves [OF assms(1,2,3,6)] remove_achieves [OF assms(1,2,3,4)]
  by (cases x; blast?) (simp_all del: served.simps)

lemma bootstrapPeer_spec:
  assumes "bootstrapPeer l c peers = Return p"
  shows "peer_Namespace p = cluster_Namespace c" "peer_Cluster p = cluster_Name c"
    "ps_Version (peer_spec p) = cs_Version (cluster_spec c)" "Finalizers (peer_meta p) = []"
  using assms
  by (auto simp: bootstrapPeer_def configurePeerBootstrap_def set_bootstrap_def peerForCluster_def emptyMeta_def
      split: outcome.splits)

text \<open>Without a member list: creating a peer of a name that no peer has.\<close>

lemma bootstrap_achieves:
  assumes c: "c = EtcdCluster_Default ((cv_cluster v)\<lparr>cluster_status := st\<rparr>)" and peers: "mset peers = cv_peers v"
    and ok: "view_ok v" and r: "cs_Replicas (cluster_spec c) = Some r"
    and b: "bootstraps l peers c x" and x: "served req x v v'"
  shows "cv_cluster v' = cv_cluster v \<and> cv_contact v' = cv_contact v \<and> cv_claims v' = cv_claims v \<and>
     (v' = v \<or> bootstrap_step (nat (sint r)) (cs_Version (cluster_spec c)) (abs_view v) (abs_view v'))"
proof -
  from b obtain p a where p: "x = Create (OPeer p) a" "hasTooFewPeers c peers" "bootstrapPeer l c peers = Return p"
    by (auto simp: bootstraps_def)
  have "peer_of v p"
    using bootstrapPeer_spec(1,2) [OF p(3)] by (simp add: peer_of_def c EtcdCluster_Default_def)
  with x consider "v' = v" | q where "created_as p q" "v' = v\<lparr>cv_peers := add_mset q (cv_peers v)\<rparr>"
    unfolding p(1) by auto
  then show ?thesis
  proof cases
    case (2 q)
    have names: "peer_names (abs_view v) = peer_Name ` set peers"
      by (auto simp: peer_names_def abs_view_def peers [symmetric] abs_peer_def image_image)
    have q: "abs_peer q = fresh_peer (nextAvailablePeerName c peers) (cs_Version (cluster_spec c))"
      using 2(1) bootstrapPeer_spec [OF p(3)] bootstrapPeer_Name [OF p(3)]
      by (simp add: created_as_def abs_peer_def fresh_peer_def hasPvcDeletionFinalizer_def)
    have len: "length peers < 2 ^ 31" using ok peers by (metis size_mset view_ok_def)
    have "int (length peers) < sint r" using p(2) r int32_len_less_iff [OF len] by (simp add: hasTooFewPeers_def)
    then have "size (pl_peers (abs_view v)) < nat (sint r)" by (simp add: abs_view_def peers [symmetric])
    then show ?thesis
      using q names nextAvailablePeerName_fresh [of c peers]
      by (auto simp: 2(2) bootstrap_step_def abs_view_def)
  qed simp
qed

section \<open>One pass, one step\<close>

text \<open>Requests that leave the objects as they are.\<close>

fun leaves :: "call \<Rightarrow> bool" where
  "leaves (GetCluster k a) = True"
| "leaves (ListPeers ns n a) = True"
| "leaves (GetService k a) = True"
| "leaves (EtcdNew cfg a) = True"
| "leaves (EtcdList cfg a) = True"
| "leaves (EtcdGetVersion cfg a) = True"
| "leaves (Create (OService svc) a) = True"
| "leaves (StatusPatch (OCluster new) (OCluster old) a) = True"
| "leaves (Recorded ev) = True"
| "leaves _ = False"

lemma served_leaves: "served req x v v' \<Longrightarrow> leaves x \<Longrightarrow> v' = v"
  by (cases x rule: leaves.cases) simp_all

lemma path_leaves: "path (served req) tr v v' \<Longrightarrow> list_all leaves tr \<Longrightarrow> v' = v"
  by (induction tr arbitrary: v) (auto dest: served_leaves)

lemma path_leave: "leaves x \<Longrightarrow> path (served req) (x # tr) v v' \<longleftrightarrow> served req x v v \<and> path (served req) tr v v'"
  by (auto dest: served_leaves)

lemma path_leave_append:
  assumes "list_all leaves xs"
  shows "path (served req) (xs @ ys) v v' \<longleftrightarrow> path (served req) xs v v \<and> path (served req) ys v v'"
  using path_leaves [OF _ assms] by (auto simp: path_append)

lemma path_served: "path (served req) tr v v' \<Longrightarrow> list_all leaves tr \<Longrightarrow> x \<in> set tr \<Longrightarrow> served req x v v"
  by (induction tr arbitrary: v) (auto dest: served_leaves)

text \<open>The steps of a pass: dialling, and at most one change.\<close>

lemma path_steps:
  assumes "path (served req) tr v v'" "list_all step_call tr"
  shows "mutations tr = [] \<Longrightarrow> v' = v" "mutations tr = [x] \<Longrightarrow> served req x v v'"
  using assms
proof (induction tr arbitrary: v)
  case (Cons y tr)
  { case 1
    with Cons show ?case by (cases y) auto
  next
    case 2
    then show ?case using Cons by (cases y) auto }
qed auto

lemma events_leave: "list_all leaves (events_of r)"
  by (cases r rule: events_of.cases) simp_all

lemma status_patched_leaves: "status_patched c c' out pat out' \<Longrightarrow> list_all leaves pat"
  by (erule status_patched.cases) simp_all

lemma dialled_leaves: "dialled cfg dial members ver \<Longrightarrow> list_all leaves dial"
  by (erule dialled.cases) simp_all

lemma dialled_seen:
  assumes "dialled (etcdClientConfig (cv_cluster v)) dial members ver" "path (served req) dial v v"
  shows "members = Some ms \<Longrightarrow> mset ms = cv_members v" "members = None \<Longrightarrow> \<not> cv_contact v"
  using assms(1,2) by (cases; auto split: sum.splits)+

text \<open>
  What a pass amounts to: it stops before it knows the peers, or it has seen the objects as they are
  and takes its step.
\<close>

lemma pass_cases:
  assumes pass: "cluster_pass l sv req out tr" and path: "path (served req) tr v v'"
  obtains
    (stopped) "v' = v" "(\<exists>err. GetCluster req (Inl err) \<in> set tr) \<or> EtcdCluster_ValidateCreate sv (cv_cluster v) \<noteq> None \<or>
      (\<exists>ns n err. ListPeers ns n (Inl err) \<in> set tr)"
  | (stepped) st c members peers a r steps where "c = EtcdCluster_Default ((cv_cluster v)\<lparr>cluster_status := st\<rparr>)"
      "mset peers = cv_peers v" "\<And>ms. members = Some ms \<Longrightarrow> sees v c ms peers" "members = None \<Longrightarrow> \<not> cv_contact v"
      "GetService (serviceName c) a \<in> set tr" "set steps \<subseteq> set tr" "path (served req) steps v v'"
      "step_ok l a members peers c r steps"
      "\<And>svc ms. a = Inr svc \<Longrightarrow> members = Some ms \<Longrightarrow> progresses peers ms c r steps"
  using pass
proof cases
  case (gone err)
  then show thesis using path by (intro stopped) auto
next
  case (invalid fetched)
  with path obtain st where "fetched = (cv_cluster v)\<lparr>cluster_status := st\<rparr>" by auto
  then show thesis
    using invalid path by (intro stopped) (auto simp: EtcdCluster_ValidateCreate_def)
next
  case (no_peers c fetched dial members ver err)
  have "list_all leaves tr" using dialled_leaves [OF no_peers(5)] by (simp add: no_peers(2))
  moreover have "ListPeers (cluster_Namespace c) (cluster_Name c) (Inl err) \<in> set tr" by (simp add: no_peers(2))
  ultimately show thesis using path_leaves [OF path] stopped by blast
next
  case (full c fetched dial members ver a peers r steps pat)
  note dial = dialled_leaves [OF full(4)]
  have rest: "list_all leaves (events_of r @ pat)" using events_leave status_patched_leaves [OF full(6)] by simp
  have p: "served req (GetCluster req (Inr fetched)) v v" "path (served req) dial v v"
    "served req (ListPeers (cluster_Namespace c) (cluster_Name c) (Inr peers)) v v" "path (served req) steps v v'"
    using path path_leaves [OF _ rest] unfolding full(1)
    by (auto simp: path_leave path_leave_append [OF dial] path_append [of _ steps] simp del: served.simps path.simps)
  from p(1) obtain st where st: "fetched = (cv_cluster v)\<lparr>cluster_status := st\<rparr>" by auto
  with full(2) have c: "c = EtcdCluster_Default ((cv_cluster v)\<lparr>cluster_status := st\<rparr>)" by simp
  then have meta: "cluster_meta c = cluster_meta (cv_cluster v)" "etcdClientConfig c = etcdClientConfig (cv_cluster v)"
    by (simp_all add: EtcdCluster_Default_def etcdClientConfig_def)
  have peers: "mset peers = cv_peers v" using p(3) by (simp add: meta)
  note seen = dialled_seen [OF full(4) [unfolded meta(2)] p(2)]
  show thesis
    by (rule stepped [OF c peers _ seen(2) _ _ p(4) full(5,7)])
      (use c peers seen(1) in \<open>auto simp: sees_def full(1)\<close>)
qed

text \<open>Refinement: a pass changes the objects as the plan allows.\<close>

lemma pass_advances:
  assumes pass: "cluster_pass l sv req out tr" and path: "path (served req) tr v v'"
    and ok: "view_ok v" and n: "named_ok (cv_cluster v)" and l: "lib_ok l"
    and r: "cs_Replicas (cluster_spec (cv_cluster v)) = Some r" "0 \<le> sint r"
  shows "advances (nat (sint r)) (cs_Version (cluster_spec (cv_cluster v))) v v'"
  using pass path
proof (cases rule: pass_cases)
  case (stepped st c members peers a out' steps)
  have c: "cs_Replicas (cluster_spec c) = Some r" "cs_Version (cluster_spec c) = cs_Version (cluster_spec (cv_cluster v))"
    "named_ok c" using r(1) n by (simp_all add: stepped(1) EtcdCluster_Default_def named_ok_def)
  have calls: "list_all step_call steps" and one: "one_justified l a members peers c steps"
    using stepped(8) by (simp_all add: step_ok_def)
  show ?thesis
  proof (cases "mutations steps = []")
    case True
    then show ?thesis using path_steps(1) [OF stepped(7) calls] by (simp add: advances_def)
  next
    case False
    then obtain x where x: "mutations steps = [x]" "justified l a members peers c x"
      using one by (auto simp: one_justified_def)
    note served = path_steps(2) [OF stepped(7) calls x(1)]
    show ?thesis
    proof (cases a)
      case (Inl err)
      then show ?thesis using x(2) served by (auto simp: justified_def advances_def)
    next
      case (Inr svc)
      show ?thesis
      proof (cases members)
        case None
        with x(2) Inr have "bootstraps l peers c x" by simp
        from bootstrap_achieves [OF stepped(1,2) ok c(1) this served] stepped(4) [OF None] c(2)
        show ?thesis by (auto simp: advances_def)
      next
        case (Some ms)
        with x(2) Inr have "warranted l ms peers c x" by simp
        from warranted_achieves [OF stepped(3) [OF Some] ok c(1) r(2) l c(3) this served] c(2)
        show ?thesis by (auto simp: advances_def achieves_def)
      qed
    qed
  qed
qed (simp add: advances_def)

section \<open>A pass that changes nothing\<close>

text \<open>A pass in which every question is answered and no change fails.\<close>

fun answered :: "call \<Rightarrow> bool" where
  "answered (GetCluster k a) \<longleftrightarrow> \<not> isl a"
| "answered (ListPeers ns n a) \<longleftrightarrow> \<not> isl a"
| "answered (GetService k a) \<longleftrightarrow> \<not> isl a"
| "answered (EtcdNew cfg a) \<longleftrightarrow> a = None"
| "answered (EtcdList cfg a) \<longleftrightarrow> \<not> isl a"
| "answered _ \<longleftrightarrow> True"

definition undisturbed :: "call list \<Rightarrow> bool" where
  "undisturbed tr \<longleftrightarrow> list_all (\<lambda>x. answered x \<and> (failed x \<longrightarrow> is_status_write x)) tr"

lemma undisturbedD:
  "undisturbed tr \<Longrightarrow> x \<in> set tr \<Longrightarrow> answered x"
  "undisturbed tr \<Longrightarrow> x \<in> set tr \<Longrightarrow> failed x \<Longrightarrow> is_status_write x"
  by (simp_all add: undisturbed_def list_all_iff)

lemma operator_step_neq: "\<not> operator_step r v s s"
  using operator_step_decreases wf_irrefl [OF wf_plan_order] by blast

lemma waiting_world:
  assumes s: "sees v c ms peers" "view_ok v" and "waiting peers ms c" and still: "\<nexists>s'. world_step (abs_view v) s'"
  shows False
proof -
  have d: "distinct (map peer_Name peers)" using s by (auto simp: view_ok_def sees_def uniq_def)
  from assms(3) consider
      m where "m \<in> set ms" "mem_Name m = []" "hasPeerForMember peers m = Inr True"
    | p where "nextOutdatedPeer c peers = Some p"
        "ps_Version (peer_spec p) = cs_Version (cluster_spec c) \<or> (\<exists>t. DeletionTimestamp (peer_meta p) = Some t)"
    by (auto simp: waiting_def)
  then show False
  proof cases
    case (1 m)
    then have "am_Name (abs_member m) \<in> peer_names (abs_view v)"
      by (force simp: sees_names(2) [OF s(1)] hasPeerForMember_def am_Name_named list_ex_iff split: sum.splits)
    moreover have "abs_member m \<in># pl_members (abs_view v)"
      using 1(1) in_view(2) [OF s(1)] by (simp add: abs_view_def)
    ultimately show False using no_world_step(2) [OF still] 1(2) by (force simp: abs_member_def)
  next
    case (2 p)
    have p: "p \<in># cv_peers v" "outdated c p" using nextOutdatedPeer_Some [OF d 2(1)] in_view(1) [OF s(1)] by auto
    with no_world_step(1) [OF still abs_peerI [OF p(1)]] 2(2) show False
      by (auto simp: abs_peer_def outdated_def)
  qed
qed

lemma converged_done:
  assumes s: "sees v c ms peers" "view_ok v" and conv: "converged peers ms c" and still: "\<nexists>s'. world_step (abs_view v) s'"
    and r: "cs_Replicas (cluster_spec c) = Some r"
  shows "plan_done (nat (sint r)) (cs_Version (cluster_spec c)) (abs_view v)"
proof -
  have conv': "settled peers ms" "no_surplus peers ms" "nextOutdatedPeer c peers = None" using conv by (simp_all add: converged_def)
  have len: "length ms < 2 ^ 31" using s by (metis sees_def size_mset view_ok_def)
  have "int (length ms) = sint r"
    using conv r int32_len_less_iff [OF len] int32_len_greater_iff [OF len]
    by (simp add: converged_def hasTooFewMembers_def hasTooManyMembers_def)
  then have "length ms = nat (sint r)" by simp
  moreover note settled_abs(1) [OF s(1) conv'(1)] current_abs [OF s conv'(3)] no_world_step(1) [OF still]
  moreover have "peer_names (abs_view v) \<subseteq> member_names (abs_view v)"
    using none_surplus_abs [OF s(1) conv'(1,2)] no_world_step(1) [OF still]
    by (auto simp: none_surplus_def is_surplus_def peer_names_def)
  ultimately show ?thesis by (auto simp: plan_done_def all_settled_def sees_names(3) [OF s(1)])
qed

text \<open>An undisturbed pass that changes nothing waits, or has nothing left to do.\<close>

lemma pass_idle:
  assumes pass: "cluster_pass l sv req out tr" and path: "path (served req) tr v v'"
    and ok: "view_ok v" and n: "named_ok (cv_cluster v)" and l: "lib_ok l"
    and r: "cs_Replicas (cluster_spec (cv_cluster v)) = Some r" "0 \<le> sint r"
    and valid: "EtcdCluster_ValidateCreate sv (cv_cluster v) = None" and contact: "cv_contact v"
    and fine: "undisturbed tr" and same: "abs_view v' = abs_view v"
  obtains c ms peers where "sees v c ms peers" "waiting peers ms c \<or> converged peers ms c"
  using pass path
proof (cases rule: pass_cases)
  case stopped
  then show ?thesis using valid undisturbedD(1) [OF fine] by fastforce
next
  case (stepped st c members peers a out' steps)
  have c: "cs_Replicas (cluster_spec c) = Some r" "named_ok c"
    using r(1) n by (simp_all add: stepped(1) EtcdCluster_Default_def named_ok_def)
  obtain ms where ms: "members = Some ms" using stepped(4) contact by (cases members) auto
  obtain svc where svc: "a = Inr svc" using undisturbedD(1) [OF fine stepped(5)] by (cases a) auto
  note seen = stepped(3) [OF ms]
  have calls: "list_all step_call steps" and one: "one_justified l a members peers c steps"
    using stepped(8) by (simp_all add: step_ok_def)
  from stepped(9) [OF svc ms] consider x where "mutations steps = [x]" | "obstructed ms c out' steps"
    | "waiting peers ms c \<or> converged peers ms c"
    unfolding progresses_def by blast
  then show ?thesis
  proof cases
    case (1 x)
    then have w: "warranted l ms peers c x" using one ms svc by (simp add: one_justified_def)
    have "x \<in> set steps" using 1 unfolding mutations_def by (metis filter_is_subset list.set_intros(1) subsetD)
    then have "failed x \<Longrightarrow> is_status_write x" using undisturbedD(2) [OF fine] stepped(6) by blast
    moreover have "\<not> is_status_write x" using w by (cases x) auto
    ultimately have "operator_step (nat (sint r)) (cs_Version (cluster_spec c)) (abs_view v) (abs_view v')"
      using warranted_achieves [OF seen ok c(1) r(2) l c(2) w path_steps(2) [OF stepped(7) calls 1]]
      by (auto simp: achieves_def)
    then show ?thesis using operator_step_neq by (simp add: same)
  next
    case 2
    then consider cfg msg where "EtcdNew cfg (Some msg) \<in> set tr" | m where "m \<in># cv_members v" "isl (peerNameForMember m)"
      using c(1) r(2) stepped(6) in_view(2) [OF seen] by (auto simp: obstructed_def)
    then show ?thesis
    proof cases
      case 1
      from undisturbedD(1) [OF fine this] show ?thesis by simp
    next
      case 2
      then show ?thesis using ok by (auto simp: view_ok_def)
    qed
  next
    case 3
    then show ?thesis by (rule that [OF seen])
  qed
qed

text \<open>When nothing else can happen and an undisturbed pass changes nothing, the cluster is as desired.\<close>

lemma pass_idle_done:
  assumes pass: "cluster_pass l sv req out tr" and path: "path (served req) tr v v'"
    and ok: "view_ok v" and n: "named_ok (cv_cluster v)" and l: "lib_ok l"
    and r: "cs_Replicas (cluster_spec (cv_cluster v)) = Some r" "0 \<le> sint r"
    and valid: "EtcdCluster_ValidateCreate sv (cv_cluster v) = None" and contact: "cv_contact v"
    and fine: "undisturbed tr" and same: "abs_view v' = abs_view v" and still: "\<nexists>s'. world_step (abs_view v) s'"
  shows "plan_done (nat (sint r)) (cs_Version (cluster_spec (cv_cluster v))) (abs_view v)"
proof -
  from pass_idle [OF pass path ok n l r valid contact fine same] obtain c ms peers
    where seen: "sees v c ms peers" and idle: "waiting peers ms c \<or> converged peers ms c" .
  from idle show ?thesis
    using waiting_world [OF seen ok _ still] converged_done [OF seen ok _ still] sees_cluster(2,3) [OF seen] r(1) by auto
qed

section \<open>A pass that replaces a peer\<close>

lemma lone_name:
  assumes "view_ok v" "p \<in># cv_peers v"
  shows "\<forall>q \<in># pl_peers (abs_view v) - {#abs_peer p#}. ap_Name q \<noteq> ap_Name (abs_peer p)"
proof -
  from assms(2) obtain M where M: "cv_peers v = add_mset p M" by (metis insert_DiffM)
  with assms(1) have "peer_Name p \<notin> peer_Name ` set_mset M" by (simp add: view_ok_def)
  then show ?thesis by (auto simp: abs_view_def M abs_peer_def image_iff)
qed

lemma idle_upgrades_nothing:
  assumes s: "sees v c ms peers" "view_ok v" and idle: "waiting peers ms c \<or> converged peers ms c"
    and up: "to_upgrade (cs_Version (cluster_spec (cv_cluster v))) p (abs_view v)"
  shows False
proof -
  have d: "distinct (map peer_Name peers)" using s by (auto simp: view_ok_def sees_def uniq_def)
  have p: "p \<in># pl_peers (abs_view v)" "ap_Server p \<noteq> cs_Version (cluster_spec c)" "all_settled (abs_view v)"
    "\<And>q. q \<in># pl_peers (abs_view v) \<Longrightarrow> ap_Server q \<noteq> cs_Version (cluster_spec c) \<Longrightarrow> ap_Name q \<le> ap_Name p"
    "ap_Version p \<noteq> cs_Version (cluster_spec c)" "\<not> ap_Deleting p"
    using up sees_cluster(2) [OF s(1)] by (simp_all add: to_upgrade_def)
  from idle consider
      m where "m \<in> set ms" "mem_Name m = []"
    | q where "nextOutdatedPeer c peers = Some q"
        "ps_Version (peer_spec q) = cs_Version (cluster_spec c) \<or> DeletionTimestamp (peer_meta q) \<noteq> None"
    | "nextOutdatedPeer c peers = None"
    by (auto simp: waiting_def converged_def)
  then show False
  proof cases
    case (1 m)
    then have "abs_member m \<in># pl_members (abs_view v)" using in_view(2) [OF s(1)] by (simp add: abs_view_def)
    with p(3) 1(2) show False by (force simp: all_settled_def abs_member_def)
  next
    case (2 q)
    obtain x where x: "x \<in># cv_peers v" "p = abs_peer x" using p(1) by (auto simp: abs_peers)
    have q: "q \<in># cv_peers v" "outdated c q" "outdated c x \<Longrightarrow> peer_Name x \<le> peer_Name q"
      using nextOutdatedPeer_Some [OF d 2(1)] in_view(1) [OF s(1)] x(1) by auto
    then have "peer_Name q = peer_Name x"
      using p(4) [OF abs_peerI [OF q(1)]] p(2) by (auto simp: x(2) abs_peer_def outdated_def)
    then have "q = x" using view_ok_unique(1) [OF s(2) q(1) x(1)] by simp
    with 2(2) p(5,6) show False by (auto simp: x(2) abs_peer_def)
  next
    case 3
    from current_abs [OF s this] p(1,2) show False by blast
  qed
qed

lemma pass_upgrades:
  assumes pass: "cluster_pass l sv req out tr" and path: "path (served req) tr v v'"
    and ok: "view_ok v" and n: "named_ok (cv_cluster v)" and l: "lib_ok l"
    and r: "cs_Replicas (cluster_spec (cv_cluster v)) = Some r" "0 \<le> sint r"
    and valid: "EtcdCluster_ValidateCreate sv (cv_cluster v) = None" and contact: "cv_contact v"
    and fine: "undisturbed tr" and up: "to_upgrade (cs_Version (cluster_spec (cv_cluster v))) p (abs_view v)"
  shows "deleted p (abs_view v) (abs_view v')" "\<forall>q \<in># pl_peers (abs_view v) - {#p#}. ap_Name q \<noteq> ap_Name p"
proof -
  have "p \<in># pl_peers (abs_view v)" using up by (simp add: to_upgrade_def)
  then show one: "\<forall>q \<in># pl_peers (abs_view v) - {#p#}. ap_Name q \<noteq> ap_Name p"
    using lone_name [OF ok] by (auto simp: abs_peers)
  have "abs_view v' \<noteq> abs_view v"
    using pass_idle [OF pass path ok n l r valid contact fine] idle_upgrades_nothing [OF _ ok _ up] by blast
  with pass_advances [OF pass path ok n l r] contact
  have "operator_step (nat (sint r)) (cs_Version (cluster_spec (cv_cluster v))) (abs_view v) (abs_view v')"
    by (simp add: advances_def)
  from operator_step_upgrades [OF this up one] show "deleted p (abs_view v) (abs_view v')" .
qed

end
