(* ===== verification/ClusterServer.thy ===== *)
theory ClusterServer
  imports ClusterRefines MemServer
begin

text \<open>
  A small API server with one cluster, its service, its peers, their claims and their ReplicaSets,
  together with the etcd cluster they form: a concrete server that keeps what \<open>lawful\<close> asks for. The
  witnesses of the properties of runs use it; no theorem about the operator assumes it.
\<close>

record store =
  so_cluster :: EtcdCluster
  so_service :: "Service option"
  so_peers :: "EtcdPeer list"
  so_members :: "Member list"
  so_contact :: bool
  so_claims :: "(NamespacedName \<times> bool) list"
  so_sets :: "NamespacedName list"

definition blank_status :: EtcdClusterStatus where
  "blank_status = \<lparr>st_Replicas = 0, st_Members = None, st_ClusterVersion = []\<rparr>"

definition store_view :: "store \<Rightarrow> cview" where
  "store_view w =
     \<lparr>cv_cluster = (so_cluster w)\<lparr>cluster_status := blank_status\<rparr>, cv_members = mset (so_members w),
      cv_peers = mset (so_peers w), cv_contact = so_contact w, cv_claims = map_of (so_claims w)\<rparr>"

definition store_good :: "store \<Rightarrow> bool" where
  "store_good w \<longleftrightarrow> view_ok (store_view w)"

definition store_find :: "EtcdPeer \<Rightarrow> store \<Rightarrow> EtcdPeer option" where
  "store_find p w = find (\<lambda>q. key_of (peer_meta q) = key_of (peer_meta p)) (so_peers w)"

definition store_swap :: "EtcdPeer \<Rightarrow> EtcdPeer list \<Rightarrow> store \<Rightarrow> store" where
  "store_swap p qs w = w\<lparr>so_peers := qs @ remove1 p (so_peers w)\<rparr>"

definition new_peer :: "EtcdPeer \<Rightarrow> EtcdPeer" where
  "new_peer p = p\<lparr>peer_meta := (peer_meta p)\<lparr>DeletionTimestamp := None\<rparr>, peer_status := \<lparr>ServerVersion = []\<rparr>\<rparr>"

fun store_create :: "object \<Rightarrow> store \<Rightarrow> api_error option \<times> store" where
  "store_create (OPeer p) w =
     (if \<not> peer_of (store_view w) p then (Some (OtherError ''refused''), w)
      else if peer_Name p \<in> peer_Name ` set (so_peers w) then (Some AlreadyExists, w)
      else if Suc (length (so_peers w)) < 2 ^ 31 then (None, w\<lparr>so_peers := new_peer p # so_peers w\<rparr>)
      else (Some (OtherError ''refused''), w))"
| "store_create (OService s) w = (None, w\<lparr>so_service := Some s\<rparr>)"
| "store_create (OPVC c) w =
     (case map_of (so_claims w) (key_of (pvc_meta c)) of
        None \<Rightarrow> (None, w\<lparr>so_claims := (key_of (pvc_meta c), False) # so_claims w\<rparr>)
      | Some _ \<Rightarrow> (Some AlreadyExists, w))"
| "store_create (OReplicaSet r) w = (None, w\<lparr>so_sets := key_of (rs_meta r) # so_sets w\<rparr>)"
| "store_create obj w = (Some (OtherError ''refused''), w)"

fun store_delete :: "object \<Rightarrow> store \<Rightarrow> api_error option \<times> store" where
  "store_delete (OPeer p) w =
     (case store_find p w of
        None \<Rightarrow> (Some NotFound, w)
      | Some q \<Rightarrow>
          (None, store_swap q (if Finalizers (peer_meta q) = [] then [] else [put_deletion 0 q]) w))"
| "store_delete (OPVC c) w =
     (case map_of (so_claims w) (key_of (pvc_meta c)) of
        None \<Rightarrow> (Some NotFound, w)
      | Some _ \<Rightarrow> (None, w\<lparr>so_claims := AList.update (key_of (pvc_meta c)) True (so_claims w)\<rparr>))"
| "store_delete obj w = (Some NotFound, w)"

fun store_patch :: "object \<Rightarrow> object \<Rightarrow> store \<Rightarrow> api_error option \<times> store" where
  "store_patch (OPeer new) (OPeer old) w =
     (case if peer_of (store_view w) old then store_find old w else None of
        None \<Rightarrow> (Some NotFound, w)
      | Some q \<Rightarrow>
          (None, store_swap q (if Finalizers (peer_meta new) = [] \<and> DeletionTimestamp (peer_meta q) \<noteq> None then []
                               else [put_finalizers (Finalizers (peer_meta new)) q]) w))"
| "store_patch new old w = (Some NotFound, w)"

fun store_status_patch :: "object \<Rightarrow> object \<Rightarrow> store \<Rightarrow> api_error option \<times> store" where
  "store_status_patch (OCluster new) (OCluster old) w =
     (None, w\<lparr>so_cluster := (so_cluster w)\<lparr>cluster_status := cluster_status new\<rparr>\<rparr>)"
| "store_status_patch (OPeer new) (OPeer old) w =
     (case if peer_of (store_view w) old then store_find old w else None of
        None \<Rightarrow> (Some NotFound, w)
      | Some q \<Rightarrow> (None, store_swap q [q\<lparr>peer_status := peer_status new\<rparr>] w))"
| "store_status_patch new old w = (Some NotFound, w)"

definition claim_at :: "NamespacedName \<Rightarrow> bool \<Rightarrow> PersistentVolumeClaim" where
  "claim_at k d =
     \<lparr>pvc_meta = emptyMeta\<lparr>Name := nn_Name k, Namespace := nn_Namespace k, DeletionTimestamp := if d then Some 0 else None\<rparr>,
      pvc_spec = \<lparr>AccessModes = None, pvc_Resources = noResources, VolumeMode = None, StorageClassName = None, VolumeName = []\<rparr>\<rparr>"

definition set_at :: "NamespacedName \<Rightarrow> ReplicaSet" where
  "set_at k =
     (let m = emptyMeta\<lparr>Name := nn_Name k, Namespace := nn_Namespace k\<rparr>
      in \<lparr>rs_meta = m, rs_Replicas = Some 1, rs_Selector = [],
          rs_Template = \<lparr>pt_meta = m, pt_spec = \<lparr>ps_Hostname = [], ps_Subdomain = [], ps_HostAliases = [], ps_Containers = [],
            ps_Volumes = [], ps_Affinity = None, ps_ServiceAccountName = [], ps_RestartPolicy = []\<rparr>\<rparr>\<rparr>)"

definition store_client :: "store client" where
  "store_client =
     \<lparr>c_get_Cluster = (\<lambda>k w.
        (if k = key_of (cluster_meta (so_cluster w)) then Inr (so_cluster w) else Inl NotFound, w)),
      c_get_Peer = (\<lambda>k w.
        (case find (\<lambda>p. key_of (peer_meta p) = k) (so_peers w) of None \<Rightarrow> Inl NotFound | Some p \<Rightarrow> Inr p, w)),
      c_get_Backup = (\<lambda>k w. (Inl NotFound, w)),
      c_get_BackupSchedule = (\<lambda>k w. (Inl NotFound, w)), c_get_Restore = (\<lambda>k w. (Inl NotFound, w)),
      c_get_Service = (\<lambda>k w. (case so_service w of None \<Rightarrow> Inl NotFound | Some s \<Rightarrow> Inr s, w)),
      c_get_PVC = (\<lambda>k w.
        (case map_of (so_claims w) k of None \<Rightarrow> Inl NotFound | Some d \<Rightarrow> Inr (claim_at k d), w)),
      c_get_ReplicaSet = (\<lambda>k w.
        (if k \<in> set (so_sets w) then Inr (set_at k) else Inl NotFound, w)),
      c_get_Pod = (\<lambda>k w. (Inl NotFound, w)), c_get_ServiceAccount = (\<lambda>k w. (Inl NotFound, w)),
      c_list_Peers = (\<lambda>ns n w.
        (Inr (filter (\<lambda>p. peer_Namespace p = ns \<and> peer_Cluster p = n) (so_peers w)), w)),
      c_create = store_create, c_update = (\<lambda>obj w. (Some NotFound, w)), c_delete = store_delete,
      c_patch = store_patch, c_status_update = (\<lambda>obj w. (Some NotFound, w)),
      c_status_patch = store_status_patch\<rparr>"

definition new_member :: "string \<Rightarrow> Member" where
  "new_member url = \<lparr>mem_ID = url, mem_Name = [], PeerURLs = [url], ClientURLs = []\<rparr>"

definition store_etcd :: "store etcd_api" where
  "store_etcd =
     \<lparr>e_New = (\<lambda>cfg w. (None, w)),
      e_List = (\<lambda>cfg w. (if so_contact w then Inr (so_members w) else Inl ''unreachable'', w)),
      e_Add = (\<lambda>cfg url w.
        if \<not> so_contact w then (Inl ''unreachable'', w)
        else if isl (peerNameForMember (new_member url)) then (Inl ''malformed URL'', w)
        else if url \<in> mem_ID ` set (so_members w) then (Inl ''peer URL exists'', w)
        else if Suc (length (so_members w)) < 2 ^ 31
        then (Inr (new_member url), w\<lparr>so_members := new_member url # so_members w\<rparr>)
        else (Inl ''too many members'', w)),
      e_Remove = (\<lambda>cfg i w.
        if \<not> so_contact w then (Some ''unreachable'', w)
        else (case find (\<lambda>m. mem_ID m = i) (so_members w) of
           None \<Rightarrow> (Some ''member not found'', w)
         | Some m \<Rightarrow> (None, w\<lparr>so_members := remove1 m (so_members w)\<rparr>))),
      e_GetVersion = (\<lambda>cfg w.
        (if so_contact w then
           Inr (let v = (case find (\<lambda>p. peerEtcdConfig p = cfg) (so_peers w) of
                           Some p \<Rightarrow> ps_Version (peer_spec p) | None \<Rightarrow> ''3.2.28'')
                in \<lparr>ver_Server = v, ver_Cluster = v\<rparr>)
         else Inl ''unreachable'', w))\<rparr>"

section \<open>The server keeps its promises\<close>

lemma store_view_simps [simp]:
  "cv_cluster (store_view w) = (so_cluster w)\<lparr>cluster_status := blank_status\<rparr>"
  "cv_members (store_view w) = mset (so_members w)" "cv_peers (store_view w) = mset (so_peers w)"
  "cv_contact (store_view w) = so_contact w" "cv_claims (store_view w) = map_of (so_claims w)"
  by (simp_all add: store_view_def)

lemma peer_of_store [simp]:
  "peer_of (store_view w) p \<longleftrightarrow>
     peer_Namespace p = cluster_Namespace (so_cluster w) \<and> peer_Cluster p = cluster_Name (so_cluster w)"
  by (simp add: peer_of_def)

lemma find_Some_eq: "find P xs = Some x \<Longrightarrow> x \<in> set xs \<and> P x"
  by (metis find_Some_iff nth_mem)

lemma store_find_Some:
  "store_find p w = Some q \<Longrightarrow> q \<in> set (so_peers w) \<and> key_of (peer_meta q) = key_of (peer_meta p)"
  using find_Some_eq unfolding store_find_def by fastforce

lemma peer_of_frame [simp]:
  "peer_of (v\<lparr>cv_peers := P\<rparr>) = peer_of v" "peer_of (v\<lparr>cv_members := M\<rparr>) = peer_of v"
  "peer_of (v\<lparr>cv_claims := C\<rparr>) = peer_of v"
  by (auto simp: peer_of_def intro!: ext)

lemma view_ok_put:
  assumes "view_ok v"
  shows "uniq peer_Name P \<Longrightarrow> \<forall>p \<in># P. peer_of v p \<Longrightarrow> size P < 2 ^ 31 \<Longrightarrow> view_ok (v\<lparr>cv_peers := P\<rparr>)"
    "uniq mem_ID M \<Longrightarrow> \<forall>m \<in># M. \<exists>n. peerNameForMember m = Inr n \<Longrightarrow> size M < 2 ^ 31 \<Longrightarrow> view_ok (v\<lparr>cv_members := M\<rparr>)"
  using assms by (simp_all add: view_ok_def peer_of_def)

lemma view_ok_claims [simp]: "view_ok (v\<lparr>cv_claims := C\<rparr>) = view_ok v"
  by (simp add: view_ok_def)

lemma view_ok_drop:
  assumes "view_ok v"
  shows "p \<in># cv_peers v \<Longrightarrow> view_ok (v\<lparr>cv_peers := cv_peers v - {#p#}\<rparr>)"
    "m \<in># cv_members v \<Longrightarrow> view_ok (v\<lparr>cv_members := cv_members v - {#m#}\<rparr>)"
  using assms by (auto simp: view_ok_def size_Diff_singleton uniq_remove intro!: view_ok_put dest: in_diffD)

lemma view_ok_swap:
  assumes "view_ok v" "p \<in># cv_peers v" "peer_Name q = peer_Name p" "peer_Namespace q = peer_Namespace p"
    "peer_Cluster q = peer_Cluster p"
  shows "view_ok (swap_peer p q v)"
proof -
  have "uniq peer_Name (add_mset q (cv_peers v - {#p#}))" using assms uniq_replace by (metis view_ok_def)
  moreover have "size (add_mset q (cv_peers v - {#p#})) = size (cv_peers v)"
    using assms(2) by (simp add: size_Suc_Diff1)
  moreover have "peer_of v q" using assms by (auto simp: view_ok_def peer_of_def)
  ultimately show ?thesis
    using assms(1) unfolding swap_peer_def by (intro view_ok_put(1)) (auto simp: view_ok_def dest: in_diffD)
qed

lemma view_ok_new:
  assumes "view_ok v"
  shows "peer_of v p \<Longrightarrow> peer_Name p \<notin> peer_Name ` set_mset (cv_peers v) \<Longrightarrow> Suc (size (cv_peers v)) < 2 ^ 31 \<Longrightarrow>
      view_ok (v\<lparr>cv_peers := add_mset p (cv_peers v)\<rparr>)"
    "peerNameForMember m = Inr n \<Longrightarrow> mem_ID m \<notin> mem_ID ` set_mset (cv_members v) \<Longrightarrow>
      Suc (size (cv_members v)) < 2 ^ 31 \<Longrightarrow> view_ok (v\<lparr>cv_members := add_mset m (cv_members v)\<rparr>)"
  using assms by (auto simp: view_ok_def intro!: view_ok_put)

lemma store_swap_view:
  "store_view (store_swap p [] w) = (store_view w)\<lparr>cv_peers := cv_peers (store_view w) - {#p#}\<rparr>"
  "store_view (store_swap p [q] w) = swap_peer p q (store_view w)"
  by (simp_all add: store_view_def store_swap_def swap_peer_def)

lemma store_add_view:
  "store_view (w\<lparr>so_peers := p # so_peers w\<rparr>) = (store_view w)\<lparr>cv_peers := add_mset p (cv_peers (store_view w))\<rparr>"
  "store_view (w\<lparr>so_members := m # so_members w\<rparr>) = (store_view w)\<lparr>cv_members := add_mset m (cv_members (store_view w))\<rparr>"
  "store_view (w\<lparr>so_members := remove1 m (so_members w)\<rparr>) = (store_view w)\<lparr>cv_members := cv_members (store_view w) - {#m#}\<rparr>"
  "store_view (w\<lparr>so_service := x\<rparr>) = store_view w" "store_view (w\<lparr>so_sets := y\<rparr>) = store_view w"
  "store_view (w\<lparr>so_claims := z\<rparr>) = (store_view w)\<lparr>cv_claims := map_of z\<rparr>"
  "store_view (w\<lparr>so_cluster := (so_cluster w)\<lparr>cluster_status := st\<rparr>\<rparr>) = store_view w"
  by (simp_all add: store_view_def)

lemma store_serves_create: "serves (served req) store_good store_view (Create obj) (store_create obj)"
  unfolding serves_def store_good_def
proof (intro allI impI)
  fix w assume ok: "view_ok (store_view w)"
  have "view_ok (store_view (w\<lparr>so_peers := new_peer p # so_peers w\<rparr>))"
    if "peer_of (store_view w) p" "peer_Name p \<notin> peer_Name ` set (so_peers w)" "Suc (length (so_peers w)) < 2 ^ 31" for p
    unfolding store_add_view by (rule view_ok_new(1) [OF ok]) (use that in \<open>auto simp: new_peer_def\<close>)
  moreover have "created_as p (new_peer p)" for p by (simp add: created_as_def new_peer_def)
  ultimately show "case store_create obj w of (a, w') \<Rightarrow>
      view_ok (store_view w') \<and> served req (Create obj a) (store_view w) (store_view w')"
    using ok by (cases "(obj, w)" rule: store_create.cases) (auto simp: store_add_view split: option.split)
qed

lemma store_serves_delete: "serves (served req) store_good store_view (Delete obj) (store_delete obj)"
  unfolding serves_def store_good_def
proof (intro allI impI)
  fix w assume ok: "view_ok (store_view w)"
  have "view_ok (store_view (store_swap q [put_deletion t q] w))" "view_ok (store_view (store_swap q [] w))"
    if "store_find p w = Some q" for p q t
    unfolding store_swap_view using store_find_Some [OF that]
    using view_ok_drop(1) [OF ok, of q] by (auto intro!: view_ok_swap [OF ok] simp: put_deletion_def)
  with ok show "case store_delete obj w of (a, w') \<Rightarrow>
      view_ok (store_view w') \<and> served req (Delete obj a) (store_view w) (store_view w')"
    by (cases "(obj, w)" rule: store_delete.cases)
      (auto simp: store_swap_view store_add_view dest!: store_find_Some split: option.split)
qed

lemma store_serves_patch: "serves (served req) store_good store_view (Patch new old) (store_patch new old)"
  unfolding serves_def store_good_def
proof (intro allI impI)
  fix w assume ok: "view_ok (store_view w)"
  have "view_ok (store_view (store_swap q [put_finalizers fs q] w))" "view_ok (store_view (store_swap q [] w))"
    if "store_find p w = Some q" for p q fs
    unfolding store_swap_view using store_find_Some [OF that] view_ok_drop(1) [OF ok, of q]
    by (auto intro!: view_ok_swap [OF ok] simp: put_finalizers_def)
  with ok show "case store_patch new old w of (a, w') \<Rightarrow>
      view_ok (store_view w') \<and> served req (Patch new old a) (store_view w) (store_view w')"
    by (cases "(new, old, w)" rule: store_patch.cases)
      (auto simp: store_swap_view put_finalizers_def dest!: store_find_Some split: option.split)
qed

lemma store_serves_add: "serves (served req) store_good store_view (EtcdAdd cfg url) (e_Add store_etcd cfg url)"
  unfolding serves_def store_good_def
proof (intro allI impI)
  fix w assume ok: "view_ok (store_view w)"
  have "view_ok (store_view (w\<lparr>so_members := new_member url # so_members w\<rparr>))"
    if "\<not> isl (peerNameForMember (new_member url))" "url \<notin> mem_ID ` set (so_members w)" "Suc (length (so_members w)) < 2 ^ 31"
    unfolding store_add_view
    by (rule view_ok_new(2) [OF ok sum.collapse(2) [OF that(1), symmetric]]) (use that in \<open>auto simp: new_member_def\<close>)
  moreover have "mem_Name (new_member url) = []" "PeerURLs (new_member url) = [url]" by (simp_all add: new_member_def)
  ultimately show "case e_Add store_etcd cfg url w of (a, w') \<Rightarrow>
      view_ok (store_view w') \<and> served req (EtcdAdd cfg url a) (store_view w) (store_view w')"
    using ok by (auto simp: store_etcd_def store_add_view)
qed

lemma store_serves_remove: "serves (served req) store_good store_view (EtcdRemove cfg mid) (e_Remove store_etcd cfg mid)"
  unfolding serves_def store_good_def
proof (intro allI impI)
  fix w assume ok: "view_ok (store_view w)"
  show "case e_Remove store_etcd cfg mid w of (a, w') \<Rightarrow>
      view_ok (store_view w') \<and> served req (EtcdRemove cfg mid a) (store_view w) (store_view w')"
  proof (cases "find (\<lambda>m. mem_ID m = mid) (so_members w)")
    case None
    then show ?thesis using ok by (simp add: store_etcd_def)
  next
    case (Some m)
    note m = find_Some_eq [OF Some]
    then have "view_ok (store_view (w\<lparr>so_members := remove1 m (so_members w)\<rparr>))"
      using view_ok_drop(2) [OF ok, of m] by (simp add: store_add_view)
    with m Some ok show ?thesis by (auto simp: store_etcd_def store_add_view)
  qed
qed

lemma store_serves_status: "serves (served req) store_good store_view (StatusPatch new old) (store_status_patch new old)"
  unfolding serves_def
proof (intro allI impI)
  fix w assume ok: "store_good w"
  have "view_ok (store_view (store_swap q [q\<lparr>peer_status := st\<rparr>] w))" if "store_find p w = Some q" for p q st
    unfolding store_swap_view using store_find_Some [OF that] ok
    by (auto intro!: view_ok_swap simp: store_good_def)
  with ok show "case store_status_patch new old w of (a, w') \<Rightarrow>
      store_good w' \<and> served req (StatusPatch new old a) (store_view w) (store_view w')"
    by (cases "(new, old, w)" rule: store_status_patch.cases)
      (auto simp: store_good_def store_add_view store_swap_view dest!: store_find_Some split: option.split)
qed

lemma store_serves_reads:
  "serves (served req) store_good store_view (GetCluster k) (c_get_Cluster store_client k)"
  "serves (served req) store_good store_view (GetService k) (c_get_Service store_client k)"
  "serves (served req) store_good store_view (ListPeers ns n) (c_list_Peers store_client ns n)"
  "serves (served req) store_good store_view (EtcdNew cfg) (e_New store_etcd cfg)"
  "serves (served req) store_good store_view (EtcdList cfg) (e_List store_etcd cfg)"
  "serves (served req) store_good store_view (EtcdGetVersion cfg) (e_GetVersion store_etcd cfg)"
  "serves (served req) store_good store_view (GetPeer k) (c_get_Peer store_client k)"
  "serves (served req) store_good store_view (GetPVC k) (c_get_PVC store_client k)"
  "serves (served req) store_good store_view (GetReplicaSet k) (c_get_ReplicaSet store_client k)"
proof -
  show "serves (served req) store_good store_view (GetCluster k) (c_get_Cluster store_client k)"
    by (auto simp: serves_def store_client_def) (metis EtcdCluster.cases_scheme EtcdCluster.update_convs(3))
  show "serves (served req) store_good store_view (ListPeers ns n) (c_list_Peers store_client ns n)"
    by (auto simp: serves_def store_client_def store_good_def view_ok_def filter_id_conv)
  show "serves (served req) store_good store_view (GetPeer k) (c_get_Peer store_client k)"
    by (auto simp: serves_def store_client_def store_good_def find_None_iff dest!: find_Some_eq
        split: option.splits dest: view_ok_unique(1) [where v = "store_view _"] key_of_name)
  show "serves (served req) store_good store_view (GetPVC k) (c_get_PVC store_client k)"
    by (auto simp: serves_def store_client_def claim_at_def split: option.splits)
qed (auto simp: serves_def store_client_def store_etcd_def)

lemma store_client_simps [simp]:
  "c_create store_client = store_create" "c_delete store_client = store_delete"
  "c_patch store_client = store_patch" "c_status_patch store_client = store_status_patch"
  by (simp_all add: store_client_def)

lemma store_lawful: "lawful store_client store_etcd req store_good store_view"
  by (simp add: lawful_def store_serves_create store_serves_delete store_serves_patch store_serves_add
      store_serves_remove store_serves_status store_serves_reads) (simp add: store_good_def)

end
