(* ===== verification/ClusterSystem.thy ===== *)
theory ClusterSystem
  imports ClusterServer
begin

text \<open>
  The EtcdCluster controller in its environment: passes of the handler, interleaved with what the
  world does. Passes refine the plan, and a pass that has nothing to do finds the cluster as desired.
  The version of the cluster stays as it is on the way.
\<close>

section \<open>Passes and what happens around them\<close>

text \<open>A pass of the handler on a server: the state it leaves and the calls it makes.\<close>

definition pass_from ::
    "lib \<Rightarrow> semver \<Rightarrow> 'w client \<Rightarrow> 'w etcd_api \<Rightarrow> NamespacedName \<Rightarrow> 'w \<Rightarrow> 'w world" where
  "pass_from l sv cl e req w = snd (run_state (Cluster_Reconcile l sv cl e req) \<lparr>server = w, trace = []\<rparr>)"

lemma pass_run:
  assumes "lawful cl e req good view" "good w"
  shows "good (server (pass_from l sv cl e req w))"
    "path (served req) (trace (pass_from l sv cl e req w)) (view w) (view (server (pass_from l sv cl e req w)))"
    "\<exists>out. cluster_pass l sv req out (trace (pass_from l sv cl e req w))"
proof -
  let ?s = "\<lparr>server = w, trace = []\<rparr>"
  show "good (server (pass_from l sv cl e req w))"
    "path (served req) (trace (pass_from l sv cl e req w)) (view w) (view (server (pass_from l sv cl e req w)))"
    unfolding pass_from_def by (rule tracks_run [OF Cluster_Reconcile_tracks [OF assms(1), of l sv] assms(2)])+
  show "\<exists>out. cluster_pass l sv req out (trace (pass_from l sv cl e req w))"
    unfolding pass_from_def using emits_run [OF Cluster_Reconcile_pass [of l sv cl e req], of ?s] by auto
qed

lemma lawful_ok: "lawful cl e req good view \<Longrightarrow> good w \<Longrightarrow> view_ok (view w)"
  by (simp add: lawful_def)

lemma pass_refines:
  assumes law: "lawful cl e req good view" and g: "good w" and "lib_ok l"
    and "named_ok (cv_cluster (view w))"
    and "cs_Replicas (cluster_spec (cv_cluster (view w))) = Some r" "0 \<le> sint r"
  shows "advances (nat (sint r)) (cs_Version (cluster_spec (cv_cluster (view w))))
      (view w) (view (server (pass_from l sv cl e req w)))"
  using pass_run(3) [OF law g] pass_advances [OF _ pass_run(2) [OF law g] lawful_ok [OF law g] assms(4,3,5,6)] by blast

text \<open>
  What happens around the handler: the world takes a step, or something changes that the plan does
  not see (etcd is lost or found again, a status is written), or the user changes the cluster,
  though neither its name nor its version.
\<close>

definition desired_size :: "cview \<Rightarrow> int32 option" where
  "desired_size v = (case cs_Replicas (cluster_spec (cv_cluster v)) of
     Some r \<Rightarrow> if 0 \<le> sint r then Some r else None | None \<Rightarrow> None)"

lemma desired_size_Some: "desired_size v = Some r \<longleftrightarrow> cs_Replicas (cluster_spec (cv_cluster v)) = Some r \<and> 0 \<le> sint r"
  by (auto simp: desired_size_def split: option.splits)

inductive around :: "cview \<Rightarrow> cview \<Rightarrow> bool" where
  world: "cv_cluster v' = cv_cluster v \<Longrightarrow> world_step (abs_view v) (abs_view v') \<Longrightarrow> around v v'"
| other: "cluster_meta (cv_cluster v') = cluster_meta (cv_cluster v) \<Longrightarrow>
    cs_Version (cluster_spec (cv_cluster v')) = cs_Version (cluster_spec (cv_cluster v)) \<Longrightarrow>
    abs_view v' = abs_view v \<Longrightarrow> desired_size v' \<noteq> None \<Longrightarrow> around v v'"

inductive moves ::
    "lib \<Rightarrow> semver \<Rightarrow> 'w client \<Rightarrow> 'w etcd_api \<Rightarrow> NamespacedName \<Rightarrow> ('w \<Rightarrow> bool) \<Rightarrow> ('w \<Rightarrow> cview) \<Rightarrow>
     'w \<Rightarrow> 'w \<Rightarrow> bool"
  for l sv cl e req good view where
  pass: "moves l sv cl e req good view s (server (pass_from l sv cl e req s))"
| around: "good w \<Longrightarrow> around (view s) (view w) \<Longrightarrow> moves l sv cl e req good view s w"

text \<open>States from which the handler works towards a size.\<close>

definition tended :: "('w \<Rightarrow> bool) \<Rightarrow> ('w \<Rightarrow> cview) \<Rightarrow> 'w \<Rightarrow> bool" where
  "tended good view s \<longleftrightarrow> good s \<and> named_ok (cv_cluster (view s)) \<and> desired_size (view s) \<noteq> None"

abbreviation plan_of :: "('w \<Rightarrow> cview) \<Rightarrow> 'w \<Rightarrow> plan" where
  "plan_of view s \<equiv> abs_view (view s)"

abbreviation version_of :: "('w \<Rightarrow> cview) \<Rightarrow> 'w \<Rightarrow> string" where
  "version_of view s \<equiv> cs_Version (cluster_spec (cv_cluster (view s)))"

text \<open>A move is a step of the plan, a bootstrap peer, or nothing to the plan.\<close>

lemma moves_plan:
  assumes law: "lawful cl e req good view" "lib_ok l" and t: "tended good view s" "desired_size (view s) = Some r"
    and m: "moves l sv cl e req good view s s'"
  shows "tended good view s' \<and> version_of view s' = version_of view s \<and>
    (plan_of view s' = plan_of view s \<or>
     plan_step (nat (sint r)) (version_of view s) (plan_of view s) (plan_of view s') \<or>
     \<not> cv_contact (view s) \<and>
     bootstrap_step (nat (sint r)) (version_of view s) (plan_of view s) (plan_of view s'))"
  using m
proof cases
  case pass
  have "named_ok (cv_cluster (view s))" "good s" using t(1) by (simp_all add: tended_def)
  moreover have "cs_Replicas (cluster_spec (cv_cluster (view s))) = Some r" "0 \<le> sint r"
    using t(2) by (simp_all add: desired_size_Some)
  ultimately show ?thesis
    using pass_refines [OF law(1) _ law(2), of s r sv] pass_run(1) [OF law(1)] t
    by (auto simp: pass advances_def plan_step_def tended_def desired_size_def)
next
  case around
  from around(2) show ?thesis
    by cases (use t around(1) in \<open>auto simp: plan_step_def tended_def desired_size_def named_ok_def\<close>)
qed

text \<open>An undisturbed pass that changes nothing, when the world can do nothing either, finds the cluster as desired.\<close>

lemma pass_idle_at:
  assumes law: "lawful cl e req good view" "lib_ok l" and g: "good w" and u: "undisturbed (trace (pass_from l sv cl e req w))"
    and c: "cv_contact (view w)" "named_ok (cv_cluster (view w))" "EtcdCluster_ValidateCreate sv (cv_cluster (view w)) = None"
    and r: "cs_Replicas (cluster_spec (cv_cluster (view w))) = Some r" "0 \<le> sint r"
    and same: "plan_of view (server (pass_from l sv cl e req w)) = plan_of view w" and still: "\<nexists>s. world_step (plan_of view w) s"
  shows "plan_done (nat (sint r)) (version_of view w) (plan_of view w)"
  using pass_run(3) [OF law(1) g] pass_idle_done [OF _ pass_run(2) [OF law(1) g] lawful_ok [OF law(1) g] c(2) law(2) r c(3,1) u same still]
  by blast

section \<open>Sequences that settle\<close>

lemma wf_settles:
  assumes "wf R" and "\<And>n. g (Suc n) = g n \<or> (g (Suc n), g n) \<in> R"
  shows "\<exists>N. \<forall>n \<ge> N. g n = g N"
proof -
  obtain x where x: "x \<in> range g" "\<And>y. (y, x) \<in> R \<Longrightarrow> y \<notin> range g"
    using wfE_min [OF assms(1), of "g 0" "range g"] by blast
  then obtain N where N: "x = g N" by blast
  have "g n = g N" if "N \<le> n" for n
    using that
  proof (induction n rule: dec_induct)
    case (step n)
    then show ?case using assms(2) [of n] x(2) N by auto
  qed simp
  then show ?thesis by blast
qed

end
