(* ===== verification/ClusterSample.thy ===== *)
theory ClusterSample
  imports ClusterSystem
begin

text \<open>
  Sample passes of the EtcdCluster controller on the sample server: a cluster that shrinks to one
  member, and one whose version is changed again while an upgrade is under way. They show that the
  hypotheses of the properties of runs can hold.
\<close>

section \<open>A cluster that shrinks\<close>

text \<open>
  A cluster of one member, with one peer left over from before, on the sample server: a pass deletes
  that peer, which is marked and therefore stays for now.
\<close>

definition sample_store :: "string \<Rightarrow> int32 \<Rightarrow> EtcdPeer list \<Rightarrow> Member list \<Rightarrow> store" where
  "sample_store v r peers members =
     (let c = (sample_cluster r)\<lparr>cluster_spec := (cluster_spec (sample_cluster r))\<lparr>cs_Version := v\<rparr>\<rparr>
      in \<lparr>so_cluster = c, so_service = Some (headlessServiceForCluster std_lib c),
          so_peers = peers, so_members = members, so_contact = True, so_claims = [], so_sets = []\<rparr>)"

definition sample_key :: NamespacedName where
  "sample_key = key_of (sample_meta ''c'')"

definition any_semver :: semver where
  "any_semver v = Inr 3"

abbreviation sample_pass :: "store \<Rightarrow> store world" where
  "sample_pass \<equiv> pass_from std_lib any_semver store_client store_etcd sample_key"

definition spare_peer :: "string \<Rightarrow> EtcdPeer" where
  "spare_peer n = put_finalizers [pvcCleanupFinalizer] (sample_peer n)"

definition shrunk :: store where
  "shrunk = (sample_store ''3.2.28'' 1 [sample_peer ''c-0'', spare_peer ''c-1''] [sample_member ''c-0''])
     \<lparr>so_claims := [(key_of (sample_meta ''c-0''), False), (key_of (sample_meta ''c-1''), False)],
      so_sets := [key_of (sample_meta ''c-0'')]\<rparr>"

definition with_status :: "int32 \<Rightarrow> store \<Rightarrow> store" where
  "with_status r w = w\<lparr>so_cluster := (so_cluster w)\<lparr>cluster_status :=
     \<lparr>st_Replicas = r, st_Members = Some [\<lparr>em_Name = ''c-0'', em_ID = ''c-0''\<rparr>], st_ClusterVersion = ''3.2.28''\<rparr>\<rparr>\<rparr>"

definition shrunk_deleting :: store where
  "shrunk_deleting = with_status 2
     (shrunk\<lparr>so_peers := [put_deletion 0 (spare_peer ''c-1''), sample_peer ''c-0'']\<rparr>)"

definition ends_in :: "store \<Rightarrow> store world \<Rightarrow> bool" where
  "ends_in w s \<longleftrightarrow> server s = w \<and> undisturbed (trace s)"

lemma shrunk_pass: "ends_in shrunk_deleting (sample_pass shrunk)"
  by code_simp

lemmas sample_passes = shrunk_pass [unfolded ends_in_def]

lemmas sample_views = shrunk_def shrunk_deleting_def with_status_def
  sample_store_def spare_peer_def put_finalizers_def put_deletion_def blank_status_def Let_def

lemma shrunk_good: "store_good shrunk"
  using uniq_mset [of peer_Name "[sample_peer ''c-0'', spare_peer ''c-1'']"] uniq_mset [of mem_ID "[sample_member ''c-0'']"]
  by (auto simp: store_good_def view_ok_def sample_views sample_defs peerNameForMember_def)

section \<open>A cluster that is upgraded\<close>

definition peer_at :: "string \<Rightarrow> string \<Rightarrow> string \<Rightarrow> EtcdPeer" where
  "peer_at n v running = (sample_peer n)
     \<lparr>peer_spec := (peer_spec (sample_peer n))\<lparr>ps_Version := v\<rparr>, peer_status := \<lparr>ServerVersion = running\<rparr>\<rparr>"

definition three_members :: "Member list" where
  "three_members = [sample_member ''c-0'', sample_member ''c-1'', sample_member ''c-2'']"

text \<open>All three members run 3.2.27, and 3.2.28 is desired.\<close>

definition outdated_store :: store where
  "outdated_store = sample_store ''3.2.28'' 3
     [peer_at ''c-0'' ''3.2.27'' ''3.2.27'', peer_at ''c-1'' ''3.2.27'' ''3.2.27'', peer_at ''c-2'' ''3.2.27'' ''3.2.27'']
     three_members"

text \<open>
  Half way, the peer \<open>c-2\<close> runs 3.2.28 and \<open>c-1\<close> has just been replaced and is not up yet; then
  3.2.29 is asked for.
\<close>

definition half_upgraded :: "string \<Rightarrow> store" where
  "half_upgraded v = sample_store v 3
     [peer_at ''c-0'' ''3.2.27'' ''3.2.27'', peer_at ''c-1'' ''3.2.28'' [], peer_at ''c-2'' ''3.2.28'' ''3.2.28'']
     three_members"

lemmas upgrade_views = outdated_store_def half_upgraded_def peer_at_def three_members_def sample_store_def Let_def

definition holds :: "EtcdPeer list \<Rightarrow> Member list \<Rightarrow> store world \<Rightarrow> bool" where
  "holds peers members s \<longleftrightarrow> so_peers (server s) = peers \<and> so_members (server s) = members"

lemma outdated_sound: "sound ''3.2.28'' (abs_view (store_view outdated_store))"
  by (auto simp: sound_def upgrade_views sample_defs abs_view_def abs_peer_def abs_member_def peerNameForMember_def
      member_names_def countp_def hasPvcDeletionFinalizer_def)

lemma outdated_runs: "\<forall>m \<in># pl_members (abs_view (store_view outdated_store)). runs (abs_view (store_view outdated_store)) m"
  by (simp add: runs_def upgrade_views sample_defs abs_view_def abs_peer_def abs_member_def peerNameForMember_def)

lemma half_upgraded_good: "store_good (half_upgraded v)"
  using uniq_mset [of peer_Name "so_peers (half_upgraded v)"] uniq_mset [of mem_ID "so_members (half_upgraded v)"]
  by (auto simp: store_good_def view_ok_def upgrade_views sample_defs peerNameForMember_def)

lemma outdated_good: "store_good outdated_store"
  using uniq_mset [of peer_Name "so_peers outdated_store"] uniq_mset [of mem_ID "so_members outdated_store"]
  by (auto simp: store_good_def view_ok_def upgrade_views sample_defs peerNameForMember_def)

end
