(* ===== verification/ClusterRunProps.thy ===== *)
theory ClusterRunProps
  imports ClusterSample
begin

text \<open>
  The properties of passes of the EtcdCluster controller on servers that keep their promises: a pass
  refines the plan, and what happens when the desired version changes during an upgrade.
\<close>

text \<open>C2: refinement. On an API server and an etcd cluster that keep their promises, one pass of the handler
  either leaves the members and peers of the cluster as they are to the plan, or takes exactly one
  step that the plan allows the operator, towards the desired number of members and the desired
  version; without contact to etcd it may instead create one peer of a name no peer has, while there
  are fewer peers than desired. The cluster itself it never changes.\<close>

theorem cluster_refines_plan:
  assumes "lawful cl e req good view" "good w" "lib_ok l" "named_ok (cv_cluster (view w))"
    and "cs_Replicas (cluster_spec (cv_cluster (view w))) = Some r" "0 \<le> sint r"
    and "w' = server (snd (run_state (Cluster_Reconcile l sv cl e req) \<lparr>server = w, trace = []\<rparr>))"
  shows "good w' \<and> cv_cluster (view w') = cv_cluster (view w) \<and>
    (abs_view (view w') = abs_view (view w) \<or>
     operator_step (nat (sint r)) (cs_Version (cluster_spec (cv_cluster (view w)))) (abs_view (view w)) (abs_view (view w')) \<or>
     \<not> cv_contact (view w) \<and>
     bootstrap_step (nat (sint r)) (cs_Version (cluster_spec (cv_cluster (view w)))) (abs_view (view w)) (abs_view (view w')))"
  using pass_refines [OF assms(1-6), of sv] pass_run(1) [OF assms(1,2), of l sv]
  by (auto simp: assms(7) pass_from_def advances_def)

theorem cluster_refines_plan_witness:
  "operator_step 1 ''3.2.28'' (abs_view (store_view shrunk)) (abs_view (store_view shrunk_deleting))"
proof -
  have named: "named_ok (cv_cluster (store_view shrunk))"
    by (simp add: named_ok_def sample_views sample_defs) code_simp
  have "pl_peers (abs_view (store_view shrunk_deleting)) \<noteq> pl_peers (abs_view (store_view shrunk))"
    by (simp add: sample_views sample_defs abs_view_def abs_peer_def hasPvcDeletionFinalizer_def)
  then show ?thesis
    using cluster_refines_plan [OF store_lawful shrunk_good std_lib_ok named, of 1 shrunk_deleting any_semver sample_key]
      sample_passes by (auto simp: sample_views sample_defs pass_from_def)
qed

text \<open>C23: a second change of the version takes a second member down. On servers that keep their promises and
  with etcd in contact, let every member have started and have a peer, no peer be spare, and let the
  last peer, in the order of names, that does not report the desired version also be asked to run
  another one and not be deleted yet. Then a pass in which every question is answered and no change
  fails deletes that peer, whether or not the other members run: if a member of another name is not
  running, as happens when the desired version changes again while a peer has just been replaced,
  at least two members are not running after the pass.\<close>

theorem second_upgrade_takes_two_down:
  assumes "lawful cl e req good view" "good w" "lib_ok l" "named_ok (cv_cluster (view w))"
    and "cs_Replicas (cluster_spec (cv_cluster (view w))) = Some r" "0 \<le> sint r"
    and "EtcdCluster_ValidateCreate sv (cv_cluster (view w)) = None" "cv_contact (view w)"
    and "u = snd (run_state (Cluster_Reconcile l sv cl e req) \<lparr>server = w, trace = []\<rparr>)" "undisturbed (trace u)"
    and "to_upgrade (cs_Version (cluster_spec (cv_cluster (view w)))) p (abs_view (view w))"
    and "m \<in># pl_members (abs_view (view w))" "am_Name m \<noteq> ap_Name p" "\<not> runs (abs_view (view w)) m"
  shows "deleted p (abs_view (view w)) (abs_view (view (server u))) \<and>
    2 \<le> countp (\<lambda>m. \<not> runs (abs_view (view (server u))) m) (pl_members (abs_view (view (server u))))"
proof -
  have u: "u = pass_from l sv cl e req w" by (simp add: pass_from_def assms(9))
  from pass_run(3) [OF assms(1,2)] obtain out where pass: "cluster_pass l sv req out (trace u)" by (auto simp: u)
  note up = pass_upgrades [OF pass pass_run(2) [OF assms(1,2), of l sv, folded u] lawful_ok [OF assms(1,2)] assms(4,3,5-8,10,11)]
  from up(1) upgrade_takes_down [OF assms(11) up assms(12-14)] show ?thesis by simp
qed

theorem second_upgrade_takes_two_down_witness:
  "2 \<le> countp (\<lambda>m. \<not> runs (abs_view (store_view (server (sample_pass (half_upgraded ''3.2.29''))))) m)
     (pl_members (abs_view (store_view (server (sample_pass (half_upgraded ''3.2.29''))))))"
proof -
  have "to_upgrade ''3.2.29'' (abs_peer (peer_at ''c-2'' ''3.2.28'' ''3.2.28'')) (abs_view (store_view (half_upgraded ''3.2.29'')))"
    "abs_member (sample_member ''c-1'') \<in># pl_members (abs_view (store_view (half_upgraded ''3.2.29'')))"
    "\<not> runs (abs_view (store_view (half_upgraded ''3.2.29''))) (abs_member (sample_member ''c-1''))"
    "am_Name (abs_member (sample_member ''c-1'')) \<noteq> ap_Name (abs_peer (peer_at ''c-2'' ''3.2.28'' ''3.2.28''))"
    by (simp_all add: to_upgrade_def all_settled_def none_surplus_def is_surplus_def member_names_def peer_names_def runs_def
        upgrade_views sample_defs abs_view_def abs_peer_def abs_member_def peerNameForMember_def)
  moreover have "named_ok (cv_cluster (store_view (half_upgraded ''3.2.29'')))"
    "EtcdCluster_ValidateCreate any_semver (cv_cluster (store_view (half_upgraded ''3.2.29''))) = None"
    "undisturbed (trace (sample_pass (half_upgraded ''3.2.29'')))" by code_simp+
  ultimately show ?thesis
    using second_upgrade_takes_two_down [OF store_lawful half_upgraded_good std_lib_ok, where sv = any_semver and req = sample_key]
    by (simp add: pass_from_def upgrade_views sample_defs)
qed

end
