(* ===== verification/PeerProps.thy ===== *)
theory PeerProps
  imports PeerController MemServer
begin

text \<open>
  Correctness of the EtcdPeer controller: the justification of its one action, its progress, the
  ReplicaSet and the claim it builds and how they fit together, the environment of the etcd
  process, and how a claim leads back to its peer.
\<close>

section \<open>Claims and ReplicaSets\<close>

lemma pvcForPeer_key: "pvcForPeer peer = Return pvc \<Longrightarrow> key_of (pvc_meta pvc) = key_of (peer_meta peer)"
  by (auto simp: pvcForPeer_def key_of_def split: option.splits)

lemma pvcForPeer_valid: "valid_storage (ps_Storage (peer_spec peer)) \<Longrightarrow> \<exists>pvc. pvcForPeer peer = Return pvc"
  by (auto simp: valid_storage_def pvcForPeer_def)

lemma valid_storage_setDefaults [simp]: "valid_storage (setDefaults so) = valid_storage so"
  using EtcdPeerStorage_validate_iff EtcdPeerStorage_validate_setDefaults by metis

lemma defineReplicaSet_Panic:
  "defineReplicaSet l peer repo = Panic \<longleftrightarrow>
     (case ps_Bootstrap (peer_spec peer) of None \<Rightarrow> True | Some b \<Rightarrow> Static b = None)"
  by (auto simp: defineReplicaSet_def Let_def split: option.splits)

section \<open>When the controller acts\<close>

text \<open>
  What each action of the handler requires of the peer and of the answers of the same pass: claims
  before ReplicaSets, nothing is created for a peer that is being deleted, the claim is deleted and
  the finalizer removed only for a peer that is being deleted and carries the finalizer.
\<close>

fun peer_justified :: "lib \<Rightarrow> string \<Rightarrow> EtcdPeer \<Rightarrow> call list \<Rightarrow> call \<Rightarrow> bool" where
  "peer_justified l repo peer tr (Create obj _) \<longleftrightarrow>
     DeletionTimestamp (peer_meta peer) = None \<and>
     ((\<exists>pvc. obj = OPVC pvc \<and> pvcForPeer peer = Return pvc \<and>
         GetPVC (key_of (peer_meta peer)) (Inl NotFound) \<in> set tr) \<or>
      (\<exists>rs pvc. obj = OReplicaSet rs \<and> defineReplicaSet l peer repo = Return rs \<and>
         GetPVC (key_of (peer_meta peer)) (Inr pvc) \<in> set tr \<and>
         GetReplicaSet (key_of (peer_meta peer)) (Inl NotFound) \<in> set tr))"
| "peer_justified l repo peer tr (Delete obj _) \<longleftrightarrow>
     DeletionTimestamp (peer_meta peer) \<noteq> None \<and> hasPvcDeletionFinalizer peer \<and>
     (\<exists>pvc actual. obj = OPVC pvc \<and> pvcForPeer peer = Return pvc \<and>
        GetPVC (key_of (peer_meta peer)) (Inr actual) \<in> set tr \<and>
        DeletionTimestamp (pvc_meta actual) = None)"
| "peer_justified l repo peer tr (Patch new old _) \<longleftrightarrow>
     DeletionTimestamp (peer_meta peer) \<noteq> None \<and> hasPvcDeletionFinalizer peer \<and>
     old = OPeer peer \<and> new = OPeer (removeCleanup l peer) \<and>
     (GetPVC (key_of (peer_meta peer)) (Inl NotFound) \<in> set tr \<or>
      (\<exists>actual t. GetPVC (key_of (peer_meta peer)) (Inr actual) \<in> set tr \<and>
         DeletionTimestamp (pvc_meta actual) = Some t))"
| "peer_justified l repo peer tr _ \<longleftrightarrow> False"

lemma peer_justified_mono:
  "peer_justified l repo peer tr x \<Longrightarrow> set tr \<subseteq> set tr' \<Longrightarrow> peer_justified l repo peer tr' x"
  by (cases x) (simp_all, blast+)

text \<open>One change at most, an error exactly when it failed, and always a requeue.\<close>

definition peer_reported :: "reconciled \<Rightarrow> call list \<Rightarrow> bool" where
  "peer_reported out tr \<longleftrightarrow>
     (case out of
        Panic \<Rightarrow> mutations tr = []
      | Return (result, err) \<Rightarrow>
          result = requeueTenSeconds \<and> (\<forall>x \<in> set (mutations tr). failed x \<longleftrightarrow> err \<noteq> None))"

definition peer_step_ok :: "lib \<Rightarrow> string \<Rightarrow> EtcdPeer \<Rightarrow> reconciled \<Rightarrow> call list \<Rightarrow> bool" where
  "peer_step_ok l repo peer out tr \<longleftrightarrow>
     peer_reported out tr \<and> recorded tr = [] \<and>
     (mutations tr = [] \<or> (\<exists>x. mutations tr = [x] \<and> peer_justified l repo peer tr x))"

lemma maybeCreatePvc_emits:
  "emits (maybeCreatePvc cl peer) (\<lambda>r tr. let k = key_of (peer_meta peer) in
     (\<exists>pvc. tr = [GetPVC k (Inr pvc)] \<and> r = Return (False, None)) \<or>
     (\<exists>err. tr = [GetPVC k (Inl err)] \<and> r = Return (False, Some (ApiError err)) \<and> err \<noteq> NotFound) \<or>
     (tr = [GetPVC k (Inl NotFound)] \<and> r = Panic \<and> pvcForPeer peer = Panic) \<or>
     (\<exists>pvc e created err. tr = [GetPVC k (Inl NotFound), Create (OPVC pvc) e] \<and>
        pvcForPeer peer = Return pvc \<and> r = Return (created, err) \<and>
        (created \<longleftrightarrow> e = None) \<and> (err = None \<longleftrightarrow> e = None)))"
  unfolding maybeCreatePvc_def call_defs
  by (intro emits_steps) (auto simp: IsNotFound_iff IsAlreadyExists_iff split: option.split)

lemma PeerPVCDeleter_Execute_emits:
  "emits (PeerPVCDeleter_Execute l cl peer) (\<lambda>r tr. let k = key_of (peer_meta peer) in
     (r = Panic \<and> tr = [] \<and> pvcForPeer peer = Panic) \<or>
     (\<exists>pvc actual e. pvcForPeer peer = Return pvc \<and> DeletionTimestamp (pvc_meta actual) = None \<and>
        tr = [GetPVC k (Inr actual), Delete (OPVC pvc) e] \<and> (\<exists>err. r = Return err \<and> (err = None \<longleftrightarrow> e = None))) \<or>
     (\<exists>a e. (a = Inl NotFound \<or> (\<exists>actual t. a = Inr actual \<and> DeletionTimestamp (pvc_meta actual) = Some t)) \<and>
        tr = [GetPVC k a, Patch (OPeer (removeCleanup l peer)) (OPeer peer) e] \<and>
        (\<exists>err. r = Return err \<and> (err = None \<longleftrightarrow> e = None))) \<or>
     (\<exists>err. err \<noteq> NotFound \<and> tr = [GetPVC k (Inl err)] \<and> (\<exists>err'. r = Return (Some err'))))"
proof (cases "pvcForPeer peer")
  case Panic
  then show ?thesis by (simp add: PeerPVCDeleter_Execute_def emits_return)
next
  case (Return pvc)
  then show ?thesis
    unfolding PeerPVCDeleter_Execute_def call_defs Return outcome.case pvcForPeer_key [OF Return]
    by (intro emits_steps) (auto simp: IsNotFound_iff split: option.split)
qed

lemma reconcilePeer_ok: "emits (reconcilePeer l cl repo peer) (peer_step_ok l repo peer)"
proof (cases "DeletionTimestamp (peer_meta peer)")
  case (Some t)
  then show ?thesis
    unfolding reconcilePeer_def
    by (auto intro!: emits_return emits_bind [OF PeerPVCDeleter_Execute_emits]
        simp: Let_def peer_step_ok_def peer_reported_def)
next
  case None
  then show ?thesis
    unfolding reconcilePeer_def call_defs
    by (auto intro!: emits_return emits_bind_call emits_bind [OF maybeCreatePvc_emits]
        emits_case_sum emits_if emits_case_outcome
        simp: Let_def peer_step_ok_def peer_reported_def IsNotFound_iff)
qed

section \<open>The passes of the handler\<close>

lemma dialPeer_emits:
  "emits (dialPeer e peer) (\<lambda>v tr. mutations tr = [] \<and> recorded tr = [] \<and>
     (v = [] \<or> (\<exists>vs. EtcdGetVersion (peerEtcdConfig peer) (Inr vs) \<in> set tr \<and> v = ver_Server vs)))"
  unfolding dialPeer_def call_defs by (intro emits_steps) (auto split: sum.split)

fun with_peer_patch_error :: "reconciled \<Rightarrow> api_error option \<Rightarrow> reconciled" where
  "with_peer_patch_error (Return (result, reterr)) (Some e) =
     Return (result, NewAggregate
       [reterr, Some (Text ''error while patching EtcdPeer.Status: '' (ApiError e))])"
| "with_peer_patch_error out _ = out"

lemma patchPeerStatus_emits:
  "emits (patchPeerStatus cl original peer out) (\<lambda>r tr.
     (peer_status original = peer_status peer \<and> tr = [] \<and> r = out) \<or>
     (peer_status original \<noteq> peer_status peer \<and>
        (\<exists>a. tr = [StatusPatch (OPeer peer) (OPeer original) a] \<and> r = with_peer_patch_error out a)))"
proof -
  have "(case a of None \<Rightarrow> out
        | Some e \<Rightarrow> (case out of Panic \<Rightarrow> Panic
           | Return (result, reterr) \<Rightarrow> Return (result, NewAggregate
                [reterr, Some (Text ''error while patching EtcdPeer.Status: '' (ApiError e))])))
      = with_peer_patch_error out a" for a
    by (cases "(out, a)" rule: with_peer_patch_error.cases) (auto split: option.splits)
  then show ?thesis unfolding patchPeerStatus_def call_defs by (auto intro!: emits_steps)
qed

inductive peer_pass :: "lib \<Rightarrow> semver \<Rightarrow> string \<Rightarrow> NamespacedName \<Rightarrow> reconciled \<Rightarrow> call list \<Rightarrow> bool"
  for l sv repo req where
  gone: "peer_pass l sv repo req (Return (emptyResult, map_option ApiError (IgnoreNotFound (Some err))))
     [GetPeer req (Inl err)]"
| invalid: "EtcdPeer_ValidateCreate sv fetched \<noteq> None \<Longrightarrow>
     peer_pass l sv repo req (Return (emptyResult, None)) [GetPeer req (Inr fetched)]"
| full:
    "EtcdPeer_ValidateCreate sv fetched = None \<Longrightarrow>
     original = EtcdPeer_Default fetched \<Longrightarrow> peer = Peer_updateStatus original v \<Longrightarrow>
     mutations dial = [] \<Longrightarrow> recorded dial = [] \<Longrightarrow> peer_step_ok l repo peer r steps \<Longrightarrow>
     (peer_status original = peer_status peer \<and> pat = [] \<and> out = r) \<or>
     (peer_status original \<noteq> peer_status peer \<and>
        (\<exists>a. pat = [StatusPatch (OPeer peer) (OPeer original) a] \<and> out = with_peer_patch_error r a)) \<Longrightarrow>
     peer_pass l sv repo req out (GetPeer req (Inr fetched) # dial @ steps @ pat)"

lemma Peer_Reconcile_pass: "emits (Peer_Reconcile l sv cl e repo req) (peer_pass l sv repo req)"
  unfolding Peer_Reconcile_def get_Peer_def
proof (rule emits_bind_call, rule emits_case_sum, goal_cases)
  case (1 r err)
  then show ?case by (auto intro!: emits_return gone)
next
  case (2 r fetched)
  show ?case unfolding Let_def 2
  proof (rule emits_case_option, goal_cases)
    case (2 err)
    then show ?case by (auto intro!: emits_return invalid simp: peer_admission.ValidateCreate_Default)
  next
    case 1
    then have valid: "EtcdPeer_ValidateCreate sv fetched = None"
      by (simp add: peer_admission.ValidateCreate_Default)
    show ?case
      by (rule emits_bind [OF dialPeer_emits], rule emits_bind [OF reconcilePeer_ok],
          rule emits_mono [OF patchPeerStatus_emits])
        (auto intro!: full [OF valid refl refl, simplified append.simps append_assoc])
  qed
qed

lemma peer_step_ok_actions:
  assumes "peer_step_ok l repo peer r tr"
  shows "actions tr = mutations tr"
proof -
  have "\<not> is_status_write x" if "peer_justified l repo peer tr x" for x using that by (cases x) auto
  then have "\<not> is_status_write x" if "x \<in> set (mutations tr)" for x
    using assms that by (auto simp: peer_step_ok_def)
  then show ?thesis unfolding actions_def mutations_def by (intro filter_cong) auto
qed

lemma peer_pass_actions:
  assumes "peer_pass l sv repo req out tr"
  shows "actions tr = [] \<or>
    (\<exists>x fetched v. actions tr = [x] \<and> GetPeer req (Inr fetched) \<in> set tr \<and>
       EtcdPeer_ValidateCreate sv fetched = None \<and>
       peer_justified l repo (Peer_updateStatus (EtcdPeer_Default fetched) v) tr x)"
  using assms
proof cases
  case (full fetched original peer v dial r steps pat)
  have "actions dial = []" using full(5) by (auto simp: mutations_def actions_def filter_empty_conv)
  then have acts: "actions tr = mutations steps"
    using full(8) peer_step_ok_actions [OF full(7)] by (auto simp: full(1))
  have "set steps \<subseteq> set tr" by (auto simp: full(1))
  with peer_justified_mono have "peer_justified l repo peer steps x \<Longrightarrow> peer_justified l repo peer tr x" for x
    by blast
  with acts full(2,3,4,7) show ?thesis by (force simp: peer_step_ok_def full(1))
qed simp_all

interpretation peer_reconciler: reconciler "Peer_Reconcile l sv cl e repo" for l sv cl e repo
proof
  fix req
  show "at_most_one_action (Peer_Reconcile l sv cl e repo req)"
    unfolding at_most_one_action_def
    by (rule emits_mono [OF Peer_Reconcile_pass]) (use peer_pass_actions in fastforce)
qed

section \<open>Reports, progress and panics\<close>

text \<open>What a pass that returned has reported: an error whenever a change failed.\<close>

lemma with_peer_patch_error_None:
  "with_peer_patch_error r a = Return (result, None) \<longleftrightarrow> r = Return (result, None) \<and> a = None"
  by (cases "(r, a)" rule: with_peer_patch_error.cases) (auto simp: NewAggregate_def map_filter_def split: if_splits)

lemma peer_pass_errors:
  assumes "peer_pass l sv repo req out tr"
  shows "recorded tr = [] \<and>
    (out = Panic \<or> (\<exists>result err. out = Return (result, Some err)) \<or>
     (\<exists>result. out = Return (result, None) \<and> list_all (\<lambda>x. \<not> failed x) (mutations tr)))"
  using assms
proof cases
  case (full fetched original peer v dial r steps pat)
  have rec: "recorded tr = []" using full(6,7,8) by (auto simp: full(1) peer_step_ok_def)
  have "list_all (\<lambda>x. \<not> failed x) (mutations tr)" if "out = Return (result, None)" for result
  proof -
    have "r = Return (result, None)" "list_all (\<lambda>x. \<not> failed x) (mutations pat)"
      using full(8) unfolding that eq_commute [of "Return (result, None)"] with_peer_patch_error_None by auto
    then show ?thesis
      using full(5,7) by (auto simp: full(1) peer_step_ok_def peer_reported_def list_all_iff)
  qed
  then show ?thesis using rec by (cases out) auto
qed auto

definition peer_at_rest :: "EtcdPeer \<Rightarrow> call list \<Rightarrow> bool" where
  "peer_at_rest peer tr \<longleftrightarrow>
     (\<exists>t. DeletionTimestamp (peer_meta peer) = Some t) \<and> \<not> hasPvcDeletionFinalizer peer \<or>
     DeletionTimestamp (peer_meta peer) = None \<and>
     (\<exists>pvc rs. GetPVC (key_of (peer_meta peer)) (Inr pvc) \<in> set tr \<and>
        GetReplicaSet (key_of (peer_meta peer)) (Inr rs) \<in> set tr)"

lemma reconcilePeer_progress:
  "emits (reconcilePeer l cl repo peer) (\<lambda>out tr.
     (\<exists>x. mutations tr = [x]) \<or> (\<exists>err. out = Return (requeueTenSeconds, Some err)) \<or> out = Panic \<or>
     out = Return (requeueTenSeconds, None) \<and> peer_at_rest peer tr)"
proof (cases "DeletionTimestamp (peer_meta peer)")
  case (Some t)
  then show ?thesis
    unfolding reconcilePeer_def
    by (auto intro!: emits_return emits_bind [OF PeerPVCDeleter_Execute_emits] simp: Let_def peer_at_rest_def)
next
  case None
  then show ?thesis
    unfolding reconcilePeer_def call_defs
    by (auto intro!: emits_return emits_bind_call emits_bind [OF maybeCreatePvc_emits]
        emits_case_sum emits_if emits_case_outcome
        simp: Let_def peer_at_rest_def IsNotFound_iff)
qed


text \<open>When the handler panics: it wants to define a ReplicaSet for a peer that has no static bootstrap.\<close>

definition unbootstrapped :: "EtcdPeer \<Rightarrow> bool" where
  "unbootstrapped peer \<longleftrightarrow> (case ps_Bootstrap (peer_spec peer) of None \<Rightarrow> True | Some b \<Rightarrow> Static b = None)"

definition wants_replica_set :: "EtcdPeer \<Rightarrow> call list \<Rightarrow> bool" where
  "wants_replica_set peer tr \<longleftrightarrow> DeletionTimestamp (peer_meta peer) = None \<and>
     (\<exists>pvc. GetPVC (key_of (peer_meta peer)) (Inr pvc) \<in> set tr) \<and>
     GetReplicaSet (key_of (peer_meta peer)) (Inl NotFound) \<in> set tr"

lemma reconcilePeer_panics:
  assumes "valid_storage (ps_Storage (peer_spec peer))"
  shows "emits (reconcilePeer l cl repo peer) (\<lambda>out tr.
    (out = Panic \<longleftrightarrow> unbootstrapped peer \<and> wants_replica_set peer tr) \<and> (\<forall>k a. GetPeer k a \<notin> set tr))"
proof -
  obtain pvc where pvc: "pvcForPeer peer = Return pvc" using pvcForPeer_valid [OF assms(1)] by blast
  have rs: "defineReplicaSet l peer repo = Panic \<longleftrightarrow> unbootstrapped peer"
    by (simp add: defineReplicaSet_Panic unbootstrapped_def)
  show ?thesis
  proof (cases "DeletionTimestamp (peer_meta peer)")
    case (Some t)
    then show ?thesis
      unfolding reconcilePeer_def
      by (auto intro!: emits_return emits_bind [OF PeerPVCDeleter_Execute_emits] simp: Let_def pvc wants_replica_set_def)
  next
    case None
    then show ?thesis
      unfolding reconcilePeer_def call_defs
      by (auto intro!: emits_return emits_bind_call emits_bind [OF maybeCreatePvc_emits]
          emits_case_sum emits_if emits_case_outcome
          simp: Let_def pvc rs [symmetric] wants_replica_set_def IsNotFound_iff)
  qed
qed

lemma dialPeer_asks:
  "emits (dialPeer e peer) (\<lambda>v tr. \<forall>k. (\<forall>a. GetPVC k a \<notin> set tr) \<and> (\<forall>a. GetReplicaSet k a \<notin> set tr) \<and> (\<forall>a. GetPeer k a \<notin> set tr))"
  unfolding dialPeer_def call_defs by (intro emits_steps) auto

lemma patchPeerStatus_asks:
  "emits (patchPeerStatus cl original peer out) (\<lambda>r tr. (r = Panic \<longleftrightarrow> out = Panic) \<and>
     (\<forall>k. (\<forall>a. GetPVC k a \<notin> set tr) \<and> (\<forall>a. GetReplicaSet k a \<notin> set tr) \<and> (\<forall>a. GetPeer k a \<notin> set tr)))"
  by (rule emits_mono [OF patchPeerStatus_emits])
    (auto elim!: with_peer_patch_error.elims)

lemma Peer_Reconcile_panics:
  "emits (Peer_Reconcile l sv cl e repo req) (\<lambda>out tr. out = Panic \<longleftrightarrow>
     (\<exists>fetched. GetPeer req (Inr fetched) \<in> set tr \<and> EtcdPeer_ValidateCreate sv fetched = None \<and>
        unbootstrapped fetched \<and> wants_replica_set fetched tr))"
  unfolding Peer_Reconcile_def get_Peer_def
proof (rule emits_bind_call, rule emits_case_sum, goal_cases)
  case (1 r err)
  then show ?case by (auto intro!: emits_return)
next
  case (2 r fetched)
  show ?case unfolding Let_def 2
  proof (rule emits_case_option, goal_cases)
    case (2 err)
    then show ?case by (auto intro!: emits_return simp: peer_admission.ValidateCreate_Default)
  next
    case 1
    then have valid: "EtcdPeer_ValidateCreate sv fetched = None"
      by (simp add: peer_admission.ValidateCreate_Default)
    have same: "unbootstrapped (Peer_updateStatus (EtcdPeer_Default fetched) v) = unbootstrapped fetched"
      "peer_meta (Peer_updateStatus (EtcdPeer_Default fetched) v) = peer_meta fetched"
      "valid_storage (ps_Storage (peer_spec (Peer_updateStatus (EtcdPeer_Default fetched) v)))" for v
      using valid by (simp_all add: unbootstrapped_def Peer_updateStatus_def EtcdPeer_Default_def EtcdPeer_ValidateCreate_iff)
    show ?case
      by (rule emits_bind [OF dialPeer_asks], rule emits_bind [OF reconcilePeer_panics [OF same(3)]],
          rule emits_mono [OF patchPeerStatus_asks])
        (auto simp: valid same wants_replica_set_def)
  qed
qed

section \<open>Environment and annotations\<close>

lemma map_of_stampAnnotations:
  "map_of (stampAnnotations user start) k =
     (case map_of start k of
        Some v \<Rightarrow> Some v
      | None \<Rightarrow> if IsInvalidUserProvidedAnnotationName k then None else map_of user k)"
proof (induction user arbitrary: start)
  case (Cons a user)
  obtain n v where a: "a = (n, v)" by (cases a)
  then show ?case
    using Cons.IH by (auto simp: stampAnnotations_def split: option.splits)
qed (simp add: stampAnnotations_def split: option.split)

text \<open>
  The documented format of \<open>ETCD_INITIAL_CLUSTER\<close>: entries between commas, name and URL around the
  first equals sign. This is a specification of the format for lists of distinct, non-empty names,
  not etcd's own parser, which is not part of these sources and also skips empty entries and joins
  entries of equal names.
\<close>

definition parseInitialCluster :: "string \<Rightarrow> (string \<times> string) list" where
  "parseInitialCluster s =
     map (\<lambda>entry. (takeWhile (\<lambda>c. c \<noteq> CHR ''='') entry, tl (dropWhile (\<lambda>c. c \<noteq> CHR ''='') entry)))
       (Split s (CHR '',''))"

lemma String_initialMemberURL:
  "list_all host_char (icm_Host m) \<Longrightarrow>
   String (initialMemberURL m) = ''http://'' @ icm_Host m @ '':'' @ decimal etcdPeerPort"
  using String_host_port [of "icm_Host m" etcdPeerPort]
  by (simp add: initialMemberURL_def etcdScheme_def host_port_def)

lemma host_char_not_comma: "\<not> host_char (CHR '','')" by code_simp

lemma decimal_not_comma: "CHR '','' \<notin> set (decimal n)"
  using decimal_is_dec is_dec_host_char host_char_not_comma by blast

lemma parseInitialCluster_static:
  assumes ne: "InitialCluster static \<noteq> []"
    and ok: "\<forall>m \<in> set (InitialCluster static). list_all host_char (icm_Host m) \<and>
      CHR '','' \<notin> set (icm_Name m) \<and> CHR ''='' \<notin> set (icm_Name m)"
  shows "parseInitialCluster (staticBootstrapInitialCluster static) =
    map (\<lambda>m. (icm_Name m, String (initialMemberURL m))) (InitialCluster static)"
proof -
  let ?entry = "\<lambda>m. icm_Name m @ ''='' @ String (initialMemberURL m)"
  have "CHR '','' \<notin> set (?entry m)" if "m \<in> set (InitialCluster static)" for m
    using ok that host_char_not_comma decimal_not_comma
    by (auto simp: String_initialMemberURL list_all_iff)
  then have "Split (staticBootstrapInitialCluster static) (CHR '','') = map ?entry (InitialCluster static)"
    unfolding staticBootstrapInitialCluster_def using ne by (intro Split_Join) auto
  moreover have "takeWhile (\<lambda>c. c \<noteq> CHR ''='') (?entry m) = icm_Name m \<and>
      tl (dropWhile (\<lambda>c. c \<noteq> CHR ''='') (?entry m)) = String (initialMemberURL m)"
    if "m \<in> set (InitialCluster static)" for m
    using ok that by (subst takeWhile_append2; (subst dropWhile_append2)?; auto)
  ultimately show ?thesis by (simp add: parseInitialCluster_def)
qed

lemma quot_pos: "0 \<le> a \<Longrightarrow> 0 < b \<Longrightarrow> quot a b = a div b"
  by (cases "a = 0") (simp_all add: quot_def)

section \<open>Properties\<close>

text \<open>C11: one pass of the EtcdPeer handler changes at most one thing besides the status, and the change is
  justified by the fetched, valid peer and the answers of the same pass: a claim is created only
  when it was not found; a ReplicaSet only when its claim was found and it was not; nothing is
  created for a peer that is being deleted; the claim is deleted, and the clean-up finalizer
  removed, only for a peer that is being deleted and carries the finalizer, and the finalizer only
  after the claim was seen gone or going.\<close>

theorem peer_one_justified_action:
  "emits (Peer_Reconcile l sv cl e repo req) (\<lambda>out tr.
     actions tr = [] \<or>
     (\<exists>x fetched v. actions tr = [x] \<and> GetPeer req (Inr fetched) \<in> set tr \<and>
        EtcdPeer_ValidateCreate sv fetched = None \<and>
        peer_justified l repo (Peer_updateStatus (EtcdPeer_Default fetched) v) tr x))"
  by (rule emits_mono [OF Peer_Reconcile_pass peer_pass_actions])

text \<open>A pass of the EtcdPeer handler that returns without an error has had no failed change, the status
  patch included.\<close>

lemma peer_pass_reports:
  "emits (Peer_Reconcile l sv cl e repo req) (\<lambda>out tr. recorded tr = [] \<and>
     (out = Panic \<or> (\<exists>result err. out = Return (result, Some err)) \<or>
      (\<exists>result. out = Return (result, None) \<and> list_all (\<lambda>x. \<not> failed x) (mutations tr))))"
  by (rule emits_mono [OF Peer_Reconcile_pass peer_pass_errors])

text \<open>Progress. For a valid peer a pass attempts one change, or fails, or panics, or finds the peer at
  rest: being deleted with the finalizer gone, or alive with its claim and its ReplicaSet found.\<close>

lemma peer_progress:
  "emits (reconcilePeer l cl repo peer) (\<lambda>out tr.
     (\<exists>x. mutations tr = [x]) \<or> (\<exists>err. out = Return (requeueTenSeconds, Some err)) \<or> out = Panic \<or>
     out = Return (requeueTenSeconds, None) \<and> peer_at_rest peer tr)"
  by (rule reconcilePeer_progress)



text \<open>C32: a valid peer can make the handler panic. A pass panics exactly when the peer it read is valid, is not
  being deleted and has no static bootstrap, its claim was found and its ReplicaSet was not found:
  the ReplicaSet is then built from the missing bootstrap. Validation does not prevent it: it gives
  the same verdict on a peer whatever its bootstrap is.\<close>

theorem peer_pass_panics_iff:
  "emits (Peer_Reconcile l sv cl e repo req) (\<lambda>out tr. out = Panic \<longleftrightarrow>
     (\<exists>fetched pvc. GetPeer req (Inr fetched) \<in> set tr \<and> EtcdPeer_ValidateCreate sv fetched = None \<and>
        DeletionTimestamp (peer_meta fetched) = None \<and>
        (ps_Bootstrap (peer_spec fetched) = None \<or> (\<exists>b. ps_Bootstrap (peer_spec fetched) = Some b \<and> Static b = None)) \<and>
        GetPVC (key_of (peer_meta fetched)) (Inr pvc) \<in> set tr \<and>
        GetReplicaSet (key_of (peer_meta fetched)) (Inl NotFound) \<in> set tr)) \<and>
   EtcdPeer_ValidateCreate sv (peer\<lparr>peer_spec := (peer_spec peer)\<lparr>ps_Bootstrap := b\<rparr>\<rparr>) = EtcdPeer_ValidateCreate sv peer"
proof
  show "emits (Peer_Reconcile l sv cl e repo req) (\<lambda>out tr. out = Panic \<longleftrightarrow>
     (\<exists>fetched pvc. GetPeer req (Inr fetched) \<in> set tr \<and> EtcdPeer_ValidateCreate sv fetched = None \<and>
        DeletionTimestamp (peer_meta fetched) = None \<and>
        (ps_Bootstrap (peer_spec fetched) = None \<or> (\<exists>b. ps_Bootstrap (peer_spec fetched) = Some b \<and> Static b = None)) \<and>
        GetPVC (key_of (peer_meta fetched)) (Inr pvc) \<in> set tr \<and>
        GetReplicaSet (key_of (peer_meta fetched)) (Inl NotFound) \<in> set tr))"
    by (rule emits_mono [OF Peer_Reconcile_panics])
      (auto simp: unbootstrapped_def wants_replica_set_def split: option.splits; blast)
qed (simp add: EtcdPeer_ValidateCreate_def Let_def)

text \<open>For example, on a server that has just such a peer, the first pass creates its claim and the second one panics.\<close>

definition bare_peer :: EtcdPeer where
  "bare_peer = (sample_peer ''c-0'')\<lparr>peer_spec := (peer_spec (sample_peer ''c-0''))\<lparr>ps_Bootstrap := None\<rparr>\<rparr>"

lemma bare_peer_panics:
  "let pass = Peer_Reconcile std_lib sample_semver mem_client mem_etcd ''etcd'' (key_of (sample_meta ''c-0''));
       (first, w) = run_state pass (mem_world [OPeer bare_peer] None)
   in first = Return (requeueTenSeconds, None) \<and> fst (run_state pass w) = Panic"
  by code_simp

text \<open>C33: the ReplicaSet and the claim of a peer fit together: one replica, a selector equal to the labels of
  its pods, the name and namespace of the peer, and a data volume, mounted at the data directory of
  the etcd process, that is the claim built for the same peer.\<close>

theorem replica_set_uses_claim:
  assumes "defineReplicaSet l peer repo = Return rs" "pvcForPeer peer = Return pvc"
  shows "rs_Replicas rs = Some 1 \<and> rs_Selector rs = Labels (pt_meta (rs_Template rs)) \<and>
     key_of (rs_meta rs) = key_of (peer_meta peer) \<and> key_of (pvc_meta pvc) = key_of (peer_meta peer) \<and>
     Namespace (pt_meta (rs_Template rs)) = Namespace (pvc_meta pvc) \<and>
     (\<exists>container vol mount. ps_Containers (pt_spec (rs_Template rs)) = [container] \<and>
        ps_Volumes (pt_spec (rs_Template rs)) = [vol] \<and> c_VolumeMounts container = [mount] \<and>
        vol_Source vol = PersistentVolumeClaimSource (Name (pvc_meta pvc)) \<and> vm_Name mount = vol_Name vol \<and>
        \<not> vm_ReadOnly mount \<and> env EnvDataDir (vm_MountPath mount) \<in> set (c_Env container))"
  using assms
  by (auto simp: defineReplicaSet_def pvcForPeer_def key_of_def etcdContainer_def Let_def split: option.splits)

theorem replica_set_uses_claim_witness:
  "\<exists>rs pvc. defineReplicaSet std_lib (sample_peer ''c-0'') ''etcd'' = Return rs \<and>
     pvcForPeer (sample_peer ''c-0'') = Return pvc \<and> rs_Selector rs = Labels (pt_meta (rs_Template rs))"
proof -
  have "defineReplicaSet std_lib (sample_peer ''c-0'') ''etcd'' \<noteq> Panic"
    by (simp add: defineReplicaSet_Panic sample_peer_def)
  then obtain rs where rs: "defineReplicaSet std_lib (sample_peer ''c-0'') ''etcd'' = Return rs"
    by (cases "defineReplicaSet std_lib (sample_peer ''c-0'') ''etcd''") auto
  obtain pvc where pvc: "pvcForPeer (sample_peer ''c-0'') = Return pvc"
    by (simp add: pvcForPeer_def sample_peer_def sample_storage_def)
  show ?thesis using rs pvc replica_set_uses_claim [OF rs pvc] by blast
qed

text \<open>The annotations stamped on a pod are exactly the user's, first value first, without the reserved
  names; an annotation already present keeps its value.\<close>

lemma stamped_annotations:
  "map_of (stampAnnotations user start) k =
     (case map_of start k of
        Some v \<Rightarrow> Some v
      | None \<Rightarrow> if HasPrefix k ''etcd.improbable.io/'' then None else map_of user k)"
  by (simp add: map_of_stampAnnotations IsInvalidUserProvidedAnnotationName_def)

text \<open>C34: GOMAXPROCS is set exactly for a positive CPU limit; it is at least one, and for a limit of one
  core or more it is the largest number of whole cores within the limit.\<close>

theorem go_max_procs_bounds:
  assumes "Sign q = sgn (MilliValue q)"
  shows "case goMaxProcs q of
      None \<Rightarrow> MilliValue q \<le> 0
    | Some n \<Rightarrow> 0 < MilliValue q \<and> 1 \<le> n \<and> MilliValue q < (n + 1) * 1000 \<and> (n * 1000 \<le> MilliValue q \<or> n = 1)"
proof (cases "MilliValue q \<le> 0")
  case True
  then have "sgn (MilliValue q) = -1 \<or> sgn (MilliValue q) = 0" by (simp add: sgn_if)
  with True assms show ?thesis by (simp add: goMaxProcs_def)
next
  case False
  then have "quot (MilliValue q) 1000 = MilliValue q div 1000" by (intro quot_pos) simp_all
  with False assms show ?thesis by (auto simp: goMaxProcs_def Let_def)
qed

theorem go_max_procs_bounds_witness:
  "goMaxProcs \<lparr>Sign = 1, MilliValue = 2500\<rparr> = Some 2 \<and>
   (case goMaxProcs \<lparr>Sign = 1, MilliValue = 2500\<rparr> of
      None \<Rightarrow> False
    | Some n \<Rightarrow> 1 \<le> n \<and> 2500 < (n + 1) * 1000)"
  using go_max_procs_bounds [where q = "\<lparr>Sign = 1, MilliValue = 2500\<rparr>"]
  by (simp add: goMaxProcs_def quot_def)

text \<open>C35: the value of ETCD_INITIAL_CLUSTER reads back as the bootstrap it was built from: the names in
  order, each with the peer URL of its host.\<close>

theorem initial_cluster_roundtrip:
  assumes "InitialCluster static \<noteq> []"
    and "\<forall>m \<in> set (InitialCluster static). list_all host_char (icm_Host m) \<and>
      CHR '','' \<notin> set (icm_Name m) \<and> CHR ''='' \<notin> set (icm_Name m)"
  shows "parseInitialCluster (staticBootstrapInitialCluster static) =
    map (\<lambda>m. (icm_Name m, ''http://'' @ icm_Host m @ '':2380'')) (InitialCluster static)"
proof -
  have "decimal etcdPeerPort = ''2380''" by code_simp
  then have "String (initialMemberURL m) = ''http://'' @ icm_Host m @ '':2380''"
    if "m \<in> set (InitialCluster static)" for m
    using assms(2) that by (simp add: String_initialMemberURL)
  then show ?thesis by (simp add: parseInitialCluster_static [OF assms])
qed

theorem initial_cluster_roundtrip_witness:
  "parseInitialCluster (staticBootstrapInitialCluster
     \<lparr>InitialCluster = [\<lparr>icm_Name = ''c-0'', icm_Host = ''c-0.c''\<rparr>, \<lparr>icm_Name = ''c-1'', icm_Host = ''c-1.c''\<rparr>]\<rparr>) =
   [(''c-0'', ''http://c-0.c:2380''), (''c-1'', ''http://c-1.c:2380'')]"
proof -
  have "list_all host_char ''c-0.c'' \<and> list_all host_char ''c-1.c''" by code_simp
  then show ?thesis by (subst initial_cluster_roundtrip) simp_all
qed

text \<open>The claim made for a peer wakes that peer, and no other, when it changes.\<close>

lemma claim_wakes_its_peer:
  assumes "pvcForPeer peer = Return pvc"
  shows "pvcMapper_Map (pvc_meta pvc) = [key_of (peer_meta peer)]"
  using assms
  by (auto simp: pvcForPeer_def pvcMapper_Map_def peerLabels_def key_of_def label_defs split: option.splits)

end
