(* ===== verification/PeerRefines.thy ===== *)
theory PeerRefines
  imports ClusterRefines PeerProps
begin

text \<open>
  The EtcdPeer handler takes the steps that the plan leaves to the world: it reports the versions of
  the servers, and it lets go of peers that are being deleted, once their claims are gone or going.
\<close>

section \<open>The requests of a pass\<close>

text \<open>Dialling the server of a peer, and the version it reports.\<close>

inductive peer_dialled :: "EtcdConfig \<Rightarrow> call list \<Rightarrow> string \<Rightarrow> bool" for cfg where
  no_client: "peer_dialled cfg [EtcdNew cfg (Some err)] []"
| no_answer: "peer_dialled cfg [EtcdNew cfg None, EtcdGetVersion cfg (Inl err)] []"
| answer: "peer_dialled cfg [EtcdNew cfg None, EtcdGetVersion cfg (Inr vs)] (ver_Server vs)"

lemma dialPeer_dialled: "emits (dialPeer e peer) (\<lambda>v tr. peer_dialled (peerEtcdConfig peer) tr v)"
  unfolding dialPeer_def call_defs
  by (intro emits_steps) (auto intro: peer_dialled.intros split: sum.split)

text \<open>
  The steps after that, request by request: for a peer that is being deleted and marked, its claim is
  deleted or its mark removed; for one that is not being deleted, its claim and its ReplicaSet are
  looked up and created.
\<close>

fun builds :: "NamespacedName \<Rightarrow> call \<Rightarrow> bool" where
  "builds k (GetPVC k' a) \<longleftrightarrow> k' = k"
| "builds k (Create (OPVC c) a) \<longleftrightarrow> key_of (pvc_meta c) = k"
| "builds k (GetReplicaSet k' a) \<longleftrightarrow> k' = k"
| "builds k (Create (OReplicaSet rs) a) \<longleftrightarrow> True"
| "builds k _ \<longleftrightarrow> False"

inductive peer_steps :: "lib \<Rightarrow> EtcdPeer \<Rightarrow> call list \<Rightarrow> bool" for l peer where
  leaving: "DeletionTimestamp (peer_meta peer) = Some t \<Longrightarrow> \<not> hasPvcDeletionFinalizer peer \<Longrightarrow> peer_steps l peer []"
| no_template: "pvcForPeer peer = Panic \<Longrightarrow> peer_steps l peer []"
| drop_claim: "DeletionTimestamp (peer_meta peer) = Some t \<Longrightarrow> hasPvcDeletionFinalizer peer \<Longrightarrow>
    DeletionTimestamp (pvc_meta actual) = None \<Longrightarrow> key_of (pvc_meta pvc) = key_of (peer_meta peer) \<Longrightarrow>
    peer_steps l peer [GetPVC (key_of (peer_meta peer)) (Inr actual), Delete (OPVC pvc) e]"
| unmark: "DeletionTimestamp (peer_meta peer) = Some t \<Longrightarrow> hasPvcDeletionFinalizer peer \<Longrightarrow>
    a = Inl NotFound \<or> (\<exists>actual t'. a = Inr actual \<and> DeletionTimestamp (pvc_meta actual) = Some t') \<Longrightarrow>
    peer_steps l peer [GetPVC (key_of (peer_meta peer)) a, Patch (OPeer (removeCleanup l peer)) (OPeer peer) e]"
| unknown: "DeletionTimestamp (peer_meta peer) = Some t \<Longrightarrow> err \<noteq> NotFound \<Longrightarrow>
    peer_steps l peer [GetPVC (key_of (peer_meta peer)) (Inl err)]"
| building: "DeletionTimestamp (peer_meta peer) = None \<Longrightarrow> list_all (builds (key_of (peer_meta peer))) tr \<Longrightarrow>
    peer_steps l peer tr"

lemma reconcilePeer_steps: "emits (reconcilePeer l cl repo peer) (\<lambda>out tr. peer_steps l peer tr)"
proof (cases "DeletionTimestamp (peer_meta peer)")
  case (Some t)
  then show ?thesis
    unfolding reconcilePeer_def
    by (auto intro!: emits_return emits_bind [OF PeerPVCDeleter_Execute_emits] simp: Let_def)
      (simp_all add: peer_steps.leaving peer_steps.no_template peer_steps.drop_claim peer_steps.unmark peer_steps.unknown pvcForPeer_key)
next
  case None
  then show ?thesis
    unfolding reconcilePeer_def call_defs
    by (auto intro!: emits_return emits_bind_call emits_bind [OF maybeCreatePvc_emits]
        emits_case_sum emits_if emits_case_outcome peer_steps.building simp: Let_def pvcForPeer_key)
qed

inductive peer_trace :: "lib \<Rightarrow> semver \<Rightarrow> NamespacedName \<Rightarrow> call list \<Rightarrow> bool" for l sv k where
  gone: "peer_trace l sv k [GetPeer k (Inl err)]"
| invalid: "EtcdPeer_ValidateCreate sv fetched \<noteq> None \<Longrightarrow> peer_trace l sv k [GetPeer k (Inr fetched)]"
| full: "EtcdPeer_ValidateCreate sv fetched = None \<Longrightarrow> original = EtcdPeer_Default fetched \<Longrightarrow>
    peer_dialled (peerEtcdConfig original) dial ver \<Longrightarrow> peer = Peer_updateStatus original ver \<Longrightarrow>
    peer_steps l peer steps \<Longrightarrow>
    pat = [] \<and> ver = ServerVersion (peer_status original) \<or>
    (\<exists>a. pat = [StatusPatch (OPeer peer) (OPeer original) a]) \<and> ver \<noteq> ServerVersion (peer_status original) \<Longrightarrow>
    peer_trace l sv k (GetPeer k (Inr fetched) # dial @ steps @ pat)"

lemma Peer_Reconcile_trace: "emits (Peer_Reconcile l sv cl e repo k) (\<lambda>out tr. peer_trace l sv k tr)"
  unfolding Peer_Reconcile_def get_Peer_def
proof (rule emits_bind_call, rule emits_case_sum, goal_cases)
  case (1 r err)
  then show ?case by (auto intro!: emits_return peer_trace.gone)
next
  case (2 r fetched)
  show ?case unfolding Let_def 2
  proof (rule emits_case_option, goal_cases)
    case (2 err)
    then show ?case by (auto intro!: emits_return peer_trace.invalid simp: peer_admission.ValidateCreate_Default)
  next
    case 1
    then have valid: "EtcdPeer_ValidateCreate sv fetched = None"
      by (simp add: peer_admission.ValidateCreate_Default)
    have status: "peer_status fetched = peer_status (Peer_updateStatus (EtcdPeer_Default fetched) v) \<longleftrightarrow>
        v = ServerVersion (peer_status fetched)" for v
      by (cases "peer_status fetched") (auto simp: Peer_updateStatus_def)
    show ?case
      by (rule emits_bind [OF dialPeer_dialled], rule emits_bind [OF reconcilePeer_steps],
          rule emits_mono [OF patchPeerStatus_emits])
        (auto simp: status intro!: peer_trace.full [OF valid refl _ refl, simplified append.simps append_assoc])
  qed
qed

lemma Peer_Reconcile_tracks:
  assumes "lawful cl e req good view"
  shows "tracks (served req) good view (Peer_Reconcile l sv cl e repo k)"
  unfolding Peer_Reconcile_def dialPeer_def reconcilePeer_def maybeCreatePvc_def PeerPVCDeleter_Execute_def patchPeerStatus_def
  by (intro tracks_steps lawful_calls [OF assms])

section \<open>What the requests do\<close>

text \<open>The peer that a pass works on differs from the stored one in defaults and in its status only.\<close>

definition same_peer :: "EtcdPeer \<Rightarrow> EtcdPeer \<Rightarrow> bool" where
  "same_peer q p \<longleftrightarrow> peer_meta p = peer_meta q \<and> peer_Cluster p = peer_Cluster q"

lemma same_peer_working: "same_peer q (EtcdPeer_Default q)" "same_peer q (Peer_updateStatus (EtcdPeer_Default q) v)"
  by (simp_all add: same_peer_def EtcdPeer_Default_def Peer_updateStatus_def)

lemma same_peerD:
  assumes "same_peer q p"
  shows "peer_meta p = peer_meta q" "peer_of v p = peer_of v q" "hasPvcDeletionFinalizer p = hasPvcDeletionFinalizer q"
    "peerEtcdConfig p = peerEtcdConfig q"
  using assms by (simp_all add: same_peer_def peer_of_def hasPvcDeletionFinalizer_def peerEtcdConfig_def)

lemma removeCleanup_finalizers:
  "removeCleanup l p = put_finalizers (RemoveFinalizer l (Finalizers (peer_meta p)) pvcCleanupFinalizer) p"
  by (simp add: removeCleanup_def put_finalizers_def)

text \<open>Only the claim of one key changes.\<close>

definition touches :: "NamespacedName \<Rightarrow> cview \<Rightarrow> cview \<Rightarrow> bool" where
  "touches k v v' \<longleftrightarrow> (\<exists>d. v' = v\<lparr>cv_claims := (cv_claims v)(k := d)\<rparr>)"

lemma touches_refl: "touches k v v"
  unfolding touches_def by (rule exI [of _ "cv_claims v k"]) simp

lemma touches_update: "touches k v (v\<lparr>cv_claims := (cv_claims v)(k := d)\<rparr>)"
  by (auto simp: touches_def)

lemma touches_frame:
  assumes "touches k v v'"
  shows "cv_peers v' = cv_peers v" "abs_view v' = abs_view v" "cv_cluster v' = cv_cluster v" "cv_contact v' = cv_contact v"
    "peer_of v' = peer_of v" "k' \<noteq> k \<Longrightarrow> cv_claims v' k' = cv_claims v k'"
  using assms by (auto simp: touches_def abs_view_def peer_of_def intro!: ext)

lemma touches_trans: "touches k v u \<Longrightarrow> touches k u v' \<Longrightarrow> touches k v v'"
  unfolding touches_def by auto

lemma builds_touches:
  assumes "path (served req) tr v v'" "list_all (builds k) tr"
  shows "touches k v v'"
  using assms
proof (induction tr arbitrary: v)
  case (Cons x tr)
  then obtain u where u: "served req x v u" "path (served req) tr u v'" "builds k x" "list_all (builds k) tr" by auto
  have "touches k v u"
    using u(1,3) touches_refl [of k v] by (cases "(k, x)" rule: builds.cases) (auto intro: touches_update)
  then show ?case using Cons.IH [OF u(2,4)] touches_trans by blast
qed (simp add: touches_refl)

text \<open>The claim of a peer is gone, or it is being deleted.\<close>

abbreviation live :: "cview \<Rightarrow> NamespacedName \<Rightarrow> bool" where
  "live v k \<equiv> cv_claims v k = Some False"

inductive step_effect :: "lib \<Rightarrow> EtcdPeer \<Rightarrow> cview \<Rightarrow> cview \<Rightarrow> bool" for l q v where
  touched: "touches (key_of (peer_meta q)) v v' \<Longrightarrow>
    DeletionTimestamp (peer_meta q) \<noteq> None \<longrightarrow> live v' (key_of (peer_meta q)) \<longrightarrow> live v (key_of (peer_meta q)) \<Longrightarrow>
    step_effect l q v v'"
| unmarked: "DeletionTimestamp (peer_meta q) \<noteq> None \<Longrightarrow> hasPvcDeletionFinalizer q \<Longrightarrow> \<not> live v (key_of (peer_meta q)) \<Longrightarrow>
    step_effect l q v (swap_peer q (put_finalizers (RemoveFinalizer l (Finalizers (peer_meta q)) pvcCleanupFinalizer) q) v)"
| released: "DeletionTimestamp (peer_meta q) \<noteq> None \<Longrightarrow> hasPvcDeletionFinalizer q \<Longrightarrow> \<not> live v (key_of (peer_meta q)) \<Longrightarrow>
    step_effect l q v (v\<lparr>cv_peers := cv_peers v - {#q#}\<rparr>)"

lemma peer_steps_foreign:
  assumes "peer_steps l p tr" "path (served req) tr v v'" "same_peer q p" "\<not> peer_of v q"
  shows "touches (key_of (peer_meta q)) v v'"
  using assms(1)
proof cases
  case (building)
  then show ?thesis using builds_touches [OF assms(2)] same_peerD(1) [OF assms(3)] by simp
qed (use assms(2-4) in \<open>auto simp: same_peerD removeCleanup_finalizers intro: touches_refl touches_update\<close>)

lemma peer_steps_effect:
  assumes steps: "peer_steps l p tr" and path: "path (served req) tr v v'" and same: "same_peer q p" and q: "q \<in># cv_peers v"
    and ok: "view_ok v"
  shows "step_effect l q v v'"
  using steps
proof cases
  case (building)
  then show ?thesis using builds_touches [OF path] same_peerD(1) [OF same] by (intro touched) simp_all
next
  case (drop_claim t actual pvc e)
  with path same_peerD(1) [OF same] show ?thesis
    by (intro touched) (auto intro: touches_refl touches_update)
next
  case (unmark t a e)
  let ?fs = "RemoveFinalizer l (Finalizers (peer_meta q)) pvcCleanupFinalizer" and ?k = "key_of (peer_meta q)"
  note meta = same_peerD(1) [OF same]
  from path obtain u where u: "served req (GetPVC ?k a) v u" "served req (Patch (OPeer (removeCleanup l p)) (OPeer p) e) u v'"
    unfolding unmark(1) meta path.simps by blast
  have v: "u = v" "\<not> live v ?k" using u(1) unmark(4) by auto
  have "peer_of v p" using ok q same_peerD(2) [OF same] by (auto simp: view_ok_def)
  moreover have "removeCleanup l p = put_finalizers ?fs p" by (simp add: removeCleanup_finalizers meta)
  ultimately consider "v' = v" | x where "x \<in># cv_peers v" "key_of (peer_meta x) = ?k"
      "v' = v\<lparr>cv_peers := cv_peers v - {#x#}\<rparr> \<or> v' = swap_peer x (put_finalizers ?fs x) v"
    using u(2) unfolding v(1) served.simps meta by metis
  then show ?thesis
  proof cases
    case 1
    then show ?thesis by (simp add: touched touches_refl)
  next
    case (2 x)
    have "x = q" using view_ok_unique(1) [OF ok 2(1) q] key_of_name [OF 2(2)] by simp
    with 2(3) unmark(2,3) v(2) meta same_peerD(3) [OF same] show ?thesis by (auto intro: unmarked released)
  qed
qed (use path in \<open>auto intro!: touched touches_refl\<close>)

section \<open>What a pass does\<close>

lemma effect_peer:
  assumes e: "step_effect l q v u" and ok: "view_ok v" and q: "q \<in># cv_peers v"
    and x: "x \<in># cv_peers u" "key_of (peer_meta x) = key_of (peer_meta q)"
  shows "peer_status x = peer_status q \<and> peer_spec x = peer_spec q"
proof -
  have uniq: "y = q" if "y \<in># cv_peers v" "peer_Name y = peer_Name q" for y using view_ok_unique(1) [OF ok that(1) q that(2)] .
  have "peer_Name y \<noteq> peer_Name q" if "y \<in># cv_peers v - {#q#}" for y
    using ok q that uniq_add [of peer_Name q "cv_peers v - {#q#}"] by (metis imageI insert_DiffM view_ok_def)
  with e show ?thesis
    using x key_of_name [OF x(2)] uniq by cases (auto simp: touches_frame swap_peer_def put_finalizers_def)
qed

lemma peer_trace_cases:
  assumes trace: "peer_trace l sv k tr" and path: "path (served req) tr v v'" and ok: "view_ok v"
  obtains
    (other) "touches k v v'" "v' = v \<or> (\<forall>q \<in># cv_peers v. key_of (peer_meta q) \<noteq> k)"
      "(\<exists>err. err \<noteq> NotFound \<and> GetPeer k (Inl err) \<in> set tr) \<or>
       (\<forall>q \<in># cv_peers v. key_of (peer_meta q) = k \<longrightarrow> EtcdPeer_ValidateCreate sv q \<noteq> None)"
  | (own) q dial ver u steps where "q \<in># cv_peers v" "key_of (peer_meta q) = k" "set dial \<subseteq> set tr" "set steps \<subseteq> set tr"
      "peer_dialled (peerEtcdConfig q) dial ver" "peer_steps l (Peer_updateStatus (EtcdPeer_Default q) ver) steps"
      "path (served req) steps v u" "step_effect l q v u"
      "v' = u \<and> (ver = ServerVersion (peer_status q) \<or> (\<exists>new old e. StatusPatch new old (Some e) \<in> set tr)) \<or>
       ver \<noteq> ServerVersion (peer_status q) \<and> (\<exists>x \<in># cv_peers u. key_of (peer_meta x) = k \<and>
         v' = swap_peer x (x\<lparr>peer_status := (peer_status q)\<lparr>ServerVersion := ver\<rparr>\<rparr>) u)"
  using trace
proof cases
  case (gone err)
  then show thesis using path by (intro other) (auto simp: touches_refl)
next
  case (invalid fetched)
  then show thesis using path by (intro other) (auto simp: touches_refl)
next
  case (full fetched original dial ver p steps pat)
  from path obtain u0 u1 u where u: "served req (GetPeer k (Inr fetched)) v u0" "path (served req) dial u0 u1" "path (served req) steps u1 u" "path (served req) pat u v'"
    unfolding full(1) path.simps path_append by blast
  have v: "u0 = v" "u1 = v" "key_of (peer_meta fetched) = k" using u(1,2) full(4) by (auto elim: peer_dialled.cases)
  have p: "p = Peer_updateStatus (EtcdPeer_Default fetched) ver" using full(3,5) by simp
  note same = same_peer_working(1) [of fetched] same_peer_working(2) [of fetched ver, folded p]
  have sets: "set dial \<subseteq> set tr" "set steps \<subseteq> set tr" "set pat \<subseteq> set tr" by (auto simp: full(1))
  show thesis
  proof (cases "peer_of v fetched")
    case True
    then have q: "fetched \<in># cv_peers v" using u(1) v(1) by auto
    note e = peer_steps_effect [OF full(6) u(3) [unfolded v(2)] same(2) q ok]
    have of: "peer_of u fetched"
      using e True by cases (auto simp: touches_frame peer_of_def swap_peer_def)
    have status: "peer_status p = (peer_status fetched)\<lparr>ServerVersion := ver\<rparr>" by (simp add: p Peer_updateStatus_def)
    show thesis
    proof (rule own [OF q v(3) sets(1,2) _ full(6) [unfolded p] u(3) [unfolded v(2)] e])
      show "peer_dialled (peerEtcdConfig fetched) dial ver" using full(3,4) same_peerD(4) [OF same(1)] by simp
      show "v' = u \<and> (ver = ServerVersion (peer_status fetched) \<or> (\<exists>new old e. StatusPatch new old (Some e) \<in> set tr)) \<or>
          ver \<noteq> ServerVersion (peer_status fetched) \<and> (\<exists>x \<in># cv_peers u. key_of (peer_meta x) = k \<and>
            v' = swap_peer x (x\<lparr>peer_status := (peer_status fetched)\<lparr>ServerVersion := ver\<rparr>\<rparr>) u)"
        using full(7)
      proof (elim disjE conjE exE)
        assume "pat = []" "ver = ServerVersion (peer_status original)"
        then show ?thesis using u(4) by (simp add: full(3))
      next
        fix a assume pat: "pat = [StatusPatch (OPeer p) (OPeer original) a]" and ne: "ver \<noteq> ServerVersion (peer_status original)"
        then have "StatusPatch (OPeer p) (OPeer original) a \<in> set tr" using sets(3) by auto
        moreover have "v' = u \<and> a \<noteq> None \<or> (\<exists>x \<in># cv_peers u. key_of (peer_meta x) = k \<and>
            v' = swap_peer x (x\<lparr>peer_status := (peer_status fetched)\<lparr>ServerVersion := ver\<rparr>\<rparr>) u)"
          using u(4) of v(3) unfolding pat by (simp add: same_peerD(1,2) [OF same(1), folded full(3)] status)
        ultimately show ?thesis using ne full(3) by (cases a) auto
      qed
    qed
  next
    case False
    note t = peer_steps_foreign [OF full(6) u(3) [unfolded v(2)] same(2) False]
    have "v' = u" using u(4) full(3,7) False touches_frame(5) [OF t] same_peerD(2) [OF same(1)] by auto
    moreover have "\<forall>q \<in># cv_peers v. key_of (peer_meta q) \<noteq> k"
      using u(1) v(1) False ok by (auto simp: view_ok_def)
    ultimately show thesis using t v(3) by (intro other) auto
  qed
qed

section \<open>A pass takes steps of the world\<close>

text \<open>
  Servers are honest if they report the version they were asked to run, and if one that has reported
  before answers: after a failed dial the handler writes an empty version, and a run with honest
  servers has no such pass for a peer that reported before.
\<close>

fun honest :: "cview \<Rightarrow> call \<Rightarrow> bool" where
  "honest v (EtcdNew cfg a) \<longleftrightarrow>
     (\<forall>q \<in># cv_peers v. peerEtcdConfig q = cfg \<longrightarrow> a \<noteq> None \<longrightarrow> ServerVersion (peer_status q) = [])"
| "honest v (EtcdGetVersion cfg a) \<longleftrightarrow>
     (\<forall>q \<in># cv_peers v. peerEtcdConfig q = cfg \<longrightarrow>
        (case a of Inl _ \<Rightarrow> ServerVersion (peer_status q) = [] | Inr vs \<Rightarrow> ver_Server vs = ps_Version (peer_spec q)))"
| "honest v _ \<longleftrightarrow> True"

lemma honest_version:
  assumes "peer_dialled (peerEtcdConfig q) dial ver" "list_all (honest v) dial" "q \<in># cv_peers v"
  shows "ver = ServerVersion (peer_status q) \<or> ver = ps_Version (peer_spec q)"
  using assms by cases auto

text \<open>Servers are truthful if those that answer report the version they were asked to run; they may fail to answer.\<close>

fun truthful :: "cview \<Rightarrow> call \<Rightarrow> bool" where
  "truthful v (EtcdGetVersion cfg a) \<longleftrightarrow>
     (\<forall>q \<in># cv_peers v. peerEtcdConfig q = cfg \<longrightarrow>
        (case a of Inl _ \<Rightarrow> True | Inr vs \<Rightarrow> ver_Server vs = ps_Version (peer_spec q)))"
| "truthful v _ \<longleftrightarrow> True"

lemma truthful_version:
  assumes "peer_dialled (peerEtcdConfig q) dial ver" "list_all (truthful v) dial" "q \<in># cv_peers v"
  shows "ver = [] \<or> ver = ps_Version (peer_spec q)"
  using assms by cases auto

text \<open>What a step does to the plan and to the claims.\<close>

definition keeps_claims :: "cview \<Rightarrow> cview \<Rightarrow> bool" where
  "keeps_claims v v' \<longleftrightarrow> (\<forall>q \<in># cv_peers v. DeletionTimestamp (peer_meta q) \<noteq> None \<longrightarrow>
     live v' (key_of (peer_meta q)) \<longrightarrow> live v (key_of (peer_meta q)))"

lemma unmark_world:
  assumes "q \<in># cv_peers v" "lib_ok l" "DeletionTimestamp (peer_meta q) \<noteq> None" "hasPvcDeletionFinalizer q"
  shows "world_step (abs_view v)
      (abs_view (swap_peer q (put_finalizers (RemoveFinalizer l (Finalizers (peer_meta q)) pvcCleanupFinalizer) q) v))"
    "world_step (abs_view v) (abs_view (v\<lparr>cv_peers := cv_peers v - {#q#}\<rparr>))"
proof -
  let ?fs = "RemoveFinalizer l (Finalizers (peer_meta q)) pvcCleanupFinalizer"
  have p: "abs_peer q \<in># pl_peers (abs_view v)" "ap_Deleting (abs_peer q)" "ap_Marked (abs_peer q)"
    using assms(3,4) abs_peerI [OF assms(1)] by (simp_all add: abs_peer_def)
  have "abs_peer (put_finalizers ?fs q) = (abs_peer q)\<lparr>ap_Marked := False\<rparr>"
    using lib_okD(3) [OF assms(2)] by (simp add: abs_peer_def put_finalizers_def hasPvcDeletionFinalizer_def)
  with world_step.unmark [OF p] show "world_step (abs_view v) (abs_view (swap_peer q (put_finalizers ?fs q) v))"
    by (simp add: abs_swap(1) [OF assms(1)])
  from world_step.release [OF p(1,2)] show "world_step (abs_view v) (abs_view (v\<lparr>cv_peers := cv_peers v - {#q#}\<rparr>))"
    by (simp add: abs_swap(2) [OF assms(1)])
qed

lemma effect_world:
  assumes e: "step_effect l q v u" and q: "q \<in># cv_peers v" and l: "lib_ok l" and ok: "view_ok v"
  shows "cv_cluster u = cv_cluster v" "cv_contact u = cv_contact v" "keeps_claims v u"
    "abs_view u = abs_view v \<or> world_step (abs_view v) (abs_view u)"
proof -
  show "cv_cluster u = cv_cluster v" "cv_contact u = cv_contact v"
    using e by (cases; simp add: touches_frame swap_peer_def)+
  show "keeps_claims v u"
    unfolding keeps_claims_def
  proof (intro ballI impI)
    fix x assume x: "x \<in># cv_peers v" "DeletionTimestamp (peer_meta x) \<noteq> None" "live u (key_of (peer_meta x))"
    show "live v (key_of (peer_meta x))"
    proof (cases "key_of (peer_meta x) = key_of (peer_meta q)")
      case True
      then have "x = q" using view_ok_unique(1) [OF ok x(1) q] key_of_name by blast
      with e x show ?thesis by (cases) (auto simp: swap_peer_def)
    next
      case False
      with e x(3) show ?thesis by (cases) (auto simp: touches_frame(6) swap_peer_def)
    qed
  qed
  show "abs_view u = abs_view v \<or> world_step (abs_view v) (abs_view u)"
    using e by cases (use unmark_world [OF q l] in \<open>auto simp: touches_frame\<close>)
qed

lemma reported_world:
  assumes "step_effect l q v u" "view_ok v" "q \<in># cv_peers v"
    and x: "x \<in># cv_peers u" "key_of (peer_meta x) = key_of (peer_meta q)" "ver \<noteq> ServerVersion (peer_status q)"
    and "ver = ServerVersion (peer_status q) \<or> ver = ps_Version (peer_spec q)"
  shows "world_step (abs_view u) (abs_view (swap_peer x (x\<lparr>peer_status := (peer_status q)\<lparr>ServerVersion := ver\<rparr>\<rparr>) u))"
proof -
  have "abs_peer (x\<lparr>peer_status := (peer_status q)\<lparr>ServerVersion := ver\<rparr>\<rparr>) = (abs_peer x)\<lparr>ap_Server := ap_Version (abs_peer x)\<rparr>"
    "ap_Server (abs_peer x) \<noteq> ap_Version (abs_peer x)"
    using x(3) assms(7) effect_peer [OF assms(1-3) x(1,2)] by (simp_all add: abs_peer_def hasPvcDeletionFinalizer_def)
  then show ?thesis using world_step.report [OF abs_peerI [OF x(1)]] by (simp add: abs_swap(1) [OF x(1)])
qed

lemma peer_pass_world:
  assumes trace: "peer_trace l sv k tr" and path: "path (served req) tr v v'" and ok: "view_ok v" and l: "lib_ok l"
    and h: "list_all (honest v) tr"
  shows "cv_cluster v' = cv_cluster v \<and> cv_contact v' = cv_contact v \<and> keeps_claims v v' \<and>
    world_step\<^sup>*\<^sup>* (abs_view v) (abs_view v')"
  using trace path ok
proof (cases rule: peer_trace_cases)
  case other
  have "keeps_claims v v'"
    using other(2) touches_frame(6) [OF other(1)] unfolding keeps_claims_def by (cases "v' = v") auto
  then show ?thesis by (simp add: touches_frame [OF other(1)])
next
  case (own q dial ver u steps)
  note e = effect_world [OF own(8,1) l ok]
  have steps: "world_step\<^sup>*\<^sup>* (abs_view v) (abs_view u)" using e(4) by auto
  from own(9) consider "v' = u" | x where "ver \<noteq> ServerVersion (peer_status q)" "x \<in># cv_peers u" "key_of (peer_meta x) = k"
      "v' = swap_peer x (x\<lparr>peer_status := (peer_status q)\<lparr>ServerVersion := ver\<rparr>\<rparr>) u" by blast
  then show ?thesis
  proof cases
    case 1
    then show ?thesis using e(1-3) steps by simp
  next
    case (2 x)
    have "list_all (honest v) dial" using h own(3) by (auto simp: list_all_iff)
    from reported_world [OF own(8) ok own(1) 2(2) _ 2(1) honest_version [OF own(5) this own(1)]] 2(3) own(2)
    have "world_step (abs_view u) (abs_view v')" by (simp add: 2(4))
    moreover have "keeps_claims v v'" using e(3) by (simp add: 2(4) keeps_claims_def swap_peer_def)
    ultimately show ?thesis using steps e(1,2) by (simp add: 2(4) swap_peer_def)
  qed
qed

text \<open>
  A pass on servers that may fail to answer: it takes steps of the world, or it lets go of its peer
  and then reports that nothing answered.
\<close>

lemma effect_runs:
  assumes e: "step_effect l q v u" and q: "q \<in># cv_peers v"
  shows "pl_members (abs_view u) = pl_members (abs_view v)" "runs (abs_view u) m \<Longrightarrow> runs (abs_view v) m"
proof -
  show "pl_members (abs_view u) = pl_members (abs_view v)"
    using e by cases (use q in \<open>auto simp: touches_frame abs_swap\<close>)
  assume r: "runs (abs_view u) m"
  show "runs (abs_view v) m"
    using e
  proof cases
    case touched
    with r show ?thesis by (simp add: touches_frame)
  qed (use q r abs_peerI [OF q] in \<open>auto simp: abs_swap runs_def abs_peer_def put_finalizers_def dest!: in_put(3) in_drop(2)\<close>)
qed

lemma peer_pass_truthful:
  assumes trace: "peer_trace l sv k tr" and path: "path (served req) tr v v'" and ok: "view_ok v" and l: "lib_ok l"
    and h: "list_all (truthful v) tr"
  shows "cv_cluster v' = cv_cluster v \<and>
    (world_step\<^sup>*\<^sup>* (abs_view v) (abs_view v') \<or>
     (\<exists>u. world_step\<^sup>*\<^sup>* (abs_view v) u \<and> pl_members u = pl_members (abs_view v) \<and>
        (\<forall>m. runs u m \<longrightarrow> runs (abs_view v) m) \<and> silence u (abs_view v')))"
  using trace path ok
proof (cases rule: peer_trace_cases)
  case other
  then show ?thesis by (simp add: touches_frame [OF other(1)])
next
  case (own q dial ver u steps)
  note e = effect_world [OF own(8,1) l ok] and runs = effect_runs [OF own(8,1)]
  have steps: "world_step\<^sup>*\<^sup>* (abs_view v) (abs_view u)" using e(4) by auto
  from own(9) consider "v' = u" | x where "ver \<noteq> ServerVersion (peer_status q)" "x \<in># cv_peers u" "key_of (peer_meta x) = k"
      "v' = swap_peer x (x\<lparr>peer_status := (peer_status q)\<lparr>ServerVersion := ver\<rparr>\<rparr>) u" by blast
  then show ?thesis
  proof cases
    case 1
    then show ?thesis using e(1) steps by simp
  next
    case (2 x)
    have cl: "cv_cluster v' = cv_cluster v" using e(1) by (simp add: 2(4) swap_peer_def)
    have "list_all (truthful v) dial" using h own(3) by (auto simp: list_all_iff)
    from truthful_version [OF own(5) this own(1)] show ?thesis
    proof
      assume "ver = []"
      then have "abs_peer (x\<lparr>peer_status := (peer_status q)\<lparr>ServerVersion := ver\<rparr>\<rparr>) = (abs_peer x)\<lparr>ap_Server := []\<rparr>"
        by (simp add: abs_peer_def hasPvcDeletionFinalizer_def)
      with silence [OF abs_peerI [OF 2(2)]] have "silence (abs_view u) (abs_view v')"
        by (simp add: 2(4) abs_swap(1) [OF 2(2)])
      then show ?thesis using cl steps runs by blast
    next
      assume "ver = ps_Version (peer_spec q)"
      with reported_world [OF own(8) ok own(1) 2(2) _ 2(1)] 2(3) own(2)
      have "world_step (abs_view u) (abs_view v')" by (simp add: 2(4))
      with steps cl show ?thesis by (simp add: rtranclp.rtrancl_into_rtrancl)
    qed
  qed
qed

text \<open>An undisturbed pass: everything is answered and no change fails.\<close>

fun peer_answered :: "call \<Rightarrow> bool" where
  "peer_answered (GetPeer k a) \<longleftrightarrow> \<not> isl a \<or> a = Inl NotFound"
| "peer_answered (GetPVC k a) \<longleftrightarrow> \<not> isl a \<or> a = Inl NotFound"
| "peer_answered (EtcdNew cfg a) \<longleftrightarrow> a = None"
| "peer_answered (EtcdGetVersion cfg a) \<longleftrightarrow> \<not> isl a"
| "peer_answered x \<longleftrightarrow> \<not> failed x"

lemma world_steps_order: "world_step\<^sup>*\<^sup>* a b \<Longrightarrow> (b, a) \<in> (plan_order r v)\<^sup>*"
  by (induction rule: rtranclp_induct) (auto dest: world_step_decreases [where r = r and v = v] intro: converse_rtrancl_into_rtrancl)

lemma world_steps_neq: "world_step\<^sup>*\<^sup>* a b \<Longrightarrow> world_step b c \<Longrightarrow> c \<noteq> a"
  using rtrancl_into_trancl2 [OF world_step_decreases world_steps_order] wf_irrefl [OF wf_trancl [OF wf_plan_order]] by blast

lemma peer_steps_progress:
  assumes steps: "peer_steps l p tr" and path: "path (served req) tr v v'" and same: "same_peer q p" and q: "q \<in># cv_peers v"
    and ok: "view_ok v" and l: "lib_ok l" and fine: "list_all peer_answered tr" "pvcForPeer p \<noteq> Panic"
    and del: "DeletionTimestamp (peer_meta q) \<noteq> None" "hasPvcDeletionFinalizer q"
  shows "live v (key_of (peer_meta q)) \<and> \<not> live v' (key_of (peer_meta q)) \<or> world_step (abs_view v) (abs_view v')"
  using steps
proof cases
  case (drop_claim t actual pvc e)
  then show ?thesis using path fine(1) same_peerD(1) [OF same] by auto
next
  case (unmark t a e)
  let ?fs = "RemoveFinalizer l (Finalizers (peer_meta q)) pvcCleanupFinalizer" and ?k = "key_of (peer_meta q)"
  note meta = same_peerD(1) [OF same]
  from path obtain u where u: "served req (GetPVC ?k a) v u" "served req (Patch (OPeer (removeCleanup l p)) (OPeer p) e) u v'"
    unfolding unmark(1) meta path.simps by blast
  have v: "u = v" "e = None" using u(1) fine(1) by (auto simp: unmark(1))
  have "peer_of v p" using ok q same_peerD(2) [OF same] by (auto simp: view_ok_def)
  moreover have "removeCleanup l p = put_finalizers ?fs p" by (simp add: removeCleanup_finalizers meta)
  ultimately obtain x where x: "x \<in># cv_peers v" "key_of (peer_meta x) = ?k"
      "v' = v\<lparr>cv_peers := cv_peers v - {#x#}\<rparr> \<or> v' = swap_peer x (put_finalizers ?fs x) v"
    using u(2) unfolding v served.simps meta by metis
  have "x = q" using view_ok_unique(1) [OF ok x(1) q] key_of_name [OF x(2)] by simp
  with x(3) unmark_world [OF q l del] show ?thesis by auto
qed (use fine del same_peerD [OF same] in auto)

lemma valid_peer_claim:
  assumes "EtcdPeer_ValidateCreate sv q = None"
  shows "pvcForPeer (Peer_updateStatus (EtcdPeer_Default q) ver) \<noteq> Panic"
proof -
  have "valid_storage (ps_Storage (peer_spec (Peer_updateStatus (EtcdPeer_Default q) ver)))"
    using assms by (simp add: EtcdPeer_ValidateCreate_iff Peer_updateStatus_def EtcdPeer_Default_def)
  from pvcForPeer_valid [OF this] show ?thesis by force
qed

text \<open>
  When an undisturbed pass changes nothing that the plan sees, the peer reports its version; and if
  it is being deleted and marked, its claim was still there and has now been deleted.
\<close>

lemma peer_pass_progress:
  assumes trace: "peer_trace l sv k tr" and path: "path (served req) tr v v'" and ok: "view_ok v" and l: "lib_ok l"
    and h: "list_all (honest v) tr" and fine: "list_all peer_answered tr"
    and q: "q \<in># cv_peers v" "key_of (peer_meta q) = k" "EtcdPeer_ValidateCreate sv q = None"
    and same: "abs_view v' = abs_view v"
  shows "ServerVersion (peer_status q) = ps_Version (peer_spec q)"
    "DeletionTimestamp (peer_meta q) \<noteq> None \<Longrightarrow> hasPvcDeletionFinalizer q \<Longrightarrow> live v k \<and> \<not> live v' k"
proof -
  from trace path ok have *: "ServerVersion (peer_status q) = ps_Version (peer_spec q) \<and>
    (DeletionTimestamp (peer_meta q) \<noteq> None \<longrightarrow> hasPvcDeletionFinalizer q \<longrightarrow> live v k \<and> \<not> live v' k)"
  proof (cases rule: peer_trace_cases)
    case other
    then show ?thesis using q fine by (force simp: list_all_iff)
  next
    case (own x dial ver u steps)
    have x: "x = q" using view_ok_unique(1) [OF ok own(1) q(1)] key_of_name own(2) q(2) by metis
    have all: "list_all (honest v) dial" "list_all peer_answered dial" "list_all peer_answered steps"
      using h fine own(3,4) by (auto simp: list_all_iff)
    note hv = honest_version [OF own(5) all(1) own(1)]
    have steps: "world_step\<^sup>*\<^sup>* (abs_view v) (abs_view u)" using effect_world(4) [OF own(8,1) l ok] by auto
    have no_error: "\<not> (\<exists>new old e. StatusPatch new old (Some e) \<in> set tr)" using fine by (auto simp: list_all_iff)
    have "\<not> (\<exists>y \<in># cv_peers u. key_of (peer_meta y) = k \<and> ver \<noteq> ServerVersion (peer_status x) \<and>
        v' = swap_peer y (y\<lparr>peer_status := (peer_status x)\<lparr>ServerVersion := ver\<rparr>\<rparr>) u)"
      using reported_world [OF own(8) ok own(1) _ _ _ hv] own(2) world_steps_neq [OF steps] same by metis
    with own(9) no_error have u: "v' = u" "ver = ServerVersion (peer_status q)" by (auto simp: x)
    have "ver = ps_Version (peer_spec q)"
      using own(5) by cases (use all x own(1) in auto)
    moreover have "live v k \<and> \<not> live v' k" if "DeletionTimestamp (peer_meta q) \<noteq> None" "hasPvcDeletionFinalizer q"
      using peer_steps_progress [OF own(6) [unfolded x] own(7) same_peer_working(2) q(1) ok l all(3) valid_peer_claim [OF q(3)] that]
        q(2) same u(1) world_steps_neq [of "abs_view v" "abs_view v"] by auto
    ultimately show ?thesis using u(2) by simp
  qed
  then show "ServerVersion (peer_status q) = ps_Version (peer_spec q)"
    "DeletionTimestamp (peer_meta q) \<noteq> None \<Longrightarrow> hasPvcDeletionFinalizer q \<Longrightarrow> live v k \<and> \<not> live v' k" by blast+
qed

end
