(* ===== verification/OperatorSystem.thy ===== *)
theory OperatorSystem
  imports ClusterSystem PeerRefines
begin

text \<open>
  Both controllers at work on one server: passes of the EtcdCluster handler and of the EtcdPeer
  handler, on whatever peer, interleaved with the world around them. The peer handler takes the steps
  that the plan leaves open; so the changes end, and they end with the cluster as desired. When servers
  may also fall silent, at most one other member is down at any time. What is left to the world is that servers start and answer, and that
  peers held by someone else are let go.
\<close>

section \<open>Passes of the peer handler\<close>

definition peer_pass_from ::
    "lib \<Rightarrow> semver \<Rightarrow> 'w client \<Rightarrow> 'w etcd_api \<Rightarrow> string \<Rightarrow> NamespacedName \<Rightarrow> 'w \<Rightarrow> 'w world" where
  "peer_pass_from l sv cl e repo k w = snd (run_state (Peer_Reconcile l sv cl e repo k) \<lparr>server = w, trace = []\<rparr>)"

lemma peer_pass_run:
  assumes "lawful cl e req good view" "good w"
  shows "good (server (peer_pass_from l sv cl e repo k w))"
    "path (served req) (trace (peer_pass_from l sv cl e repo k w)) (view w) (view (server (peer_pass_from l sv cl e repo k w)))"
    "peer_trace l sv k (trace (peer_pass_from l sv cl e repo k w))"
proof -
  let ?s = "\<lparr>server = w, trace = []\<rparr>"
  show "good (server (peer_pass_from l sv cl e repo k w))"
    "path (served req) (trace (peer_pass_from l sv cl e repo k w)) (view w) (view (server (peer_pass_from l sv cl e repo k w)))"
    unfolding peer_pass_from_def by (rule tracks_run [OF Peer_Reconcile_tracks [OF assms(1), of l sv repo k] assms(2)])+
  show "peer_trace l sv k (trace (peer_pass_from l sv cl e repo k w))"
    unfolding peer_pass_from_def using emits_run [OF Peer_Reconcile_trace [of l sv cl e repo k], of ?s] by auto
qed

text \<open>Servers are honest throughout a pass.\<close>

definition honest_pass :: "('w \<Rightarrow> cview) \<Rightarrow> 'w \<Rightarrow> 'w world \<Rightarrow> bool" where
  "honest_pass view s p \<longleftrightarrow> list_all (honest (view s)) (trace p)"

section \<open>Both controllers\<close>

inductive acts ::
    "lib \<Rightarrow> semver \<Rightarrow> 'w client \<Rightarrow> 'w etcd_api \<Rightarrow> string \<Rightarrow> NamespacedName \<Rightarrow> ('w \<Rightarrow> bool) \<Rightarrow> ('w \<Rightarrow> cview) \<Rightarrow>
     'w \<Rightarrow> 'w \<Rightarrow> bool"
  for l sv cl e repo req good view where
  cluster: "acts l sv cl e repo req good view s (server (pass_from l sv cl e req s))"
| peer: "honest_pass view s (peer_pass_from l sv cl e repo k s) \<Longrightarrow>
    acts l sv cl e repo req good view s (server (peer_pass_from l sv cl e repo k s))"
| around: "good w \<Longrightarrow> around (view s) (view w) \<Longrightarrow> acts l sv cl e repo req good view s w"

text \<open>An action is steps of the plan, or a bootstrap peer.\<close>

lemma acts_plan:
  assumes law: "lawful cl e req good view" "lib_ok l" and t: "tended good view s" "desired_size (view s) = Some r"
    and m: "acts l sv cl e repo req good view s s'"
  shows "tended good view s' \<and> version_of view s' = version_of view s \<and>
    ((plan_step (nat (sint r)) (version_of view s))\<^sup>*\<^sup>* (plan_of view s) (plan_of view s') \<or>
     \<not> cv_contact (view s) \<and>
     bootstrap_step (nat (sint r)) (version_of view s) (plan_of view s) (plan_of view s'))"
  using m
proof cases
  case cluster
  from moves_plan [OF law t moves.pass, of sv] show ?thesis by (auto simp: cluster)
next
  case (peer k)
  have g: "good s" using t(1) by (simp add: tended_def)
  note run = peer_pass_run [OF law(1) g, where l = l and sv = sv and repo = repo and k = k]
  from peer_pass_world [OF run(3,2) lawful_ok [OF law(1) g] law(2)] peer(2)
  have w: "cv_cluster (view s') = cv_cluster (view s)" "world_step\<^sup>*\<^sup>* (plan_of view s) (plan_of view s')"
    by (simp_all add: peer(1) honest_pass_def)
  have "(plan_step (nat (sint r)) (version_of view s))\<^sup>*\<^sup>* (plan_of view s) (plan_of view s')"
    using w(2) by (rule rtranclp_mono [THEN predicate2D, rotated]) (auto simp: plan_step_def)
  with run(1) t w(1) show ?thesis by (simp add: peer(1) tended_def desired_size_def)
next
  case around
  then have "moves l sv cl e req good view s s'" by (rule moves.around)
  from moves_plan [OF law t this] show ?thesis by auto
qed

lemma plan_steps_order: "(plan_step r v)\<^sup>*\<^sup>* a b \<Longrightarrow> b = a \<or> (b, a) \<in> (plan_order r v)\<^sup>+"
  by (induction rule: rtranclp_induct) (auto dest: plan_step_decreases intro: trancl_into_trancl2)

section \<open>Servers that may fail to answer\<close>

text \<open>
  The same actions, though any server may fail to answer a pass of the peer handler, also one that
  has reported before: the handler then writes that nothing is reported. A run keeps the names of the
  members whose servers have fallen silent in this way.
\<close>

definition truthful_pass :: "('w \<Rightarrow> cview) \<Rightarrow> 'w \<Rightarrow> 'w world \<Rightarrow> bool" where
  "truthful_pass view s p \<longleftrightarrow> list_all (truthful (view s)) (trace p)"

inductive attempts ::
    "lib \<Rightarrow> semver \<Rightarrow> 'w client \<Rightarrow> 'w etcd_api \<Rightarrow> string \<Rightarrow> NamespacedName \<Rightarrow> ('w \<Rightarrow> bool) \<Rightarrow> ('w \<Rightarrow> cview) \<Rightarrow>
     'w \<Rightarrow> 'w \<Rightarrow> bool"
  for l sv cl e repo req good view where
  cluster: "attempts l sv cl e repo req good view s (server (pass_from l sv cl e req s))"
| peer: "truthful_pass view s (peer_pass_from l sv cl e repo k s) \<Longrightarrow>
    attempts l sv cl e repo req good view s (server (peer_pass_from l sv cl e repo k s))"
| around: "good w \<Longrightarrow> around (view s) (view w) \<Longrightarrow> attempts l sv cl e repo req good view s w"

inductive attempted ::
    "lib \<Rightarrow> semver \<Rightarrow> 'w client \<Rightarrow> 'w etcd_api \<Rightarrow> string \<Rightarrow> NamespacedName \<Rightarrow> ('w \<Rightarrow> bool) \<Rightarrow> ('w \<Rightarrow> cview) \<Rightarrow>
     'w \<Rightarrow> 'w \<Rightarrow> string set \<Rightarrow> bool"
  for l sv cl e repo req good view w where
  start: "attempted l sv cl e repo req good view w w {}"
| step: "attempted l sv cl e repo req good view w s F \<Longrightarrow> attempts l sv cl e repo req good view s s' \<Longrightarrow>
    attempted l sv cl e repo req good view w s' (unanswered F (plan_of view s) (plan_of view s'))"

text \<open>Honest servers are truthful, so the actions above are among these.\<close>

lemma honest_truthful: "honest v x \<Longrightarrow> truthful v x"
  by (cases x) (auto split: sum.splits)

lemma honest_truthful_pass: "honest_pass view s p \<Longrightarrow> truthful_pass view s p"
  using honest_truthful by (auto simp: honest_pass_def truthful_pass_def list_all_iff)

lemma acts_attempts: "acts l sv cl e repo req good view s s' \<Longrightarrow> attempts l sv cl e repo req good view s s'"
  by (erule acts.cases) (auto intro: attempts.intros honest_truthful_pass)

lemma world_steps_guarded: "world_step\<^sup>*\<^sup>* a b \<Longrightarrow> guarded v F a \<Longrightarrow> guarded v F b"
  by (induction rule: rtranclp_induct) (auto intro: world_step_guarded)

lemma moves_guarded:
  assumes law: "lawful cl e req good view" "lib_ok l" and t: "tended good view s"
    and g: "guarded (version_of view s) F (plan_of view s)" and m: "moves l sv cl e req good view s s'"
  shows "tended good view s' \<and> version_of view s' = version_of view s \<and>
    guarded (version_of view s) (unanswered F (plan_of view s) (plan_of view s')) (plan_of view s')"
proof -
  from t obtain r where r: "desired_size (view s) = Some r" by (auto simp: tended_def)
  from moves_plan [OF law t r m] have plan: "tended good view s' \<and> version_of view s' = version_of view s"
    and "plan_of view s' = plan_of view s \<or> plan_step (nat (sint r)) (version_of view s) (plan_of view s) (plan_of view s') \<or>
      bootstrap_step (nat (sint r)) (version_of view s) (plan_of view s) (plan_of view s')" by blast+
  then have "guarded (version_of view s) F (plan_of view s')"
    using g by (elim conjE disjE) (simp, erule plan_step_guarded, assumption, erule bootstrap_step_guarded, assumption)
  with plan show ?thesis by (simp add: steps_unanswered)
qed

lemma attempts_guarded:
  assumes law: "lawful cl e req good view" "lib_ok l" and t: "tended good view s"
    and g: "guarded (version_of view s) F (plan_of view s)" and m: "attempts l sv cl e repo req good view s s'"
  shows "tended good view s' \<and> version_of view s' = version_of view s \<and>
    guarded (version_of view s) (unanswered F (plan_of view s) (plan_of view s')) (plan_of view s')"
  using m
proof cases
  case cluster
  from moves_guarded [OF law t g moves.pass, of sv] show ?thesis by (simp add: cluster)
next
  case (peer k)
  have good: "good s" using t by (simp add: tended_def)
  note run = peer_pass_run [OF law(1) good, where l = l and sv = sv and repo = repo and k = k]
  from peer_pass_truthful [OF run(3,2) lawful_ok [OF law(1) good] law(2)] peer(2)
  have w: "cv_cluster (view s') = cv_cluster (view s)"
    "world_step\<^sup>*\<^sup>* (plan_of view s) (plan_of view s') \<or>
     (\<exists>u. world_step\<^sup>*\<^sup>* (plan_of view s) u \<and> pl_members u = pl_members (plan_of view s) \<and>
        (\<forall>m. runs u m \<longrightarrow> runs (plan_of view s) m) \<and> silence u (plan_of view s'))"
    by (simp_all add: peer(1) truthful_pass_def)
  then have "guarded (version_of view s) (unanswered F (plan_of view s) (plan_of view s')) (plan_of view s')"
    by (elim disjE exE conjE) (blast intro: world_steps_guarded [OF _ g] steps_unanswered silence_unanswered)+
  with run(1) t w(1) show ?thesis by (simp add: peer(1) tended_def desired_size_def)
next
  case around
  then have "moves l sv cl e req good view s s'" by (rule moves.around)
  from moves_guarded [OF law t g this] show ?thesis .
qed

lemma attempted_guarded:
  assumes law: "lawful cl e req good view" "lib_ok l"
    and m: "attempted l sv cl e repo req good view w s F" and t: "tended good view w"
    and g: "guarded (version_of view w) {} (plan_of view w)"
  shows "tended good view s \<and> version_of view s = version_of view w \<and> guarded (version_of view w) F (plan_of view s)"
  using m
proof induction
  case start
  then show ?case using t g by simp
next
  case (step s F s')
  then show ?case using attempts_guarded [OF law, of s F sv repo s'] by simp
qed

lemma attempted_silent:
  "attempted l sv cl e repo req good view w s F \<Longrightarrow>
     F \<subseteq> am_Name ` {m \<in> set_mset (pl_members (plan_of view s)). silent (plan_of view s) m}"
  by (induction rule: attempted.induct) (auto simp: unanswered_def)

section \<open>Runs\<close>

text \<open>
  A run of the operator on one cluster with etcd in contact. Peers are valid, as the webhook sees to
  it, and nobody creates a claim for a peer that is being deleted.
\<close>

definition operator_run ::
    "lib \<Rightarrow> semver \<Rightarrow> 'w client \<Rightarrow> 'w etcd_api \<Rightarrow> string \<Rightarrow> NamespacedName \<Rightarrow> ('w \<Rightarrow> bool) \<Rightarrow> ('w \<Rightarrow> cview) \<Rightarrow>
     EtcdCluster \<Rightarrow> (nat \<Rightarrow> 'w) \<Rightarrow> bool" where
  "operator_run l sv cl e repo req good view c f \<longleftrightarrow> good (f 0) \<and>
     (\<forall>n. acts l sv cl e repo req good view (f n) (f (Suc n))) \<and>
     (\<forall>n. cv_cluster (view (f n)) = c \<and> cv_contact (view (f n))) \<and>
     (\<forall>n. keeps_claims (view (f n)) (view (f (Suc n)))) \<and>
     (\<forall>n. \<forall>q \<in># cv_peers (view (f n)). EtcdPeer_ValidateCreate sv q = None)"

text \<open>
  A run is fair if undisturbed passes on the cluster and on each of its peers happen again and again,
  the world does not stand still forever while a server can start, and a peer that is being deleted
  and not marked by the operator does not stay forever.
\<close>

definition operator_fair ::
    "lib \<Rightarrow> semver \<Rightarrow> 'w client \<Rightarrow> 'w etcd_api \<Rightarrow> string \<Rightarrow> NamespacedName \<Rightarrow> ('w \<Rightarrow> cview) \<Rightarrow> (nat \<Rightarrow> 'w) \<Rightarrow> bool" where
  "operator_fair l sv cl e repo req view f \<longleftrightarrow>
     (\<forall>n. \<exists>m \<ge> n. f (Suc m) = server (pass_from l sv cl e req (f m)) \<and>
        undisturbed (trace (pass_from l sv cl e req (f m)))) \<and>
     (\<forall>n. \<forall>q \<in># cv_peers (view (f n)).
        (\<exists>m \<ge> n. let p = peer_pass_from l sv cl e repo (key_of (peer_meta q)) (f m) in
           f (Suc m) = server p \<and> honest_pass view (f m) p \<and> list_all peer_answered (trace p))) \<and>
     (\<forall>n. (\<exists>m \<in># pl_members (plan_of view (f n)). \<not> am_Started m \<and> am_Name m \<in> peer_names (plan_of view (f n))) \<longrightarrow>
        (\<exists>m > n. plan_of view (f m) \<noteq> plan_of view (f n))) \<and>
     (\<forall>n. (\<exists>p \<in># pl_peers (plan_of view (f n)). ap_Deleting p \<and> \<not> ap_Marked p) \<longrightarrow>
        (\<exists>m > n. plan_of view (f m) \<noteq> plan_of view (f n)))"

lemma operator_tended:
  assumes law: "lawful cl e req good view" "lib_ok l" and run: "operator_run l sv cl e repo req good view c f"
    and c: "named_ok c" "cs_Replicas (cluster_spec c) = Some r" "0 \<le> sint r"
  shows "tended good view (f n)" "desired_size (view (f n)) = Some r"
proof -
  have d: "desired_size (view (f n)) = Some r" for n
    using run c by (simp add: operator_run_def desired_size_Some)
  then show "desired_size (view (f n)) = Some r" .
  show "tended good view (f n)"
  proof (induction n)
    case 0
    then show ?case using run c d [of 0] by (simp add: operator_run_def tended_def)
  next
    case (Suc n)
    then show ?case using acts_plan [OF law Suc d] run by (auto simp: operator_run_def)
  qed
qed

lemma operator_settles:
  assumes law: "lawful cl e req good view" "lib_ok l" and run: "operator_run l sv cl e repo req good view c f"
    and c: "named_ok c" "cs_Replicas (cluster_spec c) = Some r" "0 \<le> sint r"
  shows "\<exists>N. \<forall>n \<ge> N. plan_of view (f n) = plan_of view (f N)"
proof (rule wf_settles [OF wf_trancl [OF wf_plan_order]])
  fix n
  from run have n: "acts l sv cl e repo req good view (f n) (f (Suc n))" "cv_contact (view (f n))"
    "cv_cluster (view (f n)) = c" by (simp_all add: operator_run_def)
  from acts_plan [OF law operator_tended [OF law run c] n(1)] n(2,3) plan_steps_order
  show "plan_of view (f (Suc n)) = plan_of view (f n) \<or>
    (plan_of view (f (Suc n)), plan_of view (f n)) \<in> (plan_order (nat (sint r)) (cs_Version (cluster_spec c)))\<^sup>+"
    by metis
qed

text \<open>
  Once the plan has come to rest, no peer is left to report or to be let go: the passes on the peer
  would change the plan, or its claim is deleted by one pass and the next one changes the plan.
\<close>

lemma peers_at_rest:
  assumes law: "lawful cl e req good view" "lib_ok l" and run: "operator_run l sv cl e repo req good view c f"
    and c: "named_ok c" "cs_Replicas (cluster_spec c) = Some r" "0 \<le> sint r"
    and fair: "operator_fair l sv cl e repo req view f"
    and N: "\<And>n. N \<le> n \<Longrightarrow> plan_of view (f n) = plan_of view (f N)" and p: "p \<in># pl_peers (plan_of view (f N))"
  shows "ap_Server p = ap_Version p" "\<not> (ap_Deleting p \<and> ap_Marked p)"
proof -
  define k where "k = \<lparr>nn_Namespace = cluster_Namespace c, nn_Name = ap_Name p\<rparr>"
  have good: "good (f n)" for n using operator_tended(1) [OF law run c] by (simp add: tended_def)
  note ok = lawful_ok [OF law(1) good]
  have cl: "cv_cluster (view (f n)) = c" for n using run by (simp add: operator_run_def)
  have peer: "\<exists>q \<in># cv_peers (view (f n)). abs_peer q = p \<and> key_of (peer_meta q) = k \<and> EtcdPeer_ValidateCreate sv q = None"
    if n: "N \<le> n" for n
  proof -
    from p N [OF n] obtain q where q: "q \<in># cv_peers (view (f n))" "p = abs_peer q" by (metis abs_peers)
    with ok [of n] cl [of n] have "key_of (peer_meta q) = k"
      by (auto simp: k_def key_of_def abs_peer_def view_ok_def peer_of_def)
    with q run show ?thesis by (auto simp: operator_run_def)
  qed
  have rest: "\<exists>m \<ge> n. ap_Server p = ap_Version p \<and>
      (ap_Deleting p \<and> ap_Marked p \<longrightarrow> live (view (f m)) k \<and> \<not> live (view (f (Suc m))) k)" if n: "N \<le> n" for n
  proof -
    from peer [OF n] obtain q0 where q0: "q0 \<in># cv_peers (view (f n))" "key_of (peer_meta q0) = k" by blast
    let ?p = "\<lambda>m. peer_pass_from l sv cl e repo k (f m)"
    from fair q0 obtain m where m: "n \<le> m" "f (Suc m) = server (?p m)" "honest_pass view (f m) (?p m)"
      "list_all peer_answered (trace (?p m))"
      unfolding operator_fair_def Let_def by metis
    from n m(1) peer [of m] obtain q where q: "q \<in># cv_peers (view (f m))" "abs_peer q = p" "key_of (peer_meta q) = k"
      "EtcdPeer_ValidateCreate sv q = None" by auto
    have same: "abs_view (view (server (?p m))) = abs_view (view (f m))"
      using N [of m] N [of "Suc m"] n m(1,2) by simp
    note prog = peer_pass_progress [OF peer_pass_run(3,2) [OF law(1) good] ok law(2) m(3) [unfolded honest_pass_def] m(4) q(1,3,4) same]
    have "ap_Server p = ap_Version p" using prog(1) q(2) by (auto simp: abs_peer_def)
    moreover have "ap_Deleting p \<and> ap_Marked p \<longrightarrow> live (view (f m)) k \<and> \<not> live (view (f (Suc m))) k"
      using prog(2) q(2) m(2) by (auto simp: abs_peer_def)
    ultimately show ?thesis using m(1) by blast
  qed
  from rest [of N] show "ap_Server p = ap_Version p" by blast
  show "\<not> (ap_Deleting p \<and> ap_Marked p)"
  proof
    assume del: "ap_Deleting p \<and> ap_Marked p"
    with rest [of N] obtain m where m: "N \<le> m" "\<not> live (view (f (Suc m))) k" by blast
    have "\<not> live (view (f j)) k" if "Suc m \<le> j" for j
      using that
    proof (induction j rule: dec_induct)
      case (step j)
      then have "N \<le> j" using m(1) by simp
      from peer [OF this] obtain q where "q \<in># cv_peers (view (f j))" "abs_peer q = p" "key_of (peer_meta q) = k" by blast
      with del run step.IH show ?case
        unfolding operator_run_def keeps_claims_def by (auto simp: abs_peer_def)
    qed (rule m(2))
    with rest [of "Suc m"] m(1) del show False by auto
  qed
qed

lemma operator_run_converges:
  assumes law: "lawful cl e req good view" "lib_ok l" and run: "operator_run l sv cl e repo req good view c f"
    and c: "named_ok c" "cs_Replicas (cluster_spec c) = Some r" "0 \<le> sint r"
    and valid: "EtcdCluster_ValidateCreate sv c = None" and fair: "operator_fair l sv cl e repo req view f"
  shows "\<exists>N. \<forall>n \<ge> N. plan_done (nat (sint r)) (cs_Version (cluster_spec c)) (plan_of view (f n))"
proof -
  let ?g = "\<lambda>n. plan_of view (f n)"
  from operator_settles [OF law run c] obtain N where N: "\<And>n. N \<le> n \<Longrightarrow> ?g n = ?g N" by blast
  have rest: "\<not> (\<exists>m > N. ?g m \<noteq> ?g N)" using N less_imp_le by metis
  have still: "\<nexists>s. world_step (?g N) s"
  proof
    assume "\<exists>s. world_step (?g N) s"
    then obtain s where "world_step (?g N) s" ..
    then show False
    proof cases
      case (start m)
      then show ?thesis using fair rest unfolding operator_fair_def by blast
    next
      case (report p)
      then show ?thesis using peers_at_rest(1) [OF law run c fair N report(2)] by simp
    next
      case (unmark p)
      then show ?thesis using peers_at_rest(2) [OF law run c fair N unmark(2)] by simp
    next
      case (release p)
      then show ?thesis using peers_at_rest(2) [OF law run c fair N release(2)] fair rest
        unfolding operator_fair_def by blast
    qed
  qed
  obtain m where m: "N \<le> m" "f (Suc m) = server (pass_from l sv cl e req (f m))"
    "undisturbed (trace (pass_from l sv cl e req (f m)))"
    using fair unfolding operator_fair_def by blast
  have good: "good (f m)" using operator_tended(1) [OF law run c] by (simp add: tended_def)
  have cm: "cv_cluster (view (f m)) = c" "cv_contact (view (f m))" using run by (simp_all add: operator_run_def)
  have same: "abs_view (view (server (pass_from l sv cl e req (f m)))) = abs_view (view (f m))" "\<nexists>s. world_step (abs_view (view (f m))) s"
    using N [OF m(1)] N [of "Suc m"] m(1,2) still by simp_all
  from pass_idle_at [OF law good m(3)] cm c valid same
  have "plan_done (nat (sint r)) (cs_Version (cluster_spec c)) (?g m)" by simp
  with N m(1) show ?thesis by metis
qed

end
