(* ===== verification/OperatorProps.thy ===== *)
theory OperatorProps
  imports OperatorSystem ClusterSample
begin

text \<open>
  The properties of the two controllers together, on servers that keep their promises: the peer
  handler takes steps of the plan, the changes end, they end with the cluster as desired, and at most
  one member is down besides those whose servers fall silent. The sample run shows that the hypotheses can hold.
\<close>

section \<open>A run of both controllers\<close>

text \<open>
  The cluster that shrinks: after the pass that deletes the spare peer, a pass on that peer deletes
  its claim, the next one takes the mark off and the peer is gone; the passes on the cluster and on
  the remaining peer then find nothing to do.
\<close>

abbreviation sample_peer_pass :: "string \<Rightarrow> store \<Rightarrow> store world" where
  "sample_peer_pass n \<equiv> peer_pass_from std_lib any_semver store_client store_etcd ''etcd'' (key_of (sample_meta n))"

definition shrunk_dropped :: store where
  "shrunk_dropped = shrunk_deleting
     \<lparr>so_claims := [(key_of (sample_meta ''c-0''), False), (key_of (sample_meta ''c-1''), True)]\<rparr>"

definition shrunk_deleted :: store where
  "shrunk_deleted = shrunk_dropped\<lparr>so_peers := [sample_peer ''c-0'']\<rparr>"

definition shrunk_done :: store where
  "shrunk_done = with_status 1 shrunk_deleted"

definition sample_run :: "nat \<Rightarrow> store" where
  "sample_run n = (if n = 0 then shrunk else if n = 1 then shrunk_deleting else if n = 2 then shrunk_dropped
     else if n = 3 then shrunk_deleted else shrunk_done)"

definition peer_ends :: "string \<Rightarrow> store \<Rightarrow> store \<Rightarrow> bool" where
  "peer_ends n w w' \<longleftrightarrow> (let p = sample_peer_pass n w in
     server p = w' \<and> honest_pass store_view w p \<and> list_all peer_answered (trace p))"

lemma dropped_pass: "peer_ends ''c-1'' shrunk_deleting shrunk_dropped"
  by code_simp

lemma deleted_pass: "peer_ends ''c-1'' shrunk_dropped shrunk_deleted"
  by code_simp

lemma rest_pass: "peer_ends ''c-0'' shrunk_done shrunk_done"
  by code_simp

lemma deleted_cluster_pass: "ends_in shrunk_done (sample_pass shrunk_deleted)"
  by code_simp

lemma done_cluster_pass: "ends_in shrunk_done (sample_pass shrunk_done)"
  by code_simp

lemmas run_passes =
  shrunk_pass [unfolded ends_in_def] deleted_cluster_pass [unfolded ends_in_def] done_cluster_pass [unfolded ends_in_def]
  dropped_pass [unfolded peer_ends_def Let_def] deleted_pass [unfolded peer_ends_def Let_def] rest_pass [unfolded peer_ends_def Let_def]

lemmas run_views = sample_views shrunk_dropped_def shrunk_deleted_def shrunk_done_def

lemma sample_run_simps [simp]:
  "sample_run 0 = shrunk" "sample_run (Suc 0) = shrunk_deleting" "sample_run 2 = shrunk_dropped" "sample_run 3 = shrunk_deleted"
  "sample_run (Suc (Suc 0)) = shrunk_dropped" "4 \<le> n \<Longrightarrow> sample_run n = shrunk_done"
  by (simp_all add: sample_run_def)

lemma sample_run_cases:
  obtains "n = 0" | "n = Suc 0" | "n = 2" | "n = 3" | "4 \<le> n" by linarith

lemma sample_run_acts:
  "acts std_lib any_semver store_client store_etcd ''etcd'' sample_key store_good store_view (sample_run n) (sample_run (Suc n))"
proof -
  let ?acts = "acts std_lib any_semver store_client store_etcd ''etcd'' sample_key store_good store_view"
  have "?acts shrunk shrunk_deleting" "?acts shrunk_deleted shrunk_done" "?acts shrunk_done shrunk_done"
    using acts.cluster [of std_lib any_semver store_client store_etcd "''etcd''" sample_key store_good store_view] run_passes(1-3) by metis+
  moreover have "?acts shrunk_deleting shrunk_dropped" "?acts shrunk_dropped shrunk_deleted"
    using acts.peer run_passes(4,5) by metis+
  ultimately show ?thesis
    by (cases n rule: sample_run_cases) simp_all
qed

lemma sample_run_view:
  "cv_cluster (store_view (sample_run n)) = (sample_cluster 1)\<lparr>cluster_status := blank_status\<rparr>"
  "cv_contact (store_view (sample_run n))"
  by (cases n rule: sample_run_cases; simp add: run_views sample_defs)+

lemma sample_run_members: "so_members (sample_run n) = [sample_member ''c-0'']"
  by (cases n rule: sample_run_cases) (simp_all add: run_views)

lemma sample_run_peers:
  "so_peers (sample_run n) =
     (if n = 0 then [sample_peer ''c-0'', spare_peer ''c-1'']
      else if n < 3 then [put_deletion 0 (spare_peer ''c-1''), sample_peer ''c-0''] else [sample_peer ''c-0''])"
  by (cases n rule: sample_run_cases) (simp_all add: shrunk_def shrunk_deleting_def shrunk_dropped_def shrunk_deleted_def
      shrunk_done_def with_status_def sample_store_def Let_def)

lemma sample_peer_simps [simp]:
  "peer_meta (sample_peer n) = sample_meta n" "DeletionTimestamp (sample_meta n) = None"
  "key_of (peer_meta (spare_peer n)) = key_of (sample_meta n)" "DeletionTimestamp (peer_meta (spare_peer n)) = None"
  "key_of (peer_meta (put_deletion t p)) = key_of (peer_meta p)"
  by (simp_all add: sample_defs spare_peer_def put_finalizers_def put_deletion_def key_of_def)

lemma sample_run_claim: "2 \<le> n \<Longrightarrow> map_of (so_claims (sample_run n)) (key_of (sample_meta ''c-1'')) = Some True"
  by (cases n rule: sample_run_cases) (simp_all add: run_views sample_meta_def key_of_def)

lemma sample_run_claims: "keeps_claims (store_view (sample_run n)) (store_view (sample_run (Suc n)))"
  using sample_run_claim [of "Suc n"] by (auto simp: keeps_claims_def sample_run_peers split: if_splits)

lemma sample_peers_valid:
  "EtcdPeer_ValidateCreate any_semver (sample_peer ''c-0'') = None" "EtcdPeer_ValidateCreate any_semver (spare_peer ''c-1'') = None"
  "EtcdPeer_ValidateCreate any_semver (put_deletion 0 (spare_peer ''c-1'')) = None"
  by code_simp+

lemma sample_operator_run:
  "operator_run std_lib any_semver store_client store_etcd ''etcd'' sample_key store_good store_view
     ((sample_cluster 1)\<lparr>cluster_status := blank_status\<rparr>) sample_run"
  using sample_run_acts sample_run_view sample_run_claims shrunk_good sample_peers_valid
  by (auto simp: operator_run_def sample_run_peers)

lemma sample_operator_fair:
  "operator_fair std_lib any_semver store_client store_etcd ''etcd'' sample_key store_view sample_run"
  unfolding operator_fair_def
proof (intro conjI allI impI ballI)
  fix n
  show "\<exists>m \<ge> n. sample_run (Suc m) = server (sample_pass (sample_run m)) \<and> undisturbed (trace (sample_pass (sample_run m)))"
    by (rule exI [of _ "n + 4"]) (simp add: run_passes)
  fix q assume q: "q \<in># cv_peers (store_view (sample_run n))"
  let ?good = "\<lambda>k m. let p = peer_pass_from std_lib any_semver store_client store_etcd ''etcd'' k (sample_run m) in
      sample_run (Suc m) = server p \<and> honest_pass store_view (sample_run m) p \<and> list_all peer_answered (trace p)"
  have "?good (key_of (sample_meta ''c-1'')) (Suc 0)" "?good (key_of (sample_meta ''c-1'')) 2"
    "?good (key_of (sample_meta ''c-0'')) (n + 4)"
    by (simp_all add: Let_def run_passes numeral_2_eq_2 [symmetric])
  moreover have "key_of (peer_meta q) = key_of (sample_meta ''c-0'') \<or> key_of (peer_meta q) = key_of (sample_meta ''c-1'') \<and> n < 3"
    using q by (auto simp: sample_run_peers split: if_splits)
  moreover have "n < 3 \<Longrightarrow> n \<le> Suc 0 \<or> n \<le> 2" by simp
  ultimately show "\<exists>m \<ge> n. ?good (key_of (peer_meta q)) m" by (metis le_add1)
next
  fix n assume "\<exists>m \<in># pl_members (abs_view (store_view (sample_run n))). \<not> am_Started m \<and>
      am_Name m \<in> peer_names (abs_view (store_view (sample_run n)))"
  then show "\<exists>m > n. abs_view (store_view (sample_run m)) \<noteq> abs_view (store_view (sample_run n))"
    by (simp add: abs_view_def sample_run_members abs_member_def sample_member_def)
next
  fix n assume "\<exists>p \<in># pl_peers (abs_view (store_view (sample_run n))). ap_Deleting p \<and> \<not> ap_Marked p"
  then show "\<exists>m > n. abs_view (store_view (sample_run m)) \<noteq> abs_view (store_view (sample_run n))"
    by (auto simp: abs_view_def sample_run_peers abs_peer_def put_deletion_def spare_peer_def put_finalizers_def
        hasPvcDeletionFinalizer_def split: if_splits)
qed

lemma dropped_good: "store_good shrunk_dropped"
  using uniq_mset [of peer_Name "[put_deletion 0 (spare_peer ''c-1''), sample_peer ''c-0'']"] uniq_mset [of mem_ID "[sample_member ''c-0'']"]
  by (auto simp: store_good_def view_ok_def run_views sample_defs peerNameForMember_def)

lemma sample_named: "named_ok ((sample_cluster 1)\<lparr>cluster_status := blank_status\<rparr>)"
  by code_simp

lemma sample_valid: "EtcdCluster_ValidateCreate any_semver ((sample_cluster 1)\<lparr>cluster_status := blank_status\<rparr>) = None"
  by code_simp

section \<open>Properties\<close>

text \<open>C3: the peer controller refines the plan. On servers that keep their promises, with etcd servers that report
  the version they were asked to run and keep answering, one pass of the EtcdPeer handler changes the
  members and peers of the cluster only by steps that the plan leaves to the world: a peer reports
  its version, a peer that is being deleted loses the mark or goes; it changes neither the cluster
  nor the members, and it brings no claim back to life for a peer that is being deleted.\<close>

theorem peer_refines_plan:
  assumes "lawful cl e req good view" "good w" "lib_ok l"
    and "p = snd (run_state (Peer_Reconcile l sv cl e repo k) \<lparr>server = w, trace = []\<rparr>)"
    and "list_all (honest (view w)) (trace p)"
  shows "good (server p) \<and> cv_cluster (view (server p)) = cv_cluster (view w) \<and>
    world_step\<^sup>*\<^sup>* (abs_view (view w)) (abs_view (view (server p))) \<and> keeps_claims (view w) (view (server p))"
  using peer_pass_world [OF peer_pass_run(3,2) [OF assms(1,2)] lawful_ok [OF assms(1,2)] assms(3)]
    peer_pass_run(1) [OF assms(1,2)] assms(4,5) unfolding peer_pass_from_def by blast

theorem peer_refines_plan_witness:
  "world_step\<^sup>*\<^sup>* (abs_view (store_view shrunk_dropped)) (abs_view (store_view shrunk_deleted))"
  using peer_refines_plan [OF store_lawful dropped_good std_lib_ok refl, of any_semver "''etcd''" "key_of (sample_meta ''c-1'')"]
    run_passes(5) by (auto simp: peer_pass_from_def honest_pass_def)

text \<open>C9: the changes end. In every run of the two controllers (passes on the cluster and on any peers, in
  whatever order and number, interleaved with servers that start, versions that are reported and
  peers that disappear) on a cluster whose specification does not change and with etcd in contact,
  the members and peers change, to the plan, only finitely often.\<close>

theorem operator_changes_end:
  assumes "lawful cl e req good view" "lib_ok l" "operator_run l sv cl e repo req good view c f"
    and "named_ok c" "cs_Replicas (cluster_spec c) = Some r" "0 \<le> sint r"
  shows "\<exists>N. \<forall>n. N \<le> n \<longrightarrow> abs_view (view (f n)) = abs_view (view (f N))"
  by (rule operator_settles [OF assms])

theorem operator_changes_end_witness:
  "\<exists>N. \<forall>n. N \<le> n \<longrightarrow> abs_view (store_view (sample_run n)) = abs_view (store_view (sample_run N))"
  by (rule operator_changes_end [OF store_lawful std_lib_ok sample_operator_run sample_named, of 1])
    (simp_all add: sample_cluster_def)

text \<open>C1: convergence. If moreover passes on the cluster and on each of its peers in which every question is
  answered and no change fails happen again and again, a server that can start does not stay down
  forever, and a peer that is being deleted without the mark of the operator does not stay forever,
  then from some point on the cluster is as desired: it has the desired number of members, all
  started, each with one peer of its name and no other peers, and every peer is to run and reports
  the desired version.\<close>

theorem operator_converges:
  assumes "lawful cl e req good view" "lib_ok l" "operator_run l sv cl e repo req good view c f"
    and "named_ok c" "cs_Replicas (cluster_spec c) = Some r" "0 \<le> sint r"
    and "EtcdCluster_ValidateCreate sv c = None" "operator_fair l sv cl e repo req view f"
  shows "\<exists>N. \<forall>n. N \<le> n \<longrightarrow> plan_done (nat (sint r)) (cs_Version (cluster_spec c)) (abs_view (view (f n)))"
  by (rule operator_run_converges [OF assms])

theorem operator_converges_witness:
  "\<exists>N. \<forall>n. N \<le> n \<longrightarrow> plan_done 1 ''3.2.28'' (abs_view (store_view (sample_run n)))"
  using operator_converges [OF store_lawful std_lib_ok sample_operator_run sample_named, of 1] sample_operator_fair sample_valid
  by (simp add: sample_cluster_def)

text \<open>
  A sample with a failed dial: etcd is lost, a pass on the peer \<open>c-0\<close> finds its server silent and
  writes that nothing is reported; etcd is found again, and the upgrade starts with \<open>c-2\<close>.
\<close>

definition lost_store :: store where
  "lost_store = outdated_store\<lparr>so_contact := False, so_claims := [(key_of (sample_meta ''c-0''), False)],
     so_sets := [key_of (sample_meta ''c-0'')]\<rparr>"

definition silent_store :: store where
  "silent_store = lost_store\<lparr>so_peers :=
     [peer_at ''c-0'' ''3.2.27'' [], peer_at ''c-1'' ''3.2.27'' ''3.2.27'', peer_at ''c-2'' ''3.2.27'' ''3.2.27'']\<rparr>"

definition found_store :: store where
  "found_store = silent_store\<lparr>so_contact := True\<rparr>"

definition falls_silent :: "store \<Rightarrow> store \<Rightarrow> bool" where
  "falls_silent w w' \<longleftrightarrow> (let p = sample_peer_pass ''c-0'' w in server p = w' \<and> truthful_pass store_view w p)"

lemma lost_pass: "falls_silent lost_store silent_store"
  by code_simp

lemma found_pass:
  "holds [peer_at ''c-0'' ''3.2.27'' [], peer_at ''c-1'' ''3.2.27'' ''3.2.27''] three_members (sample_pass found_store)"
  by code_simp

text \<open>In the end two members of the sample do not run: the silent one and the one that is replaced.\<close>

lemmas silent_views = found_store_def silent_store_def lost_store_def upgrade_views

definition sample_plan :: "EtcdPeer list \<Rightarrow> plan" where
  "sample_plan ps = \<lparr>pl_members = image_mset abs_member (mset three_members), pl_peers = image_mset abs_peer (mset ps)\<rparr>"

lemma silent_plans:
  "abs_view (store_view outdated_store) = sample_plan
     [peer_at ''c-0'' ''3.2.27'' ''3.2.27'', peer_at ''c-1'' ''3.2.27'' ''3.2.27'', peer_at ''c-2'' ''3.2.27'' ''3.2.27'']"
  "abs_view (store_view lost_store) = abs_view (store_view outdated_store)"
  "abs_view (store_view silent_store) = sample_plan
     [peer_at ''c-0'' ''3.2.27'' [], peer_at ''c-1'' ''3.2.27'' ''3.2.27'', peer_at ''c-2'' ''3.2.27'' ''3.2.27'']"
  "abs_view (store_view found_store) = abs_view (store_view silent_store)"
  "abs_view (store_view (server (sample_pass found_store))) = sample_plan
     [peer_at ''c-0'' ''3.2.27'' [], peer_at ''c-1'' ''3.2.27'' ''3.2.27'']"
  using found_pass
  by (simp_all add: sample_plan_def holds_def abs_view_def found_store_def silent_store_def lost_store_def outdated_store_def
      sample_store_def Let_def)

lemmas plan_evaluation = sample_plan_def three_members_def peer_at_def runs_def silent_def attended_def sample_defs
  abs_member_def abs_peer_def peerNameForMember_def

lemma sample_unanswered:
  "unanswered {} (abs_view (store_view outdated_store)) (abs_view (store_view lost_store)) = {}"
  "unanswered {} (abs_view (store_view lost_store)) (abs_view (store_view silent_store)) = {''c-0''}"
  "unanswered {''c-0''} (abs_view (store_view silent_store)) (abs_view (store_view found_store)) = {''c-0''}"
  "unanswered {''c-0''} (abs_view (store_view found_store)) (abs_view (store_view (server (sample_pass found_store)))) = {''c-0''}"
  by (auto simp: unanswered_def silent_plans plan_evaluation image_iff conj_disj_distribR ex_disj_distrib)

lemma sample_down:
  "countp (\<lambda>m. \<not> runs (abs_view (store_view (server (sample_pass found_store)))) m)
     (pl_members (abs_view (store_view (server (sample_pass found_store))))) = 2"
  by (simp add: silent_plans plan_evaluation countp_def)

lemma sample_around:
  "around (store_view outdated_store) (store_view lost_store)" "around (store_view silent_store) (store_view found_store)"
  by (rule around.other; simp add: silent_views sample_defs abs_view_def desired_size_def)+

lemma silent_goods: "store_good lost_store" "store_good found_store"
  using outdated_good uniq_mset [of peer_Name "so_peers found_store"]
  by (auto simp: store_good_def view_ok_def silent_views sample_defs peerNameForMember_def peer_of_def)

lemma sample_attempted:
  "attempted std_lib any_semver store_client store_etcd ''etcd'' sample_key store_good store_view
     outdated_store (server (sample_pass found_store)) {''c-0''}"
proof -
  let ?did = "attempted std_lib any_semver store_client store_etcd ''etcd'' sample_key store_good store_view outdated_store"
  note step = attempted.step [where l = std_lib and sv = any_semver and cl = store_client and e = store_etcd and repo = "''etcd''"
      and req = sample_key and good = store_good and view = store_view and w = outdated_store]
  from step [OF attempted.start attempts.around [where good = store_good and view = store_view, OF silent_goods(1) sample_around(1)]]
  have "?did lost_store {}" by (simp add: sample_unanswered(1))
  from step [OF this attempts.peer, of "key_of (sample_meta ''c-0'')"] lost_pass
  have "?did silent_store {''c-0''}" by (simp add: falls_silent_def Let_def sample_unanswered(2))
  from step [OF this attempts.around [where good = store_good and view = store_view, OF silent_goods(2) sample_around(2)]]
  have "?did found_store {''c-0''}" by (simp add: sample_unanswered(3))
  from step [OF this attempts.cluster] show ?thesis by (simp add: sample_unanswered(4))
qed

text \<open>C4: one member at a time, also when servers fail. Start where every member runs, members have different
  names, every peer reports nothing or the version it was asked to run, and the peer of a member is
  deleted only if it is to run another version than the desired one. Let passes of the two
  controllers, in whatever order and with whatever failures of requests, alternate with steps of the
  world, with etcd lost and found and with changes of the desired size; the API server and etcd keep
  their promises, a server that answers reports the version its peer was asked to run, and the
  desired version stays the same. Any server may fail to answer at any time, and its peer then
  reports nothing until it answers again. Then at every moment at most one member is not running,
  not counting those whose server ran and has since fallen silent: these have started and still
  have a peer that nobody deletes. So the operator never takes a second member down.\<close>

theorem operator_one_member_down:
  assumes "lawful cl e req good view" "lib_ok l" "attempted l sv cl e repo req good view w w' F"
    and "good w" "named_ok (cv_cluster (view w))" "desired_size (view w) = Some r"
    and "sound (cs_Version (cluster_spec (cv_cluster (view w)))) (abs_view (view w))"
    and "\<forall>m. m \<in># pl_members (abs_view (view w)) \<longrightarrow> runs (abs_view (view w)) m"
  shows "countp (\<lambda>m. \<not> runs (abs_view (view w')) m \<and> am_Name m \<notin> F) (pl_members (abs_view (view w'))) \<le> 1 \<and>
    F \<subseteq> am_Name ` {m \<in> set_mset (pl_members (abs_view (view w'))). silent (abs_view (view w')) m}"
proof -
  have "tended good view w" using assms(4-6) by (simp add: tended_def)
  from attempted_guarded [OF assms(1-3) this guarded_start] assms(7,8)
  show ?thesis using guarded_one_down attempted_silent [OF assms(3)] unfolding one_down_def by blast
qed

theorem operator_one_member_down_witness:
  "countp (\<lambda>m. \<not> runs (abs_view (store_view (server (sample_pass found_store)))) m \<and> am_Name m \<notin> {''c-0''})
     (pl_members (abs_view (store_view (server (sample_pass found_store))))) \<le> 1 \<and>
   countp (\<lambda>m. \<not> runs (abs_view (store_view (server (sample_pass found_store)))) m)
     (pl_members (abs_view (store_view (server (sample_pass found_store))))) = 2"
proof -
  have "named_ok (cv_cluster (store_view outdated_store))" "desired_size (store_view outdated_store) = Some 3"
    by (simp add: named_ok_def upgrade_views sample_defs) code_simp+
  with operator_one_member_down [OF store_lawful std_lib_ok sample_attempted outdated_good] outdated_sound outdated_runs
  have "countp (\<lambda>m. \<not> runs (abs_view (store_view (server (sample_pass found_store)))) m \<and> am_Name m \<notin> {''c-0''})
     (pl_members (abs_view (store_view (server (sample_pass found_store))))) \<le> 1"
    by (simp add: upgrade_views sample_defs)
  then show ?thesis using sample_down by blast
qed

end
