(* ===== verification/BackupController.thy ===== *)
theory BackupController
  imports Events
begin

text \<open>
  The EtcdBackup controller (\<open>controllers/etcdbackup_controller_new.go\<close>): it reads the state of a
  backup and of its service account and pod, computes the desired ones, and performs one action.
\<close>

section \<open>Parameters\<close>

text \<open>
  Outside the sources: \<open>controllerutil.SetControllerReference\<close> (the metadata with the reference
  added, or an error) and the template engine that expands the object URL (\<open>Parse\<close> yields a
  template or an error, \<open>Execute\<close> the expansion for a backup or an error).
\<close>

record 't backup_lib =
  SetControllerReference :: "ObjectMeta \<Rightarrow> ObjectMeta \<Rightarrow> string + ObjectMeta"
  template_Parse :: "string \<Rightarrow> string + 't"
  template_Execute :: "'t \<Rightarrow> EtcdBackup \<Rightarrow> string + string"
  GVKForObject :: "object \<Rightarrow> string + string"

text \<open>Setting the reference keeps the name and the namespace of the object.\<close>

definition SetControllerReference_ok :: "'t backup_lib \<Rightarrow> bool" where
  "SetControllerReference_ok bl \<longleftrightarrow>
     (\<forall>owner m m'. SetControllerReference bl owner m = Inr m' \<longrightarrow> key_of m' = key_of m)"

record EtcdBackupReconciler =
  BackupAgentImage :: string
  bk_ProxyURL :: string

section \<open>State\<close>

record backupStateContainer =
  bsc_serviceAccount :: "ServiceAccount option"
  bsc_pod :: "Pod option"

record backupState =
  bst_backup :: "EtcdBackup option"
  bst_actual :: "backupStateContainer option"
  bst_desired :: "backupStateContainer option"

definition serviceAccountForBackup :: "EtcdBackup \<Rightarrow> ServiceAccount" where
  "serviceAccountForBackup backup =
     \<lparr>sa_meta = emptyMeta
        \<lparr>Name := Name (backup_meta backup), Namespace := Namespace (backup_meta backup)\<rparr>\<rparr>"

text \<open>The quantities \<open>100m\<close> of CPU and \<open>50Mi\<close> of memory.\<close>

definition agentResources :: "(string \<times> Quantity) list" where
  "agentResources =
     [(''cpu'', \<lparr>Sign = 1, MilliValue = 100\<rparr>),
      (''memory'', \<lparr>Sign = 1, MilliValue = 50 * 1024 * 1024 * 1000\<rparr>)]"

definition podForBackup ::
    "'t backup_lib \<Rightarrow> EtcdBackup \<Rightarrow> string \<Rightarrow> string \<Rightarrow> string \<Rightarrow> go_error + Pod" where
  "podForBackup bl backup agentImage proxyURL serviceAccount =
     (case template_Parse bl (ObjectURLTemplate (bk_Destination (backup_spec backup))) of
        Inl err \<Rightarrow> Inl (Text ''error parsing object URL template'' (NewError err))
      | Inr tmpl \<Rightarrow>
          (case template_Execute bl tmpl backup of
             Inl err \<Rightarrow> Inl (Text ''error executing template'' (NewError err))
           | Inr objectURL \<Rightarrow> Inr
               \<lparr>pod_meta = emptyMeta
                  \<lparr>Name := Name (backup_meta backup), Namespace := Namespace (backup_meta backup)\<rparr>,
                pod_spec =
                  \<lparr>ps_Hostname = [], ps_Subdomain = [], ps_HostAliases = [],
                   ps_Containers =
                     [\<lparr>c_Name = ''backup-agent'',
                       c_Image = agentImage,
                       c_Args =
                         [''--proxy-url'', proxyURL,
                          ''--backup-url'', objectURL,
                          ''--etcd-url'', ClusterURL (bk_Source (backup_spec backup))],
                       c_Env = [],
                       c_Ports = [],
                       c_Resources = \<lparr>Limits = agentResources, Requests = agentResources\<rparr>,
                       c_VolumeMounts = []\<rparr>],
                   ps_Volumes = [],
                   ps_Affinity = None,
                   ps_ServiceAccountName = serviceAccount,
                   ps_RestartPolicy = RestartPolicyNever\<rparr>,
                pod_Phase = []\<rparr>))"

definition setStateActual ::
    "'w client \<Rightarrow> EtcdBackup \<Rightarrow> ('w, go_error + backupStateContainer) io" where
  "setStateActual cl backup = do {
     let key = key_of (backup_meta backup);
     sa \<leftarrow> get_ServiceAccount cl key;
     case if_found sa of
       Inl err \<Rightarrow> ret (Inl (Text ''error while getting service account: '' (ApiError err)))
     | Inr serviceAccount \<Rightarrow> do {
         p \<leftarrow> get_Pod cl key;
         case if_found p of
           Inl err \<Rightarrow> ret (Inl (Text ''error while getting pod: '' (ApiError err)))
         | Inr pod \<Rightarrow> ret (Inr \<lparr>bsc_serviceAccount = serviceAccount, bsc_pod = pod\<rparr>)
       }
   }"

definition setStateDesired ::
    "'t backup_lib \<Rightarrow> EtcdBackupReconciler \<Rightarrow> EtcdBackup \<Rightarrow> go_error + backupStateContainer" where
  "setStateDesired bl r backup =
     (let sa = serviceAccountForBackup backup in
      (case SetControllerReference bl (backup_meta backup) (sa_meta sa) of
         Inl err \<Rightarrow> Inl (Text ''error setting service account controller reference: '' (NewError err))
       | Inr sam \<Rightarrow>
           (let serviceAccount = sa\<lparr>sa_meta := sam\<rparr> in
            (case podForBackup bl backup (BackupAgentImage r) (bk_ProxyURL r) (Name (sa_meta serviceAccount)) of
               Inl err \<Rightarrow> Inl (Text ''error computing pod for backup'' err)
             | Inr pod \<Rightarrow>
                 (case SetControllerReference bl (backup_meta backup) (pod_meta pod) of
                    Inl err \<Rightarrow> Inl (Text ''error setting pod controller reference: '' (NewError err))
                  | Inr pm \<Rightarrow>
                      Inr \<lparr>bsc_serviceAccount = Some serviceAccount,
                           bsc_pod = Some (pod\<lparr>pod_meta := pm\<rparr>)\<rparr>)))))"

definition getState ::
    "'t backup_lib \<Rightarrow> EtcdBackupReconciler \<Rightarrow> 'w client \<Rightarrow> NamespacedName \<Rightarrow> ('w, go_error + backupState) io" where
  "getState bl r cl req = do {
     b \<leftarrow> get_Backup cl req;
     case if_found b of
       Inl err \<Rightarrow> ret (Inl (Text ''error while getting backup: '' (ApiError err)))
     | Inr None \<Rightarrow> ret (Inr \<lparr>bst_backup = None, bst_actual = None, bst_desired = None\<rparr>)
     | Inr (Some backup) \<Rightarrow> do {
         a \<leftarrow> setStateActual cl backup;
         case a of
           Inl err \<Rightarrow> ret (Inl (Text ''error setting actual state: '' err))
         | Inr actual \<Rightarrow>
             ret (case setStateDesired bl r backup of
                    Inl err \<Rightarrow> Inl (Text ''error setting desired state: '' err)
                  | Inr desired \<Rightarrow>
                      Inr \<lparr>bst_backup = Some backup, bst_actual = Some actual, bst_desired = Some desired\<rparr>)
       }
   }"

section \<open>The decision\<close>

definition with_phase :: "EtcdBackup \<Rightarrow> EtcdBackupPhase \<Rightarrow> EtcdBackup" where
  "with_phase backup phase = backup\<lparr>backup_status := (backup_status backup)\<lparr>bk_Phase := phase\<rparr>\<rparr>"

text \<open>The patch of the phase.\<close>

definition phase_patch :: "EtcdBackup \<Rightarrow> EtcdBackupPhase \<Rightarrow> Action" where
  "phase_patch backup phase = PatchStatus (OBackup backup) (OBackup (with_phase backup phase))"

text \<open>
  The \<open>switch\<close> of \<open>Reconcile\<close>: the action and the event, if any. The actual and desired states
  are nil pointers when there is no backup; dereferencing them would panic.
\<close>

definition nextBackupAction :: "backupState \<Rightarrow> (Action option \<times> BackupEvent option) outcome" where
  "nextBackupAction state =
     (case bst_backup state of
        None \<Rightarrow> Return (None, None)
      | Some backup \<Rightarrow>
          let phase = bk_Phase (backup_status backup) in
          if DeletionTimestamp (backup_meta backup) \<noteq> None then Return (None, None)
          else if phase = [] then Return (Some (phase_patch backup EtcdBackupPhaseBackingUp), None)
          else if phase = EtcdBackupPhaseFailed then Return (None, None)
          else if phase = EtcdBackupPhaseCompleted then Return (None, None)
          else
            (case (bst_actual state, bst_desired state) of
               (Some actual, Some desired) \<Rightarrow>
                 (case bsc_serviceAccount actual of
                    None \<Rightarrow>
                      (case bsc_serviceAccount desired of
                         None \<Rightarrow> Panic
                       | Some sa \<Rightarrow> Return (Some (CreateRuntimeObject (OServiceAccount sa)), None))
                  | Some _ \<Rightarrow>
                      (case bsc_pod actual of
                         None \<Rightarrow>
                           (case bsc_pod desired of
                              None \<Rightarrow> Panic
                            | Some pod \<Rightarrow> Return (Some (CreateRuntimeObject (OPod pod)), None))
                       | Some pod \<Rightarrow>
                           if pod_Phase pod = PodFailed then
                             Return (Some (phase_patch backup EtcdBackupPhaseFailed),
                                     Some (BackupFailed (OBackup backup)))
                           else if pod_Phase pod = PodSucceeded then
                             Return (Some (phase_patch backup EtcdBackupPhaseCompleted),
                                     Some (BackupSucceeded (OBackup backup)))
                           else Return (None, None)))
             | _ \<Rightarrow> Panic))"

section \<open>The handler\<close>

definition Backup_Reconcile ::
    "'t backup_lib \<Rightarrow> EtcdBackupReconciler \<Rightarrow> 'w client \<Rightarrow> NamespacedName \<Rightarrow> ('w, reconciled) io" where
  "Backup_Reconcile bl r cl req = do {
     st \<leftarrow> getState bl r cl req;
     case st of
       Inl err \<Rightarrow> ret (Return (emptyResult, Some (Text ''error getting state: '' err)))
     | Inr state \<Rightarrow>
         (case nextBackupAction state of
            Panic \<Rightarrow> ret Panic
          | Return (act0, event) \<Rightarrow>
              (case act0 of
                 None \<Rightarrow> do {
                   (case event of None \<Rightarrow> ret () | Some ev \<Rightarrow> BackupEvent_Record (GVKForObject bl) ev);
                   ret (Return (emptyResult, None))
                 }
               | Some act \<Rightarrow> do {
                   err \<leftarrow> Action_Execute cl act;
                   case err of
                     Some e \<Rightarrow> ret (Return (emptyResult, Some (Text ''error executing action: '' e)))
                   | None \<Rightarrow> do {
                       let event' =
                         (case (event, act, bst_backup state) of
                            (None, CreateRuntimeObject obj, Some backup) \<Rightarrow>
                              Some (ObjectCreatedEvent (OBackup backup) obj)
                          | _ \<Rightarrow> event);
                       (case event' of None \<Rightarrow> ret () | Some ev \<Rightarrow> BackupEvent_Record (GVKForObject bl) ev);
                       ret (Return (emptyResult, None))
                     }
                 }))
   }"

end
