(* ===== verification/BackupProps.thy ===== *)
theory BackupProps
  imports BackupController MemServer
begin

text \<open>
  Correctness of the EtcdBackup controller: its one action and why it is taken, the life cycle of a
  backup as a state machine, the events, and that it never panics.
\<close>

section \<open>The life cycle of a backup\<close>

text \<open>The steps of the phase: a backup starts once, and ends once, failed or completed.\<close>

inductive phase_step :: "EtcdBackupPhase \<Rightarrow> EtcdBackupPhase \<Rightarrow> bool" where
  starts: "phase_step [] EtcdBackupPhaseBackingUp"
| fails: "p \<notin> {[], EtcdBackupPhaseFailed, EtcdBackupPhaseCompleted} \<Longrightarrow> phase_step p EtcdBackupPhaseFailed"
| completes: "p \<notin> {[], EtcdBackupPhaseFailed, EtcdBackupPhaseCompleted} \<Longrightarrow> phase_step p EtcdBackupPhaseCompleted"

inductive_cases phase_step_FailedE: "phase_step EtcdBackupPhaseFailed q"
inductive_cases phase_step_CompletedE: "phase_step EtcdBackupPhaseCompleted q"

inductive_simps phase_step_from_start: "phase_step [] q"

lemma phase_step_reachable:
  "phase_step\<^sup>*\<^sup>* [] p \<Longrightarrow>
   p \<in> {[], EtcdBackupPhaseBackingUp, EtcdBackupPhaseFailed, EtcdBackupPhaseCompleted}"
  by (induction rule: rtranclp_induct) (auto elim: phase_step.cases)

lemma phase_step_terminal:
  "\<not> phase_step EtcdBackupPhaseFailed q" "\<not> phase_step EtcdBackupPhaseCompleted q"
proof -
  show "\<not> phase_step EtcdBackupPhaseFailed q"
    by (rule notI, erule phase_step_FailedE) (simp_all add: backup_phase_defs)
  show "\<not> phase_step EtcdBackupPhaseCompleted q"
    by (rule notI, erule phase_step_CompletedE) (simp_all add: backup_phase_defs)
qed

text \<open>How many steps a phase can still take.\<close>

definition steps_left :: "EtcdBackupPhase \<Rightarrow> nat" where
  "steps_left p =
     (if p = [] then 2 else if p = EtcdBackupPhaseFailed \<or> p = EtcdBackupPhaseCompleted then 0 else 1)"

lemma phase_step_decreases: "phase_step p q \<Longrightarrow> steps_left q < steps_left p"
  by (erule phase_step.cases) (auto simp: steps_left_def backup_phase_defs)

section \<open>What the handler reads\<close>

text \<open>
  The state of a backup as one pass read it. The fields of the state record are the answers of the
  reads, and the desired objects are those computed for the backup.
\<close>

inductive read_state ::
    "'t backup_lib \<Rightarrow> EtcdBackupReconciler \<Rightarrow> NamespacedName \<Rightarrow> backupState \<Rightarrow> call list \<Rightarrow> bool"
  for bl r req where
  missing: "read_state bl r req \<lparr>bst_backup = None, bst_actual = None, bst_desired = None\<rparr>
     [GetBackup req (Inl NotFound)]"
| found: "if_found sa = Inr sa' \<Longrightarrow> if_found p = Inr p' \<Longrightarrow> setStateDesired bl r backup = Inr desired \<Longrightarrow>
     read_state bl r req
       \<lparr>bst_backup = Some backup,
        bst_actual = Some \<lparr>bsc_serviceAccount = sa', bsc_pod = p'\<rparr>, bst_desired = Some desired\<rparr>
       [GetBackup req (Inr backup), GetServiceAccount (key_of (backup_meta backup)) sa,
        GetPod (key_of (backup_meta backup)) p]"

lemma setStateActual_emits:
  "emits (setStateActual cl backup) (\<lambda>r tr.
     (\<exists>err. r = Inl err \<and> mutations tr = [] \<and> recorded tr = []) \<or>
     (\<exists>sa sa' p p'. if_found sa = Inr sa' \<and> if_found p = Inr p' \<and>
        r = Inr \<lparr>bsc_serviceAccount = sa', bsc_pod = p'\<rparr> \<and>
        tr = [GetServiceAccount (key_of (backup_meta backup)) sa, GetPod (key_of (backup_meta backup)) p]))"
  unfolding setStateActual_def call_defs Let_def by (intro emits_steps) auto

lemma getState_emits:
  "emits (getState bl r cl req) (\<lambda>st tr.
     (\<exists>err. st = Inl err \<and> mutations tr = [] \<and> recorded tr = []) \<or>
     (\<exists>state. st = Inr state \<and> read_state bl r req state tr))"
  unfolding getState_def get_Backup_def
proof (rule emits_bind_call, rule emits_case_sum, goal_cases)
  case (2 b x)
  then show ?case
  proof (cases x)
    case None
    with 2 show ?thesis by (auto simp: if_found_Inr intro!: emits_return missing)
  next
    case (Some backup)
    with 2 have b: "b = Inr backup" by (simp add: if_found_Inr)
    show ?thesis
      unfolding Some option.case
      by (rule emits_bind [OF setStateActual_emits])
        (auto simp: b intro!: emits_return found split: sum.split)
  qed
qed (auto intro!: emits_return)

lemma setStateDesired_full:
  "setStateDesired bl r backup = Inr desired \<Longrightarrow>
   \<exists>sa pod. bsc_serviceAccount desired = Some sa \<and> bsc_pod desired = Some pod"
  by (auto simp: setStateDesired_def Let_def split: sum.splits)

section \<open>When the controller acts\<close>

text \<open>The action a pass may take for the backup and the answers it read, with the event it publishes.\<close>

inductive backup_acts ::
    "'t backup_lib \<Rightarrow> EtcdBackupReconciler \<Rightarrow> EtcdBackup \<Rightarrow> call list \<Rightarrow> Action \<Rightarrow> BackupEvent option \<Rightarrow> bool"
  for bl r backup tr where
  start: "bk_Phase (backup_status backup) = [] \<Longrightarrow>
     backup_acts bl r backup tr (phase_patch backup EtcdBackupPhaseBackingUp) None"
| account: "bk_Phase (backup_status backup) \<notin> {[], EtcdBackupPhaseFailed, EtcdBackupPhaseCompleted} \<Longrightarrow>
     GetServiceAccount (key_of (backup_meta backup)) (Inl NotFound) \<in> set tr \<Longrightarrow>
     setStateDesired bl r backup = Inr desired \<Longrightarrow> bsc_serviceAccount desired = Some sa \<Longrightarrow>
     backup_acts bl r backup tr (CreateRuntimeObject (OServiceAccount sa)) None"
| pod: "bk_Phase (backup_status backup) \<notin> {[], EtcdBackupPhaseFailed, EtcdBackupPhaseCompleted} \<Longrightarrow>
     GetServiceAccount (key_of (backup_meta backup)) (Inr a) \<in> set tr \<Longrightarrow>
     GetPod (key_of (backup_meta backup)) (Inl NotFound) \<in> set tr \<Longrightarrow>
     setStateDesired bl r backup = Inr desired \<Longrightarrow> bsc_pod desired = Some p \<Longrightarrow>
     backup_acts bl r backup tr (CreateRuntimeObject (OPod p)) None"
| agent_failed: "bk_Phase (backup_status backup) \<notin> {[], EtcdBackupPhaseFailed, EtcdBackupPhaseCompleted} \<Longrightarrow>
     GetPod (key_of (backup_meta backup)) (Inr p) \<in> set tr \<Longrightarrow> pod_Phase p = PodFailed \<Longrightarrow>
     backup_acts bl r backup tr (phase_patch backup EtcdBackupPhaseFailed) (Some (BackupFailed (OBackup backup)))"
| agent_succeeded: "bk_Phase (backup_status backup) \<notin> {[], EtcdBackupPhaseFailed, EtcdBackupPhaseCompleted} \<Longrightarrow>
     GetPod (key_of (backup_meta backup)) (Inr p) \<in> set tr \<Longrightarrow> pod_Phase p = PodSucceeded \<Longrightarrow>
     backup_acts bl r backup tr (phase_patch backup EtcdBackupPhaseCompleted) (Some (BackupSucceeded (OBackup backup)))"

lemma nextBackupAction_acts:
  assumes "read_state bl r req state tr"
  shows "(\<exists>ev. nextBackupAction state = Return (None, ev) \<and> ev = None) \<or>
    (\<exists>act ev backup. nextBackupAction state = Return (Some act, ev) \<and> bst_backup state = Some backup \<and>
       GetBackup req (Inr backup) \<in> set tr \<and> DeletionTimestamp (backup_meta backup) = None \<and>
       backup_acts bl r backup tr act ev)"
  using assms
proof cases
  case missing
  then show ?thesis by (simp add: nextBackupAction_def)
next
  case (found sa sa' p p' backup desired)
  obtain dsa dpod where d: "bsc_serviceAccount desired = Some dsa" "bsc_pod desired = Some dpod"
    using setStateDesired_full [OF found(5)] by blast
  show ?thesis
    unfolding found(1,2) nextBackupAction_def Let_def
    using found(3,4,5) d
    by (auto simp: if_found_Inr backup_phase_defs
        intro: backup_acts.intros [unfolded backup_phase_defs] split: option.split)
qed

lemma backup_acts_mono:
  "backup_acts bl r backup tr act ev \<Longrightarrow> set tr \<subseteq> set tr' \<Longrightarrow> backup_acts bl r backup tr' act ev"
  by (erule backup_acts.cases; (fastforce intro: backup_acts.intros))

section \<open>The passes of the handler\<close>

fun call_of :: "Action \<Rightarrow> api_error option \<Rightarrow> call" where
  "call_of (CreateRuntimeObject obj) e = Create obj e"
| "call_of (PatchStatus original new) e = StatusPatch new original e"

lemma is_mutation_call_of [simp]: "is_mutation (call_of act e)" "failed (call_of act e) \<longleftrightarrow> e \<noteq> None"
  by (cases act; simp)+

lemma recorded_call_of: "recorded (call_of act e # tr) = recorded tr"
  by (cases act) simp_all

lemma with_phase_eq [simp]: "backup = with_phase backup p \<longleftrightarrow> bk_Phase (backup_status backup) = p"
proof
  assume eq: "backup = with_phase backup p"
  have "bk_Phase (backup_status (with_phase backup p)) = p" by (simp add: with_phase_def)
  with eq show "bk_Phase (backup_status backup) = p" by simp
qed (auto simp: with_phase_def)

lemma Action_Execute_emits:
  assumes "backup_acts bl r backup tr0 act ev"
  shows "emits (Action_Execute cl act) (\<lambda>err tr. \<exists>e. tr = [call_of act e] \<and> (err = None \<longleftrightarrow> e = None))"
  using assms
  by cases
    (auto simp: CreateRuntimeObject_Execute_def PatchStatus_Execute_def phase_patch_def call_defs
      backup_phase_defs intro!: emits_steps split: option.split)

text \<open>The event of a pass that acted: the one decided, or that an object was created.\<close>

fun event_of :: "EtcdBackup \<Rightarrow> Action \<Rightarrow> BackupEvent option \<Rightarrow> BackupEvent option" where
  "event_of backup (CreateRuntimeObject obj) None = Some (ObjectCreatedEvent (OBackup backup) obj)"
| "event_of backup act ev = ev"

fun published_of :: "(object \<Rightarrow> string + string) \<Rightarrow> BackupEvent \<Rightarrow> event list" where
  "published_of gvk (ObjectCreatedEvent for obj) =
     (case gvk obj of
        Inl _ \<Rightarrow> []
      | Inr kind \<Rightarrow> [mk_event for K8sEventTypeNormal ''SuccessfulCreate''
          (''Created '' @ kind @ '': '' @ Name (object_meta obj))])"
| "published_of gvk (BackupSucceeded for) =
     [mk_event for K8sEventTypeNormal ''BackupSucceeded'' ''Backup completed successfully'']"
| "published_of gvk (BackupFailed for) =
     [mk_event for K8sEventTypeWarning ''BackupFailed'' ''Backup failed. See backup-agent pod logs for details.'']"

definition published_opt :: "(object \<Rightarrow> string + string) \<Rightarrow> BackupEvent option \<Rightarrow> event list" where
  "published_opt gvk ev = (case ev of None \<Rightarrow> [] | Some e \<Rightarrow> published_of gvk e)"

lemma BackupEvent_Record_emits:
  "emits (case ev of None \<Rightarrow> ret () | Some e \<Rightarrow> BackupEvent_Record gvk e) (\<lambda>_ tr. tr = map Recorded (published_opt gvk ev))"
proof (cases ev)
  case (Some e)
  then show ?thesis
    by (cases e) (auto simp: published_opt_def EtcdBackupReasonSucceeded_def EtcdBackupReasonFailed_def
        intro!: emits_return emits_record_event split: sum.split)
qed (simp add: published_opt_def emits_return)

lemma event_of_eq:
  "(case ev of
      None \<Rightarrow> (case act of CreateRuntimeObject obj \<Rightarrow> Some (ObjectCreatedEvent (OBackup backup) obj) | PatchStatus _ _ \<Rightarrow> ev)
    | Some _ \<Rightarrow> ev) = event_of backup act ev"
  by (cases act; cases ev) simp_all

inductive backup_pass ::
    "'t backup_lib \<Rightarrow> EtcdBackupReconciler \<Rightarrow> NamespacedName \<Rightarrow> reconciled \<Rightarrow> call list \<Rightarrow> bool"
  for bl r req where
  unread: "mutations tr = [] \<Longrightarrow> recorded tr = [] \<Longrightarrow>
     backup_pass bl r req (Return (emptyResult, Some err)) tr"
| nothing: "mutations tr = [] \<Longrightarrow> recorded tr = [] \<Longrightarrow> backup_pass bl r req (Return (emptyResult, None)) tr"
| acted: "mutations tr = [] \<Longrightarrow> recorded tr = [] \<Longrightarrow> GetBackup req (Inr backup) \<in> set tr \<Longrightarrow>
     DeletionTimestamp (backup_meta backup) = None \<Longrightarrow> backup_acts bl r backup tr act ev \<Longrightarrow>
     backup_pass bl r req (Return (emptyResult, None))
       (tr @ call_of act None # map Recorded (published_opt (GVKForObject bl) (event_of backup act ev)))"
| refused: "mutations tr = [] \<Longrightarrow> recorded tr = [] \<Longrightarrow> GetBackup req (Inr backup) \<in> set tr \<Longrightarrow>
     DeletionTimestamp (backup_meta backup) = None \<Longrightarrow> backup_acts bl r backup tr act ev \<Longrightarrow>
     backup_pass bl r req (Return (emptyResult, Some err)) (tr @ [call_of act (Some e)])"

lemma read_state_quiet: "read_state bl r req state tr \<Longrightarrow> mutations tr = [] \<and> recorded tr = []"
  by (erule read_state.cases) simp_all

lemma Backup_Reconcile_pass: "emits (Backup_Reconcile bl r cl req) (backup_pass bl r req)"
  unfolding Backup_Reconcile_def
proof (rule emits_bind [OF getState_emits], rule emits_case_sum, goal_cases)
  case (1 st tr err)
  then show ?case by (auto intro!: emits_return unread)
next
  case (2 st tr state)
  then have rs: "read_state bl r req state tr" by simp
  note quiet = read_state_quiet [OF rs]
  consider (idle) "nextBackupAction state = Return (None, None)"
    | (act) act ev backup where "nextBackupAction state = Return (Some act, ev)" "bst_backup state = Some backup"
      "GetBackup req (Inr backup) \<in> set tr" "DeletionTimestamp (backup_meta backup) = None"
      "backup_acts bl r backup tr act ev"
    using nextBackupAction_acts [OF rs] by blast
  then show ?case
  proof cases
    case idle
    then show ?thesis using quiet by (auto intro!: emits_return backup_pass.nothing)
  next
    case act
    show ?thesis
      unfolding act(1,2) outcome.case prod.case option.case Let_def event_of_eq
    proof (rule emits_bind [OF Action_Execute_emits [OF act(5)]], rule emits_case_option, goal_cases)
      case (1 err tr')
      then have "tr' = [call_of act None]" by auto
      then show ?case
        by (auto intro!: emits_bind [OF BackupEvent_Record_emits] emits_return
            acted [OF quiet [THEN conjunct1] quiet [THEN conjunct2] act(3,4,5)])
    next
      case (2 err tr' e)
      then obtain e' where "tr' = [call_of act (Some e')]" by auto
      then show ?case
        by (auto intro!: emits_return refused [OF quiet [THEN conjunct1] quiet [THEN conjunct2] act(3,4,5)])
    qed
  qed
qed

lemma backup_pass_action:
  assumes "backup_pass bl r req out tr"
  shows "mutations tr = [] \<or> (\<exists>act ev backup e. mutations tr = [call_of act e] \<and>
    GetBackup req (Inr backup) \<in> set tr \<and> DeletionTimestamp (backup_meta backup) = None \<and>
    backup_acts bl r backup tr act ev)"
proof -
  show ?thesis
    using assms
  proof cases
    case (acted tr0 backup act ev)
    then have "backup_acts bl r backup tr act ev" by (auto elim: backup_acts_mono)
    with acted show ?thesis by auto
  next
    case (refused tr0 backup act ev err e)
    then have "backup_acts bl r backup tr act ev" by (auto elim: backup_acts_mono)
    with refused show ?thesis by auto
  qed simp_all
qed

lemma backup_acts_phase:
  assumes "backup_acts bl r backup tr act ev" "is_status_write (call_of act e)"
  shows "\<exists>q. call_of act e = StatusPatch (OBackup (with_phase backup q)) (OBackup backup) e \<and>
    phase_step (bk_Phase (backup_status backup)) q"
  using assms by cases (auto simp: phase_patch_def intro: phase_step.intros)

interpretation backup_reconciler: reconciler "Backup_Reconcile bl r cl" for bl r cl
proof
  fix req
  show "at_most_one_action (Backup_Reconcile bl r cl req)"
    unfolding at_most_one_action_def
  proof (rule emits_mono [OF Backup_Reconcile_pass])
    fix out tr assume "backup_pass bl r req out tr"
    from backup_pass_action [OF this] have "length (mutations tr) \<le> 1" by auto
    with length_actions_le [of tr] show "length (actions tr) \<le> 1" by simp
  qed
qed

definition sample_backup :: "string \<Rightarrow> EtcdBackup" where
  "sample_backup phase =
     \<lparr>backup_meta = sample_meta ''b'',
      backup_spec = \<lparr>bk_Source = \<lparr>ClusterURL = ''http://c:2379''\<rparr>, bk_Destination = \<lparr>ObjectURLTemplate = ''s3://b/x''\<rparr>\<rparr>,
      backup_status = \<lparr>bk_Phase = phase, StartTime = None, CompletionTime = None\<rparr>\<rparr>"

definition sample_backup_lib :: "string backup_lib" where
  "sample_backup_lib =
     \<lparr>SetControllerReference = (\<lambda>owner m. Inr (m\<lparr>OwnerReferences :=
        OwnerReferences m @ [\<lparr>or_Kind = ''EtcdBackup'', or_Name = Name owner, or_UID = UID owner, or_Controller = True\<rparr>]\<rparr>)),
      template_Parse = Inr, template_Execute = (\<lambda>t b. Inr t), GVKForObject = (\<lambda>obj. Inr (kind_of obj))\<rparr>"

definition sample_backup_reconciler :: EtcdBackupReconciler where
  "sample_backup_reconciler = \<lparr>BackupAgentImage = ''agent'', bk_ProxyURL = ''proxy:80''\<rparr>"

section \<open>Properties\<close>

text \<open>C18: one pass of the EtcdBackup handler makes at most one change, and it is the one the backup and the
  answers of the same pass call for: the phase is set first; then the service account, when it was
  not found; then the pod, when it was not found but the account was; then the final phase, the one
  that the phase of the pod decides. Nothing is done for a backup that is being deleted or has ended.\<close>

theorem backup_one_justified_action:
  "emits (Backup_Reconcile bl r cl req) (\<lambda>out tr.
     mutations tr = [] \<or> (\<exists>act ev backup e. mutations tr = [call_of act e] \<and>
       GetBackup req (Inr backup) \<in> set tr \<and> DeletionTimestamp (backup_meta backup) = None \<and>
       backup_acts bl r backup tr act ev))"
  by (rule emits_mono [OF Backup_Reconcile_pass backup_pass_action])

text \<open>C12: the life cycle of a backup. The status is written at most once in a pass, on the backup read in that
  pass, and only by a step of the phase machine; every step brings the backup closer to its end, so
  its phase changes at most twice, and an ended backup never changes again.\<close>

theorem backup_phase_machine:
  "emits (Backup_Reconcile bl r cl req) (\<lambda>out tr.
     filter is_status_write tr = [] \<or>
     (\<exists>old q e. filter is_status_write tr = [StatusPatch (OBackup (with_phase old q)) (OBackup old) e] \<and>
        GetBackup req (Inr old) \<in> set tr \<and> phase_step (bk_Phase (backup_status old)) q \<and>
        steps_left q < steps_left (bk_Phase (backup_status old)) \<and> steps_left (bk_Phase (backup_status old)) \<le> 2))"
proof (rule emits_mono [OF Backup_Reconcile_pass])
  fix out tr assume pass: "backup_pass bl r req out tr"
  show "filter is_status_write tr = [] \<or>
     (\<exists>old q e. filter is_status_write tr = [StatusPatch (OBackup (with_phase old q)) (OBackup old) e] \<and>
        GetBackup req (Inr old) \<in> set tr \<and> phase_step (bk_Phase (backup_status old)) q \<and>
        steps_left q < steps_left (bk_Phase (backup_status old)) \<and> steps_left (bk_Phase (backup_status old)) \<le> 2)"
  proof (cases "filter is_status_write tr = []")
    case False
    then obtain act ev backup e where act: "mutations tr = [call_of act e]" "GetBackup req (Inr backup) \<in> set tr"
      "backup_acts bl r backup tr act ev" "is_status_write (call_of act e)"
      using backup_pass_action [OF pass] by (auto simp: status_writes_mutations [of tr] split: if_splits)
    then obtain q where q: "call_of act e = StatusPatch (OBackup (with_phase backup q)) (OBackup backup) e"
      "phase_step (bk_Phase (backup_status backup)) q" using backup_acts_phase by blast
    have "filter is_status_write tr = [StatusPatch (OBackup (with_phase backup q)) (OBackup backup) e]"
      by (simp add: status_writes_mutations [of tr] act(1) q(1))
    moreover have "steps_left (bk_Phase (backup_status backup)) \<le> 2" by (simp add: steps_left_def)
    ultimately show ?thesis using act(2) q(2) phase_step_decreases [OF q(2)] by blast
  qed simp
qed

text \<open>The EtcdBackup handler never panics: it returns, whatever the server answers and whatever the
  template engine and the owner references do.\<close>

lemma backup_never_panics:
  "emits (Backup_Reconcile bl r cl req) (\<lambda>out tr. \<exists>err. out = Return (emptyResult, err))"
  by (rule emits_mono [OF Backup_Reconcile_pass]) (auto elim: backup_pass.cases)

text \<open>A change that failed is returned as an error and no event is published for it; the events that a
  backup succeeded or failed follow a successful write of the corresponding phase in the same pass.\<close>

lemma backup_reports:
  "emits (Backup_Reconcile bl r cl req) (\<lambda>out tr.
     (\<exists>err. out = Return (emptyResult, Some err) \<and> recorded tr = []) \<or>
     (out = Return (emptyResult, None) \<and> list_all (\<lambda>x. \<not> failed x) (mutations tr) \<and>
        (recorded tr = [] \<or>
         (\<exists>backup act ev. mutations tr = [call_of act None] \<and> backup_acts bl r backup tr act ev \<and>
            recorded tr = published_opt (GVKForObject bl) (event_of backup act ev)))))"
proof (rule emits_mono [OF Backup_Reconcile_pass])
  fix out tr assume "backup_pass bl r req out tr"
  then show "(\<exists>err. out = Return (emptyResult, Some err) \<and> recorded tr = []) \<or>
     (out = Return (emptyResult, None) \<and> list_all (\<lambda>x. \<not> failed x) (mutations tr) \<and>
        (recorded tr = [] \<or>
         (\<exists>backup act ev. mutations tr = [call_of act None] \<and> backup_acts bl r backup tr act ev \<and>
            recorded tr = published_opt (GVKForObject bl) (event_of backup act ev))))"
  proof cases
    case (acted tr0 backup act ev)
    then have a: "backup_acts bl r backup tr act ev" by (auto elim: backup_acts_mono)
    have m: "mutations tr = [call_of act None]" using acted by simp
    have "recorded tr = published_opt (GVKForObject bl) (event_of backup act ev)"
      using acted by (simp add: recorded_call_of)
    with a m acted(1) show ?thesis by simp blast
  qed (simp_all add: recorded_call_of)
qed

text \<open>The service account and the pod a backup asks for carry its name and namespace, so the next pass
  finds them where it looks, and the pod runs under that account, given that setting the owner
  reference keeps name and namespace.\<close>

lemma backup_desired_is_looked_up:
  assumes "SetControllerReference_ok bl"
    and "setStateDesired bl r backup = Inr desired"
  shows "\<exists>sa pod. desired = \<lparr>bsc_serviceAccount = Some sa, bsc_pod = Some pod\<rparr> \<and>
    key_of (sa_meta sa) = key_of (backup_meta backup) \<and> key_of (pod_meta pod) = key_of (backup_meta backup) \<and>
    ps_ServiceAccountName (pod_spec pod) = Name (sa_meta sa)"
proof -
  have key: "key_of m' = key_of m" if "SetControllerReference bl owner m = Inr m'" for owner m m'
    using assms(1) that unfolding SetControllerReference_ok_def by blast
  show ?thesis
    using assms(2)
    by (auto simp: setStateDesired_def podForBackup_def serviceAccountForBackup_def Let_def
        split: sum.splits dest!: key) (simp_all add: key_of_def)
qed

end
