(* ===== verification/BackupRuns.thy ===== *)
theory BackupRuns
  imports BackupProps Tracking
begin

text \<open>
  Runs of the EtcdBackup controller: what an API server promises for a backup, its service account and
  its pod, what a pass of the handler does on such a server, and the end of every backup: its final
  phase is the one that its pod calls for.
\<close>

section \<open>What a backup sees\<close>

record bview =
  bv_backup :: EtcdBackup
  bv_account :: bool
  bv_pod :: "Pod option"

abbreviation bv_phase :: "bview \<Rightarrow> EtcdBackupPhase" where
  "bv_phase v \<equiv> bk_Phase (backup_status (bv_backup v))"

text \<open>The account and the pod stay, and a finished pod keeps its phase; others leave the backup alone.\<close>

definition retains :: "bview \<Rightarrow> bview \<Rightarrow> bool" where
  "retains v v' \<longleftrightarrow> (bv_account v \<longrightarrow> bv_account v') \<and>
     (\<forall>p. bv_pod v = Some p \<longrightarrow> (\<exists>q. bv_pod v' = Some q \<and> (finished p \<longrightarrow> pod_Phase q = pod_Phase p)))"

definition bdrifts :: "bview \<Rightarrow> bview \<Rightarrow> bool" where
  "bdrifts v v' \<longleftrightarrow> bv_backup v' = bv_backup v \<and> retains v v'"

lemma retains_refl [simp]: "retains v v"
  by (simp add: retains_def)

lemma retains_trans:
  assumes "retains u v" "retains v w"
  shows "retains u w"
  using assms unfolding retains_def finished_def by (metis option.inject)

section \<open>What the server promises\<close>

text \<open>
  A read tells the truth of the moment; a request that reports an error may or may not have taken
  effect, one that reports none has. A patch between two versions of the backup that differ in their
  phase sets the phase.
\<close>

fun performs :: "NamespacedName \<Rightarrow> call \<Rightarrow> bview \<Rightarrow> bview \<Rightarrow> bool" where
  "performs req (GetBackup k a) v v' \<longleftrightarrow> v' = v \<and>
     (k = req \<longrightarrow> a \<noteq> Inl NotFound \<and> (\<forall>b. a = Inr b \<longrightarrow> b = bv_backup v))"
| "performs req (GetServiceAccount k a) v v' \<longleftrightarrow> v' = v \<and>
     (k = req \<longrightarrow> (a = Inl NotFound \<longrightarrow> \<not> bv_account v) \<and> (\<forall>s. a = Inr s \<longrightarrow> bv_account v))"
| "performs req (GetPod k a) v v' \<longleftrightarrow> v' = v \<and>
     (k = req \<longrightarrow> (a = Inl NotFound \<longrightarrow> bv_pod v = None) \<and> (\<forall>p. a = Inr p \<longrightarrow> bv_pod v = Some p))"
| "performs req (Create (OServiceAccount s) a) v v' \<longleftrightarrow>
     (if key_of (sa_meta s) = req then v' = v \<and> a \<noteq> None \<or> \<not> bv_account v \<and> v' = v\<lparr>bv_account := True\<rparr> else v' = v)"
| "performs req (Create (OPod p) a) v v' \<longleftrightarrow>
     (if key_of (pod_meta p) = req then v' = v \<and> a \<noteq> None \<or> bv_pod v = None \<and> (\<exists>q. v' = v\<lparr>bv_pod := Some q\<rparr>) else v' = v)"
| "performs req (StatusPatch (OBackup new) (OBackup old) a) v v' \<longleftrightarrow>
     (if key_of (backup_meta old) = req
      then v' = v \<and> a \<noteq> None \<or>
        (\<exists>st. v' = v\<lparr>bv_backup := (bv_backup v)\<lparr>backup_status := st\<rparr>\<rparr> \<and>
           (\<forall>q. new = with_phase old q \<longrightarrow> bk_Phase (backup_status old) \<noteq> q \<longrightarrow> bk_Phase st = q))
      else v' = v)"
| "performs req _ v v' \<longleftrightarrow> v' = v"

lemma performs_retains: "performs req x v v' \<Longrightarrow> retains v v'"
  by (cases "(req, x, v, v')" rule: performs.cases) (auto simp: retains_def split: if_splits)

lemma performs_quiet: "performs req x v v' \<Longrightarrow> \<not> is_mutation x \<Longrightarrow> v' = v"
  by (cases x) auto

interpretation backup_server: shared_server bdrifts retains "performs req" for req
  by unfold_locales (auto simp: bdrifts_def intro: retains_trans performs_retains dest: performs_quiet)

abbreviation serves_backup :: "NamespacedName \<Rightarrow> call \<Rightarrow> bview \<Rightarrow> bview \<Rightarrow> bool" where
  "serves_backup req \<equiv> between bdrifts (performs req)"

definition backup_lawful :: "'w client \<Rightarrow> NamespacedName \<Rightarrow> ('w \<Rightarrow> bool) \<Rightarrow> ('w \<Rightarrow> bview) \<Rightarrow> bool" where
  "backup_lawful cl req good view \<longleftrightarrow>
     (\<forall>w. good w \<longrightarrow> key_of (backup_meta (bv_backup (view w))) = req) \<and>
     (\<forall>k. serves (serves_backup req) good view (GetBackup k) (c_get_Backup cl k)) \<and>
     (\<forall>k. serves (serves_backup req) good view (GetServiceAccount k) (c_get_ServiceAccount cl k)) \<and>
     (\<forall>k. serves (serves_backup req) good view (GetPod k) (c_get_Pod cl k)) \<and>
     (\<forall>obj. serves (serves_backup req) good view (Create obj) (c_create cl obj)) \<and>
     (\<forall>new old. serves (serves_backup req) good view (StatusPatch new old) (c_status_patch cl new old))"

section \<open>The handler follows the objects\<close>

lemma backup_lawful_calls:
  assumes "backup_lawful cl req good view"
  shows "tracks (serves_backup req) good view (get_Backup cl k)" "tracks (serves_backup req) good view (get_ServiceAccount cl k)"
    "tracks (serves_backup req) good view (get_Pod cl k)" "tracks (serves_backup req) good view (create cl obj)"
    "tracks (serves_backup req) good view (status_patch cl new old)"
  using assms unfolding backup_lawful_def call_defs by (simp_all add: tracks_call)

lemma BackupEvent_Record_tracks: "tracks (serves_backup req) good view (BackupEvent_Record gvk ev)"
  by (cases ev) (auto intro!: tracks_steps)

lemma Action_Execute_tracks:
  assumes "backup_lawful cl req good view"
  shows "tracks (serves_backup req) good view (Action_Execute cl act)"
  by (cases act) (auto simp: CreateRuntimeObject_Execute_def PatchStatus_Execute_def intro!: tracks_steps backup_lawful_calls [OF assms])

lemma Backup_Reconcile_tracks:
  assumes "backup_lawful cl req good view"
  shows "tracks (serves_backup req) good view (Backup_Reconcile bl r cl k)"
  unfolding Backup_Reconcile_def getState_def setStateActual_def
  by (intro tracks_steps backup_lawful_calls [OF assms] Action_Execute_tracks [OF assms] BackupEvent_Record_tracks)

definition backup_pass_from ::
    "'t backup_lib \<Rightarrow> EtcdBackupReconciler \<Rightarrow> 'w client \<Rightarrow> NamespacedName \<Rightarrow> 'w \<Rightarrow> 'w world" where
  "backup_pass_from bl r cl req w = snd (run_state (Backup_Reconcile bl r cl req) \<lparr>server = w, trace = []\<rparr>)"

lemma backup_pass_run:
  assumes "backup_lawful cl req good view" "good w"
  shows "good (server (backup_pass_from bl r cl req w))"
    "path (serves_backup req) (trace (backup_pass_from bl r cl req w)) (view w) (view (server (backup_pass_from bl r cl req w)))"
    "\<exists>out. backup_pass bl r req out (trace (backup_pass_from bl r cl req w))"
proof -
  show "good (server (backup_pass_from bl r cl req w))"
    "path (serves_backup req) (trace (backup_pass_from bl r cl req w)) (view w) (view (server (backup_pass_from bl r cl req w)))"
    unfolding backup_pass_from_def by (rule tracks_run [OF Backup_Reconcile_tracks [OF assms(1)] assms(2)])+
  show "\<exists>out. backup_pass bl r req out (trace (backup_pass_from bl r cl req w))"
    unfolding backup_pass_from_def by (rule exI, rule emits_run [OF Backup_Reconcile_pass]) simp
qed

section \<open>The effect of a pass\<close>

definition over :: "EtcdBackupPhase \<Rightarrow> bool" where
  "over p \<longleftrightarrow> p = EtcdBackupPhaseFailed \<or> p = EtcdBackupPhaseCompleted"

definition work_left :: "bview \<Rightarrow> nat" where
  "work_left v =
     (if over (bv_phase v) then 0
      else if bv_phase v = [] then 4
      else 1 + (if bv_account v then 0 else 1) + (if bv_pod v = None then 1 else 0))"

lemma work_left_drifts: "bdrifts v v' \<Longrightarrow> work_left v' \<le> work_left v"
  by (auto simp: work_left_def bdrifts_def retains_def)

lemma work_left_simps:
  "work_left v = 0 \<longleftrightarrow> over (bv_phase v)" "bv_phase v = [] \<Longrightarrow> work_left v = 4" "bv_phase v \<noteq> [] \<Longrightarrow> work_left v < 4"
  by (simp_all add: work_left_def over_def backup_phase_defs)

lemma desired_key:
  assumes "SetControllerReference_ok bl" "setStateDesired bl r backup = Inr desired"
  shows "bsc_serviceAccount desired = Some sa \<Longrightarrow> key_of (sa_meta sa) = key_of (backup_meta backup)"
    "bsc_pod desired = Some pod \<Longrightarrow> key_of (pod_meta pod) = key_of (backup_meta backup)"
  using backup_desired_is_looked_up [OF assms] by auto

lemma with_phase_inject [simp]: "with_phase b p = with_phase b q \<longleftrightarrow> p = q"
proof
  assume "with_phase b p = with_phase b q"
  then have "bk_Phase (backup_status (with_phase b p)) = bk_Phase (backup_status (with_phase b q))" by simp
  then show "p = q" by (simp add: with_phase_def)
qed simp

text \<open>Every change gets the backup further, unless it fails, and a final phase is the one that the pod calls for.\<close>

definition judged :: "NamespacedName \<Rightarrow> call list \<Rightarrow> EtcdBackupPhase \<Rightarrow> bool" where
  "judged req tr q \<longleftrightarrow>
     (\<exists>p. GetPod req (Inr p) \<in> set tr \<and>
        (q = EtcdBackupPhaseCompleted \<and> pod_Phase p = PodSucceeded \<or> q = EtcdBackupPhaseFailed \<and> pod_Phase p = PodFailed))"

lemma phase_effect:
  assumes "performs req (call_of (phase_patch b q) e) u u'" "key_of (backup_meta b) = req" "bv_backup u = b" "bv_phase u \<noteq> q"
  obtains "u' = u" "e \<noteq> None" | st where "u' = u\<lparr>bv_backup := b\<lparr>backup_status := st\<rparr>\<rparr>" "bk_Phase st = q"
  using assms unfolding phase_patch_def call_of.simps performs.simps by auto

lemma backup_change_effect:
  assumes ok: "SetControllerReference_ok bl" and act: "backup_acts bl r backup tr act ev"
    and u: "bv_backup u = backup" "key_of (backup_meta backup) = req" and ex: "performs req (call_of act e) u u'"
  shows "work_left u' \<le> work_left u \<and> (e = None \<longrightarrow> work_left u' < work_left u) \<and>
    (\<exists>st. bv_backup u' = backup\<lparr>backup_status := st\<rparr>) \<and> (over (bv_phase u') \<longrightarrow> judged req tr (bv_phase u'))"
proof -
  have same: "\<exists>st. b = b\<lparr>backup_status := st\<rparr>" for b :: EtcdBackup by (rule exI [of _ "backup_status b"]) simp
  have patch: ?thesis if "act = phase_patch backup q" "bv_phase u \<noteq> q" "\<not> over (bv_phase u)"
    "over q \<and> judged req tr q \<or> bv_phase u = [] \<and> q = EtcdBackupPhaseBackingUp" for q
  proof -
    from ex [unfolded that(1)] u(2,1) that(2) show ?thesis
    proof (cases rule: phase_effect)
      case 1
      with that(3) u(1) show ?thesis by (simp add: same)
    next
      case (2 st)
      then have q: "bv_phase u' = q" "\<exists>st. bv_backup u' = backup\<lparr>backup_status := st\<rparr>" by auto
      from that(4) show ?thesis
      proof
        assume "over q \<and> judged req tr q"
        moreover from this that(3) have "work_left u' = 0" "work_left u \<noteq> 0" using q(1) by (simp_all add: work_left_simps)
        ultimately show ?thesis using q by simp
      next
        assume "bv_phase u = [] \<and> q = EtcdBackupPhaseBackingUp"
        moreover from this have "work_left u' < work_left u" "\<not> over q"
          using q(1) work_left_simps(2,3) by (simp_all add: over_def backup_phase_defs)
        ultimately show ?thesis using q by simp
      qed
    qed
  qed
  from act show ?thesis
  proof cases
    case start
    then show ?thesis using u by (intro patch) (auto simp: over_def backup_phase_defs)
  next
    case (account desired sa)
    with u ex desired_key(1) [OF ok account(5,6)] have
      "u' = u \<and> e \<noteq> None \<or> \<not> bv_account u \<and> u' = u\<lparr>bv_account := True\<rparr>" by simp
    then have "work_left u' \<le> work_left u \<and> (e = None \<longrightarrow> work_left u' < work_left u)" "bv_backup u' = bv_backup u"
      using account(3) u by (auto simp: work_left_def over_def)
    moreover have "\<not> over (bv_phase u)" using account(3) u by (simp add: over_def)
    ultimately show ?thesis unfolding u(1) [symmetric] using same by metis
  next
    case (pod a desired p)
    with u ex desired_key(2) [OF ok pod(6,7)] have
      "u' = u \<and> e \<noteq> None \<or> bv_pod u = None \<and> (\<exists>q. u' = u\<lparr>bv_pod := Some q\<rparr>)" by simp
    then have "work_left u' \<le> work_left u \<and> (e = None \<longrightarrow> work_left u' < work_left u)" "bv_backup u' = bv_backup u"
      using pod(3) u by (auto simp: work_left_def over_def)
    moreover have "\<not> over (bv_phase u)" using pod(3) u by (simp add: over_def)
    ultimately show ?thesis unfolding u(1) [symmetric] using same by metis
  next
    case (agent_failed p)
    then show ?thesis using u by (intro patch) (auto simp: over_def judged_def)
  next
    case (agent_succeeded p)
    then show ?thesis using u by (intro patch) (auto simp: over_def judged_def)
  qed
qed

text \<open>A pass leaves everything to others, or makes one change, at some moment, to the backup it read.\<close>

lemma reads_backup:
  assumes "path (serves_backup req) tr v v'" "mutations tr = []" "GetBackup req (Inr backup) \<in> set tr"
  shows "backup = bv_backup v"
proof -
  obtain w where "bdrifts v w" "performs req (GetBackup req (Inr backup)) w w"
    using backup_server.quiet_moment [OF assms] by metis
  then show ?thesis by (simp add: bdrifts_def)
qed

lemma backup_moment:
  assumes pass: "backup_pass bl r req out tr" and path: "path (serves_backup req) tr v v'"
  obtains (quiet) "mutations tr = []" "bdrifts v v'"
  | (change) act ev e u u' where "mutations tr = [call_of act e]" "backup_acts bl r (bv_backup v) tr act ev"
      "bdrifts v u" "performs req (call_of act e) u u'" "bdrifts u' v'"
proof (cases "mutations tr = []")
  case True
  with quiet backup_server.quiet_drift [OF path] show thesis by blast
next
  case False
  with pass obtain tr0 x rest backup act ev e where tr: "tr = tr0 @ rest" "mutations tr0 = []" "GetBackup req (Inr backup) \<in> set tr0"
    "mutations tr = [call_of act e]" "backup_acts bl r backup tr0 act ev"
    by cases auto
  then obtain w where "path (serves_backup req) tr0 v w" using path by (auto simp: path_append)
  then have "backup = bv_backup v" by (rule reads_backup [OF _ tr(2,3)])
  moreover have "backup_acts bl r backup tr act ev" by (rule backup_acts_mono [OF tr(5)]) (simp add: tr(1))
  ultimately show thesis using change [OF tr(4)] backup_server.moment_of_change [OF path tr(4)] by metis
qed

lemma backup_pass_effect:
  assumes ok: "SetControllerReference_ok bl" and pass: "backup_pass bl r req out tr" and path: "path (serves_backup req) tr v v'"
    and key: "key_of (backup_meta (bv_backup v)) = req"
  shows "work_left v' \<le> work_left v" "mutations tr = [x] \<Longrightarrow> \<not> failed x \<Longrightarrow> work_left v' < work_left v"
    "\<exists>st. bv_backup v' = (bv_backup v)\<lparr>backup_status := st\<rparr>"
    "\<not> over (bv_phase v) \<Longrightarrow> over (bv_phase v') \<Longrightarrow> judged req tr (bv_phase v')"
proof -
  have "work_left v' \<le> work_left v \<and> (mutations tr = [x] \<longrightarrow> \<not> failed x \<longrightarrow> work_left v' < work_left v) \<and>
    (\<exists>st. bv_backup v' = (bv_backup v)\<lparr>backup_status := st\<rparr>) \<and>
    (\<not> over (bv_phase v) \<longrightarrow> over (bv_phase v') \<longrightarrow> judged req tr (bv_phase v'))"
    using pass path
  proof (cases rule: backup_moment)
    case quiet
    with work_left_drifts [OF quiet(2)] show ?thesis by (auto simp: bdrifts_def intro: exI [of _ "backup_status (bv_backup v)"])
  next
    case (change act ev e u u')
    have u: "bv_backup u = bv_backup v" "bv_backup v' = bv_backup u'" using change by (simp_all add: bdrifts_def)
    note eff = backup_change_effect [OF ok change(2) u(1) key change(4)]
    from work_left_drifts [OF change(3)] work_left_drifts [OF change(5)] eff change(1) u(2) show ?thesis by auto
  qed
  then show "work_left v' \<le> work_left v" "mutations tr = [x] \<Longrightarrow> \<not> failed x \<Longrightarrow> work_left v' < work_left v"
    "\<exists>st. bv_backup v' = (bv_backup v)\<lparr>backup_status := st\<rparr>"
    "\<not> over (bv_phase v) \<Longrightarrow> over (bv_phase v') \<Longrightarrow> judged req tr (bv_phase v')" by blast+
qed

section \<open>Progress\<close>

fun backup_answered :: "call \<Rightarrow> bool" where
  "backup_answered (GetBackup k a) \<longleftrightarrow> \<not> isl a \<or> a = Inl NotFound"
| "backup_answered (GetServiceAccount k a) \<longleftrightarrow> \<not> isl a \<or> a = Inl NotFound"
| "backup_answered (GetPod k a) \<longleftrightarrow> \<not> isl a \<or> a = Inl NotFound"
| "backup_answered x \<longleftrightarrow> \<not> failed x"

text \<open>Why an answered pass may change nothing.\<close>

definition backup_waits :: "'t backup_lib \<Rightarrow> EtcdBackupReconciler \<Rightarrow> NamespacedName \<Rightarrow> call list \<Rightarrow> bool" where
  "backup_waits bl r req tr \<longleftrightarrow>
     GetBackup req (Inl NotFound) \<in> set tr \<or>
     (\<exists>b. GetBackup req (Inr b) \<in> set tr \<and>
        (DeletionTimestamp (backup_meta b) \<noteq> None \<or> over (bk_Phase (backup_status b)) \<or> isl (setStateDesired bl r b) \<or>
         (\<exists>p. GetPod (key_of (backup_meta b)) (Inr p) \<in> set tr \<and> \<not> finished p)))"

lemma if_found_Inl: "if_found a = Inl err \<Longrightarrow> isl a \<and> a \<noteq> Inl NotFound"
  by (cases a) (auto simp: if_found_def IgnoreNotFound_eq_None split: if_splits)

lemma setStateActual_answered: "emits (setStateActual cl backup) (\<lambda>a tr. list_all backup_answered tr \<longrightarrow> \<not> isl a)"
  unfolding setStateActual_def call_defs Let_def by (intro emits_steps) (auto dest!: if_found_Inl)

lemma waits_undesired: "setStateDesired bl r b = Inl err \<Longrightarrow> GetBackup req (Inr b) \<in> set tr \<Longrightarrow> backup_waits bl r req tr"
  unfolding backup_waits_def by (metis sum.disc(1))

lemma getState_answered:
  "emits (getState bl r cl req) (\<lambda>st tr. list_all backup_answered tr \<longrightarrow> isl st \<longrightarrow> backup_waits bl r req tr)"
  unfolding getState_def get_Backup_def
proof (rule emits_bind_call, rule emits_case_sum, goal_cases)
  case (1 a err)
  then show ?case by (auto intro!: emits_return dest!: if_found_Inl)
next
  case (2 a x)
  then show ?case
    by (cases x)
      (auto intro!: emits_return emits_bind [OF setStateActual_answered] waits_undesired simp: if_found_Inr split: sum.splits)
qed

lemma nextBackupAction_waits:
  assumes "read_state bl r req state tr" "nextBackupAction state = Return (None, ev)"
  shows "backup_waits bl r req tr"
  using assms(1)
proof cases
  case missing
  then show ?thesis by (simp add: backup_waits_def)
next
  case (found sa sa' p p' backup desired)
  obtain dsa dpod where d: "bsc_serviceAccount desired = Some dsa" "bsc_pod desired = Some dpod"
    using setStateDesired_full [OF found(5)] by blast
  show ?thesis
  proof (rule ccontr)
    assume "\<not> ?thesis"
    then have b: "DeletionTimestamp (backup_meta backup) = None" "bk_Phase (backup_status backup) \<noteq> EtcdBackupPhaseFailed"
      "bk_Phase (backup_status backup) \<noteq> EtcdBackupPhaseCompleted" and p: "\<And>pod. p = Inr pod \<Longrightarrow> finished pod"
      unfolding backup_waits_def found(2) over_def by auto
    have "finished pod" if "p' = Some pod" for pod using p found(4) that by (auto simp: if_found_Inr)
    with b d assms(2) show False
      unfolding found(1) by (cases sa'; cases p') (auto simp: nextBackupAction_def Let_def finished_def split: if_splits)
  qed
qed

lemma Backup_Reconcile_waits:
  "emits (Backup_Reconcile bl r cl req) (\<lambda>out tr. mutations tr = [] \<longrightarrow> list_all backup_answered tr \<longrightarrow> backup_waits bl r req tr)"
  unfolding Backup_Reconcile_def
proof (rule emits_bind [OF emits_conj [OF getState_answered getState_emits]], rule emits_case_sum, goal_cases)
  case (1 st tr err)
  then show ?case by (auto intro!: emits_return)
next
  case (2 st tr state)
  then have rs: "read_state bl r req state tr" by simp
  have mono: "backup_waits bl r req (tr @ tr')" if "backup_waits bl r req tr" for tr'
    using that unfolding backup_waits_def by auto
  consider (idle) "nextBackupAction state = Return (None, None)"
    | (act) act ev backup where "nextBackupAction state = Return (Some act, ev)" "bst_backup state = Some backup"
      "backup_acts bl r backup tr act ev"
    using nextBackupAction_acts [OF rs] by blast
  then show ?case
  proof cases
    case idle
    then show ?thesis using nextBackupAction_waits [OF rs idle] by (auto intro!: emits_return)
  next
    case act
    have "emits (Action_Execute cl act) (\<lambda>err tr. mutations tr \<noteq> [])"
      by (rule emits_mono [OF Action_Execute_emits [OF act(3)]]) auto
    then show ?thesis
      unfolding act(1) outcome.case prod.case option.case
      by (rule emits_bind) (auto intro!: emits_case_option emits_Let emits_return emits_bind [OF BackupEvent_Record_emits])
  qed
qed

lemma backup_pass_progress:
  assumes ok: "SetControllerReference_ok bl" and pass: "backup_pass bl r req out tr" and path: "path (serves_backup req) tr v v'"
    and key: "key_of (backup_meta (bv_backup v)) = req" and fine: "list_all backup_answered tr"
    and waits: "mutations tr = [] \<longrightarrow> list_all backup_answered tr \<longrightarrow> backup_waits bl r req tr"
    and new: "\<not> over (bv_phase v)" "DeletionTimestamp (backup_meta (bv_backup v)) = None" "\<not> isl (setStateDesired bl r (bv_backup v))"
    and fin: "\<And>p. bv_pod v = Some p \<Longrightarrow> finished p"
  shows "work_left v' < work_left v \<or> bv_pod v = None \<and> bv_pod v' \<noteq> None"
proof (cases "mutations tr = []")
  case False
  with backup_pass_action [OF pass] obtain x where x: "mutations tr = [x]" by blast
  then have "x \<in> set tr" "is_mutation x" using set_mutations [of tr] by auto
  with fine have "\<not> failed x" by (cases x) (auto simp: list_all_iff)
  with backup_pass_effect(2) [OF ok pass path key x] show ?thesis by simp
next
  case True
  note moment = backup_server.quiet_moment [OF path True]
  have "GetBackup req (Inl NotFound) \<notin> set tr" by (rule notI, erule moment) simp
  with waits True fine obtain b where b: "GetBackup req (Inr b) \<in> set tr" "DeletionTimestamp (backup_meta b) \<noteq> None \<or>
      over (bk_Phase (backup_status b)) \<or> isl (setStateDesired bl r b) \<or>
      (\<exists>p. GetPod (key_of (backup_meta b)) (Inr p) \<in> set tr \<and> \<not> finished p)"
    unfolding backup_waits_def by blast
  from reads_backup [OF path True b(1)] b(2) new key obtain p where p: "GetPod req (Inr p) \<in> set tr" "\<not> finished p" by auto
  from p(1) obtain w where w: "bdrifts v w" "bv_pod w = Some p" "bdrifts w v'" by (rule moment) simp
  have "bv_pod v = None"
  proof (rule ccontr)
    assume "bv_pod v \<noteq> None"
    then obtain q where "bv_pod v = Some q" "finished q" using fin by auto
    with w(1,2) p(2) show False unfolding bdrifts_def retains_def finished_def by fastforce
  qed
  moreover have "bv_pod v' \<noteq> None" using w(2,3) unfolding bdrifts_def retains_def by fastforce
  ultimately show ?thesis by simp
qed

section \<open>Runs\<close>

inductive backup_acts_around ::
    "'t backup_lib \<Rightarrow> EtcdBackupReconciler \<Rightarrow> 'w client \<Rightarrow> NamespacedName \<Rightarrow> ('w \<Rightarrow> bool) \<Rightarrow> ('w \<Rightarrow> bview) \<Rightarrow> 'w \<Rightarrow> 'w \<Rightarrow> bool"
  for bl r cl req good view where
  pass: "backup_acts_around bl r cl req good view s (server (backup_pass_from bl r cl req s))"
| around: "good w \<Longrightarrow> bdrifts (view s) (view w) \<Longrightarrow> backup_acts_around bl r cl req good view s w"

definition backup_run ::
    "'t backup_lib \<Rightarrow> EtcdBackupReconciler \<Rightarrow> 'w client \<Rightarrow> NamespacedName \<Rightarrow> ('w \<Rightarrow> bool) \<Rightarrow> ('w \<Rightarrow> bview) \<Rightarrow> (nat \<Rightarrow> 'w) \<Rightarrow> bool" where
  "backup_run bl r cl req good view f \<longleftrightarrow> good (f 0) \<and> (\<forall>n. backup_acts_around bl r cl req good view (f n) (f (Suc n)))"

text \<open>Answered passes happen again and again, and the pod finishes.\<close>

definition backup_fair ::
    "'t backup_lib \<Rightarrow> EtcdBackupReconciler \<Rightarrow> 'w client \<Rightarrow> NamespacedName \<Rightarrow> ('w \<Rightarrow> bview) \<Rightarrow> (nat \<Rightarrow> 'w) \<Rightarrow> bool" where
  "backup_fair bl r cl req view f \<longleftrightarrow>
     (\<forall>n. \<exists>m \<ge> n. f (Suc m) = server (backup_pass_from bl r cl req (f m)) \<and>
        list_all backup_answered (trace (backup_pass_from bl r cl req (f m)))) \<and>
     (\<forall>n p. bv_pod (view (f n)) = Some p \<longrightarrow> (\<exists>m \<ge> n. \<exists>q. bv_pod (view (f m)) = Some q \<and> finished q))"

text \<open>The backup as it was, up to its status.\<close>

definition still :: "('w \<Rightarrow> bool) \<Rightarrow> ('w \<Rightarrow> bview) \<Rightarrow> EtcdBackup \<Rightarrow> 'w \<Rightarrow> bool" where
  "still good view backup s \<longleftrightarrow> good s \<and> (\<exists>st. bv_backup (view s) = backup\<lparr>backup_status := st\<rparr>)"

lemma backup_step:
  assumes law: "backup_lawful cl req good view" "SetControllerReference_ok bl" and s: "still good view backup s"
    and act: "backup_acts_around bl r cl req good view s s'"
  shows "still good view backup s'" "retains (view s) (view s')" "work_left (view s') \<le> work_left (view s)"
    "over (bv_phase (view s')) \<Longrightarrow> \<not> over (bv_phase (view s)) \<Longrightarrow>
       s' = server (backup_pass_from bl r cl req s) \<and> judged req (trace (backup_pass_from bl r cl req s)) (bv_phase (view s'))"
proof -
  have g: "good s" and key: "key_of (backup_meta (bv_backup (view s))) = req"
    using law(1) s by (auto simp: still_def backup_lawful_def)
  have "still good view backup s' \<and> retains (view s) (view s') \<and> work_left (view s') \<le> work_left (view s) \<and>
    (over (bv_phase (view s')) \<longrightarrow> \<not> over (bv_phase (view s)) \<longrightarrow>
       s' = server (backup_pass_from bl r cl req s) \<and> judged req (trace (backup_pass_from bl r cl req s)) (bv_phase (view s')))"
    using act
  proof cases
    case pass
    note run = backup_pass_run [OF law(1) g, of bl r]
    obtain out where p: "backup_pass bl r req out (trace (backup_pass_from bl r cl req s))" using run(3) by blast
    note eff = backup_pass_effect [OF law(2) p run(2) key]
    from eff(3) s have "still good view backup s'" unfolding still_def pass using run(1) by fastforce
    with eff(1,4) backup_server.path_keep [OF run(2)] show ?thesis unfolding pass by blast
  next
    case around
    with s work_left_drifts [OF around(2)] show ?thesis by (simp add: still_def bdrifts_def)
  qed
  then show "still good view backup s'" "retains (view s) (view s')" "work_left (view s') \<le> work_left (view s)"
    "over (bv_phase (view s')) \<Longrightarrow> \<not> over (bv_phase (view s)) \<Longrightarrow>
       s' = server (backup_pass_from bl r cl req s) \<and> judged req (trace (backup_pass_from bl r cl req s)) (bv_phase (view s'))"
    by blast+
qed

lemma backup_run_steps:
  assumes law: "backup_lawful cl req good view" "SetControllerReference_ok bl" and run: "backup_run bl r cl req good view f"
  shows "still good view (bv_backup (view (f 0))) (f n)" "n \<le> m \<Longrightarrow> retains (view (f n)) (view (f m))"
    "work_left (view (f (Suc n))) \<le> work_left (view (f n))"
proof -
  have act: "backup_acts_around bl r cl req good view (f n) (f (Suc n))" for n using run by (simp add: backup_run_def)
  have still: "still good view (bv_backup (view (f 0))) (f n)" for n
  proof (induction n)
    case 0
    have "bv_backup (view (f 0)) = (bv_backup (view (f 0)))\<lparr>backup_status := backup_status (bv_backup (view (f 0)))\<rparr>" by simp
    then show ?case using run unfolding still_def backup_run_def by blast
  qed (rule backup_step(1) [OF law _ act])
  then show "still good view (bv_backup (view (f 0))) (f n)" .
  note step = backup_step [OF law still act]
  show "work_left (view (f (Suc n))) \<le> work_left (view (f n))" by (rule step(3))
  show "n \<le> m \<Longrightarrow> retains (view (f n)) (view (f m))"
    by (induction rule: dec_induct) (auto intro: retains_trans step(2))
qed

lemma backup_pod_settles:
  assumes law: "backup_lawful cl req good view" "SetControllerReference_ok bl" and run: "backup_run bl r cl req good view f"
    and fair: "backup_fair bl r cl req view f"
  shows "\<exists>M. \<forall>n \<ge> M. (\<forall>p. bv_pod (view (f n)) = Some p \<longrightarrow> finished p) \<and> (bv_pod (view (f n)) = None \<longrightarrow> bv_pod (view (f (Suc n))) = None)"
proof (cases "\<exists>n p. bv_pod (view (f n)) = Some p")
  case True
  then obtain m q where q: "bv_pod (view (f m)) = Some q" "finished q"
    using fair unfolding backup_fair_def by metis
  have "\<exists>p. bv_pod (view (f n)) = Some p \<and> finished p" if "m \<le> n" for n
    using backup_run_steps(2) [OF law run that] q unfolding retains_def finished_def by metis
  then show ?thesis by (metis option.discI option.inject)
next
  case False
  then show ?thesis by (metis not_None_eq)
qed

text \<open>The desired objects can be computed, whatever the status of the backup.\<close>

definition computable :: "'t backup_lib \<Rightarrow> EtcdBackupReconciler \<Rightarrow> EtcdBackup \<Rightarrow> bool" where
  "computable bl r backup \<longleftrightarrow> (\<forall>st. \<not> isl (setStateDesired bl r (backup\<lparr>backup_status := st\<rparr>)))"

lemma backup_ends:
  assumes law: "backup_lawful cl req good view" "SetControllerReference_ok bl" and run: "backup_run bl r cl req good view f"
    and fair: "backup_fair bl r cl req view f" and "DeletionTimestamp (backup_meta (bv_backup (view (f 0)))) = None"
    and "computable bl r (bv_backup (view (f 0)))"
  shows "\<exists>N. over (bv_phase (view (f N)))"
proof (rule descent [where left = "\<lambda>n. work_left (view (f n))"])
  fix n
  show "work_left (view (f (Suc n))) \<le> work_left (view (f n))" by (rule backup_run_steps(3) [OF law run])
  obtain M where M: "\<And>n. M \<le> n \<Longrightarrow> (\<forall>p. bv_pod (view (f n)) = Some p \<longrightarrow> finished p) \<and> (bv_pod (view (f n)) = None \<longrightarrow> bv_pod (view (f (Suc n))) = None)"
    using backup_pod_settles [OF law run fair] by blast
  obtain m where m: "max n M \<le> m" "f (Suc m) = server (backup_pass_from bl r cl req (f m))"
    "list_all backup_answered (trace (backup_pass_from bl r cl req (f m)))"
    using fair unfolding backup_fair_def by blast
  note st = backup_run_steps(1) [OF law run, of m]
  then have g: "good (f m)" and key: "key_of (backup_meta (bv_backup (view (f m)))) = req"
    using law(1) by (auto simp: still_def backup_lawful_def)
  have b: "DeletionTimestamp (backup_meta (bv_backup (view (f m)))) = None" "\<not> isl (setStateDesired bl r (bv_backup (view (f m))))"
    using st assms(5,6) by (auto simp: still_def computable_def)
  obtain out where pass: "backup_pass bl r req out (trace (backup_pass_from bl r cl req (f m)))"
    using backup_pass_run(3) [OF law(1) g] by blast
  have waits: "mutations (trace (backup_pass_from bl r cl req (f m))) = [] \<longrightarrow>
      list_all backup_answered (trace (backup_pass_from bl r cl req (f m))) \<longrightarrow> backup_waits bl r req (trace (backup_pass_from bl r cl req (f m)))"
    unfolding backup_pass_from_def by (rule emits_run [OF Backup_Reconcile_waits]) simp
  have "work_left (view (f (Suc m))) < work_left (view (f m))" if "\<not> over (bv_phase (view (f m)))"
    using backup_pass_progress [OF law(2) pass backup_pass_run(2) [OF law(1) g] key m(3) waits that b] M [of m] m(1,2) by auto
  with m(1) show "\<exists>m \<ge> n. over (bv_phase (view (f m))) \<or> work_left (view (f (Suc m))) < work_left (view (f m))" by auto
qed

section \<open>The end of a run\<close>

lemma over_step:
  assumes law: "backup_lawful cl req good view" and g: "good s" and act: "backup_acts_around bl r cl req good view s s'"
    and over: "over (bv_phase (view s))"
  shows "bv_backup (view s') = bv_backup (view s)"
  using act
proof cases
  case pass
  obtain out where p: "backup_pass bl r req out (trace (backup_pass_from bl r cl req s))" using backup_pass_run(3) [OF law g] by blast
  from p backup_pass_run(2) [OF law g] have "bv_backup (view (server (backup_pass_from bl r cl req s))) = bv_backup (view s)"
  proof (cases rule: backup_moment)
    case (change act ev e u u')
    from change(2) over show ?thesis by cases (auto simp: over_def backup_phase_defs)
  qed (simp add: bdrifts_def)
  then show ?thesis unfolding pass .
qed (simp add: bdrifts_def)

text \<open>The phase and the pod agree on how the backup ended.\<close>

definition settled :: "bview \<Rightarrow> bool" where
  "settled v \<longleftrightarrow>
     (\<exists>p. bv_pod v = Some p \<and>
        (bv_phase v = EtcdBackupPhaseCompleted \<and> pod_Phase p = PodSucceeded \<or>
         bv_phase v = EtcdBackupPhaseFailed \<and> pod_Phase p = PodFailed))"

lemma settled_stays:
  assumes "settled v" "bv_backup v' = bv_backup v" "retains v v'"
  shows "settled v'"
  using assms unfolding settled_def retains_def finished_def by metis

lemma judged_settled:
  assumes "path (serves_backup req) tr v v'" "judged req tr (bv_phase v')"
  shows "settled v'"
proof -
  obtain p where p: "GetPod req (Inr p) \<in> set tr" "bv_phase v' = EtcdBackupPhaseCompleted \<and> pod_Phase p = PodSucceeded \<or>
      bv_phase v' = EtcdBackupPhaseFailed \<and> pod_Phase p = PodFailed" using assms(2) unfolding judged_def by blast
  obtain u u' where "performs req (GetPod req (Inr p)) u u'" "retains u' v'"
    using backup_server.moment_of_read [OF assms(1) p(1)] by metis
  with p(2) show ?thesis unfolding settled_def retains_def finished_def by (metis performs.simps(3))
qed

lemma backup_run_outcome:
  assumes law: "backup_lawful cl req good view" "SetControllerReference_ok bl" and run: "backup_run bl r cl req good view f"
    and fair: "backup_fair bl r cl req view f" and del: "DeletionTimestamp (backup_meta (bv_backup (view (f 0)))) = None"
    and comp: "computable bl r (bv_backup (view (f 0)))" and new: "\<not> over (bv_phase (view (f 0)))"
  shows "\<exists>N. \<forall>n. N \<le> n \<longrightarrow> settled (view (f n)) \<and> bv_backup (view (f n)) = bv_backup (view (f N))"
proof -
  obtain N where "over (bv_phase (view (f N)))" using backup_ends [OF law run fair del comp] by blast
  with new obtain m where m: "\<not> over (bv_phase (view (f m)))" "over (bv_phase (view (f (Suc m))))"
    using ex_least_nat_less [of "\<lambda>n. over (bv_phase (view (f n)))" N] by auto
  have act: "backup_acts_around bl r cl req good view (f n) (f (Suc n))" for n using run by (simp add: backup_run_def)
  have g: "good (f n)" for n using backup_run_steps(1) [OF law run, of n] by (simp add: still_def)
  have start: "settled (view (f (Suc m)))"
    using backup_step(4) [OF law backup_run_steps(1) [OF law run] act m(2,1)] backup_pass_run(2) [OF law(1) g, of bl r m]
    by (metis judged_settled)
  have over: "over (bv_phase v)" if "settled v" for v using that by (auto simp: settled_def over_def)
  have "settled (view (f n)) \<and> bv_backup (view (f n)) = bv_backup (view (f (Suc m)))" if "Suc m \<le> n" for n
    using that
  proof (induction rule: dec_induct)
    case (step n)
    with over_step [OF law(1) g act over] have "bv_backup (view (f (Suc n))) = bv_backup (view (f n))" by blast
    with step(3) settled_stays [OF _ this] backup_run_steps(2) [OF law run, of n "Suc n"] show ?case by simp
  qed (simp add: start)
  then show ?thesis by blast
qed

end
