(* ===== verification/BackupRunProps.thy ===== *)
theory BackupRunProps
  imports BackupRuns
begin

text \<open>
  The end of every backup, as a property of runs, with a small API server and a sample run on it that
  show that the hypotheses can hold.
\<close>

section \<open>A server for one backup\<close>

record bstore =
  bo_backup :: EtcdBackup
  bo_account :: "ServiceAccount option"
  bo_pod :: "Pod option"

definition bstore_view :: "bstore \<Rightarrow> bview" where
  "bstore_view w = \<lparr>bv_backup = bo_backup w, bv_account = (bo_account w \<noteq> None), bv_pod = bo_pod w\<rparr>"

abbreviation bstore_key :: "bstore \<Rightarrow> NamespacedName" where
  "bstore_key w \<equiv> key_of (backup_meta (bo_backup w))"

definition bstore_good :: "NamespacedName \<Rightarrow> bstore \<Rightarrow> bool" where
  "bstore_good req w \<longleftrightarrow> bstore_key w = req"

definition at_key :: "bstore \<Rightarrow> NamespacedName \<Rightarrow> 'a option \<Rightarrow> api_error + 'a" where
  "at_key w k x = (case x of Some y \<Rightarrow> if k = bstore_key w then Inr y else Inl NotFound | None \<Rightarrow> Inl NotFound)"

fun bstore_create :: "object \<Rightarrow> bstore \<Rightarrow> api_error option \<times> bstore" where
  "bstore_create (OServiceAccount s) w =
     (if key_of (sa_meta s) = bstore_key w \<and> bo_account w = None then (None, w\<lparr>bo_account := Some s\<rparr>)
      else (Some AlreadyExists, w))"
| "bstore_create (OPod p) w =
     (if key_of (pod_meta p) = bstore_key w \<and> bo_pod w = None then (None, w\<lparr>bo_pod := Some p\<rparr>)
      else (Some AlreadyExists, w))"
| "bstore_create _ w = (Some (OtherError ''refused''), w)"

fun bstore_status :: "object \<Rightarrow> object \<Rightarrow> bstore \<Rightarrow> api_error option \<times> bstore" where
  "bstore_status (OBackup new) (OBackup old) w =
     (if key_of (backup_meta old) = bstore_key w
      then (None, w\<lparr>bo_backup := (bo_backup w)\<lparr>backup_status := backup_status new\<rparr>\<rparr>)
      else (Some NotFound, w))"
| "bstore_status _ _ w = (Some (OtherError ''refused''), w)"

definition bstore_client :: "bstore client" where
  "bstore_client =
     \<lparr>c_get_Cluster = (\<lambda>k w. (Inl NotFound, w)),
      c_get_Peer = (\<lambda>k w. (Inl NotFound, w)),
      c_get_Backup = (\<lambda>k w. (at_key w k (Some (bo_backup w)), w)),
      c_get_BackupSchedule = (\<lambda>k w. (Inl NotFound, w)),
      c_get_Restore = (\<lambda>k w. (Inl NotFound, w)),
      c_get_Service = (\<lambda>k w. (Inl NotFound, w)),
      c_get_PVC = (\<lambda>k w. (Inl NotFound, w)),
      c_get_ReplicaSet = (\<lambda>k w. (Inl NotFound, w)),
      c_get_Pod = (\<lambda>k w. (at_key w k (bo_pod w), w)),
      c_get_ServiceAccount = (\<lambda>k w. (at_key w k (bo_account w), w)),
      c_list_Peers = (\<lambda>ns n w. (Inr [], w)),
      c_create = bstore_create,
      c_update = (\<lambda>obj w. (Some (OtherError ''refused''), w)),
      c_delete = (\<lambda>obj w. (Some (OtherError ''refused''), w)),
      c_patch = (\<lambda>new base w. (Some (OtherError ''refused''), w)),
      c_status_update = (\<lambda>obj w. (Some (OtherError ''refused''), w)),
      c_status_patch = bstore_status\<rparr>"

lemma bstore_create_performs:
  assumes "bstore_good req w"
  shows "case bstore_create obj w of (a, w') \<Rightarrow>
     bstore_good req w' \<and> performs req (Create obj a) (bstore_view w) (bstore_view w')"
  using assms by (cases "(obj, w)" rule: bstore_create.cases) (auto simp: bstore_good_def bstore_view_def)

lemma bstore_status_performs:
  assumes "bstore_good req w"
  shows "case bstore_status new old w of (a, w') \<Rightarrow>
     bstore_good req w' \<and> performs req (StatusPatch new old a) (bstore_view w) (bstore_view w')"
  using assms
  by (cases "(new, old, w)" rule: bstore_status.cases) (auto simp: bstore_good_def bstore_view_def with_phase_def)

lemma serves_performs:
  assumes "\<And>w. good w \<Longrightarrow> case f w of (a, w') \<Rightarrow> good w' \<and> performs req (log a) (view w) (view w')"
  shows "serves (serves_backup req) good view log f"
  unfolding serves_def using assms backup_server.executed by fastforce

lemma bstore_lawful: "backup_lawful bstore_client req (bstore_good req) bstore_view"
  unfolding backup_lawful_def
proof (intro conjI allI impI serves_performs, goal_cases)
  case (5 obj w)
  then show ?case using bstore_create_performs [where obj = obj and w = w and req = req] by (simp add: bstore_client_def)
next
  case (6 new old w)
  then show ?case using bstore_status_performs [where new = new and old = old and w = w and req = req] by (simp add: bstore_client_def)
qed (auto simp: bstore_client_def bstore_good_def bstore_view_def at_key_def split: option.splits)

section \<open>A sample run\<close>

text \<open>The backup begins, the account and the pod are made, the pod succeeds, and the backup is completed.\<close>

definition backup_key :: NamespacedName where
  "backup_key = key_of (backup_meta (sample_backup []))"

definition sample_backup_pass :: "bstore \<Rightarrow> bstore world" where
  "sample_backup_pass = backup_pass_from sample_backup_lib sample_backup_reconciler bstore_client backup_key"

fun backup_states :: "nat \<Rightarrow> bstore" where
  "backup_states 0 = \<lparr>bo_backup = sample_backup [], bo_account = None, bo_pod = None\<rparr>"
| "backup_states (Suc n) =
     (if n = 3 then (backup_states n)\<lparr>bo_pod := map_option (\<lambda>p. p\<lparr>pod_Phase := PodSucceeded\<rparr>) (bo_pod (backup_states n))\<rparr>
      else server (sample_backup_pass (backup_states n)))"

lemma backup_states_end:
  "let w = backup_states 5; p = sample_backup_pass w in
     server p = w \<and> list_all backup_answered (trace p) \<and> (case bo_pod w of None \<Rightarrow> False | Some pod \<Rightarrow> finished pod) \<and>
     bk_Phase (backup_status (bo_backup w)) = EtcdBackupPhaseCompleted"
  by code_simp

lemma backup_states_stay: "5 \<le> n \<Longrightarrow> backup_states n = backup_states 5"
proof (induction rule: dec_induct)
  case (step n)
  then show ?case using backup_states_end unfolding Let_def backup_states.simps by simp
qed simp

lemma backup_states_run:
  "backup_run sample_backup_lib sample_backup_reconciler bstore_client backup_key (bstore_good backup_key) bstore_view backup_states"
  unfolding backup_run_def
proof (intro conjI allI)
  let ?acts = "backup_acts_around sample_backup_lib sample_backup_reconciler bstore_client backup_key (bstore_good backup_key) bstore_view"
  show "bstore_good backup_key (backup_states 0)" by (simp add: bstore_good_def backup_key_def)
  have "(case bo_pod (backup_states 3) of None \<Rightarrow> True | Some p \<Rightarrow> \<not> finished p) \<and> bstore_key (backup_states 3) = backup_key"
    by code_simp
  then have "?acts (backup_states 3) (backup_states (Suc 3))"
    unfolding backup_states.simps
    by (auto simp: bstore_good_def bdrifts_def retains_def bstore_view_def intro!: backup_acts_around.around split: option.splits)
  moreover have "?acts (backup_states n) (backup_states (Suc n))" if "n \<noteq> 3" for n
    using that backup_acts_around.pass [of sample_backup_lib sample_backup_reconciler bstore_client backup_key "bstore_good backup_key" bstore_view]
    by (simp add: sample_backup_pass_def)
  ultimately show "?acts (backup_states n) (backup_states (Suc n))" for n by metis
qed

lemma sample_reference_ok: "SetControllerReference_ok sample_backup_lib"
  by (auto simp: SetControllerReference_ok_def sample_backup_lib_def key_of_def)

lemma backup_states_fair:
  "backup_fair sample_backup_lib sample_backup_reconciler bstore_client backup_key bstore_view backup_states"
  unfolding backup_fair_def
proof (intro conjI allI impI)
  fix n :: nat
  let ?m = "max n 5"
  have m: "backup_states ?m = backup_states 5" "backup_states (Suc ?m) = backup_states 5"
    by (rule backup_states_stay, simp)+
  show "\<exists>m\<ge>n. backup_states (Suc m) = server (backup_pass_from sample_backup_lib sample_backup_reconciler bstore_client backup_key (backup_states m)) \<and>
      list_all backup_answered (trace (backup_pass_from sample_backup_lib sample_backup_reconciler bstore_client backup_key (backup_states m)))"
    using backup_states_end unfolding Let_def sample_backup_pass_def by (intro exI [of _ ?m]) (simp only: m max.cobounded1 simp_thms)
  have "\<exists>q. bv_pod (bstore_view (backup_states ?m)) = Some q \<and> finished q"
    using backup_states_end unfolding Let_def m(1) by (auto simp: bstore_view_def simp del: backup_states.simps split: option.splits)
  then show "\<exists>m\<ge>n. \<exists>q. bv_pod (bstore_view (backup_states m)) = Some q \<and> finished q"
    using max.cobounded1 by blast
qed

lemma sample_computable: "computable sample_backup_lib sample_backup_reconciler (sample_backup p)"
  by (simp add: computable_def setStateDesired_def podForBackup_def sample_backup_lib_def Let_def)

section \<open>Properties\<close>

text \<open>C7: every backup ends as its pod does. On a server that keeps its promises, with other programs at work that
  remove nothing and leave the backup alone, if passes in which every request is answered happen
  again and again and the pod of the backup finishes sometime, then a backup that is not being
  deleted and whose template can be expanded ends, and from then on its status stays: Completed with
  a pod that succeeded, or Failed with a pod that failed.\<close>

theorem backup_converges:
  assumes "backup_lawful cl req good view" "SetControllerReference_ok bl" "backup_run bl r cl req good view f"
    and "backup_fair bl r cl req view f" "DeletionTimestamp (backup_meta (bv_backup (view (f 0)))) = None"
    and "computable bl r (bv_backup (view (f 0)))" "\<not> over (bv_phase (view (f 0)))"
  shows "\<exists>N. \<forall>n. N \<le> n \<longrightarrow> settled (view (f n)) \<and> bv_backup (view (f n)) = bv_backup (view (f N))"
  by (rule backup_run_outcome [OF assms])

theorem backup_converges_witness:
  "\<exists>N. \<forall>n. N \<le> n \<longrightarrow> settled (bstore_view (backup_states n)) \<and>
     bv_backup (bstore_view (backup_states n)) = bv_backup (bstore_view (backup_states N))"
proof (rule backup_converges [OF bstore_lawful sample_reference_ok backup_states_run backup_states_fair])
  have start: "bv_backup (bstore_view (backup_states 0)) = sample_backup []" by (simp add: bstore_view_def)
  show "DeletionTimestamp (backup_meta (bv_backup (bstore_view (backup_states 0)))) = None"
    "\<not> over (bv_phase (bstore_view (backup_states 0)))"
    unfolding start by code_simp+
  show "computable sample_backup_lib sample_backup_reconciler (bv_backup (bstore_view (backup_states 0)))"
    unfolding start by (rule sample_computable)
qed

end
