(* ===== verification/ScheduleController.thy ===== *)
theory ScheduleController
  imports Events
begin

text \<open>
  The EtcdBackupSchedule controller (\<open>controllers/etcdbackupschedule_controller.go\<close>): the map from
  schedules to the entries of the cron scheduler, kept in memory and passed explicitly here, the
  handler, and the function a cron entry runs. Each operation of the map holds its lock from
  beginning to end, so the operations are atomic and are functions here.
\<close>

section \<open>The schedule map\<close>

record Schedule =
  cronEntry :: nat

record ScheduleMap =
  sm_data :: "(string \<times> Schedule) list"

definition NewScheduleMap :: ScheduleMap where
  "NewScheduleMap = \<lparr>sm_data = []\<rparr>"

definition ScheduleMap_Read :: "ScheduleMap \<Rightarrow> string \<Rightarrow> Schedule option" where
  "ScheduleMap_Read s k = map_of (sm_data s) k"

definition ScheduleMap_Write :: "ScheduleMap \<Rightarrow> string \<Rightarrow> Schedule \<Rightarrow> ScheduleMap" where
  "ScheduleMap_Write s k v = s\<lparr>sm_data := AList.update k v (sm_data s)\<rparr>"

definition ScheduleMap_Delete :: "ScheduleMap \<Rightarrow> string \<Rightarrow> ScheduleMap" where
  "ScheduleMap_Delete s k = s\<lparr>sm_data := AList.delete k (sm_data s)\<rparr>"

text \<open>
  What the handler relies on: reads see the last write or deletion of the key and nothing else. The
  entries of the map are tracked through writes and deletions once and for all.
\<close>

locale schedule_store =
  fixes New :: 's
    and Read :: "'s \<Rightarrow> string \<Rightarrow> Schedule option"
    and Write :: "'s \<Rightarrow> string \<Rightarrow> Schedule \<Rightarrow> 's"
    and Delete :: "'s \<Rightarrow> string \<Rightarrow> 's"
  assumes Read_New: "Read New k = None"
    and Read_Write: "Read (Write s k v) k' = (if k' = k then Some v else Read s k')"
    and Read_Delete: "Read (Delete s k) k' = (if k' = k then None else Read s k')"
begin

definition entries :: "'s \<Rightarrow> nat set" where
  "entries s = {cronEntry v |v k. Read s k = Some v}"

definition one_each :: "'s \<Rightarrow> bool" where
  "one_each s \<longleftrightarrow>
     (\<forall>k k' v v'. Read s k = Some v \<longrightarrow> Read s k' = Some v' \<longrightarrow> cronEntry v = cronEntry v' \<longrightarrow> k = k')"

lemma entries_New: "entries New = {}" "one_each New"
  by (simp_all add: entries_def one_each_def Read_New)

lemma entries_Write:
  assumes "Read s k = None"
  shows "entries (Write s k v) = insert (cronEntry v) (entries s)"
proof -
  have "k' \<noteq> k" if "Read s k' = Some w" for k' w using assms that by auto
  then show ?thesis unfolding entries_def Read_Write by (auto split: if_splits; metis)
qed

lemma one_each_Write:
  assumes "one_each s" "cronEntry v \<notin> entries s"
  shows "one_each (Write s k v)"
  using assms unfolding one_each_def entries_def by (auto simp: Read_Write)

lemma entries_Delete:
  assumes "one_each s" "Read s k = Some v"
  shows "entries (Delete s k) = entries s - {cronEntry v}"
proof
  show "entries (Delete s k) \<subseteq> entries s - {cronEntry v}"
    using assms unfolding one_each_def entries_def by (auto simp: Read_Delete split: if_splits)
  show "entries s - {cronEntry v} \<subseteq> entries (Delete s k)"
  proof
    fix i assume "i \<in> entries s - {cronEntry v}"
    then obtain w k' where w: "i = cronEntry w" "Read s k' = Some w" "k' \<noteq> k"
      using assms(2) unfolding entries_def by fastforce
    then have "Read (Delete s k) k' = Some w" by (simp add: Read_Delete)
    with w(1) show "i \<in> entries (Delete s k)" unfolding entries_def by blast
  qed
qed

lemma one_each_Delete: "one_each s \<Longrightarrow> one_each (Delete s k)"
  unfolding one_each_def by (auto simp: Read_Delete split: if_splits)

end

interpretation schedule_map: schedule_store NewScheduleMap ScheduleMap_Read ScheduleMap_Write ScheduleMap_Delete
  by unfold_locales
    (simp_all add: NewScheduleMap_def ScheduleMap_Read_def ScheduleMap_Write_def ScheduleMap_Delete_def
      delete_conv')

section \<open>The cron scheduler\<close>

text \<open>
  \<open>CronScheduler\<close> is a parameter. The function handed to \<open>AddFunc\<close> is identified by the request
  it fires for.
\<close>

record 'w cron =
  cron_AddFunc :: "string \<Rightarrow> NamespacedName \<Rightarrow> 'w \<Rightarrow> (string + nat) \<times> 'w"
  cron_Remove :: "nat \<Rightarrow> 'w \<Rightarrow> unit \<times> 'w"

definition AddFunc where "AddFunc cr spec k = call (CronAddFunc spec k) (cron_AddFunc cr spec k)"
definition Remove where "Remove cr i = call (\<lambda>_. CronRemove i) (cron_Remove cr i)"

lemmas cron_calls [call_defs] = AddFunc_def Remove_def

section \<open>The handler\<close>

definition with_finalizers :: "EtcdBackupSchedule \<Rightarrow> string list \<Rightarrow> EtcdBackupSchedule" where
  "with_finalizers s fs = s\<lparr>schedule_meta := (schedule_meta s)\<lparr>Finalizers := fs\<rparr>\<rparr>"

definition Schedule_Reconcile ::
    "'w client \<Rightarrow> 'w cron \<Rightarrow> ScheduleMap \<Rightarrow> NamespacedName \<Rightarrow>
     ('w, (Result \<times> go_error option) \<times> ScheduleMap) io" where
  "Schedule_Reconcile cl cr schedules req = do {
     r \<leftarrow> get_BackupSchedule cl req;
     case r of
       Inl err \<Rightarrow> ret ((emptyResult, map_option ApiError (IgnoreNotFound (Some err))), schedules)
     | Inr resource \<Rightarrow>
         (let finalizers = Finalizers (schedule_meta resource);
              finalizerIsSet = list_ex (\<lambda>f. f = scheduleCancelFinalizer) finalizers
          in if \<not> finalizerIsSet then do {
               err \<leftarrow> update cl (OBackupSchedule
                 (with_finalizers resource (finalizers @ [scheduleCancelFinalizer])));
               ret ((emptyResult, map_option ApiError err), schedules)
             }
             else
               (case ScheduleMap_Read schedules (UID (schedule_meta resource)) of
                  None \<Rightarrow> do {
                    r' \<leftarrow> AddFunc cr (sc_Schedule (schedule_spec resource)) req;
                    ret (case r' of
                           Inl err \<Rightarrow> ((emptyResult, Some (NewError err)), schedules)
                         | Inr i \<Rightarrow>
                             ((emptyResult, None),
                              ScheduleMap_Write schedules (UID (schedule_meta resource)) \<lparr>cronEntry = i\<rparr>))
                  }
                | Some schedule \<Rightarrow>
                    if DeletionTimestamp (schedule_meta resource) \<noteq> None then do {
                      Remove cr (cronEntry schedule);
                      err \<leftarrow> update cl (OBackupSchedule
                        (with_finalizers resource (filter (\<lambda>f. f \<noteq> scheduleCancelFinalizer) finalizers)));
                      ret ((emptyResult, map_option ApiError err),
                           ScheduleMap_Delete schedules (UID (schedule_meta resource)))
                    }
                    else ret ((emptyResult, None), schedules)))
   }"

section \<open>What a cron entry runs\<close>

definition backupForSchedule :: "lib \<Rightarrow> EtcdBackupSchedule \<Rightarrow> EtcdBackup" where
  "backupForSchedule l resource =
     \<lparr>backup_meta = emptyMeta
        \<lparr>GenerateName := Name (schedule_meta resource) @ ''-'',
         Namespace := Namespace (schedule_meta resource),
         OwnerReferences := [NewControllerRef l (schedule_meta resource) ''EtcdBackupSchedule''],
         Labels := [(scheduleLabel, Name (schedule_meta resource))]\<rparr>,
      backup_spec = BackupTemplate (schedule_spec resource),
      backup_status = \<lparr>bk_Phase = [], StartTime = None, CompletionTime = None\<rparr>\<rparr>"

definition fire :: "lib \<Rightarrow> 'w client \<Rightarrow> NamespacedName \<Rightarrow> ('w, go_error option) io" where
  "fire l cl resourceNamespacedName = do {
     r \<leftarrow> get_BackupSchedule cl resourceNamespacedName;
     case r of
       Inl err \<Rightarrow> ret (map_option ApiError (IgnoreNotFound (Some err)))
     | Inr resource \<Rightarrow> do {
         err \<leftarrow> create cl (OBackup (backupForSchedule l resource));
         ret (map_option ApiError err)
       }
   }"

end
