(* ===== verification/ScheduleProps.thy ===== *)
theory ScheduleProps
  imports ScheduleController MemServer
begin

text \<open>
  Correctness of the EtcdBackupSchedule controller: what one pass does, that the map and the cron
  scheduler agree over any sequence of passes, and what a cron entry creates.
\<close>

section \<open>One pass\<close>

definition protected :: "EtcdBackupSchedule \<Rightarrow> bool" where
  "protected s \<longleftrightarrow> scheduleCancelFinalizer \<in> set (Finalizers (schedule_meta s))"

abbreviation schedule_UID :: "EtcdBackupSchedule \<Rightarrow> string" where
  "schedule_UID s \<equiv> UID (schedule_meta s)"

text \<open>The calls of one pass and the map after it.\<close>

inductive schedule_pass ::
    "NamespacedName \<Rightarrow> ScheduleMap \<Rightarrow> Result \<times> go_error option \<Rightarrow> ScheduleMap \<Rightarrow> call list \<Rightarrow> bool"
  for req m where
  gone: "schedule_pass req m (emptyResult, map_option ApiError (IgnoreNotFound (Some err))) m
     [GetBackupSchedule req (Inl err)]"
| protects: "\<not> protected s \<Longrightarrow>
     s' = with_finalizers s (Finalizers (schedule_meta s) @ [scheduleCancelFinalizer]) \<Longrightarrow>
     schedule_pass req m (emptyResult, map_option ApiError e) m
       [GetBackupSchedule req (Inr s), Update (OBackupSchedule s') e]"
| refused: "protected s \<Longrightarrow> ScheduleMap_Read m (schedule_UID s) = None \<Longrightarrow>
     schedule_pass req m (emptyResult, Some (NewError msg)) m
       [GetBackupSchedule req (Inr s), CronAddFunc (sc_Schedule (schedule_spec s)) req (Inl msg)]"
| registers: "protected s \<Longrightarrow> ScheduleMap_Read m (schedule_UID s) = None \<Longrightarrow>
     schedule_pass req m (emptyResult, None) (ScheduleMap_Write m (schedule_UID s) \<lparr>cronEntry = i\<rparr>)
       [GetBackupSchedule req (Inr s), CronAddFunc (sc_Schedule (schedule_spec s)) req (Inr i)]"
| cancels: "protected s \<Longrightarrow> ScheduleMap_Read m (schedule_UID s) = Some v \<Longrightarrow>
     DeletionTimestamp (schedule_meta s) = Some t \<Longrightarrow>
     s' = with_finalizers s (filter (\<lambda>f. f \<noteq> scheduleCancelFinalizer) (Finalizers (schedule_meta s))) \<Longrightarrow>
     schedule_pass req m (emptyResult, map_option ApiError e) (ScheduleMap_Delete m (schedule_UID s))
       [GetBackupSchedule req (Inr s), CronRemove (cronEntry v), Update (OBackupSchedule s') e]"
| rests: "protected s \<Longrightarrow> ScheduleMap_Read m (schedule_UID s) = Some v \<Longrightarrow>
     DeletionTimestamp (schedule_meta s) = None \<Longrightarrow>
     schedule_pass req m (emptyResult, None) m [GetBackupSchedule req (Inr s)]"

lemma protected_list_ex: "list_ex (\<lambda>f. f = scheduleCancelFinalizer) (Finalizers (schedule_meta s)) = protected s"
  by (auto simp: protected_def list_ex_iff)

lemma Schedule_Reconcile_pass:
  "emits (Schedule_Reconcile cl cr m req) (\<lambda>r tr. schedule_pass req m (fst r) (snd r) tr)"
  unfolding Schedule_Reconcile_def call_defs Let_def protected_list_ex
  by (intro emits_steps) (auto intro: schedule_pass.intros split: sum.split)

section \<open>The map and the scheduler\<close>

text \<open>The entries a trace has added to and removed from the scheduler.\<close>

definition added :: "call list \<Rightarrow> nat list" where
  "added tr = List.map_filter (\<lambda>c. case c of CronAddFunc _ _ (Inr i) \<Rightarrow> Some i | _ \<Rightarrow> None) tr"

definition removed :: "call list \<Rightarrow> nat list" where
  "removed tr = List.map_filter (\<lambda>c. case c of CronRemove i \<Rightarrow> Some i | _ \<Rightarrow> None) tr"

lemma added_removed_simps [simp]:
  "added [] = []" "added (tr @ tr') = added tr @ added tr'" "removed [] = []"
  "removed (tr @ tr') = removed tr @ removed tr'"
  "added (CronAddFunc s k (Inr i) # tr) = i # added tr" "added (CronAddFunc s k (Inl e) # tr) = added tr"
  "added (GetBackupSchedule k r # tr) = added tr" "added (Update obj u # tr) = added tr"
  "added (CronRemove i # tr) = added tr" "removed (CronRemove i # tr) = i # removed tr"
  "removed (GetBackupSchedule k r # tr) = removed tr" "removed (Update obj u # tr) = removed tr"
  "removed (CronAddFunc s k a # tr) = removed tr"
  by (simp_all add: added_def removed_def map_filter_def)

text \<open>The live entries are those of the map, and no two schedules share one.\<close>

definition in_sync :: "ScheduleMap \<Rightarrow> nat list \<Rightarrow> nat list \<Rightarrow> bool" where
  "in_sync m A R \<longleftrightarrow> schedule_map.entries m = set A - set R \<and> schedule_map.one_each m"

lemma schedule_pass_in_sync:
  assumes "schedule_pass req m out m' tr" "in_sync m A R" "set R \<subseteq> set A" "distinct (A @ added tr)"
  shows "in_sync m' (A @ added tr) (R @ removed tr) \<and> set (R @ removed tr) \<subseteq> set (A @ added tr)"
  using assms
proof cases
  case (registers s i)
  then have "i \<notin> schedule_map.entries m" using assms(2,4) by (auto simp: in_sync_def)
  with registers assms(2-4) show ?thesis
    by (auto simp: in_sync_def schedule_map.entries_Write schedule_map.one_each_Write)
next
  case (cancels s v t s' e)
  have "cronEntry v \<in> schedule_map.entries m"
    using cancels(5) unfolding schedule_map.entries_def by blast
  with cancels assms(2-4) show ?thesis
    by (auto simp: in_sync_def schedule_map.entries_Delete schedule_map.one_each_Delete)
qed (simp_all add: in_sync_def)

text \<open>Passes one after the other, each on the map the last one left.\<close>

fun run_schedules ::
    "'w client \<Rightarrow> 'w cron \<Rightarrow> ScheduleMap \<Rightarrow> NamespacedName list \<Rightarrow> ('w, ScheduleMap) io" where
  "run_schedules cl cr m [] = ret m"
| "run_schedules cl cr m (req # reqs) = do {
     r \<leftarrow> Schedule_Reconcile cl cr m req;
     run_schedules cl cr (snd r) reqs
   }"

lemma run_schedules_grows: "emits (run_schedules cl cr m reqs) (\<lambda>_ _. True)"
  by (induction reqs arbitrary: m)
    (auto intro!: emits_return intro: emits_bind [OF Schedule_Reconcile_pass])

lemma run_schedules_in_sync:
  assumes "in_sync m A R" "set R \<subseteq> set A"
  shows "emits (run_schedules cl cr m reqs) (\<lambda>m' tr.
    distinct (A @ added tr) \<longrightarrow> in_sync m' (A @ added tr) (R @ removed tr))"
  using assms
proof (induction reqs arbitrary: m A R)
  case Nil
  then show ?case by (simp add: emits_return)
next
  case (Cons req reqs)
  show ?case
    unfolding run_schedules.simps
  proof (rule emits_bind [OF Schedule_Reconcile_pass], goal_cases)
    case (1 r tr)
    show ?case
    proof (cases "distinct (A @ added tr)")
      case True
      note ok = schedule_pass_in_sync [OF 1 Cons.prems True]
      show ?thesis
        by (rule emits_mono [OF Cons.IH [OF ok [THEN conjunct1] ok [THEN conjunct2]]]) simp
    next
      case False
      then show ?thesis by (intro emits_mono [OF run_schedules_grows]) auto
    qed
  qed
qed

section \<open>Samples\<close>

definition sample_schedule :: "string list \<Rightarrow> nat option \<Rightarrow> EtcdBackupSchedule" where
  "sample_schedule fs del =
     \<lparr>schedule_meta = (sample_meta ''s'')\<lparr>Finalizers := fs, DeletionTimestamp := del\<rparr>,
      schedule_spec =
        \<lparr>sc_Schedule = ''@daily'',
         BackupTemplate =
           \<lparr>bk_Source = \<lparr>ClusterURL = ''http://c:2379''\<rparr>, bk_Destination = \<lparr>ObjectURLTemplate = ''s3://b/x''\<rparr>\<rparr>\<rparr>\<rparr>"

text \<open>A scheduler that numbers its entries by the length of the object list; it accepts every schedule.\<close>

definition sample_cron :: "mem cron" where
  "sample_cron = \<lparr>cron_AddFunc = (\<lambda>spec k w. (Inr (length (objects w)), w)), cron_Remove = (\<lambda>i w. ((), w))\<rparr>"

definition sample_req :: NamespacedName where
  "sample_req = \<lparr>nn_Namespace = ''default'', nn_Name = ''s''\<rparr>"

section \<open>Properties\<close>

text \<open>C13: over any sequence of passes on any schedules, starting from the empty map, the entries of the map are
  exactly the cron entries added and not yet removed, and no two schedules share an entry, provided
  that the scheduler never hands out the same entry number twice.\<close>

theorem schedules_in_sync:
  "emits (run_schedules cl cr NewScheduleMap reqs) (\<lambda>m tr.
     distinct (added tr) \<longrightarrow>
       {cronEntry v |v k. ScheduleMap_Read m k = Some v} = set (added tr) - set (removed tr) \<and>
       (\<forall>k k' v v'. ScheduleMap_Read m k = Some v \<longrightarrow> ScheduleMap_Read m k' = Some v' \<longrightarrow>
          cronEntry v = cronEntry v' \<longrightarrow> k = k'))"
proof (rule emits_mono [OF run_schedules_in_sync])
  show "in_sync NewScheduleMap [] []" by (simp add: in_sync_def schedule_map.entries_New)
qed (simp_all add: in_sync_def schedule_map.entries_def schedule_map.one_each_def)

theorem schedules_in_sync_witness:
  "let s = run_state (run_schedules mem_client sample_cron NewScheduleMap [sample_req, sample_req])
       (mem_world [OBackupSchedule (sample_schedule [] None)] None)
   in added (trace (snd s)) = [1] \<and> removed (trace (snd s)) = [] \<and>
      {cronEntry v |v k. ScheduleMap_Read (fst s) k = Some v} = {1}"
proof -
  let ?m = "run_schedules mem_client sample_cron NewScheduleMap [sample_req, sample_req]"
  let ?s0 = "mem_world [OBackupSchedule (sample_schedule [] None)] None"
  define run where "run = run_state ?m ?s0"
  have tr: "added (trace (snd run)) = [1]" "removed (trace (snd run)) = []"
    unfolding run_def by code_simp+
  have "trace ?s0 = []" by (simp add: mem_world_def)
  from emits_run [OF schedules_in_sync [of mem_client sample_cron "[sample_req, sample_req]"] this] have
    "{cronEntry v |v k. ScheduleMap_Read (fst run) k = Some v} = set (added (trace (snd run))) - set (removed (trace (snd run)))"
    unfolding run_def [symmetric] tr by simp
  with tr show ?thesis unfolding run_def [symmetric] Let_def by simp
qed

text \<open>A schedule is registered with the scheduler only if it carries the cancel finalizer and is not in the
  map, and it then is; its entry is removed only for a schedule that is being deleted, and only the
  entry the map has for it, before the finalizer is given up; the finalizer is given up in no other
  way.\<close>

lemma schedule_registers_and_cancels:
  "emits (Schedule_Reconcile cl cr m req) (\<lambda>r tr. \<exists>a. hd tr = GetBackupSchedule req a \<and>
     (case a of
        Inl _ \<Rightarrow> mutations tr = [] \<and> snd r = m
      | Inr s \<Rightarrow>
          (mutations tr = [] \<and> snd r = m) \<or>
          (\<exists>s' e. mutations tr = [Update (OBackupSchedule s') e] \<and> \<not> protected s \<and> protected s' \<and> snd r = m) \<or>
          (\<exists>spec x. mutations tr = [CronAddFunc spec req x] \<and> protected s \<and>
             ScheduleMap_Read m (schedule_UID s) = None \<and>
             map_option cronEntry (ScheduleMap_Read (snd r) (schedule_UID s)) = (case x of Inl _ \<Rightarrow> None | Inr i \<Rightarrow> Some i)) \<or>
          (\<exists>v t s' e. mutations tr = [CronRemove (cronEntry v), Update (OBackupSchedule s') e] \<and>
             ScheduleMap_Read m (schedule_UID s) = Some v \<and> DeletionTimestamp (schedule_meta s) = Some t \<and>
             protected s \<and> \<not> protected s' \<and> ScheduleMap_Read (snd r) (schedule_UID s) = None)))"
proof (rule emits_mono [OF Schedule_Reconcile_pass], goal_cases)
  case (1 r tr)
  then show ?case
    by cases
      (auto simp: protected_def with_finalizers_def schedule_map.Read_Write schedule_map.Read_Delete)
qed

text \<open>A cron entry creates one EtcdBackup from the template of the schedule as it is then, in the namespace
  of the schedule, labelled with it and owned by it, or nothing if the schedule is gone; any failure
  is returned.\<close>

lemma fire_creates_backup:
  "emits (fire l cl k) (\<lambda>err tr.
     (tr = [GetBackupSchedule k (Inl NotFound)] \<and> err = None) \<or>
     (\<exists>e. tr = [GetBackupSchedule k (Inl e)] \<and> err = Some (ApiError e)) \<or>
     (\<exists>s b e. tr = [GetBackupSchedule k (Inr s), Create (OBackup b) e] \<and> err = map_option ApiError e \<and>
        backup_spec b = BackupTemplate (schedule_spec s) \<and> bk_Phase (backup_status b) = [] \<and>
        Namespace (backup_meta b) = Namespace (schedule_meta s) \<and>
        GenerateName (backup_meta b) = Name (schedule_meta s) @ ''-'' \<and>
        map_of (Labels (backup_meta b)) scheduleLabel = Some (Name (schedule_meta s)) \<and>
        OwnerReferences (backup_meta b) = [NewControllerRef l (schedule_meta s) ''EtcdBackupSchedule'']))"
proof -
  have ignore: "IgnoreNotFound (Some e) = (if e = NotFound then None else Some e)" for e
    by (cases e) simp_all
  show ?thesis
    unfolding fire_def call_defs ignore
    by (intro emits_steps) (auto simp: backupForSchedule_def)
qed

text \<open>C36: a schedule that is being deleted but is not in the map, as after a restart of the operator, is
  registered with the scheduler instead of being released: the pass makes one call to the scheduler,
  keeps the finalizer and asks for no further pass.\<close>

theorem deleted_schedule_registered_after_restart:
  assumes "scheduleCancelFinalizer \<in> set (Finalizers (schedule_meta s))"
    and "DeletionTimestamp (schedule_meta s) = Some t"
    and "ScheduleMap_Read m (UID (schedule_meta s)) = None"
  shows "emits (Schedule_Reconcile cl cr m req) (\<lambda>r tr. hd tr = GetBackupSchedule req (Inr s) \<longrightarrow>
     (\<exists>a. tl tr = [CronAddFunc (sc_Schedule (schedule_spec s)) req a] \<and> fst (fst r) = emptyResult))"
proof (rule emits_mono [OF Schedule_Reconcile_pass], goal_cases)
  case (1 r tr)
  then show ?case by cases (use assms in \<open>auto simp: protected_def\<close>)
qed

theorem deleted_schedule_registered_after_restart_witness:
  "\<exists>a. tl (trace (snd (run_state (Schedule_Reconcile mem_client sample_cron NewScheduleMap sample_req)
     (mem_world [OBackupSchedule (sample_schedule [scheduleCancelFinalizer] (Some 7))] None)))) =
   [CronAddFunc (sc_Schedule (schedule_spec (sample_schedule [scheduleCancelFinalizer] (Some 7)))) sample_req a]"
proof -
  let ?s = "sample_schedule [scheduleCancelFinalizer] (Some 7)"
  let ?run = "run_state (Schedule_Reconcile mem_client sample_cron NewScheduleMap sample_req)
      (mem_world [OBackupSchedule ?s] None)"
  have "emits (Schedule_Reconcile mem_client sample_cron NewScheduleMap sample_req) (\<lambda>r tr.
      hd tr = GetBackupSchedule sample_req (Inr ?s) \<longrightarrow>
      (\<exists>a. tl tr = [CronAddFunc (sc_Schedule (schedule_spec ?s)) sample_req a] \<and> fst (fst r) = emptyResult))"
    by (rule deleted_schedule_registered_after_restart [where t = 7])
      (simp_all add: sample_schedule_def schedule_map.Read_New)
  note run = emits_run [OF this, of "mem_world [OBackupSchedule ?s] None"]
  have "trace (mem_world [OBackupSchedule ?s] None) = []" by (simp add: mem_world_def)
  moreover have "hd (trace (snd ?run)) = GetBackupSchedule sample_req (Inr ?s)" by code_simp
  ultimately show ?thesis using run by blast
qed

end
