(* ===== verification/RestoreController.thy ===== *)
theory RestoreController
  imports ClusterController
begin

text \<open>
  The EtcdRestore controller (\<open>controllers/etcdrestore_controller.go\<close>): it makes the claims of the
  future peers, restores a backup into each of them with a pod, and then creates the cluster that
  will adopt them. Labels mark what belongs to a restore.
\<close>

section \<open>Labels and events\<close>

definition restoreContainerName :: string where "restoreContainerName = ''etcd-restore''"
definition restoredFromLabel :: string where "restoredFromLabel = ''etcd.improbable.io/restored-from''"
definition restorePodLabel :: string where "restorePodLabel = ''etcd.improbable.io/restore-pod''"
definition pvcCreatedEventReason :: string where "pvcCreatedEventReason = ''PVCCreated''"
definition pvcInvalidEventReason :: string where "pvcInvalidEventReason = ''PVCInvalid''"
definition podCreatedEventReason :: string where "podCreatedEventReason = ''PodCreated''"
definition podInvalidEventReason :: string where "podInvalidEventReason = ''PodInvalid''"
definition podFailedEventReason :: string where "podFailedEventReason = ''PodFailed''"
definition clusterCreatedEventReason :: string where "clusterCreatedEventReason = ''ClusterCreated''"

lemmas restore_labels [label_defs] = restoredFromLabel_def restorePodLabel_def

record EtcdRestoreReconciler =
  RestorePodImage :: string
  rr_ProxyURL :: string

abbreviation restore_Name :: "EtcdRestore \<Rightarrow> string" where
  "restore_Name r \<equiv> Name (restore_meta r)"

text \<open>Reading a missing key of a map yields the empty string.\<close>

definition label :: "smap \<Rightarrow> string \<Rightarrow> string" where
  "label m k = (case map_of m k of Some v \<Rightarrow> v | None \<Rightarrow> [])"

definition set_label :: "string \<Rightarrow> string \<Rightarrow> ObjectMeta \<Rightarrow> ObjectMeta" where
  "set_label k v m = m\<lparr>Labels := AList.update k v (Labels m)\<rparr>"

definition markPVC :: "EtcdRestore \<Rightarrow> PersistentVolumeClaim \<Rightarrow> PersistentVolumeClaim" where
  "markPVC restore pvc = pvc\<lparr>pvc_meta := set_label restoredFromLabel (restore_Name restore) (pvc_meta pvc)\<rparr>"

definition IsOurPVC :: "EtcdRestore \<Rightarrow> PersistentVolumeClaim \<Rightarrow> bool" where
  "IsOurPVC restore pvc \<longleftrightarrow> label (Labels (pvc_meta pvc)) restoredFromLabel = restore_Name restore"

definition markPod :: "EtcdRestore \<Rightarrow> Pod \<Rightarrow> Pod" where
  "markPod restore pod =
     pod\<lparr>pod_meta :=
       set_label restorePodLabel ''true''
         (set_label restoredFromLabel (restore_Name restore) (pod_meta pod))\<rparr>"

definition IsOurPod :: "EtcdRestore \<Rightarrow> Pod \<Rightarrow> bool" where
  "IsOurPod restore pod \<longleftrightarrow>
     label (Labels (pod_meta pod)) restoredFromLabel = restore_Name restore \<and>
     label (Labels (pod_meta pod)) restorePodLabel = ''true''"

definition markCluster :: "EtcdRestore \<Rightarrow> EtcdCluster \<Rightarrow> EtcdCluster" where
  "markCluster restore c = c\<lparr>cluster_meta := set_label restoredFromLabel (restore_Name restore) (cluster_meta c)\<rparr>"

text \<open>\<open>'namespace/name'\<close> in a message.\<close>

definition quoted_key :: "ObjectMeta \<Rightarrow> string" where
  "quoted_key m = [CHR 0x27] @ Namespace m @ ''/'' @ Name m @ [CHR 0x27]"

section \<open>Objects\<close>

definition clusterForRestore :: "EtcdRestore \<Rightarrow> EtcdCluster" where
  "clusterForRestore restore =
     markCluster restore
       \<lparr>cluster_meta = emptyMeta
          \<lparr>Name := ct_ClusterName (ClusterTemplate (restore_spec restore)),
           Namespace := Namespace (restore_meta restore)\<rparr>,
        cluster_spec = ct_Spec (ClusterTemplate (restore_spec restore)),
        cluster_status = \<lparr>st_Replicas = 0, st_Members = None, st_ClusterVersion = []\<rparr>\<rparr>"

text \<open>
  The template's storage is shared between the restore and the cluster made from it, so defaulting
  the cluster defaults the restore's copy too.
\<close>

definition shareDefaults :: "EtcdRestore \<Rightarrow> EtcdRestore" where
  "shareDefaults restore =
     (let spec = restore_spec restore; tmpl = ClusterTemplate spec; cs = ct_Spec tmpl
      in restore\<lparr>restore_spec := spec\<lparr>ClusterTemplate :=
           tmpl\<lparr>ct_Spec := cs\<lparr>cs_Storage := setDefaults (cs_Storage cs)\<rparr>\<rparr>\<rparr>\<rparr>)"

definition restorePodName :: "EtcdPeer \<Rightarrow> string" where
  "restorePodName peer = peer_Name peer @ ''-restore''"

definition restorePodNamespacedName :: "EtcdPeer \<Rightarrow> NamespacedName" where
  "restorePodNamespacedName peer = \<lparr>nn_Namespace = peer_Namespace peer, nn_Name = restorePodName peer\<rparr>"

definition stripPortFromURL :: "URL \<Rightarrow> string" where
  "stripPortFromURL u = hd (Split (Host u) (CHR '':''))"

definition stringFlag :: "string \<Rightarrow> string \<Rightarrow> string" where
  "stringFlag flag v = ''--'' @ flag @ ''='' @ v"

definition snapshotDir :: string where "snapshotDir = ''/tmp/snapshot''"

text \<open>
  \<open>*restore.Spec.ClusterTemplate.Spec.PodTemplate.Resources\<close> and
  \<open>*peer.Spec.Bootstrap.Static\<close> panic when a pointer on the way is nil.
\<close>

definition podForRestore ::
    "lib \<Rightarrow> EtcdRestoreReconciler \<Rightarrow> EtcdRestore \<Rightarrow> EtcdPeer \<Rightarrow> string \<Rightarrow> Pod outcome" where
  "podForRestore l r restore peer pvcName =
     (case cs_PodTemplate (ct_Spec (ClusterTemplate (restore_spec restore))) of
        None \<Rightarrow> Panic
      | Some template \<Rightarrow>
          (case pts_Resources template of
             None \<Rightarrow> Panic
           | Some resources \<Rightarrow>
               (case ps_Bootstrap (peer_spec peer) of
                  None \<Rightarrow> Panic
                | Some bootstrap \<Rightarrow>
                    (case Static bootstrap of
                       None \<Rightarrow> Panic
                     | Some static \<Rightarrow> Return (markPod restore
                         \<lparr>pod_meta = emptyMeta
                            \<lparr>Name := restorePodName peer,
                             Namespace := Namespace (restore_meta restore),
                             OwnerReferences := [NewControllerRef l (restore_meta restore) ''EtcdRestore'']\<rparr>,
                          pod_spec =
                            \<lparr>ps_Hostname = [], ps_Subdomain = [],
                             ps_HostAliases =
                               [\<lparr>ha_IP = ''127.0.0.1'',
                                 ha_Hostnames = [stripPortFromURL (advertiseURL peer etcdPeerPort)]\<rparr>],
                             ps_Containers =
                               [\<lparr>c_Name = restoreContainerName,
                                 c_Image = RestorePodImage r,
                                 c_Args =
                                   [stringFlag ''etcd-peer-name'' (peer_Name peer),
                                    stringFlag ''etcd-cluster-name''
                                      (ct_ClusterName (ClusterTemplate (restore_spec restore))),
                                    stringFlag ''etcd-initial-cluster'' (staticBootstrapInitialCluster static),
                                    stringFlag ''etcd-peer-advertise-url''
                                      (String (advertiseURL peer etcdPeerPort)),
                                    stringFlag ''etcd-data-dir'' etcdDataMountPath,
                                    stringFlag ''snapshot-dir'' snapshotDir,
                                    stringFlag ''backup-url'' (ObjectURL (rs_Source (restore_spec restore))),
                                    stringFlag ''proxy-url'' (rr_ProxyURL r)],
                                 c_Env = [],
                                 c_Ports = [],
                                 c_Resources = resources,
                                 c_VolumeMounts =
                                   [\<lparr>vm_Name = ''etcd-data'', vm_ReadOnly = False, vm_MountPath = etcdDataMountPath\<rparr>,
                                    \<lparr>vm_Name = ''snapshot'', vm_ReadOnly = False, vm_MountPath = snapshotDir\<rparr>]\<rparr>],
                             ps_Volumes =
                               [\<lparr>vol_Name = ''etcd-data'', vol_Source = PersistentVolumeClaimSource pvcName\<rparr>,
                                \<lparr>vol_Name = ''snapshot'', vol_Source = NoVolumeSource\<rparr>],
                             ps_Affinity = None,
                             ps_ServiceAccountName = [],
                             ps_RestartPolicy = RestartPolicyNever\<rparr>,
                          pod_Phase = []\<rparr>)))))"

section \<open>Expected objects\<close>

definition expectedPeerForRestore :: "lib \<Rightarrow> EtcdCluster \<Rightarrow> string \<Rightarrow> EtcdPeer outcome" where
  "expectedPeerForRestore l c peerName =
     configurePeerBootstrap (EtcdPeer_Default (peerForCluster l c peerName)) c"

definition expectedPVCForRestore :: "EtcdRestore \<Rightarrow> EtcdPeer \<Rightarrow> PersistentVolumeClaim outcome" where
  "expectedPVCForRestore restore peer = bind_outcome (\<lambda>pvc. Return (markPVC restore pvc)) (pvcForPeer peer)"

definition expectedObjects ::
    "lib \<Rightarrow> EtcdRestore \<Rightarrow> (EtcdCluster \<times> EtcdPeer list \<times> PersistentVolumeClaim list) outcome" where
  "expectedObjects l restore =
     (let expectedCluster = EtcdCluster_Default (clusterForRestore restore) in
      (case expectedPeerNamesForCluster expectedCluster of
         Panic \<Rightarrow> Panic
       | Return names \<Rightarrow>
           (case traverse_outcome (expectedPeerForRestore l expectedCluster) names of
              Panic \<Rightarrow> Panic
            | Return peers \<Rightarrow>
                (case traverse_outcome (expectedPVCForRestore restore) peers of
                   Panic \<Rightarrow> Panic
                 | Return pvcs \<Rightarrow> Return (expectedCluster, peers, pvcs)))))"

section \<open>Steps of the handler\<close>

text \<open>
  A step either ends the reconciliation with a result or hands over to the next one (\<open>None\<close>). A
  claim or pod that is not ours ends it: an event is published and the restore has failed.
\<close>

type_synonym restore_step = "reconciled option"

definition done_with :: "api_error option \<Rightarrow> reconciled" where
  "done_with err = Return (emptyResult, map_option ApiError err)"

definition with_restore_phase :: "EtcdRestore \<Rightarrow> EtcdRestorePhase \<Rightarrow> EtcdRestore" where
  "with_restore_phase restore phase = restore\<lparr>restore_status := (restore_status restore)\<lparr>rst_Phase := phase\<rparr>\<rparr>"

definition foreignReason :: "string \<Rightarrow> ObjectMeta \<Rightarrow> string" where
  "foreignReason what m =
     (case map_of (Labels m) restoredFromLabel of
        Some restoredFrom \<Rightarrow>
          ''Label '' @ restoredFromLabel @ '' indicates a different restore '' @ restoredFrom @ '' made this '' @ what @ ''.''
      | None \<Rightarrow>
          ''Label '' @ restoredFromLabel @ '' not set, indicating this is a pre-existing '' @ what @ ''.'')"

definition failRestore ::
    "'w client \<Rightarrow> EtcdRestore \<Rightarrow> string \<Rightarrow> string \<Rightarrow> ObjectMeta \<Rightarrow> ('w, reconciled) io" where
  "failRestore cl restore reason what m = do {
     record_event (mk_event (ORestore restore) K8sEventTypeWarning reason
       (''Found a '' @ what @ '' '' @ quoted_key m @ '' as expected, but it wasn'' @ [CHR 0x27] @
        ''t labeled as ours: '' @ foreignReason what m));
     err \<leftarrow> status_update cl (ORestore (with_restore_phase restore EtcdRestorePhaseFailed));
     ret (done_with err)
   }"

text \<open>
  Step 1: the claims, in order. The event for a created claim names the claim that was read, which
  is the empty object.
\<close>

fun ensurePVCs :: "'w client \<Rightarrow> EtcdRestore \<Rightarrow> PersistentVolumeClaim list \<Rightarrow> ('w, restore_step) io" where
  "ensurePVCs cl restore [] = ret None"
| "ensurePVCs cl restore (expectedPVC # rest) = do {
     r \<leftarrow> get_PVC cl (key_of (pvc_meta expectedPVC));
     case r of
       Inl err \<Rightarrow>
         if IsNotFound (Some err) then do {
           err' \<leftarrow> create cl (OPVC expectedPVC);
           case err' of
             Some e \<Rightarrow> ret (Some (done_with (Some e)))
           | None \<Rightarrow> do {
               record_event (mk_event (ORestore restore) K8sEventTypeNormal pvcCreatedEventReason
                 (''Created PVC '' @ quoted_key emptyMeta));
               ret (Some (done_with None))
             }
         } else ret (Some (done_with (Some err)))
     | Inr pvc \<Rightarrow>
         if \<not> IsOurPVC restore pvc then do {
           out \<leftarrow> failRestore cl restore pvcInvalidEventReason ''PVC'' (pvc_meta pvc);
           ret (Some out)
         } else ensurePVCs cl restore rest
   }"

text \<open>Step 2: the restore pods that exist, in the order of the peers.\<close>

fun findRestorePods :: "'w client \<Rightarrow> EtcdPeer list \<Rightarrow> ('w, api_error + Pod option list) io" where
  "findRestorePods cl [] = ret (Inr [])"
| "findRestorePods cl (peer # rest) = do {
     r \<leftarrow> get_Pod cl (restorePodNamespacedName peer);
     case if_found r of
       Inl err \<Rightarrow> ret (Inl err)
     | Inr pod \<Rightarrow> do {
         rs \<leftarrow> findRestorePods cl rest;
         ret (case rs of Inl err \<Rightarrow> Inl err | Inr pods \<Rightarrow> Inr (pod # pods))
       }
   }"

text \<open>Step 3: a pod that is not ours ends the restore.\<close>

definition verifyPods :: "'w client \<Rightarrow> EtcdRestore \<Rightarrow> Pod option list \<Rightarrow> ('w, restore_step) io" where
  "verifyPods cl restore restorePods =
     (case find (\<lambda>pod. \<not> IsOurPod restore pod) (List.map_filter id restorePods) of
        None \<Rightarrow> ret None
      | Some restorePod \<Rightarrow> do {
          out \<leftarrow> failRestore cl restore podInvalidEventReason ''Pod'' (pod_meta restorePod);
          ret (Some out)
        })"

text \<open>Step 4: the first missing pod is launched.\<close>

fun launchPod ::
    "lib \<Rightarrow> EtcdRestoreReconciler \<Rightarrow> 'w client \<Rightarrow> EtcdRestore \<Rightarrow>
     (Pod option \<times> EtcdPeer \<times> PersistentVolumeClaim) list \<Rightarrow> ('w, restore_step) io" where
  "launchPod l r cl restore [] = ret None"
| "launchPod l r cl restore ((Some pod, peer, pvc) # rest) = launchPod l r cl restore rest"
| "launchPod l r cl restore ((None, peer, pvc) # rest) =
     (case podForRestore l r restore peer (Name (pvc_meta pvc)) of
        Panic \<Rightarrow> ret (Some Panic)
      | Return toCreatePod \<Rightarrow> do {
          err \<leftarrow> create cl (OPod toCreatePod);
          case err of
            Some e \<Rightarrow> ret (Some (done_with (Some e)))
          | None \<Rightarrow> do {
              record_event (mk_event (ORestore restore) K8sEventTypeNormal podCreatedEventReason
                (''Launched Pod '' @ quoted_key (pod_meta toCreatePod) @ '' to restore data to PVC '' @
                 quoted_key (pvc_meta pvc)));
              ret (Some (done_with None))
            }
        })"

text \<open>Step 5: the join. A failed or unknown pod fails the restore, a running one makes it wait.\<close>

definition pod_failed :: "Pod \<Rightarrow> bool" where
  "pod_failed pod \<longleftrightarrow> pod_Phase pod = PodFailed \<or> pod_Phase pod = PodUnknown"

definition joinPods :: "'w client \<Rightarrow> EtcdRestore \<Rightarrow> Pod list \<Rightarrow> ('w, restore_step) io" where
  "joinPods cl restore restorePods =
     (let anyFailed = list_ex (\<lambda>pod. pod_Phase pod \<noteq> PodSucceeded \<and> pod_failed pod) restorePods;
          allSuccess = list_all (\<lambda>pod. pod_Phase pod = PodSucceeded) restorePods
      in if anyFailed then do {
           let restore' = with_restore_phase restore EtcdRestorePhaseFailed;
           err \<leftarrow> status_update cl (ORestore restore');
           case err of
             Some e \<Rightarrow> ret (Some (done_with (Some e)))
           | None \<Rightarrow> do {
               record_event (mk_event (ORestore restore') K8sEventTypeWarning podFailedEventReason
                 ''One or more Pods failed, please inspect the Pod logs for further details.'');
               ret (Some (done_with None))
             }
         } else if \<not> allSuccess then ret (Some (done_with None))
         else ret None)"

text \<open>Step 6: the cluster is created, and once it exists the restore is complete.\<close>

definition ensureCluster :: "'w client \<Rightarrow> EtcdRestore \<Rightarrow> EtcdCluster \<Rightarrow> ('w, reconciled) io" where
  "ensureCluster cl restore expectedCluster = do {
     r \<leftarrow> get_Cluster cl (key_of (cluster_meta expectedCluster));
     case r of
       Inl err \<Rightarrow>
         if IsNotFound (Some err) then do {
           err' \<leftarrow> create cl (OCluster expectedCluster);
           case err' of
             Some e \<Rightarrow> ret (done_with (Some e))
           | None \<Rightarrow> do {
               record_event (mk_event (ORestore restore) K8sEventTypeNormal clusterCreatedEventReason
                 (''Created EtcdCluster '' @ quoted_key (cluster_meta expectedCluster) @ ''.''));
               ret (done_with None)
             }
         } else ret (done_with (Some err))
     | Inr _ \<Rightarrow> do {
         err \<leftarrow> status_update cl (ORestore (with_restore_phase restore EtcdRestorePhaseCompleted));
         ret (done_with err)
       }
   }"

definition reconcileRestore ::
    "lib \<Rightarrow> EtcdRestoreReconciler \<Rightarrow> 'w client \<Rightarrow> EtcdRestore \<Rightarrow> EtcdCluster \<Rightarrow> EtcdPeer list \<Rightarrow>
     PersistentVolumeClaim list \<Rightarrow> ('w, reconciled) io" where
  "reconcileRestore l r cl restore expectedCluster expectedPeers expectedPVCs = do {
     claims \<leftarrow> ensurePVCs cl restore expectedPVCs;
     case claims of
       Some out \<Rightarrow> ret out
     | None \<Rightarrow> do {
         found \<leftarrow> findRestorePods cl expectedPeers;
         case found of
           Inl err \<Rightarrow> ret (done_with (Some err))
         | Inr restorePods \<Rightarrow> do {
             verified \<leftarrow> verifyPods cl restore restorePods;
             case verified of
               Some out \<Rightarrow> ret out
             | None \<Rightarrow> do {
                 launched \<leftarrow> launchPod l r cl restore (zip restorePods (zip expectedPeers expectedPVCs));
                 case launched of
                   Some out \<Rightarrow> ret out
                 | None \<Rightarrow> do {
                     joined \<leftarrow> joinPods cl restore (List.map_filter id restorePods);
                     case joined of
                       Some out \<Rightarrow> ret out
                     | None \<Rightarrow> ensureCluster cl restore expectedCluster
                   }
               }
           }
       }
   }"

definition Restore_Reconcile ::
    "lib \<Rightarrow> EtcdRestoreReconciler \<Rightarrow> 'w client \<Rightarrow> NamespacedName \<Rightarrow> ('w, reconciled) io" where
  "Restore_Reconcile l r cl req = do {
     g \<leftarrow> get_Restore cl req;
     case g of
       Inl err \<Rightarrow> ret (done_with (IgnoreNotFound (Some err)))
     | Inr restore \<Rightarrow>
         (let phase = rst_Phase (restore_status restore) in
          if phase = EtcdRestorePhaseCompleted \<or> phase = EtcdRestorePhaseFailed then ret (done_with None)
          else if phase \<noteq> EtcdRestorePhasePending then do {
            err \<leftarrow> status_update cl (ORestore (with_restore_phase restore EtcdRestorePhasePending));
            ret (done_with err)
          }
          else
            (case expectedObjects l restore of
               Panic \<Rightarrow> ret Panic
             | Return (expectedCluster, expectedPeers, expectedPVCs) \<Rightarrow>
                 reconcileRestore l r cl (shareDefaults restore) expectedCluster expectedPeers expectedPVCs))
   }"

section \<open>Waking the handler\<close>

definition restoredFromMapper_Map :: "ObjectMeta \<Rightarrow> NamespacedName list" where
  "restoredFromMapper_Map m =
     (case map_of (Labels m) restoredFromLabel of
        Some restoreName \<Rightarrow> [\<lparr>nn_Namespace = Namespace m, nn_Name = restoreName\<rparr>]
      | None \<Rightarrow> [])"

end
