(* ===== verification/RestoreProps.thy ===== *)
theory RestoreProps
  imports RestoreController MemServer
begin

text \<open>
  Correctness of the EtcdRestore controller: its one change and why it is made, that it never
  touches what is not its own, when the cluster is created, the life cycle of a restore, marks and
  their recognition, and when it panics.
\<close>

section \<open>Marks\<close>

text \<open>
  The controller recognises its own objects by marks on their metadata. The contract of a mark: what
  is marked for a restore is recognised by it, and by no restore with another name; marking keeps
  the identity of the object and is found by the mapper that wakes the handler.
\<close>

locale ownership_mark =
  fixes meta :: "'o \<Rightarrow> ObjectMeta"
    and mark :: "EtcdRestore \<Rightarrow> 'o \<Rightarrow> 'o"
    and ours :: "EtcdRestore \<Rightarrow> 'o \<Rightarrow> bool"
  assumes ours_mark: "ours r (mark r' x) \<longleftrightarrow> restore_Name r = restore_Name r'"
    and key_mark: "key_of (meta (mark r x)) = key_of (meta x)"
    and label_mark: "map_of (Labels (meta (mark r x))) restoredFromLabel = Some (restore_Name r)"
begin

lemma mark_recognised: "ours r (mark r x)"
  by (simp add: ours_mark)

lemma mark_wakes:
  assumes "Namespace (meta x) = Namespace (restore_meta r)"
  shows "restoredFromMapper_Map (meta (mark r x)) = [key_of (restore_meta r)]"
  using assms key_mark [of r x] by (simp add: restoredFromMapper_Map_def label_mark key_of_def)

end

lemma Labels_set_label [simp]: "map_of (Labels (set_label k v m)) = (map_of (Labels m))(k \<mapsto> v)"
  by (simp add: set_label_def)

lemma key_of_set_label [simp]: "key_of (set_label k v m) = key_of m"
  by (simp add: set_label_def key_of_def)

lemma label_simps: "label m k = (case map_of m k of Some v \<Rightarrow> v | None \<Rightarrow> [])"
  by (rule label_def)

lemma restore_labels_differ [simp]: "restoredFromLabel \<noteq> restorePodLabel" "restorePodLabel \<noteq> restoredFromLabel"
  by (simp_all add: label_defs)

interpretation pvc_mark: ownership_mark pvc_meta markPVC IsOurPVC
  by unfold_locales (auto simp: markPVC_def IsOurPVC_def label_def)

interpretation pod_mark: ownership_mark pod_meta markPod IsOurPod
  by unfold_locales (auto simp: markPod_def IsOurPod_def label_def)

section \<open>When the controller acts\<close>

definition claims_ours :: "EtcdRestore \<Rightarrow> PersistentVolumeClaim list \<Rightarrow> call list \<Rightarrow> bool" where
  "claims_ours restore pvcs tr \<longleftrightarrow>
     (\<forall>pvc \<in> set pvcs. \<exists>actual. GetPVC (key_of (pvc_meta pvc)) (Inr actual) \<in> set tr \<and> IsOurPVC restore actual)"

definition pods_succeeded :: "EtcdRestore \<Rightarrow> EtcdPeer list \<Rightarrow> call list \<Rightarrow> bool" where
  "pods_succeeded restore peers tr \<longleftrightarrow>
     (\<forall>peer \<in> set peers. \<exists>pod. GetPod (restorePodNamespacedName peer) (Inr pod) \<in> set tr \<and>
        IsOurPod restore pod \<and> pod_Phase pod = PodSucceeded)"

definition broken :: "EtcdRestore \<Rightarrow> PersistentVolumeClaim list \<Rightarrow> EtcdPeer list \<Rightarrow> call list \<Rightarrow> bool" where
  "broken restore pvcs peers tr \<longleftrightarrow>
     (\<exists>pvc \<in> set pvcs. \<exists>actual. GetPVC (key_of (pvc_meta pvc)) (Inr actual) \<in> set tr \<and> \<not> IsOurPVC restore actual) \<or>
     (\<exists>peer \<in> set peers. \<exists>pod. GetPod (restorePodNamespacedName peer) (Inr pod) \<in> set tr \<and>
        (\<not> IsOurPod restore pod \<or> pod_failed pod))"

text \<open>What each change of a pending restore requires of the answers of the same pass.\<close>

fun restore_justified ::
    "lib \<Rightarrow> EtcdRestoreReconciler \<Rightarrow> EtcdRestore \<Rightarrow> EtcdCluster \<Rightarrow> EtcdPeer list \<Rightarrow>
     PersistentVolumeClaim list \<Rightarrow> call list \<Rightarrow> call \<Rightarrow> bool" where
  "restore_justified l r restore c peers pvcs tr (Create obj _) \<longleftrightarrow>
     (\<exists>pvc \<in> set pvcs. obj = OPVC pvc \<and> GetPVC (key_of (pvc_meta pvc)) (Inl NotFound) \<in> set tr) \<or>
     (\<exists>peer pvc pod. (peer, pvc) \<in> set (zip peers pvcs) \<and> obj = OPod pod \<and> claims_ours restore pvcs tr \<and>
        GetPod (restorePodNamespacedName peer) (Inl NotFound) \<in> set tr \<and>
        podForRestore l r restore peer (Name (pvc_meta pvc)) = Return pod) \<or>
     (obj = OCluster c \<and> claims_ours restore pvcs tr \<and> pods_succeeded restore peers tr \<and>
        GetCluster (key_of (cluster_meta c)) (Inl NotFound) \<in> set tr)"
| "restore_justified l r restore c peers pvcs tr (StatusUpdate obj _) \<longleftrightarrow>
     (obj = ORestore (with_restore_phase restore EtcdRestorePhaseFailed) \<and> broken restore pvcs peers tr) \<or>
     (obj = ORestore (with_restore_phase restore EtcdRestorePhaseCompleted) \<and>
        claims_ours restore pvcs tr \<and> pods_succeeded restore peers tr \<and>
        (\<exists>actual. GetCluster (key_of (cluster_meta c)) (Inr actual) \<in> set tr))"
| "restore_justified l r restore c peers pvcs tr _ \<longleftrightarrow> False"

lemma observations_mono:
  assumes "set tr \<subseteq> set tr'"
  shows "claims_ours restore pvcs tr \<Longrightarrow> claims_ours restore pvcs tr'"
    "pods_succeeded restore peers tr \<Longrightarrow> pods_succeeded restore peers tr'"
    "broken restore pvcs peers tr \<Longrightarrow> broken restore pvcs peers tr'"
  using assms unfolding claims_ours_def pods_succeeded_def broken_def by blast+

text \<open>One change at most, justified, and its failure is what is returned.\<close>

definition restore_ok :: "(call \<Rightarrow> bool) \<Rightarrow> reconciled \<Rightarrow> call list \<Rightarrow> bool" where
  "restore_ok J out tr \<longleftrightarrow>
     (out = Panic \<and> mutations tr = []) \<or>
     (\<exists>err. out = done_with err \<and>
        (mutations tr = [] \<or> (\<exists>x. mutations tr = [x] \<and> J x \<and> (failed x \<longleftrightarrow> err \<noteq> None))))"

lemma done_with_simps [simp]: "done_with a = done_with b \<longleftrightarrow> a = b" "done_with a \<noteq> Panic" "Panic \<noteq> done_with a"
  by (cases a; cases b; simp add: done_with_def)+

lemma restore_ok_read [simp]: "\<not> is_mutation x \<Longrightarrow> restore_ok J out (x # tr) = restore_ok J out tr"
  by (simp add: restore_ok_def)

lemma restore_ok_append: "mutations tr = [] \<Longrightarrow> restore_ok J out (tr @ tr') = restore_ok J out tr'"
  by (simp add: restore_ok_def)

lemma claims_ours_Cons:
  assumes "IsOurPVC restore actual" "claims_ours restore rest tr"
  shows "claims_ours restore (pvc # rest) (GetPVC (key_of (pvc_meta pvc)) (Inr actual) # tr)"
proof -
  have "claims_ours restore rest (GetPVC (key_of (pvc_meta pvc)) (Inr actual) # tr)"
    by (rule observations_mono(1) [OF _ assms(2)]) auto
  with assms(1) show ?thesis unfolding claims_ours_def by auto
qed

lemma failRestore_emits:
  "emits (failRestore cl restore reason what m) (\<lambda>out tr. \<exists>ev e.
     tr = [Recorded ev, StatusUpdate (ORestore (with_restore_phase restore EtcdRestorePhaseFailed)) e] \<and>
     out = done_with e)"
  unfolding failRestore_def call_defs by (auto intro!: emits_steps)

lemma ensurePVCs_emits:
  assumes "set rest \<subseteq> set pvcs"
  shows "emits (ensurePVCs cl restore rest) (\<lambda>o' tr.
    (o' = None \<and> mutations tr = [] \<and> claims_ours restore rest tr) \<or>
    (\<exists>out. o' = Some out \<and> restore_ok (restore_justified l r restore c peers pvcs (pre @ tr)) out tr))"
  using assms
proof (induction rest arbitrary: pre)
  case Nil
  then show ?case by (simp add: emits_return claims_ours_def)
next
  case (Cons pvc rest)
  then have sub: "set rest \<subseteq> set pvcs" "pvc \<in> set pvcs" by auto
  show ?case
    unfolding ensurePVCs.simps get_PVC_def
  proof (rule emits_bind_call, rule emits_case_sum, goal_cases)
    case (1 a err)
    then show ?case
      unfolding call_defs
      by (intro emits_steps) (use sub in \<open>auto simp: restore_ok_def IsNotFound_iff\<close>)
  next
    case (2 a actual)
    show ?case
    proof (cases "IsOurPVC restore actual")
      case True
      then show ?thesis
        using 2 by (auto intro!: emits_mono [OF Cons.IH [OF sub(1), of "pre @ [GetPVC (key_of (pvc_meta pvc)) a]"]]
            claims_ours_Cons)
    next
      case False
      then have "broken restore pvcs peers (pre @ GetPVC (key_of (pvc_meta pvc)) a # tr)" for tr
        using 2 sub unfolding broken_def by auto
      with False show ?thesis
        by (auto intro!: emits_bind [OF failRestore_emits] emits_return simp: restore_ok_def)
    qed
  qed
qed

text \<open>The pods found, peer by peer.\<close>

definition pods_read :: "EtcdPeer list \<Rightarrow> Pod option list \<Rightarrow> call list \<Rightarrow> bool" where
  "pods_read peers pods tr \<longleftrightarrow>
     list_all2 (\<lambda>peer p.
       (case p of
          None \<Rightarrow> GetPod (restorePodNamespacedName peer) (Inl NotFound) \<in> set tr
        | Some pod \<Rightarrow> GetPod (restorePodNamespacedName peer) (Inr pod) \<in> set tr)) peers pods"

lemma pods_read_mono: "pods_read peers pods tr \<Longrightarrow> set tr \<subseteq> set tr' \<Longrightarrow> pods_read peers pods tr'"
  unfolding pods_read_def by (erule list_all2_mono) (auto split: option.splits)

lemma pods_read_Cons:
  assumes "case p of None \<Rightarrow> a = Inl NotFound | Some pod \<Rightarrow> a = Inr pod" "pods_read peers pods tr"
  shows "pods_read (peer # peers) (p # pods) (GetPod (restorePodNamespacedName peer) a # tr)"
proof -
  have "pods_read peers pods (GetPod (restorePodNamespacedName peer) a # tr)"
    by (rule pods_read_mono [OF assms(2)]) auto
  with assms(1) show ?thesis by (auto simp: pods_read_def split: option.splits)
qed

lemma findRestorePods_emits:
  "emits (findRestorePods cl peers) (\<lambda>rs tr. mutations tr = [] \<and>
     (\<forall>pods. rs = Inr pods \<longrightarrow> pods_read peers pods tr))"
proof (induction peers)
  case Nil
  then show ?case by (simp add: emits_return pods_read_def)
next
  case (Cons peer peers)
  show ?case
    unfolding findRestorePods.simps get_Pod_def
  proof (rule emits_bind_call, rule emits_case_sum, goal_cases)
    case (1 a err)
    then show ?case by (simp add: emits_return)
  next
    case (2 a pod)
    then have a: "case pod of None \<Rightarrow> a = Inl NotFound | Some p \<Rightarrow> a = Inr p"
      by (auto simp: if_found_Inr)
    show ?case
      by (intro emits_bind [OF Cons.IH] emits_return)
        (auto intro!: pods_read_Cons [OF a] split: sum.splits)
  qed
qed

lemma map_filter_id: "x \<in> set (List.map_filter id xs) \<longleftrightarrow> Some x \<in> set xs"
  by (induction xs) (auto simp: List.map_filter_def)

lemma pods_read_Some:
  assumes "pods_read peers pods tr" "Some pod \<in> set pods"
  shows "\<exists>peer \<in> set peers. GetPod (restorePodNamespacedName peer) (Inr pod) \<in> set tr"
  using assms unfolding pods_read_def
  by (fastforce simp: list_all2_conv_all_nth in_set_conv_nth)

lemma verifyPods_emits:
  assumes "pods_read peers pods pre"
  shows "emits (verifyPods cl restore pods) (\<lambda>o' tr.
    (o' = None \<and> tr = [] \<and> (\<forall>pod. Some pod \<in> set pods \<longrightarrow> IsOurPod restore pod)) \<or>
    (\<exists>out. o' = Some out \<and> restore_ok (restore_justified l r restore c peers pvcs (pre @ tr)) out tr))"
proof (cases "find (\<lambda>pod. \<not> IsOurPod restore pod) (List.map_filter id pods)")
  case None
  then have "\<forall>pod. Some pod \<in> set pods \<longrightarrow> IsOurPod restore pod"
    by (simp add: find_None_all map_filter_id)
  then show ?thesis unfolding verifyPods_def None by (simp add: emits_return)
next
  case (Some pod)
  then have "Some pod \<in> set pods" "\<not> IsOurPod restore pod"
    using find_Some_set by (fastforce simp: map_filter_id)+
  then have "broken restore pvcs peers (pre @ tr)" for tr
    using pods_read_Some [OF assms] unfolding broken_def by fastforce
  with Some show ?thesis
    by (auto simp: verifyPods_def restore_ok_def intro!: emits_bind [OF failRestore_emits] emits_return)
qed

lemma launchPod_emits:
  assumes "claims_ours restore pvcs pre"
    and "\<forall>(p, peer, pvc) \<in> set ts. (peer, pvc) \<in> set (zip peers pvcs) \<and>
      (p = None \<longrightarrow> GetPod (restorePodNamespacedName peer) (Inl NotFound) \<in> set pre)"
  shows "emits (launchPod l r cl restore ts) (\<lambda>o' tr.
    (o' = None \<and> tr = [] \<and> (\<forall>(p, _) \<in> set ts. p \<noteq> None)) \<or>
    (\<exists>out. o' = Some out \<and> restore_ok (restore_justified l r restore c peers pvcs (pre @ tr)) out tr))"
  using assms(2)
proof (induction ts)
  case (Cons t ts)
  obtain p peer pvc where t: "t = (p, peer, pvc)" by (cases t)
  show ?case
  proof (cases p)
    case None
    have "claims_ours restore pvcs (pre @ tr)" for tr
      by (rule observations_mono(1) [OF _ assms(1)]) simp
    with Cons.prems None show ?thesis
      unfolding t launchPod.simps call_defs None
      by (intro emits_steps) (auto simp: restore_ok_def)
  next
    case (Some pod)
    with Cons show ?thesis by (simp add: t)
  qed
qed (simp add: emits_return)

lemma joinPods_emits:
  assumes "\<forall>pod \<in> set pods. \<exists>peer \<in> set peers. GetPod (restorePodNamespacedName peer) (Inr pod) \<in> set pre"
  shows "emits (joinPods cl restore pods) (\<lambda>o' tr.
    (o' = None \<and> tr = [] \<and> (\<forall>pod \<in> set pods. pod_Phase pod = PodSucceeded)) \<or>
    (\<exists>out. o' = Some out \<and> restore_ok (restore_justified l r restore c peers pvcs (pre @ tr)) out tr))"
proof (cases "list_ex (\<lambda>pod. pod_Phase pod \<noteq> PodSucceeded \<and> pod_failed pod) pods")
  case True
  then have "broken restore pvcs peers (pre @ tr)" for tr
    using assms unfolding broken_def list_ex_iff by fastforce
  with True show ?thesis
    unfolding joinPods_def Let_def call_defs
    by (auto intro!: emits_steps simp: restore_ok_def)
next
  case False
  then show ?thesis
    unfolding joinPods_def Let_def
    by (auto intro!: emits_return simp: restore_ok_def list_all_iff)
qed

lemma ensureCluster_emits:
  assumes "claims_ours restore pvcs pre" "pods_succeeded restore peers pre"
  shows "emits (ensureCluster cl restore c) (\<lambda>out tr.
    restore_ok (restore_justified l r restore c peers pvcs (pre @ tr)) out tr)"
proof -
  have "claims_ours restore pvcs (pre @ tr) \<and> pods_succeeded restore peers (pre @ tr)" for tr
    using observations_mono [of pre "pre @ tr"] assms by auto
  then show ?thesis
    unfolding ensureCluster_def call_defs
    by (intro emits_steps) (auto simp: restore_ok_def IsNotFound_iff)
qed

lemma all_pods_succeeded:
  assumes read: "pods_read peers pods tr" and none: "None \<notin> set pods"
    and "\<forall>pod. Some pod \<in> set pods \<longrightarrow> IsOurPod restore pod \<and> pod_Phase pod = PodSucceeded"
  shows "pods_succeeded restore peers tr"
  unfolding pods_succeeded_def
proof
  fix peer assume "peer \<in> set peers"
  then obtain p where p: "p \<in> set pods"
    "case p of None \<Rightarrow> GetPod (restorePodNamespacedName peer) (Inl NotFound) \<in> set tr
      | Some pod \<Rightarrow> GetPod (restorePodNamespacedName peer) (Inr pod) \<in> set tr"
    using read unfolding pods_read_def by (blast dest: list_all2_ex1)
  with none assms(3) show "\<exists>pod. GetPod (restorePodNamespacedName peer) (Inr pod) \<in> set tr \<and>
      IsOurPod restore pod \<and> pod_Phase pod = PodSucceeded"
    by (cases p) auto
qed

lemma missing_pods:
  assumes "pods_read peers pods tr" "length peers = length pvcs"
  shows "\<forall>(p, peer, pvc) \<in> set (zip pods (zip peers pvcs)). (peer, pvc) \<in> set (zip peers pvcs) \<and>
      (p = None \<longrightarrow> GetPod (restorePodNamespacedName peer) (Inl NotFound) \<in> set tr)"
  using assms unfolding pods_read_def
  by (fastforce simp: list_all2_conv_all_nth in_set_conv_nth split: option.splits)

lemma zip_pods:
  assumes "length pods = length peers" "length peers = length pvcs"
    "\<forall>(p, _) \<in> set (zip pods (zip peers pvcs)). p \<noteq> None"
  shows "None \<notin> set pods"
  using assms by (fastforce simp: in_set_conv_nth)

lemma pod_steps_ok:
  assumes claims: "claims_ours restore pvcs pre" and pods: "pods_read peers pods pre"
    and len: "length peers = length pvcs"
  shows "emits (do {
      verified \<leftarrow> verifyPods cl restore pods;
      case verified of
        Some out \<Rightarrow> ret out
      | None \<Rightarrow> do {
          launched \<leftarrow> launchPod l r cl restore (zip pods (zip peers pvcs));
          case launched of
            Some out \<Rightarrow> ret out
          | None \<Rightarrow> do {
              joined \<leftarrow> joinPods cl restore (List.map_filter id pods);
              case joined of
                Some out \<Rightarrow> ret out
              | None \<Rightarrow> ensureCluster cl restore c
            }
        }
    }) (\<lambda>out tr. restore_ok (restore_justified l r restore c peers pvcs (pre @ tr)) out tr)"
proof (rule emits_bind [OF verifyPods_emits [OF pods, where l = l and r = r and c = c and pvcs = pvcs]], goal_cases)
  case (1 o1 tr1)
  show ?case
  proof (cases o1)
    case (Some out)
    then show ?thesis using 1 by (auto intro!: emits_return)
  next
    case None
    then have v: "tr1 = []" "\<forall>pod. Some pod \<in> set pods \<longrightarrow> IsOurPod restore pod" using 1 by auto
    have found: "\<forall>pod \<in> set (List.map_filter id pods). \<exists>peer \<in> set peers.
        GetPod (restorePodNamespacedName peer) (Inr pod) \<in> set pre"
      using pods_read_Some [OF pods] by (simp add: map_filter_id)
    have lp: "length pods = length peers" using pods by (simp add: pods_read_def list_all2_lengthD)
    have last: "emits (ensureCluster cl restore c) (\<lambda>out tr.
        restore_ok (restore_justified l r restore c peers pvcs (pre @ tr)) out tr)"
      if "None \<notin> set pods" "\<forall>pod \<in> set (List.map_filter id pods). pod_Phase pod = PodSucceeded"
      using ensureCluster_emits [OF claims all_pods_succeeded [OF pods that(1)]] v(2) that(2)
      by (simp add: map_filter_id)
    show ?thesis
      unfolding None option.case v(1) append_Nil
    proof (rule emits_bind [OF launchPod_emits [OF claims missing_pods [OF pods len], where c = c]], goal_cases)
      case (1 o2 tr2)
      then show ?case
      proof
        assume o2: "o2 = None \<and> tr2 = [] \<and> (\<forall>(p, _) \<in> set (zip pods (zip peers pvcs)). p \<noteq> None)"
        then have "None \<notin> set pods" by (intro zip_pods [OF lp len]) simp
        with o2 show ?thesis
          by (auto intro!: emits_return emits_bind [OF joinPods_emits [OF found, where c = c and pvcs = pvcs and l = l and r = r]] last)
      qed (auto intro!: emits_return)
    qed
  qed
qed

lemma reconcileRestore_ok:
  assumes len: "length peers = length pvcs"
  shows "emits (reconcileRestore l r cl restore c peers pvcs) (\<lambda>out tr.
    restore_ok (restore_justified l r restore c peers pvcs tr) out tr)"
  unfolding reconcileRestore_def
proof (rule emits_bind [OF ensurePVCs_emits
      [OF subset_refl, where pre = "[]" and l = l and r = r and c = c and peers = peers]], goal_cases)
  case (1 o1 tr1)
  show ?case
  proof (cases o1)
    case (Some out)
    then show ?thesis using 1 by (auto intro!: emits_return)
  next
    case None
    with 1 have s1: "mutations tr1 = []" "claims_ours restore pvcs tr1" by auto
    show ?thesis
      unfolding None option.case
    proof (rule emits_bind [OF findRestorePods_emits], rule emits_case_sum, goal_cases)
      case (1 rs tr2 err)
      then show ?case using s1 by (auto intro!: emits_return simp: restore_ok_def)
    next
      case (2 rs tr2 pods)
      then have s2: "mutations tr2 = []" "pods_read peers pods tr2" by auto
      have "claims_ours restore pvcs (tr1 @ tr2)" by (rule observations_mono(1) [OF _ s1(2)]) simp
      moreover have "pods_read peers pods (tr1 @ tr2)" by (rule pods_read_mono [OF s2(2)]) simp
      ultimately show ?case
        unfolding restore_ok_append [OF s1(1)] restore_ok_append [OF s2(1)]
        by (rule pod_steps_ok [OF _ _ len, where pre = "tr1 @ tr2", unfolded append_assoc])
    qed
  qed
qed

section \<open>Expected objects\<close>

lemma expectedObjects_Return:
  assumes "expectedObjects l restore = Return (c, peers, pvcs)"
  shows "c = EtcdCluster_Default (clusterForRestore restore)"
    "\<exists>names. expectedPeerNamesForCluster c = Return names \<and>
       list_all2 (\<lambda>n p. expectedPeerForRestore l c n = Return p) names peers"
    "list_all2 (\<lambda>p pvc. expectedPVCForRestore restore p = Return pvc) peers pvcs"
  using assms
  by (auto simp: expectedObjects_def Let_def traverse_outcome_Return split: outcome.splits)

lemma expectedObjects_length: "expectedObjects l restore = Return (c, peers, pvcs) \<Longrightarrow> length peers = length pvcs"
  by (auto dest: expectedObjects_Return(3) list_all2_lengthD)

lemma expectedPeerForRestore_Return:
  assumes "expectedPeerForRestore l c n = Return p"
  shows "peer_meta p = peer_meta (peerForCluster l c n)"
    "ps_Storage (peer_spec p) = setDefaults (cs_Storage (cluster_spec c))"
    "\<exists>ms. ps_Bootstrap (peer_spec p) = Some
       \<lparr>Static = Some \<lparr>InitialCluster = ms\<rparr>, bs_InitialClusterState = InitialClusterStateNew\<rparr>"
  using assms
  by (auto simp: expectedPeerForRestore_def configurePeerBootstrap_def set_bootstrap_def peerForCluster_def
      split: outcome.splits)

lemma pvcForPeer_set_bootstrap: "pvcForPeer (set_bootstrap p ms st) = pvcForPeer p"
  by (simp add: set_bootstrap_def pvcForPeer_def peerLabels_def split: option.split)

lemma expectedPVCForRestore_key:
  "expectedPVCForRestore restore p = Return pvc \<Longrightarrow> key_of (pvc_meta pvc) = key_of (peer_meta p)"
  by (auto simp: expectedPVCForRestore_def pvcForPeer_def markPVC_def key_of_def set_label_def
      split: option.splits elim!: bind_outcome.elims)

section \<open>The passes of the handler\<close>

inductive restore_pass :: "lib \<Rightarrow> EtcdRestoreReconciler \<Rightarrow> NamespacedName \<Rightarrow> reconciled \<Rightarrow> call list \<Rightarrow> bool"
  for l r req where
  gone: "restore_pass l r req (done_with (IgnoreNotFound (Some err))) [GetRestore req (Inl err)]"
| ended: "rst_Phase (restore_status restore) \<in> {EtcdRestorePhaseCompleted, EtcdRestorePhaseFailed} \<Longrightarrow>
     restore_pass l r req (done_with None) [GetRestore req (Inr restore)]"
| starts: "rst_Phase (restore_status restore) \<notin>
       {EtcdRestorePhaseCompleted, EtcdRestorePhaseFailed, EtcdRestorePhasePending} \<Longrightarrow>
     restore_pass l r req (done_with e)
       [GetRestore req (Inr restore), StatusUpdate (ORestore (with_restore_phase restore EtcdRestorePhasePending)) e]"
| panics: "rst_Phase (restore_status restore) = EtcdRestorePhasePending \<Longrightarrow> expectedObjects l restore = Panic \<Longrightarrow>
     restore_pass l r req Panic [GetRestore req (Inr restore)]"
| works: "rst_Phase (restore_status restore) = EtcdRestorePhasePending \<Longrightarrow>
     expectedObjects l restore = Return (c, peers, pvcs) \<Longrightarrow>
     restore_ok (restore_justified l r (shareDefaults restore) c peers pvcs tr) out tr \<Longrightarrow>
     restore_pass l r req out (GetRestore req (Inr restore) # tr)"

lemma Restore_Reconcile_pass: "emits (Restore_Reconcile l r cl req) (restore_pass l r req)"
  unfolding Restore_Reconcile_def get_Restore_def
proof (rule emits_bind_call, rule emits_case_sum, goal_cases)
  case (1 a err)
  then show ?case by (auto intro!: emits_return gone)
next
  case (2 a restore)
  show ?case
    unfolding Let_def 2 call_defs
  proof (intro emits_if emits_case_outcome emits_case_prod, goal_cases)
    case 1
    then show ?case by (auto intro!: emits_return ended)
  next
    case 2
    then show ?case by (auto intro!: emits_bind_call emits_return starts)
  next
    case 3
    then show ?case by (auto intro!: emits_return panics)
  next
    case (4 x c y peers pvcs)
    then show ?case
      by (intro emits_mono [OF reconcileRestore_ok [OF expectedObjects_length [of l restore c]]])
        (auto intro: works)
  qed
qed

lemma restore_ok_cases:
  assumes "restore_ok J out tr"
  shows "mutations tr = [] \<or> (\<exists>x. mutations tr = [x] \<and> J x)"
  using assms by (auto simp: restore_ok_def)

lemma restore_justified_mono:
  "restore_justified l r restore c peers pvcs tr x \<Longrightarrow> set tr \<subseteq> set tr' \<Longrightarrow>
   restore_justified l r restore c peers pvcs tr' x"
  using observations_mono [of tr tr'] by (cases x) (simp_all, blast+)

text \<open>The change a pass makes, if any.\<close>

definition restore_change ::
    "lib \<Rightarrow> EtcdRestoreReconciler \<Rightarrow> EtcdRestore \<Rightarrow> call list \<Rightarrow> call \<Rightarrow> bool" where
  "restore_change l r restore tr x \<longleftrightarrow>
     (rst_Phase (restore_status restore) \<notin>
        {EtcdRestorePhaseCompleted, EtcdRestorePhaseFailed, EtcdRestorePhasePending} \<and>
      (\<exists>e. x = StatusUpdate (ORestore (with_restore_phase restore EtcdRestorePhasePending)) e)) \<or>
     (rst_Phase (restore_status restore) = EtcdRestorePhasePending \<and>
      (\<exists>c peers pvcs. expectedObjects l restore = Return (c, peers, pvcs) \<and>
         restore_justified l r (shareDefaults restore) c peers pvcs tr x))"

lemma restore_pass_change:
  assumes "restore_pass l r req out tr"
  shows "mutations tr = [] \<or>
    (\<exists>x restore. mutations tr = [x] \<and> hd tr = GetRestore req (Inr restore) \<and> restore_change l r restore tr x)"
  using assms
proof cases
  case (works restore c peers pvcs tr')
  from restore_ok_cases [OF works(4)] show ?thesis
  proof
    assume "\<exists>x. mutations tr' = [x] \<and> restore_justified l r (shareDefaults restore) c peers pvcs tr' x"
    then obtain x where "mutations tr' = [x]" "restore_justified l r (shareDefaults restore) c peers pvcs tr x"
      using restore_justified_mono [of l r "shareDefaults restore" c peers pvcs tr' _ tr] works(1) by auto
    with works show ?thesis by (auto simp: restore_change_def)
  qed (simp add: works(1))
qed (auto simp: restore_change_def)

interpretation restore_reconciler: reconciler "Restore_Reconcile l r cl" for l r cl
proof
  fix req
  show "at_most_one_action (Restore_Reconcile l r cl req)"
    unfolding at_most_one_action_def
  proof (rule emits_mono [OF Restore_Reconcile_pass])
    fix out tr assume "restore_pass l r req out tr"
    from restore_pass_change [OF this] have "length (mutations tr) \<le> 1" by auto
    with length_actions_le [of tr] show "length (actions tr) \<le> 1" by simp
  qed
qed

section \<open>Nothing foreign is built upon\<close>

definition only_ours :: "EtcdRestore \<Rightarrow> call list \<Rightarrow> bool" where
  "only_ours restore tr \<longleftrightarrow>
     (\<forall>k pvc. GetPVC k (Inr pvc) \<in> set tr \<longrightarrow> IsOurPVC restore pvc) \<and>
     (\<forall>k pod. GetPod k (Inr pod) \<in> set tr \<longrightarrow> IsOurPod restore pod)"

fun is_create :: "call \<Rightarrow> bool" where
  "is_create (Create _ _) = True"
| "is_create _ = False"

text \<open>A part of a pass that goes on, or creates something, has met nothing foreign.\<close>

definition careful :: "EtcdRestore \<Rightarrow> bool \<Rightarrow> call list \<Rightarrow> bool" where
  "careful restore goes_on tr \<longleftrightarrow>
     (goes_on \<or> list_ex is_create tr \<longrightarrow> only_ours restore tr) \<and> (goes_on \<longrightarrow> \<not> list_ex is_create tr)"

lemma only_ours_simps [simp]:
  "only_ours restore []"
  "only_ours restore (tr @ tr') \<longleftrightarrow> only_ours restore tr \<and> only_ours restore tr'"
  "only_ours restore (Create obj e # tr) = only_ours restore tr"
  "only_ours restore (StatusUpdate obj e # tr) = only_ours restore tr"
  "only_ours restore (Recorded ev # tr) = only_ours restore tr"
  "only_ours restore (GetCluster k a # tr) = only_ours restore tr"
  "only_ours restore (GetRestore k b # tr) = only_ours restore tr"
  "only_ours restore (GetPVC k (Inl err) # tr) = only_ours restore tr"
  "only_ours restore (GetPVC k (Inr pvc) # tr) \<longleftrightarrow> IsOurPVC restore pvc \<and> only_ours restore tr"
  by (auto simp: only_ours_def)

lemma ensurePVCs_careful: "emits (ensurePVCs cl restore pvcs) (\<lambda>o' tr. careful restore (o' = None) tr)"
proof (induction pvcs)
  case (Cons pvc pvcs)
  show ?case
    unfolding ensurePVCs.simps get_PVC_def
  proof (rule emits_bind_call, rule emits_case_sum, goal_cases)
    case (1 a err)
    then show ?case unfolding call_defs by (intro emits_steps) (simp_all add: careful_def)
  next
    case (2 a actual)
    then show ?case
      by (auto intro!: emits_if emits_bind [OF failRestore_emits] emits_return emits_mono [OF Cons.IH]
          simp: careful_def)
  qed
qed (simp add: emits_return careful_def)

lemma findRestorePods_reads:
  "emits (findRestorePods cl peers) (\<lambda>rs tr. list_all (\<lambda>x. \<exists>k a. x = GetPod k a) tr \<and>
     (\<forall>pods k pod. rs = Inr pods \<longrightarrow> GetPod k (Inr pod) \<in> set tr \<longrightarrow> Some pod \<in> set pods))"
proof (induction peers)
  case (Cons peer peers)
  show ?case
    unfolding findRestorePods.simps get_Pod_def
  proof (rule emits_bind_call, rule emits_case_sum, goal_cases)
    case (2 a p)
    then show ?case
      by (intro emits_bind [OF Cons.IH] emits_return) (auto simp: if_found_Inr split: sum.splits)
  qed (simp add: emits_return)
qed (simp add: emits_return)

lemma launchPod_careful:
  "emits (launchPod l r cl restore ts) (\<lambda>o' tr. only_ours restore tr)"
proof (induction ts)
  case (Cons t ts)
  obtain p peer pvc where t: "t = (p, peer, pvc)" by (cases t)
  show ?case
  proof (cases p)
    case None
    then show ?thesis unfolding t launchPod.simps call_defs None by (intro emits_steps) simp_all
  next
    case (Some pod)
    with Cons show ?thesis by (simp add: t)
  qed
qed (simp add: emits_return)

lemma late_steps_careful:
  "emits (joinPods cl restore pods) (\<lambda>o' tr. only_ours restore tr)"
  "emits (ensureCluster cl restore c) (\<lambda>out tr. only_ours restore tr)"
  unfolding joinPods_def ensureCluster_def call_defs Let_def by (intro emits_steps; simp)+

lemma reads_only_pods:
  assumes "list_all (\<lambda>x. \<exists>k a. x = GetPod k a) tr"
  shows "\<not> list_ex is_create tr" "only_ours restore tr \<longleftrightarrow> (\<forall>k pod. GetPod k (Inr pod) \<in> set tr \<longrightarrow> IsOurPod restore pod)"
  using assms by (induction tr) (auto simp: only_ours_def)

lemma reconcileRestore_careful:
  "emits (reconcileRestore l r cl restore c peers pvcs) (\<lambda>out tr. careful restore False tr)"
  unfolding reconcileRestore_def
proof (rule emits_bind [OF ensurePVCs_careful], rule emits_case_option, goal_cases)
  case (2 o1 tr1 out)
  then show ?case by (simp add: emits_return careful_def)
next
  case (1 o1 tr1)
  then have s1: "only_ours restore tr1" "\<not> list_ex is_create tr1" by (simp_all add: careful_def)
  have rest: "emits (do {
      launched \<leftarrow> launchPod l r cl restore ts;
      case launched of
        Some out \<Rightarrow> ret out
      | None \<Rightarrow> do {
          joined \<leftarrow> joinPods cl restore ps;
          case joined of Some out \<Rightarrow> ret out | None \<Rightarrow> ensureCluster cl restore c
        }
    }) (\<lambda>out tr. only_ours restore tr)" for ts ps
    by (intro emits_bind [OF launchPod_careful] emits_bind [OF late_steps_careful(1)]
        emits_case_option emits_return emits_mono [OF late_steps_careful(2)]) simp_all
  show ?case
  proof (rule emits_bind [OF findRestorePods_reads], rule emits_case_sum, goal_cases)
    case (1 rs tr2 err)
    then show ?case using s1 reads_only_pods(1) [of tr2]
      by (auto intro!: emits_return simp: careful_def)
  next
    case (2 rs tr2 pods)
    show ?case
    proof (cases "find (\<lambda>pod. \<not> IsOurPod restore pod) (List.map_filter id pods)")
      case None
      then have "only_ours restore tr2"
        using 2 reads_only_pods(2) [of tr2 restore] by (auto simp: find_None_all map_filter_id)
      then show ?thesis
        unfolding verifyPods_def None using s1
        by (auto intro!: emits_mono [OF rest] simp: careful_def)
    next
      case (Some pod)
      have "\<not> list_ex is_create tr2" using 2 reads_only_pods(1) by blast
      then show ?thesis
        unfolding verifyPods_def Some using s1
        by (auto intro!: emits_mono [OF failRestore_emits] simp: careful_def)
    qed
  qed
qed

lemma shareDefaults_simps [simp]:
  "restore_meta (shareDefaults restore) = restore_meta restore"
  "restore_status (shareDefaults restore) = restore_status restore"
  "cs_PodTemplate (ct_Spec (ClusterTemplate (restore_spec (shareDefaults restore)))) =
     cs_PodTemplate (ct_Spec (ClusterTemplate (restore_spec restore)))"
  by (simp_all add: shareDefaults_def Let_def)

lemma ours_shareDefaults [simp]:
  "IsOurPVC (shareDefaults restore) = IsOurPVC restore" "IsOurPod (shareDefaults restore) = IsOurPod restore"
  by (auto simp: IsOurPVC_def IsOurPod_def fun_eq_iff)

lemma Restore_Reconcile_careful:
  "emits (Restore_Reconcile l r cl req) (\<lambda>out tr.
     (\<exists>err. hd tr = GetRestore req (Inl err) \<and> list_all (\<lambda>x. \<not> is_create x) tr) \<or>
     (\<exists>restore. hd tr = GetRestore req (Inr restore) \<and> careful restore False tr))"
proof -
  have eq: "careful (shareDefaults restore) = careful restore" for restore
    by (auto simp: careful_def only_ours_def fun_eq_iff)
  have steps: "emits (reconcileRestore l r cl (shareDefaults restore) c peers pvcs) (\<lambda>out tr. careful restore False tr)"
    for restore c peers pvcs
    using reconcileRestore_careful [of l r cl "shareDefaults restore" c peers pvcs] by (simp add: eq)
  show ?thesis
    unfolding Restore_Reconcile_def call_defs Let_def
    by (intro emits_bind_call emits_case_sum emits_if emits_case_outcome emits_case_prod emits_return
        emits_mono [OF steps])
      (auto simp: careful_def)
qed

text \<open>What an expected claim and the pod that fills it are called.\<close>

lemma expected_claim_names:
  assumes "expectedObjects l restore = Return (c, peers, pvcs)"
    and "expectedPeerNamesForCluster c = Return names" "n \<in> set names"
  shows "\<exists>peer \<in> set peers. key_of (peer_meta peer) = \<lparr>nn_Namespace = Namespace (restore_meta restore), nn_Name = n\<rparr>"
proof -
  obtain names' where "expectedPeerNamesForCluster c = Return names'"
    "list_all2 (\<lambda>n p. expectedPeerForRestore l c n = Return p) names' peers"
    using expectedObjects_Return(2) [OF assms(1)] by blast
  with assms(2,3) obtain p where p: "p \<in> set peers" "expectedPeerForRestore l c n = Return p"
    by (auto dest: list_all2_ex1)
  moreover have "key_of (peer_meta p) = \<lparr>nn_Namespace = Namespace (restore_meta restore), nn_Name = n\<rparr>"
    using expectedPeerForRestore_Return(1) [OF p(2)] expectedObjects_Return(1) [OF assms(1)]
    by (simp add: key_of_def peerForCluster_def clusterForRestore_def markCluster_def set_label_def)
  ultimately show ?thesis by blast
qed

lemma claims_of_peers:
  assumes "expectedObjects l restore = Return (c, peers, pvcs)" "claims_ours restore' pvcs tr" "peer \<in> set peers"
  shows "\<exists>pvc. GetPVC (key_of (peer_meta peer)) (Inr pvc) \<in> set tr \<and> IsOurPVC restore' pvc"
proof -
  obtain pvc where pvc: "pvc \<in> set pvcs" "expectedPVCForRestore restore peer = Return pvc"
    using list_all2_ex1 [OF expectedObjects_Return(3) [OF assms(1)] assms(3)] by blast
  with assms(2) show ?thesis unfolding claims_ours_def expectedPVCForRestore_key [OF pvc(2), symmetric] by blast
qed

text \<open>Every expected peer has its claim, found and ours, and its restore pod, found, ours and succeeded.\<close>

definition restored :: "EtcdRestore \<Rightarrow> string list \<Rightarrow> call list \<Rightarrow> bool" where
  "restored restore names tr \<longleftrightarrow>
     (\<forall>n \<in> set names.
        (\<exists>pvc. GetPVC \<lparr>nn_Namespace = Namespace (restore_meta restore), nn_Name = n\<rparr> (Inr pvc) \<in> set tr \<and>
           IsOurPVC restore pvc) \<and>
        (\<exists>pod. GetPod \<lparr>nn_Namespace = Namespace (restore_meta restore), nn_Name = n @ ''-restore''\<rparr> (Inr pod) \<in> set tr \<and>
           IsOurPod restore pod \<and> pod_Phase pod = PodSucceeded))"

lemma restored_if:
  assumes "expectedObjects l restore = Return (c, peers, pvcs)" "expectedPeerNamesForCluster c = Return names"
    and "claims_ours restore pvcs tr" "pods_succeeded restore peers tr"
  shows "restored restore names tr"
  unfolding restored_def
proof
  fix n assume n: "n \<in> set names"
  obtain peer where peer: "peer \<in> set peers"
    "key_of (peer_meta peer) = \<lparr>nn_Namespace = Namespace (restore_meta restore), nn_Name = n\<rparr>"
    using expected_claim_names [OF assms(1,2) n] by blast
  have pod: "restorePodNamespacedName peer = \<lparr>nn_Namespace = Namespace (restore_meta restore), nn_Name = n @ ''-restore''\<rparr>"
    using peer(2) by (simp add: restorePodNamespacedName_def restorePodName_def key_of_def)
  have "\<exists>pod. GetPod (restorePodNamespacedName peer) (Inr pod) \<in> set tr \<and>
      IsOurPod restore pod \<and> pod_Phase pod = PodSucceeded"
    using assms(4) peer(1) unfolding pods_succeeded_def by blast
  with claims_of_peers [OF assms(1,3) peer(1)] show "(\<exists>pvc. GetPVC \<lparr>nn_Namespace = Namespace (restore_meta restore), nn_Name = n\<rparr> (Inr pvc) \<in> set tr \<and>
           IsOurPVC restore pvc) \<and>
        (\<exists>pod. GetPod \<lparr>nn_Namespace = Namespace (restore_meta restore), nn_Name = n @ ''-restore''\<rparr> (Inr pod) \<in> set tr \<and>
           IsOurPod restore pod \<and> pod_Phase pod = PodSucceeded)"
    unfolding peer(2) pod by blast
qed

fun is_cluster_create :: "call \<Rightarrow> bool" where
  "is_cluster_create (Create (OCluster _) _) = True"
| "is_cluster_create _ = False"

text \<open>The life cycle of a restore.\<close>

inductive restore_phase_step :: "EtcdRestorePhase \<Rightarrow> EtcdRestorePhase \<Rightarrow> bool" where
  begins: "p \<notin> {EtcdRestorePhaseCompleted, EtcdRestorePhaseFailed, EtcdRestorePhasePending} \<Longrightarrow>
     restore_phase_step p EtcdRestorePhasePending"
| fails: "restore_phase_step EtcdRestorePhasePending EtcdRestorePhaseFailed"
| completes: "restore_phase_step EtcdRestorePhasePending EtcdRestorePhaseCompleted"

lemma restore_phase_terminal:
  "\<not> restore_phase_step EtcdRestorePhaseCompleted q" "\<not> restore_phase_step EtcdRestorePhaseFailed q"
  by (auto elim: restore_phase_step.cases simp: restore_phase_defs)

lemma with_restore_phase_simps [simp]:
  "rst_Phase (restore_status (with_restore_phase restore p)) = p"
  "restore_meta (with_restore_phase restore p) = restore_meta restore"
  by (simp_all add: with_restore_phase_def)

lemma restore_change_phase:
  assumes "restore_change l r restore tr x" "is_status_write x"
  shows "\<exists>s e. x = StatusUpdate (ORestore s) e \<and> restore_meta s = restore_meta restore \<and>
    restore_phase_step (rst_Phase (restore_status restore)) (rst_Phase (restore_status s))"
  using assms by (cases x) (auto simp: restore_change_def intro: restore_phase_step.intros)

lemma restore_change_cluster:
  assumes "restore_change l r restore tr (Create (OCluster c) e)"
  shows "c = EtcdCluster_Default (clusterForRestore restore) \<and>
    (\<exists>names. expectedPeerNamesForCluster c = Return names \<and> restored restore names tr)"
proof -
  obtain peers pvcs where eo: "expectedObjects l restore = Return (c, peers, pvcs)"
    and ok: "claims_ours (shareDefaults restore) pvcs tr" "pods_succeeded (shareDefaults restore) peers tr"
    using assms by (auto simp: restore_change_def)
  have ok': "claims_ours restore pvcs tr" "pods_succeeded restore peers tr"
    using ok by (simp_all add: claims_ours_def pods_succeeded_def)
  obtain names where "expectedPeerNamesForCluster c = Return names"
    using expectedObjects_Return(2) [OF eo] by blast
  with expectedObjects_Return(1) [OF eo] restored_if [OF eo _ ok'] show ?thesis by blast
qed

definition sample_restore :: "EtcdPodTemplateSpec option \<Rightarrow> EtcdRestore" where
  "sample_restore t =
     \<lparr>restore_meta = sample_meta ''r'',
      restore_spec =
        \<lparr>rs_Source = \<lparr>ObjectURL = ''s3://b/x''\<rparr>,
         ClusterTemplate =
           \<lparr>ct_ClusterName = ''c'',
            ct_Spec = (cluster_spec (sample_cluster 2))\<lparr>cs_PodTemplate := t\<rparr>\<rparr>\<rparr>,
      restore_status = \<lparr>rst_Phase = EtcdRestorePhasePending\<rparr>\<rparr>"

text \<open>When a restore pod cannot be built.\<close>

lemma podForRestore_Panic_iff:
  assumes "expectedObjects l restore = Return (c, peers, pvcs)" "peer \<in> set peers"
  shows "podForRestore l r (shareDefaults restore) peer n = Panic \<longleftrightarrow>
    (case cs_PodTemplate (ct_Spec (ClusterTemplate (restore_spec restore))) of
       None \<Rightarrow> True
     | Some t \<Rightarrow> pts_Resources t = None)"
proof -
  obtain name where "expectedPeerForRestore l c name = Return peer"
    using expectedObjects_Return(2) [OF assms(1)] assms(2) by (blast dest: list_all2_ex2)
  from expectedPeerForRestore_Return(3) [OF this] show ?thesis
    by (auto simp: podForRestore_def split: option.splits)
qed

section \<open>Properties\<close>

text \<open>C10: one pass of the EtcdRestore handler makes at most one change, justified by the restore it read and the
  answers of the same pass: the phase is set first; a claim is created when it was not found; a pod
  when every claim was found and ours and it was not found; the cluster when every claim is ours and
  every pod ours and succeeded; the restore fails only for a foreign claim, a foreign pod or a failed
  pod, and completes only when the cluster was found as well.\<close>

theorem restore_one_justified_change:
  "emits (Restore_Reconcile l r cl req) (\<lambda>out tr. mutations tr = [] \<or>
     (\<exists>x restore. mutations tr = [x] \<and> hd tr = GetRestore req (Inr restore) \<and> restore_change l r restore tr x))"
  by (rule emits_mono [OF Restore_Reconcile_pass restore_pass_change])

text \<open>C15: the cluster comes last. It is created, as the template of the restore defines it, only in a pass that
  found, for each of its expected peers, the claim of that peer, marked as ours, and the restore pod
  of that peer, marked as ours and succeeded.\<close>

theorem restore_creates_cluster_last:
  "emits (Restore_Reconcile l r cl req) (\<lambda>out tr.
     filter is_cluster_create tr = [] \<or>
     (\<exists>restore c e names. filter is_cluster_create tr = [Create (OCluster c) e] \<and>
        hd tr = GetRestore req (Inr restore) \<and> c = EtcdCluster_Default (clusterForRestore restore) \<and>
        expectedPeerNamesForCluster c = Return names \<and> restored restore names tr))"
proof (rule emits_mono [OF Restore_Reconcile_pass])
  fix out tr assume pass: "restore_pass l r req out tr"
  have eq: "filter is_cluster_create tr = filter is_cluster_create (mutations tr)"
    unfolding mutations_def filter_filter by (rule filter_cong) (auto elim: is_cluster_create.elims)
  show "filter is_cluster_create tr = [] \<or>
     (\<exists>restore c e names. filter is_cluster_create tr = [Create (OCluster c) e] \<and>
        hd tr = GetRestore req (Inr restore) \<and> c = EtcdCluster_Default (clusterForRestore restore) \<and>
        expectedPeerNamesForCluster c = Return names \<and> restored restore names tr)"
  proof (cases "filter is_cluster_create tr = []")
    case False
    then obtain x restore where x: "mutations tr = [x]" "hd tr = GetRestore req (Inr restore)"
      "restore_change l r restore tr x" "is_cluster_create x"
      using restore_pass_change [OF pass] unfolding eq by (auto split: if_splits)
    then obtain c e where "x = Create (OCluster c) e" by (auto elim: is_cluster_create.elims)
    with x restore_change_cluster [of l r restore tr c e] show ?thesis unfolding eq by auto
  qed simp
qed

text \<open>C16: a pass in which a claim or pod was found that is not marked as ours creates nothing.\<close>

theorem restore_builds_on_nothing_foreign:
  "emits (Restore_Reconcile l r cl req) (\<lambda>out tr.
     list_all (\<lambda>x. \<not> is_create x) tr \<or>
     (\<exists>restore. hd tr = GetRestore req (Inr restore) \<and> only_ours restore tr))"
  by (rule emits_mono [OF Restore_Reconcile_careful]) (auto simp: careful_def list_all_iff list_ex_iff)

text \<open>C17: the life cycle of a restore. The status is written at most once in a pass, on the restore it read, and
  only from no phase to Pending and from Pending to Failed or Completed; a restore that has ended is
  not touched again.\<close>

theorem restore_phase_machine:
  "emits (Restore_Reconcile l r cl req) (\<lambda>out tr.
     filter is_status_write tr = [] \<or>
     (\<exists>restore s e. filter is_status_write tr = [StatusUpdate (ORestore s) e] \<and>
        hd tr = GetRestore req (Inr restore) \<and> restore_meta s = restore_meta restore \<and>
        restore_phase_step (rst_Phase (restore_status restore)) (rst_Phase (restore_status s))))"
proof (rule emits_mono [OF Restore_Reconcile_pass])
  fix out tr assume pass: "restore_pass l r req out tr"
  show "filter is_status_write tr = [] \<or>
     (\<exists>restore s e. filter is_status_write tr = [StatusUpdate (ORestore s) e] \<and>
        hd tr = GetRestore req (Inr restore) \<and> restore_meta s = restore_meta restore \<and>
        restore_phase_step (rst_Phase (restore_status restore)) (rst_Phase (restore_status s)))"
  proof (cases "filter is_status_write tr = []")
    case False
    then obtain x restore where x: "mutations tr = [x]" "hd tr = GetRestore req (Inr restore)"
      "restore_change l r restore tr x" "is_status_write x"
      using restore_pass_change [OF pass] unfolding status_writes_mutations [of tr] by (auto split: if_splits)
    with restore_change_phase [OF x(3,4)] show ?thesis unfolding status_writes_mutations [of tr] by auto
  qed simp
qed

text \<open>C38: launching a restore pod panics exactly when the cluster template has no pod template or the pod
  template has no resources, although both are optional.\<close>

theorem restore_pod_panics_iff:
  assumes "expectedObjects l restore = Return (c, peers, pvcs)" "peer \<in> set peers"
  shows "podForRestore l r (shareDefaults restore) peer n = Panic \<longleftrightarrow>
    (case cs_PodTemplate (ct_Spec (ClusterTemplate (restore_spec restore))) of
       None \<Rightarrow> True
     | Some t \<Rightarrow> pts_Resources t = None)"
  by (rule podForRestore_Panic_iff [OF assms])

theorem restore_pod_panics_iff_witness:
  "\<exists>c peers pvcs peer. expectedObjects std_lib (sample_restore None) = Return (c, peers, pvcs) \<and> peer \<in> set peers \<and>
     podForRestore std_lib \<lparr>RestorePodImage = ''i'', rr_ProxyURL = ''p''\<rparr> (shareDefaults (sample_restore None)) peer ''c-0'' = Panic"
proof -
  have "(case expectedObjects std_lib (sample_restore None) of Return (c, peers, pvcs) \<Rightarrow> peers \<noteq> [] | Panic \<Rightarrow> False)"
    by code_simp
  then obtain c peers pvcs where eo: "expectedObjects std_lib (sample_restore None) = Return (c, peers, pvcs)"
    "peers \<noteq> []" by (auto split: outcome.splits)
  then have "hd peers \<in> set peers" by simp
  with eo restore_pod_panics_iff [OF eo(1) this] show ?thesis
    by (intro exI [of _ c] exI [of _ peers] exI [of _ pvcs] exI [of _ "hd peers"])
      (simp add: sample_restore_def sample_cluster_def)
qed

text \<open>C39: the claims a restore fills are those the peers of the restored cluster will look for: for the i-th
  expected peer, the claim has the name, namespace, labels and specification of the claim of that
  peer, plus the mark of the restore, by which restores of this name and no others recognise it.\<close>

theorem restored_claims_fit_peers:
  assumes "expectedObjects l restore = Return (c, peers, pvcs)" "i < length pvcs"
  shows "\<exists>pvc. pvcForPeer (EtcdPeer_Default (peerForCluster l c (nthPeerName c i))) = Return pvc \<and>
     pvcs ! i = markPVC restore pvc \<and>
     (\<forall>restore'. IsOurPVC restore' (pvcs ! i) \<longleftrightarrow> restore_Name restore' = restore_Name restore) \<and>
     key_of (pvc_meta (pvcs ! i)) = \<lparr>nn_Namespace = cluster_Namespace c, nn_Name = nthPeerName c i\<rparr>"
proof -
  obtain names where names: "expectedPeerNamesForCluster c = Return names"
    "list_all2 (\<lambda>n p. expectedPeerForRestore l c n = Return p) names peers"
    using expectedObjects_Return(2) [OF assms(1)] by blast
  note pvcs = expectedObjects_Return(3) [OF assms(1)]
  have len: "i < length peers" "i < length names"
    using assms(2) list_all2_lengthD [OF pvcs] list_all2_lengthD [OF names(2)] by simp_all
  have p: "expectedPeerForRestore l c (names ! i) = Return (peers ! i)"
    using list_all2_nthD [OF names(2) len(2)] .
  have q: "expectedPVCForRestore restore (peers ! i) = Return (pvcs ! i)"
    using list_all2_nthD [OF pvcs len(1)] .
  have n: "names ! i = nthPeerName c i"
    using names(1) len(2) by (auto simp: expectedPeerNamesForCluster_def split: option.splits if_splits)
  let ?p = "EtcdPeer_Default (peerForCluster l c (nthPeerName c i))"
  have same: "pvcForPeer (peers ! i) = pvcForPeer ?p"
    using p unfolding n
    by (auto simp: expectedPeerForRestore_def configurePeerBootstrap_def
        dest!: sym [of _ "peers ! i"] simp: pvcForPeer_set_bootstrap split: outcome.splits)
  obtain pvc where pvc: "pvcForPeer ?p = Return pvc" "pvcs ! i = markPVC restore pvc"
    using q unfolding same expectedPVCForRestore_def by (cases "pvcForPeer ?p") auto
  have "key_of (pvc_meta pvc) = \<lparr>nn_Namespace = cluster_Namespace c, nn_Name = nthPeerName c i\<rparr>"
    using pvc(1) by (auto simp: pvcForPeer_def key_of_def peerForCluster_def split: option.splits)
  with pvc show ?thesis by (simp add: pvc_mark.ours_mark pvc_mark.key_mark)
qed

theorem restored_claims_fit_peers_witness:
  "\<exists>c peers pvcs. expectedObjects std_lib (sample_restore None) = Return (c, peers, pvcs) \<and>
     IsOurPVC (sample_restore None) (pvcs ! 1)"
proof -
  have "(case expectedObjects std_lib (sample_restore None) of Return (c, peers, pvcs) \<Rightarrow> length pvcs = 2 | Panic \<Rightarrow> False)"
    by code_simp
  then obtain c peers pvcs where eo: "expectedObjects std_lib (sample_restore None) = Return (c, peers, pvcs)"
    "length pvcs = 2" by (auto split: outcome.splits)
  with restored_claims_fit_peers [OF eo(1), of 1] show ?thesis by auto
qed

text \<open>A claim marked for a restore in its namespace wakes that restore and no other.\<close>

lemma marked_claim_wakes_restore:
  assumes "Namespace (pvc_meta pvc) = Namespace (restore_meta restore)"
  shows "restoredFromMapper_Map (pvc_meta (markPVC restore pvc)) = [key_of (restore_meta restore)]"
  by (rule pvc_mark.mark_wakes [OF assms])

end
