(* ===== verification/RestoreSystem.thy ===== *)
theory RestoreSystem
  imports RestoreProps Tracking
begin

text \<open>
  The EtcdRestore controller in its environment: what an API server promises for the objects of a
  restore, and what a pass of the handler does on such a server, while pods run and others make
  objects: every change gets the restore further, and an answered pass changes something unless a
  pod is running or the restore has ended.
\<close>

section \<open>What a restore sees\<close>

record rview =
  rv_restore :: EtcdRestore
  rv_claims :: "NamespacedName \<rightharpoonup> PersistentVolumeClaim"
  rv_pods :: "NamespacedName \<rightharpoonup> Pod"
  rv_clusters :: "NamespacedName set"

abbreviation rv_phase :: "rview \<Rightarrow> EtcdRestorePhase" where
  "rv_phase v \<equiv> rst_Phase (restore_status (rv_restore v))"

text \<open>The marks of a restore on an object.\<close>

definition marks :: "ObjectMeta \<Rightarrow> string \<times> string" where
  "marks m = (label (Labels m) restoredFromLabel, label (Labels m) restorePodLabel)"

text \<open>
  What stays from one moment to the next: claims, pods and clusters stay, with their marks, and a
  finished pod keeps its phase.
\<close>

definition keeps :: "rview \<Rightarrow> rview \<Rightarrow> bool" where
  "keeps v v' \<longleftrightarrow>
     (\<forall>k c. rv_claims v k = Some c \<longrightarrow> (\<exists>c'. rv_claims v' k = Some c' \<and> marks (pvc_meta c') = marks (pvc_meta c))) \<and>
     (\<forall>k p. rv_pods v k = Some p \<longrightarrow> (\<exists>p'. rv_pods v' k = Some p' \<and> marks (pod_meta p') = marks (pod_meta p) \<and>
        (finished p \<longrightarrow> pod_Phase p' = pod_Phase p))) \<and>
     rv_clusters v \<subseteq> rv_clusters v'"

text \<open>What others do: they leave the restore alone and remove nothing.\<close>

definition drifts :: "rview \<Rightarrow> rview \<Rightarrow> bool" where
  "drifts v v' \<longleftrightarrow> rv_restore v' = rv_restore v \<and> keeps v v'"

lemma keeps_refl [simp]: "keeps v v"
  by (simp add: keeps_def)

lemma keeps_trans [trans]:
  assumes uv: "keeps u v" and vw: "keeps v w"
  shows "keeps u w"
proof -
  have "\<exists>p'. rv_pods w k = Some p' \<and> marks (pod_meta p') = marks (pod_meta p) \<and> (finished p \<longrightarrow> pod_Phase p' = pod_Phase p)"
    if p: "rv_pods u k = Some p" for k p
  proof -
    obtain q where q: "rv_pods v k = Some q" "marks (pod_meta q) = marks (pod_meta p)" "finished p \<longrightarrow> pod_Phase q = pod_Phase p"
      using uv p unfolding keeps_def by blast
    then obtain q' where "rv_pods w k = Some q'" "marks (pod_meta q') = marks (pod_meta q)" "finished q \<longrightarrow> pod_Phase q' = pod_Phase q"
      using vw unfolding keeps_def by blast
    with q show ?thesis by (auto simp: finished_def)
  qed
  moreover have "\<exists>c'. rv_claims w k = Some c' \<and> marks (pvc_meta c') = marks (pvc_meta c)" if "rv_claims u k = Some c" for k c
    using uv vw that unfolding keeps_def by metis
  ultimately show "keeps u w" using uv vw unfolding keeps_def by auto
qed

lemma drifts_refl [simp]: "drifts v v"
  by (simp add: drifts_def)

lemma drifts_trans: "drifts u v \<Longrightarrow> drifts v w \<Longrightarrow> drifts u w"
  by (auto simp: drifts_def intro: keeps_trans)

section \<open>What the server promises\<close>

text \<open>
  What a request with its answer says about the objects. A read tells the truth of the moment; a
  request that reports an error may or may not have taken effect, one that reports none has. An
  object is only created where there is none; writing the status leaves the rest of the restore.
\<close>

fun executes :: "NamespacedName \<Rightarrow> call \<Rightarrow> rview \<Rightarrow> rview \<Rightarrow> bool" where
  "executes req (GetRestore k a) v v' \<longleftrightarrow> v' = v \<and>
     (k = req \<longrightarrow> a \<noteq> Inl NotFound \<and> (\<forall>x. a = Inr x \<longrightarrow> x = rv_restore v))"
| "executes req (GetPVC k a) v v' \<longleftrightarrow> v' = v \<and>
     (a = Inl NotFound \<longrightarrow> rv_claims v k = None) \<and> (\<forall>c. a = Inr c \<longrightarrow> rv_claims v k = Some c)"
| "executes req (GetPod k a) v v' \<longleftrightarrow> v' = v \<and>
     (a = Inl NotFound \<longrightarrow> rv_pods v k = None) \<and> (\<forall>p. a = Inr p \<longrightarrow> rv_pods v k = Some p)"
| "executes req (GetCluster k a) v v' \<longleftrightarrow> v' = v \<and>
     (a = Inl NotFound \<longrightarrow> k \<notin> rv_clusters v) \<and> (\<forall>c. a = Inr c \<longrightarrow> k \<in> rv_clusters v)"
| "executes req (Create (OPVC c) a) v v' \<longleftrightarrow>
     v' = v \<and> a \<noteq> None \<or>
     rv_claims v (key_of (pvc_meta c)) = None \<and>
     (\<exists>c'. marks (pvc_meta c') = marks (pvc_meta c) \<and> v' = v\<lparr>rv_claims := (rv_claims v)(key_of (pvc_meta c) \<mapsto> c')\<rparr>)"
| "executes req (Create (OPod p) a) v v' \<longleftrightarrow>
     v' = v \<and> a \<noteq> None \<or>
     rv_pods v (key_of (pod_meta p)) = None \<and>
     (\<exists>p'. marks (pod_meta p') = marks (pod_meta p) \<and> v' = v\<lparr>rv_pods := (rv_pods v)(key_of (pod_meta p) \<mapsto> p')\<rparr>)"
| "executes req (Create (OCluster c) a) v v' \<longleftrightarrow>
     v' = v \<and> a \<noteq> None \<or>
     key_of (cluster_meta c) \<notin> rv_clusters v \<and> v' = v\<lparr>rv_clusters := insert (key_of (cluster_meta c)) (rv_clusters v)\<rparr>"
| "executes req (StatusUpdate (ORestore s) a) v v' \<longleftrightarrow>
     v' = v \<and> (a \<noteq> None \<or> key_of (restore_meta s) \<noteq> req) \<or>
     key_of (restore_meta s) = req \<and> v' = v\<lparr>rv_restore := (rv_restore v)\<lparr>restore_status := restore_status s\<rparr>\<rparr>"
| "executes req _ v v' \<longleftrightarrow> v' = v"

lemma executes_keeps: "executes req x v v' \<Longrightarrow> keeps v v'"
  by (cases "(req, x, v, v')" rule: executes.cases) (auto simp: keeps_def)

lemma executes_quiet: "executes req x v v' \<Longrightarrow> \<not> is_mutation x \<Longrightarrow> v' = v"
  by (cases x) auto

interpretation restore_server: shared_server drifts keeps "executes req" for req
  by unfold_locales (auto simp: drifts_def intro: keeps_trans executes_keeps dest: executes_quiet)

text \<open>Others may act before each request.\<close>

abbreviation serves_restore :: "NamespacedName \<Rightarrow> call \<Rightarrow> rview \<Rightarrow> rview \<Rightarrow> bool" where
  "serves_restore req \<equiv> between drifts (executes req)"

definition restore_lawful :: "'w client \<Rightarrow> NamespacedName \<Rightarrow> ('w \<Rightarrow> bool) \<Rightarrow> ('w \<Rightarrow> rview) \<Rightarrow> bool" where
  "restore_lawful cl req good view \<longleftrightarrow>
     (\<forall>w. good w \<longrightarrow> key_of (restore_meta (rv_restore (view w))) = req) \<and>
     (\<forall>k. serves (serves_restore req) good view (GetRestore k) (c_get_Restore cl k)) \<and>
     (\<forall>k. serves (serves_restore req) good view (GetPVC k) (c_get_PVC cl k)) \<and>
     (\<forall>k. serves (serves_restore req) good view (GetPod k) (c_get_Pod cl k)) \<and>
     (\<forall>k. serves (serves_restore req) good view (GetCluster k) (c_get_Cluster cl k)) \<and>
     (\<forall>obj. serves (serves_restore req) good view (Create obj) (c_create cl obj)) \<and>
     (\<forall>obj. serves (serves_restore req) good view (StatusUpdate obj) (c_status_update cl obj))"

lemma restore_lawful_calls:
  assumes "restore_lawful cl req good view"
  shows "tracks (serves_restore req) good view (get_Restore cl k)" "tracks (serves_restore req) good view (get_PVC cl k)"
    "tracks (serves_restore req) good view (get_Pod cl k)" "tracks (serves_restore req) good view (get_Cluster cl k)"
    "tracks (serves_restore req) good view (create cl obj)" "tracks (serves_restore req) good view (status_update cl obj)"
  using assms unfolding restore_lawful_def call_defs by (simp_all add: tracks_call)

section \<open>The handler follows the objects\<close>

lemma failRestore_tracks:
  assumes "restore_lawful cl req good view"
  shows "tracks (serves_restore req) good view (failRestore cl restore reason what m)"
  unfolding failRestore_def by (intro tracks_steps restore_lawful_calls [OF assms])

lemma loops_track:
  assumes "restore_lawful cl req good view"
  shows "tracks (serves_restore req) good view (ensurePVCs cl restore pvcs)"
    "tracks (serves_restore req) good view (findRestorePods cl peers)"
proof -
  show "tracks (serves_restore req) good view (ensurePVCs cl restore pvcs)"
    by (induction pvcs) (auto intro!: tracks_steps restore_lawful_calls [OF assms] failRestore_tracks [OF assms])
  show "tracks (serves_restore req) good view (findRestorePods cl peers)"
    by (induction peers) (auto intro!: tracks_steps restore_lawful_calls [OF assms])
qed

lemma launchPod_tracks:
  assumes "restore_lawful cl req good view"
  shows "tracks (serves_restore req) good view (launchPod l r cl restore ts)"
  using assms by (induction l r cl restore ts rule: launchPod.induct) (auto intro!: tracks_steps restore_lawful_calls)

lemma Restore_Reconcile_tracks:
  assumes "restore_lawful cl req good view"
  shows "tracks (serves_restore req) good view (Restore_Reconcile l r cl req')"
  unfolding Restore_Reconcile_def reconcileRestore_def verifyPods_def joinPods_def ensureCluster_def
  by (intro tracks_steps restore_lawful_calls [OF assms] loops_track [OF assms] failRestore_tracks [OF assms]
      launchPod_tracks [OF assms])

definition restore_pass_from ::
    "lib \<Rightarrow> EtcdRestoreReconciler \<Rightarrow> 'w client \<Rightarrow> NamespacedName \<Rightarrow> 'w \<Rightarrow> 'w world" where
  "restore_pass_from l r cl req w = snd (run_state (Restore_Reconcile l r cl req) \<lparr>server = w, trace = []\<rparr>)"

lemma restore_pass_run:
  assumes "restore_lawful cl req good view" "good w"
  shows "good (server (restore_pass_from l r cl req w))"
    "path (serves_restore req) (trace (restore_pass_from l r cl req w)) (view w)
       (view (server (restore_pass_from l r cl req w)))"
  unfolding restore_pass_from_def by (rule tracks_run [OF Restore_Reconcile_tracks [OF assms(1)] assms(2)])+

lemma read_restore:
  assumes "path (serves_restore req) (GetRestore req (Inr restore) # tr) v v'"
  shows "restore = rv_restore v"
  using assms unfolding restore_server.path_Cons by (auto simp: drifts_def)

section \<open>What is left to do\<close>

definition ended :: "EtcdRestorePhase \<Rightarrow> bool" where
  "ended p \<longleftrightarrow> p = EtcdRestorePhaseCompleted \<or> p = EtcdRestorePhaseFailed"

definition missing :: "EtcdCluster \<Rightarrow> EtcdPeer list \<Rightarrow> PersistentVolumeClaim list \<Rightarrow> rview \<Rightarrow> nat" where
  "missing c peers pvcs v =
     length (filter (\<lambda>pvc. rv_claims v (key_of (pvc_meta pvc)) = None) pvcs) +
     length (filter (\<lambda>peer. rv_pods v (restorePodNamespacedName peer) = None) peers) +
     (if key_of (cluster_meta c) \<in> rv_clusters v then 0 else 1)"

text \<open>A pending restore has to make what is missing and to end; one that has not begun has everything to do.\<close>

definition to_do :: "EtcdCluster \<Rightarrow> EtcdPeer list \<Rightarrow> PersistentVolumeClaim list \<Rightarrow> rview \<Rightarrow> nat" where
  "to_do c peers pvcs v =
     (if ended (rv_phase v) then 0
      else if rv_phase v = EtcdRestorePhasePending then Suc (missing c peers pvcs v)
      else length pvcs + length peers + 3)"

lemma length_filter_less:
  assumes "\<And>x. Q x \<Longrightarrow> P x" "y \<in> set xs" "P y" "\<not> Q y"
  shows "length (filter Q xs) < length (filter P xs)"
proof -
  have "length (filter Q xs) \<le> length (filter P xs)" for xs using assms(1) by (induction xs) auto
  with assms show ?thesis by (induction xs) (auto simp: less_Suc_eq_le)
qed

lemma length_filter_le2: "(\<And>x. Q x \<Longrightarrow> P x) \<Longrightarrow> length (filter Q xs) \<le> length (filter P xs)"
  by (induction xs) auto

lemma missing_le: "missing c peers pvcs v \<le> length pvcs + length peers + 1"
  unfolding missing_def by (intro add_mono) simp_all

lemma keeps_exists:
  assumes "keeps v v'"
  shows "rv_claims v' k = None \<Longrightarrow> rv_claims v k = None" "rv_pods v' k = None \<Longrightarrow> rv_pods v k = None"
    "k \<in> rv_clusters v \<Longrightarrow> k \<in> rv_clusters v'"
proof -
  show "rv_claims v' k = None \<Longrightarrow> rv_claims v k = None"
    using assms unfolding keeps_def by (cases "rv_claims v k") fastforce+
  show "rv_pods v' k = None \<Longrightarrow> rv_pods v k = None"
    using assms unfolding keeps_def by (cases "rv_pods v k") fastforce+
  show "k \<in> rv_clusters v \<Longrightarrow> k \<in> rv_clusters v'" using assms unfolding keeps_def by blast
qed

lemma missing_keeps: "keeps v v' \<Longrightarrow> missing c peers pvcs v' \<le> missing c peers pvcs v"
  unfolding missing_def by (intro add_mono length_filter_le2) (auto dest: keeps_exists)

lemma missing_less:
  assumes "keeps v v'"
    and "(\<exists>pvc \<in> set pvcs. rv_claims v (key_of (pvc_meta pvc)) = None \<and> rv_claims v' (key_of (pvc_meta pvc)) \<noteq> None) \<or>
      (\<exists>peer \<in> set peers. rv_pods v (restorePodNamespacedName peer) = None \<and> rv_pods v' (restorePodNamespacedName peer) \<noteq> None) \<or>
      key_of (cluster_meta c) \<in> rv_clusters v' - rv_clusters v"
  shows "missing c peers pvcs v' < missing c peers pvcs v"
proof -
  let ?claims = "\<lambda>u. length (filter (\<lambda>pvc. rv_claims u (key_of (pvc_meta pvc)) = None) pvcs)"
  let ?pods = "\<lambda>u. length (filter (\<lambda>peer. rv_pods u (restorePodNamespacedName peer) = None) peers)"
  let ?cluster = "\<lambda>u. if key_of (cluster_meta c) \<in> rv_clusters u then 0 else 1 :: nat"
  have le: "?claims v' \<le> ?claims v" "?pods v' \<le> ?pods v" "?cluster v' \<le> ?cluster v"
    using keeps_exists [OF assms(1)] by (auto intro!: length_filter_le2)
  from assms(2) have "?claims v' < ?claims v \<or> ?pods v' < ?pods v \<or> ?cluster v' < ?cluster v"
  proof (elim disjE bexE conjE)
    fix pvc assume "pvc \<in> set pvcs" "rv_claims v (key_of (pvc_meta pvc)) = None" "rv_claims v' (key_of (pvc_meta pvc)) \<noteq> None"
    then show ?thesis using keeps_exists(1) [OF assms(1)] by (blast intro: length_filter_less)
  next
    fix peer assume "peer \<in> set peers" "rv_pods v (restorePodNamespacedName peer) = None" "rv_pods v' (restorePodNamespacedName peer) \<noteq> None"
    then show ?thesis using keeps_exists(2) [OF assms(1)] by (blast intro: length_filter_less)
  qed simp
  with le show ?thesis unfolding missing_def by linarith
qed

lemma to_do_drifts: "drifts v v' \<Longrightarrow> to_do c peers pvcs v' \<le> to_do c peers pvcs v"
  using missing_keeps [of v v' c peers pvcs] by (simp add: to_do_def drifts_def)

lemma to_do_pending:
  assumes "rv_restore v' = rv_restore v" "rv_phase v = EtcdRestorePhasePending"
  shows "to_do c peers pvcs v' \<le> to_do c peers pvcs v \<longleftrightarrow> missing c peers pvcs v' \<le> missing c peers pvcs v"
    "to_do c peers pvcs v' < to_do c peers pvcs v \<longleftrightarrow> missing c peers pvcs v' < missing c peers pvcs v"
  using assms by (simp_all add: to_do_def ended_def restore_phase_defs)

section \<open>The effect of a change\<close>

lemma expected_peer_namespace:
  assumes "expectedObjects l restore = Return (c, peers, pvcs)" "peer \<in> set peers"
  shows "peer_Namespace peer = Namespace (restore_meta restore)"
proof -
  obtain name where "expectedPeerForRestore l c name = Return peer"
    using expectedObjects_Return(2) [OF assms(1)] assms(2) by (blast dest: list_all2_ex2)
  from expectedPeerForRestore_Return(1) [OF this] expectedObjects_Return(1) [OF assms(1)] show ?thesis
    by (simp add: peerForCluster_def clusterForRestore_def markCluster_def set_label_def)
qed

lemma podForRestore_key:
  assumes "podForRestore l r restore peer n = Return pod" "peer_Namespace peer = Namespace (restore_meta restore)"
  shows "key_of (pod_meta pod) = restorePodNamespacedName peer"
  using assms by (auto simp: podForRestore_def markPod_def restorePodNamespacedName_def key_of_def set_label_def
      split: option.splits)

lemma expectedObjects_status: "expectedObjects l (restore\<lparr>restore_status := s\<rparr>) = expectedObjects l restore"
proof -
  have same: "clusterForRestore (restore\<lparr>restore_status := s\<rparr>) = clusterForRestore restore"
    "expectedPVCForRestore (restore\<lparr>restore_status := s\<rparr>) = expectedPVCForRestore restore"
    by (auto simp: clusterForRestore_def markCluster_def expectedPVCForRestore_def markPVC_def fun_eq_iff)
  show ?thesis unfolding expectedObjects_def same ..
qed

lemma create_effect:
  assumes x: "restore_justified l r (shareDefaults restore) c peers pvcs tr (Create obj e)"
    and eo: "expectedObjects l restore = Return (c, peers, pvcs)" and u: "rv_restore u = restore"
    and pending: "rv_phase u = EtcdRestorePhasePending" and ex: "executes req (Create obj e) u u'"
  shows "rv_restore u' = restore" "e = None \<Longrightarrow> to_do c peers pvcs u' < to_do c peers pvcs u"
proof -
  let ?gain = "(\<exists>pvc \<in> set pvcs. rv_claims u (key_of (pvc_meta pvc)) = None \<and> rv_claims u' (key_of (pvc_meta pvc)) \<noteq> None) \<or>
      (\<exists>peer \<in> set peers. rv_pods u (restorePodNamespacedName peer) = None \<and> rv_pods u' (restorePodNamespacedName peer) \<noteq> None) \<or>
      key_of (cluster_meta c) \<in> rv_clusters u' - rv_clusters u"
  have gain: "rv_restore u' = restore \<and> (e = None \<longrightarrow> ?gain)"
    using x unfolding restore_justified.simps
  proof (elim disjE bexE exE conjE)
    fix pvc assume "pvc \<in> set pvcs" "obj = OPVC pvc"
    with ex u show ?thesis by auto
  next
    fix peer pvc pod assume *: "(peer, pvc) \<in> set (zip peers pvcs)" "obj = OPod pod"
      "podForRestore l r (shareDefaults restore) peer (Name (pvc_meta pvc)) = Return pod"
    then have p: "peer \<in> set peers" by (auto dest: set_zip_leftD)
    with podForRestore_key [OF *(3)] expected_peer_namespace [OF eo] have "key_of (pod_meta pod) = restorePodNamespacedName peer" by simp
    with p *(2) ex u show ?thesis by auto
  next
    assume "obj = OCluster c"
    with ex u show ?thesis by auto
  qed
  then show "rv_restore u' = restore" by simp
  assume "e = None"
  with gain have "missing c peers pvcs u' < missing c peers pvcs u"
    using missing_less [OF executes_keeps [OF ex], of pvcs peers c] by blast
  with gain u pending show "to_do c peers pvcs u' < to_do c peers pvcs u" by (simp add: to_do_pending)
qed

lemma status_effect:
  assumes "executes req (StatusUpdate (ORestore s) e) u u'" "key_of (restore_meta s) = req"
    and "\<not> ended (rv_phase u)" "ended (rst_Phase (restore_status s)) \<or>
      rst_Phase (restore_status s) = EtcdRestorePhasePending \<and> rv_phase u \<noteq> EtcdRestorePhasePending"
  shows "u' = u \<and> e \<noteq> None \<or> to_do c peers pvcs u' < to_do c peers pvcs u"
  using assms missing_le [of c peers pvcs u'] by (auto simp: to_do_def ended_def restore_phase_defs)

text \<open>Every change gets the restore further, unless it fails.\<close>

lemma change_effect:
  assumes x: "restore_change l r restore tr x" and eo: "expectedObjects l restore = Return (c, peers, pvcs)"
    and u: "rv_restore u = restore" "key_of (restore_meta restore) = req" and ex: "executes req x u u'"
  shows "to_do c peers pvcs u' \<le> to_do c peers pvcs u" "\<not> failed x \<Longrightarrow> to_do c peers pvcs u' < to_do c peers pvcs u"
    "\<exists>s. rv_restore u' = restore\<lparr>restore_status := s\<rparr>"
proof -
  have "(to_do c peers pvcs u' \<le> to_do c peers pvcs u \<and> (\<not> failed x \<longrightarrow> to_do c peers pvcs u' < to_do c peers pvcs u)) \<and>
    (\<exists>s. rv_restore u' = restore\<lparr>restore_status := s\<rparr>)"
  proof (cases "is_status_write x")
    case True
    with restore_change_phase [OF x] obtain s e where s: "x = StatusUpdate (ORestore s) e"
      "restore_meta s = restore_meta restore"
      "restore_phase_step (rst_Phase (restore_status restore)) (rst_Phase (restore_status s))" by blast
    from s(3) have "\<not> ended (rv_phase u)" "ended (rst_Phase (restore_status s)) \<or>
        rst_Phase (restore_status s) = EtcdRestorePhasePending \<and> rv_phase u \<noteq> EtcdRestorePhasePending"
      unfolding u by (auto elim!: restore_phase_step.cases simp: ended_def restore_phase_defs)
    from status_effect [OF _ _ this] ex s(1,2) u have
      "u' = u \<and> e \<noteq> None \<or> to_do c peers pvcs u' < to_do c peers pvcs u" by auto
    moreover have "\<exists>s. rv_restore u' = restore\<lparr>restore_status := s\<rparr>"
      using ex s u by (auto intro: exI [of _ "restore_status restore"])
    ultimately show ?thesis using s(1) by auto
  next
    case False
    with x eo obtain obj e where obj: "x = Create obj e" "rv_phase u = EtcdRestorePhasePending"
      "restore_justified l r (shareDefaults restore) c peers pvcs tr (Create obj e)"
      unfolding restore_change_def u by (cases x) auto
    from create_effect [OF obj(3) eo u(1) obj(2)] ex obj(1) have e: "rv_restore u' = restore"
      "e = None \<Longrightarrow> to_do c peers pvcs u' < to_do c peers pvcs u" by auto
    moreover have "to_do c peers pvcs u' \<le> to_do c peers pvcs u"
      using e(1) u(1) executes_keeps [OF ex] by (simp add: to_do_drifts drifts_def)
    ultimately show ?thesis using obj(1) by (auto intro: exI [of _ "restore_status restore"])
  qed
  then show "to_do c peers pvcs u' \<le> to_do c peers pvcs u" "\<not> failed x \<Longrightarrow> to_do c peers pvcs u' < to_do c peers pvcs u"
    "\<exists>s. rv_restore u' = restore\<lparr>restore_status := s\<rparr>" by blast+
qed

section \<open>The effect of a pass\<close>

lemma restore_pass_grammar: "\<exists>out. restore_pass l r req out (trace (restore_pass_from l r cl req w))"
  unfolding restore_pass_from_def by (rule exI, rule emits_run [OF Restore_Reconcile_pass]) simp

lemma pass_reads_restore:
  assumes "restore_pass l r req out tr" "path (serves_restore req) tr v v'" "hd tr = GetRestore req (Inr restore)"
  shows "restore = rv_restore v"
proof -
  from assms(1) have "tr \<noteq> []" by (auto elim: restore_pass.cases)
  with assms(2,3) read_restore show ?thesis by (metis list.collapse)
qed

text \<open>A pass leaves everything to others, or makes one change, at some moment.\<close>

lemma pass_moment:
  assumes pass: "restore_pass l r req out tr" and path: "path (serves_restore req) tr v v'"
  obtains (quiet) "mutations tr = []" "drifts v v'"
  | (change) x u u' where "mutations tr = [x]" "restore_change l r (rv_restore v) tr x"
      "drifts v u" "executes req x u u'" "drifts u' v'"
proof -
  from restore_pass_change [OF pass] consider "mutations tr = []"
    | x restore where "mutations tr = [x]" "hd tr = GetRestore req (Inr restore)" "restore_change l r restore tr x" by blast
  then show thesis
  proof cases
    case 1
    with quiet restore_server.quiet_drift [OF path] show ?thesis by blast
  next
    case (2 x restore)
    with pass_reads_restore [OF pass path] change restore_server.moment_of_change [OF path 2(1)] show ?thesis by metis
  qed
qed

lemma pass_effect:
  assumes pass: "restore_pass l r req out tr" and path: "path (serves_restore req) tr v v'"
    and eo: "expectedObjects l (rv_restore v) = Return (c, peers, pvcs)" and key: "key_of (restore_meta (rv_restore v)) = req"
  shows "to_do c peers pvcs v' \<le> to_do c peers pvcs v"
    "mutations tr = [x] \<Longrightarrow> \<not> failed x \<Longrightarrow> to_do c peers pvcs v' < to_do c peers pvcs v"
    "\<exists>s. rv_restore v' = (rv_restore v)\<lparr>restore_status := s\<rparr>"
proof -
  have "to_do c peers pvcs v' \<le> to_do c peers pvcs v \<and>
    (mutations tr = [x] \<longrightarrow> \<not> failed x \<longrightarrow> to_do c peers pvcs v' < to_do c peers pvcs v) \<and>
    (\<exists>s. rv_restore v' = (rv_restore v)\<lparr>restore_status := s\<rparr>)"
    using pass path
  proof (cases rule: pass_moment)
    case quiet
    with to_do_drifts [OF quiet(2)] show ?thesis by (auto simp: drifts_def intro: exI [of _ "restore_status (rv_restore v)"])
  next
    case (change y u u')
    have u: "rv_restore u = rv_restore v" "rv_restore v' = rv_restore u'" using change by (simp_all add: drifts_def)
    note eff = change_effect [OF change(2) eo u(1) key change(4)]
    have le: "to_do c peers pvcs u \<le> to_do c peers pvcs v" "to_do c peers pvcs v' \<le> to_do c peers pvcs u'"
      by (rule to_do_drifts [OF change(3)], rule to_do_drifts [OF change(5)])
    with eff(1,2) change(1) have "to_do c peers pvcs v' \<le> to_do c peers pvcs v"
      "mutations tr = [x] \<longrightarrow> \<not> failed x \<longrightarrow> to_do c peers pvcs v' < to_do c peers pvcs v" by fastforce+
    with eff(3) u(2) show ?thesis by simp
  qed
  then show "to_do c peers pvcs v' \<le> to_do c peers pvcs v"
    "mutations tr = [x] \<Longrightarrow> \<not> failed x \<Longrightarrow> to_do c peers pvcs v' < to_do c peers pvcs v"
    "\<exists>s. rv_restore v' = (rv_restore v)\<lparr>restore_status := s\<rparr>" by blast+
qed

section \<open>How a restore ends\<close>

text \<open>Every claim there and ours, every pod there, ours and succeeded, and the cluster there.\<close>

definition complete :: "EtcdRestore \<Rightarrow> EtcdCluster \<Rightarrow> EtcdPeer list \<Rightarrow> PersistentVolumeClaim list \<Rightarrow> rview \<Rightarrow> bool" where
  "complete restore c peers pvcs v \<longleftrightarrow>
     (\<forall>pvc \<in> set pvcs. \<exists>actual. rv_claims v (key_of (pvc_meta pvc)) = Some actual \<and> IsOurPVC restore actual) \<and>
     (\<forall>peer \<in> set peers. \<exists>pod. rv_pods v (restorePodNamespacedName peer) = Some pod \<and> IsOurPod restore pod \<and>
        pod_Phase pod = PodSucceeded) \<and>
     key_of (cluster_meta c) \<in> rv_clusters v"

lemma ours_marks:
  "IsOurPVC restore pvc \<longleftrightarrow> fst (marks (pvc_meta pvc)) = restore_Name restore"
  "IsOurPod restore pod \<longleftrightarrow> marks (pod_meta pod) = (restore_Name restore, ''true'')"
  by (auto simp: IsOurPVC_def IsOurPod_def marks_def)

lemma complete_keeps:
  assumes "complete restore c peers pvcs v" "keeps v v'"
  shows "complete restore c peers pvcs v'"
  unfolding complete_def
proof (intro conjI ballI)
  fix pvc assume "pvc \<in> set pvcs"
  then obtain a where "rv_claims v (key_of (pvc_meta pvc)) = Some a" "IsOurPVC restore a"
    using assms(1) unfolding complete_def by blast
  with assms(2) show "\<exists>actual. rv_claims v' (key_of (pvc_meta pvc)) = Some actual \<and> IsOurPVC restore actual"
    unfolding keeps_def ours_marks by metis
next
  fix peer assume "peer \<in> set peers"
  then obtain p where "rv_pods v (restorePodNamespacedName peer) = Some p" "IsOurPod restore p" "pod_Phase p = PodSucceeded"
    using assms(1) unfolding complete_def by blast
  with assms(2) show "\<exists>pod. rv_pods v' (restorePodNamespacedName peer) = Some pod \<and> IsOurPod restore pod \<and> pod_Phase pod = PodSucceeded"
    unfolding keeps_def ours_marks finished_def by metis
next
  show "key_of (cluster_meta c) \<in> rv_clusters v'"
    using assms keeps_exists(3) unfolding complete_def by blast
qed

text \<open>What was read in a pass still holds at its end.\<close>

lemma complete_if_read:
  assumes path: "path (serves_restore req) tr v v'" and "claims_ours restore pvcs tr" "pods_succeeded restore peers tr"
    and "GetCluster (key_of (cluster_meta c)) (Inr actual) \<in> set tr"
  shows "complete restore c peers pvcs v'"
  unfolding complete_def
proof (intro conjI ballI)
  fix pvc assume "pvc \<in> set pvcs"
  then obtain a where a: "GetPVC (key_of (pvc_meta pvc)) (Inr a) \<in> set tr" "IsOurPVC restore a"
    using assms(2) unfolding claims_ours_def by blast
  obtain u u' where "executes req (GetPVC (key_of (pvc_meta pvc)) (Inr a)) u u'" "keeps u' v'"
    using restore_server.moment_of_read [OF path a(1)] .
  with a(2) show "\<exists>actual. rv_claims v' (key_of (pvc_meta pvc)) = Some actual \<and> IsOurPVC restore actual"
    unfolding keeps_def ours_marks by (metis executes.simps(2))
next
  fix peer assume "peer \<in> set peers"
  then obtain p where p: "GetPod (restorePodNamespacedName peer) (Inr p) \<in> set tr" "IsOurPod restore p" "pod_Phase p = PodSucceeded"
    using assms(3) unfolding pods_succeeded_def by blast
  obtain u u' where "executes req (GetPod (restorePodNamespacedName peer) (Inr p)) u u'" "keeps u' v'"
    using restore_server.moment_of_read [OF path p(1)] .
  with p(2,3) show "\<exists>pod. rv_pods v' (restorePodNamespacedName peer) = Some pod \<and> IsOurPod restore pod \<and> pod_Phase pod = PodSucceeded"
    unfolding keeps_def ours_marks finished_def by (metis executes.simps(3))
next
  obtain u u' where "executes req (GetCluster (key_of (cluster_meta c)) (Inr actual)) u u'" "keeps u' v'"
    using restore_server.moment_of_read [OF path assms(4)] .
  then show "key_of (cluster_meta c) \<in> rv_clusters v'" by (auto dest: keeps_exists(3))
qed

lemma pass_outcome:
  assumes pass: "restore_pass l r req out tr" and path: "path (serves_restore req) tr v v'"
    and eo: "expectedObjects l (rv_restore v) = Return (c, peers, pvcs)" and new: "\<not> ended (rv_phase v)"
  shows "rv_phase v' = EtcdRestorePhaseCompleted \<Longrightarrow> complete (rv_restore v) c peers pvcs v'"
    "rv_phase v' = EtcdRestorePhaseFailed \<Longrightarrow> broken (rv_restore v) pvcs peers tr"
proof -
  let ?r = "shareDefaults (rv_restore v)"
  have "(rv_phase v' = EtcdRestorePhaseCompleted \<longrightarrow> claims_ours ?r pvcs tr \<and> pods_succeeded ?r peers tr \<and>
      (\<exists>a. GetCluster (key_of (cluster_meta c)) (Inr a) \<in> set tr)) \<and>
    (rv_phase v' = EtcdRestorePhaseFailed \<longrightarrow> broken ?r pvcs peers tr)"
    using pass path
  proof (cases rule: pass_moment)
    case quiet
    with new show ?thesis by (auto simp: drifts_def ended_def)
  next
    case (change x u u')
    then have "rv_restore v' = rv_restore u'" "rv_restore u = rv_restore v" by (simp_all add: drifts_def)
    with change(2,4) eo new show ?thesis
      by (cases "(req, x, u, u')" rule: executes.cases)
        (auto simp: restore_change_def ended_def restore_phase_defs with_restore_phase_def)
  qed
  moreover have "claims_ours ?r = claims_ours (rv_restore v)" "pods_succeeded ?r = pods_succeeded (rv_restore v)"
    "broken ?r = broken (rv_restore v)"
    by (auto simp: claims_ours_def pods_succeeded_def broken_def fun_eq_iff)
  ultimately show "rv_phase v' = EtcdRestorePhaseCompleted \<Longrightarrow> complete (rv_restore v) c peers pvcs v'"
    "rv_phase v' = EtcdRestorePhaseFailed \<Longrightarrow> broken (rv_restore v) pvcs peers tr"
    using complete_if_read [OF path] by auto
qed

section \<open>Progress\<close>

text \<open>A request that was answered: a read that found something or nothing, a change that did not fail.\<close>

fun restore_answered :: "call \<Rightarrow> bool" where
  "restore_answered (GetRestore k a) \<longleftrightarrow> \<not> isl a \<or> a = Inl NotFound"
| "restore_answered (GetPVC k a) \<longleftrightarrow> \<not> isl a \<or> a = Inl NotFound"
| "restore_answered (GetPod k a) \<longleftrightarrow> \<not> isl a \<or> a = Inl NotFound"
| "restore_answered (GetCluster k a) \<longleftrightarrow> \<not> isl a \<or> a = Inl NotFound"
| "restore_answered x \<longleftrightarrow> \<not> failed x"

text \<open>A part of a pass that was answered and changed nothing.\<close>

definition uneventful :: "call list \<Rightarrow> bool" where
  "uneventful tr \<longleftrightarrow> mutations tr = [] \<and> list_all restore_answered tr"

lemma uneventful_simps [simp]:
  "uneventful []" "uneventful (x # tr) \<longleftrightarrow> \<not> is_mutation x \<and> restore_answered x \<and> uneventful tr" "uneventful (tr @ tr') \<longleftrightarrow> uneventful tr \<and> uneventful tr'"
  by (auto simp: uneventful_def)

lemma failRestore_uneventful: "emits (failRestore cl restore reason what m) (\<lambda>out tr. \<not> uneventful tr)"
  by (rule emits_mono [OF failRestore_emits]) auto

lemma ensurePVCs_uneventful: "emits (ensurePVCs cl restore pvcs) (\<lambda>o' tr. uneventful tr \<longrightarrow> o' = None)"
proof (induction pvcs)
  case (Cons pvc pvcs)
  show ?case
    unfolding ensurePVCs.simps get_PVC_def
  proof (rule emits_bind_call, rule emits_case_sum, goal_cases)
    case (1 a err)
    then show ?case unfolding call_defs by (intro emits_steps) (auto simp: IsNotFound_iff)
  next
    case (2 a actual)
    then show ?case
      by (auto intro!: emits_if emits_bind [OF failRestore_uneventful] emits_return emits_mono [OF Cons.IH])
  qed
qed (simp add: emits_return)

lemma findRestorePods_uneventful: "emits (findRestorePods cl peers) (\<lambda>rs tr. uneventful tr \<longrightarrow> \<not> isl rs)"
proof (induction peers)
  case (Cons peer peers)
  show ?case
    unfolding findRestorePods.simps get_Pod_def
  proof (rule emits_bind_call, rule emits_case_sum, goal_cases)
    case (1 a err)
    then show ?case by (cases a) (auto intro!: emits_return simp: if_found_def split: if_splits)
  next
    case (2 a p)
    show ?case by (intro emits_bind [OF Cons.IH] emits_return) (auto split: sum.splits)
  qed
qed (simp add: emits_return)

lemma verifyPods_uneventful: "emits (verifyPods cl restore pods) (\<lambda>o' tr. uneventful tr \<longrightarrow> o' = None)"
  unfolding verifyPods_def
  by (intro emits_case_option emits_return emits_bind [OF failRestore_uneventful]) simp_all

lemma launchPod_uneventful:
  "emits (launchPod l r cl restore ts) (\<lambda>o' tr. uneventful tr \<longrightarrow> o' = None \<or>
     (\<exists>peer pvc. (None, peer, pvc) \<in> set ts \<and> podForRestore l r restore peer (Name (pvc_meta pvc)) = Panic))"
proof (induction ts)
  case (Cons t ts)
  obtain p peer pvc where t: "t = (p, peer, pvc)" by (cases t)
  show ?case
  proof (cases p)
    case None
    then show ?thesis unfolding t launchPod.simps call_defs None by (intro emits_steps) auto
  next
    case (Some pod)
    then show ?thesis unfolding t by (auto intro!: emits_mono [OF Cons.IH])
  qed
qed (simp add: emits_return)

lemma joinPods_uneventful:
  "emits (joinPods cl restore pods) (\<lambda>o' tr. uneventful tr \<longrightarrow> o' = None \<or> (\<exists>pod \<in> set pods. \<not> finished pod))"
  unfolding joinPods_def Let_def call_defs
  by (intro emits_steps) (auto simp: list_ex_iff list_all_iff finished_def pod_failed_def)

lemma ensureCluster_uneventful: "emits (ensureCluster cl restore c) (\<lambda>out tr. \<not> uneventful tr)"
  unfolding ensureCluster_def call_defs by (intro emits_steps) (auto simp: IsNotFound_iff)

text \<open>Why an answered pass on a pending restore may change nothing: a pod that cannot be built, or one that still runs.\<close>

definition waits ::
    "lib \<Rightarrow> EtcdRestoreReconciler \<Rightarrow> EtcdRestore \<Rightarrow> EtcdPeer list \<Rightarrow> call list \<Rightarrow> bool" where
  "waits l r restore peers tr \<longleftrightarrow>
     (\<exists>peer \<in> set peers. \<exists>n. podForRestore l r restore peer n = Panic) \<or>
     (\<exists>peer \<in> set peers. \<exists>pod. GetPod (restorePodNamespacedName peer) (Inr pod) \<in> set tr \<and> \<not> finished pod)"

lemma waits_mono: "waits l r restore peers tr \<Longrightarrow> set tr \<subseteq> set tr' \<Longrightarrow> waits l r restore peers tr'"
  unfolding waits_def by blast

lemma late_steps_uneventful:
  assumes pods: "pods_read peers pods pre"
  shows "emits (do {
      launched \<leftarrow> launchPod l r cl restore (zip pods (zip peers pvcs));
      case launched of
        Some out \<Rightarrow> ret out
      | None \<Rightarrow> do {
          joined \<leftarrow> joinPods cl restore (List.map_filter id pods);
          case joined of Some out \<Rightarrow> ret out | None \<Rightarrow> ensureCluster cl restore c
        }
    }) (\<lambda>out tr. uneventful tr \<longrightarrow> waits l r restore peers pre)"
proof (rule emits_bind [OF launchPod_uneventful], rule emits_case_option, goal_cases)
  case (1 o1 tr1)
  show ?case
  proof (rule emits_bind [OF joinPods_uneventful], rule emits_case_option, goal_cases)
    case (2 o2 tr2 out)
    have "waits l r restore peers pre" if "Some pod \<in> set pods" "\<not> finished pod" for pod
      using pods_read_Some [OF pods that(1)] that(2) unfolding waits_def by blast
    with 2 show ?case by (auto intro!: emits_return simp: map_filter_id)
  qed (auto intro!: emits_mono [OF ensureCluster_uneventful])
next
  case (2 o1 tr1 out)
  have "waits l r restore peers pre" if "(None, peer, pvc) \<in> set (zip pods (zip peers pvcs))"
    "podForRestore l r restore peer (Name (pvc_meta pvc)) = Panic" for peer pvc
    using set_zip_leftD [OF set_zip_rightD [OF that(1)]] that(2) unfolding waits_def by blast
  with 2 show ?case by (auto intro!: emits_return)
qed

lemma reconcileRestore_uneventful:
  "emits (reconcileRestore l r cl restore c peers pvcs) (\<lambda>out tr. uneventful tr \<longrightarrow> waits l r restore peers tr)"
  unfolding reconcileRestore_def
proof (rule emits_bind [OF ensurePVCs_uneventful], rule emits_case_option, goal_cases)
  case (1 o1 tr1)
  show ?case
  proof (rule emits_bind [OF emits_conj [OF findRestorePods_uneventful findRestorePods_emits]], rule emits_case_sum, goal_cases)
    case (2 rs tr2 pods)
    then have read: "pods_read peers pods tr2" by simp
    show ?case
    proof (rule emits_bind [OF verifyPods_uneventful], rule emits_case_option, goal_cases)
      case (1 o2 tr3)
      show ?case by (rule emits_mono [OF late_steps_uneventful [OF read]]) (auto intro: waits_mono)
    qed (auto intro!: emits_return)
  qed (auto intro!: emits_return)
qed (auto intro!: emits_return)

definition explained :: "lib \<Rightarrow> EtcdRestoreReconciler \<Rightarrow> NamespacedName \<Rightarrow> call list \<Rightarrow> bool" where
  "explained l r req tr \<longleftrightarrow>
     hd tr = GetRestore req (Inl NotFound) \<or>
     (\<exists>restore. hd tr = GetRestore req (Inr restore) \<and>
        (ended (rst_Phase (restore_status restore)) \<or> expectedObjects l restore = Panic \<or>
         (\<exists>c peers pvcs. expectedObjects l restore = Return (c, peers, pvcs) \<and> waits l r (shareDefaults restore) peers tr)))"

lemma Restore_Reconcile_uneventful:
  "emits (Restore_Reconcile l r cl req) (\<lambda>out tr. uneventful tr \<longrightarrow> explained l r req tr)"
  unfolding Restore_Reconcile_def get_Restore_def explained_def
proof (rule emits_bind_call, rule emits_case_sum, goal_cases)
  case (1 a err)
  then show ?case by (auto intro!: emits_return)
next
  case (2 a restore)
  show ?case
    unfolding Let_def 2 call_defs
  proof (intro emits_if emits_case_outcome emits_case_prod, goal_cases)
    case (4 x c y peers pvcs)
    then show ?case by (intro emits_mono [OF reconcileRestore_uneventful]) (auto intro: waits_mono)
  qed (auto intro!: emits_bind_call emits_return simp: ended_def)
qed

text \<open>A pod that a pass without changes saw running was running before, or was made meanwhile by others.\<close>

lemma seen_running:
  assumes path: "path (serves_restore req) tr v v'" and quiet: "mutations tr = []"
    and p: "peer \<in> set peers" "GetPod (restorePodNamespacedName peer) (Inr pod) \<in> set tr" "\<not> finished pod"
    and fin: "\<forall>p. rv_pods v (restorePodNamespacedName peer) = Some p \<longrightarrow> finished p"
  shows "missing c peers pvcs v' < missing c peers pvcs v"
proof -
  obtain w where w: "drifts v w" "rv_pods w (restorePodNamespacedName peer) = Some pod" "drifts w v'"
    using restore_server.quiet_moment [OF path quiet p(2)] by auto
  have "rv_pods v (restorePodNamespacedName peer) = None"
  proof (rule ccontr)
    assume "rv_pods v (restorePodNamespacedName peer) \<noteq> None"
    then obtain q where q: "rv_pods v (restorePodNamespacedName peer) = Some q" "finished q" using fin by blast
    with w(1,2) have "pod_Phase pod = pod_Phase q" unfolding drifts_def keeps_def by fastforce
    with q(2) p(3) show False by (simp add: finished_def)
  qed
  with p(1) w(1,2) have "missing c peers pvcs w < missing c peers pvcs v"
    by (intro missing_less) (auto simp: drifts_def)
  with w(3) missing_keeps [of w v' c peers pvcs] show ?thesis by (simp add: drifts_def)
qed

text \<open>An answered pass on a restore that has not ended, with no pod running, gets it further.\<close>

lemma pass_progress:
  assumes path: "path (serves_restore req) tr v v'" and pass: "restore_pass l r req out tr"
    and un: "uneventful tr \<longrightarrow> explained l r req tr"
    and eo: "expectedObjects l (rv_restore v) = Return (c, peers, pvcs)" and key: "key_of (restore_meta (rv_restore v)) = req"
    and fine: "list_all restore_answered tr" and new: "\<not> ended (rv_phase v)"
    and built: "\<forall>peer \<in> set peers. \<forall>n. podForRestore l r (shareDefaults (rv_restore v)) peer n \<noteq> Panic"
    and fin: "\<forall>peer \<in> set peers. \<forall>p. rv_pods v (restorePodNamespacedName peer) = Some p \<longrightarrow> finished p"
  shows "to_do c peers pvcs v' < to_do c peers pvcs v"
proof (cases "mutations tr = []")
  case False
  with restore_pass_change [OF pass] obtain x where x: "mutations tr = [x]" by blast
  then have "x \<in> set tr" "is_mutation x" using set_mutations [of tr] by auto
  with fine have "\<not> failed x" by (cases x) (auto simp: list_all_iff)
  with pass_effect(2) [OF pass path eo key x] show ?thesis by simp
next
  case True
  have here: "hd tr \<noteq> GetRestore req (Inl NotFound)"
    using pass path by cases (auto simp: between_def)
  have expl: "explained l r req tr" using un True fine by (simp add: uneventful_def)
  with here new eo pass_reads_restore [OF pass path] have "waits l r (shareDefaults (rv_restore v)) peers tr"
    unfolding explained_def by fastforce
  with built obtain peer pod where p: "peer \<in> set peers" "GetPod (restorePodNamespacedName peer) (Inr pod) \<in> set tr" "\<not> finished pod"
    unfolding waits_def by blast
  with seen_running [OF path True p] fin have "missing c peers pvcs v' < missing c peers pvcs v" by blast
  moreover have "hd tr = GetRestore req (Inr (rv_restore v))"
    using expl here pass_reads_restore [OF pass path] unfolding explained_def by blast
  then have "rv_phase v = EtcdRestorePhasePending"
    using True new pass by (auto elim!: restore_pass.cases simp: ended_def)
  ultimately show ?thesis
    using restore_server.quiet_drift [OF path True] to_do_pending(2) [of v' v] by (simp add: drifts_def)
qed

end
