(* ===== verification/RestoreRuns.thy ===== *)
theory RestoreRuns
  imports RestoreSystem
begin

text \<open>
  Runs of the EtcdRestore controller: passes of the handler, interleaved with what others do, on a
  server that keeps its promises. A restore ends: it completes with all claims filled and the cluster
  there, or it fails for a reason that a pass saw.
\<close>

section \<open>Runs\<close>

inductive restore_acts ::
    "lib \<Rightarrow> EtcdRestoreReconciler \<Rightarrow> 'w client \<Rightarrow> NamespacedName \<Rightarrow> ('w \<Rightarrow> bool) \<Rightarrow> ('w \<Rightarrow> rview) \<Rightarrow> 'w \<Rightarrow> 'w \<Rightarrow> bool"
  for l r cl req good view where
  pass: "restore_acts l r cl req good view s (server (restore_pass_from l r cl req s))"
| around: "good w \<Longrightarrow> drifts (view s) (view w) \<Longrightarrow> restore_acts l r cl req good view s w"

definition restore_run ::
    "lib \<Rightarrow> EtcdRestoreReconciler \<Rightarrow> 'w client \<Rightarrow> NamespacedName \<Rightarrow> ('w \<Rightarrow> bool) \<Rightarrow> ('w \<Rightarrow> rview) \<Rightarrow> (nat \<Rightarrow> 'w) \<Rightarrow> bool" where
  "restore_run l r cl req good view f \<longleftrightarrow> good (f 0) \<and> (\<forall>n. restore_acts l r cl req good view (f n) (f (Suc n)))"

text \<open>Answered passes happen again and again, and every restore pod finishes.\<close>

definition restore_fair ::
    "lib \<Rightarrow> EtcdRestoreReconciler \<Rightarrow> 'w client \<Rightarrow> NamespacedName \<Rightarrow> ('w \<Rightarrow> rview) \<Rightarrow> EtcdPeer list \<Rightarrow> (nat \<Rightarrow> 'w) \<Rightarrow> bool" where
  "restore_fair l r cl req view peers f \<longleftrightarrow>
     (\<forall>n. \<exists>m \<ge> n. f (Suc m) = server (restore_pass_from l r cl req (f m)) \<and>
        list_all restore_answered (trace (restore_pass_from l r cl req (f m)))) \<and>
     (\<forall>n. \<forall>peer \<in> set peers. \<forall>p. rv_pods (view (f n)) (restorePodNamespacedName peer) = Some p \<longrightarrow>
        (\<exists>m \<ge> n. \<exists>q. rv_pods (view (f m)) (restorePodNamespacedName peer) = Some q \<and> finished q))"

lemma acts_effect:
  assumes law: "restore_lawful cl req good view" and g: "good s" and act: "restore_acts l r cl req good view s s'"
    and eo: "expectedObjects l (rv_restore (view s)) = Return (c, peers, pvcs)"
  shows "good s'" "keeps (view s) (view s')" "\<exists>st. rv_restore (view s') = (rv_restore (view s))\<lparr>restore_status := st\<rparr>"
    "to_do c peers pvcs (view s') \<le> to_do c peers pvcs (view s)"
proof -
  have key: "key_of (restore_meta (rv_restore (view s))) = req" using law g by (simp add: restore_lawful_def)
  have "good s' \<and> keeps (view s) (view s') \<and> (\<exists>st. rv_restore (view s') = (rv_restore (view s))\<lparr>restore_status := st\<rparr>) \<and>
    to_do c peers pvcs (view s') \<le> to_do c peers pvcs (view s)"
    using act
  proof cases
    case pass
    note run = restore_pass_run [OF law g, of l r]
    obtain out where "restore_pass l r req out (trace (restore_pass_from l r cl req s))" using restore_pass_grammar [of l r req cl s] by blast
    from pass_effect(1,3) [OF this run(2) eo key] run(1) restore_server.path_keep [OF run(2)] show ?thesis unfolding pass by blast
  next
    case around
    with to_do_drifts [OF around(2), of c peers pvcs] show ?thesis
      by (auto simp: drifts_def intro: exI [of _ "restore_status (rv_restore (view s))"])
  qed
  then show "good s'" "keeps (view s) (view s')" "\<exists>st. rv_restore (view s') = (rv_restore (view s))\<lparr>restore_status := st\<rparr>"
    "to_do c peers pvcs (view s') \<le> to_do c peers pvcs (view s)" by blast+
qed

text \<open>The restore that a run is about, up to its status.\<close>

definition about :: "('w \<Rightarrow> bool) \<Rightarrow> ('w \<Rightarrow> rview) \<Rightarrow> EtcdRestore \<Rightarrow> 'w \<Rightarrow> bool" where
  "about good view restore s \<longleftrightarrow> good s \<and> (\<exists>st. rv_restore (view s) = restore\<lparr>restore_status := st\<rparr>)"

lemma about_expected: "about good view restore s \<Longrightarrow> expectedObjects l (rv_restore (view s)) = expectedObjects l restore"
  by (auto simp: about_def expectedObjects_status)

lemma run_about:
  assumes law: "restore_lawful cl req good view" and run: "restore_run l r cl req good view f"
    and eo: "expectedObjects l (rv_restore (view (f 0))) = Return (c, peers, pvcs)"
  shows "about good view (rv_restore (view (f 0))) (f n)"
proof (induction n)
  case 0
  have "rv_restore (view (f 0)) = (rv_restore (view (f 0)))\<lparr>restore_status := restore_status (rv_restore (view (f 0)))\<rparr>" by simp
  with run show ?case unfolding about_def restore_run_def by blast
next
  case (Suc n)
  have "restore_acts l r cl req good view (f n) (f (Suc n))" using run by (simp add: restore_run_def)
  from acts_effect(1,3) [OF law _ this] Suc about_expected [OF Suc, of l] eo show ?case
    unfolding about_def by fastforce
qed

lemma run_steps:
  assumes law: "restore_lawful cl req good view" and run: "restore_run l r cl req good view f"
    and eo: "expectedObjects l (rv_restore (view (f 0))) = Return (c, peers, pvcs)"
  shows "n \<le> m \<Longrightarrow> keeps (view (f n)) (view (f m))" "n \<le> m \<Longrightarrow> to_do c peers pvcs (view (f m)) \<le> to_do c peers pvcs (view (f n))"
proof -
  have step: "keeps (view (f n)) (view (f (Suc n))) \<and> to_do c peers pvcs (view (f (Suc n))) \<le> to_do c peers pvcs (view (f n))" for n
  proof -
    have "restore_acts l r cl req good view (f n) (f (Suc n))" using run by (simp add: restore_run_def)
    with acts_effect [OF law _ this, of c peers pvcs] run_about [OF assms, of n] about_expected [OF run_about [OF assms, of n], of l] eo
    show ?thesis by (simp add: about_def)
  qed
  show "n \<le> m \<Longrightarrow> keeps (view (f n)) (view (f m))"
    by (induction rule: dec_induct) (use step in \<open>auto intro: keeps_trans\<close>)
  show "n \<le> m \<Longrightarrow> to_do c peers pvcs (view (f m)) \<le> to_do c peers pvcs (view (f n))"
    by (induction rule: dec_induct) (use step in \<open>auto intro: order_trans\<close>)
qed

text \<open>From some point on, no restore pod is running.\<close>

lemma pods_finish:
  assumes law: "restore_lawful cl req good view" and run: "restore_run l r cl req good view f"
    and eo: "expectedObjects l (rv_restore (view (f 0))) = Return (c, peers, pvcs)" and fair: "restore_fair l r cl req view peers f"
  shows "\<exists>M. \<forall>n \<ge> M. \<forall>peer \<in> set peers. \<forall>p. rv_pods (view (f n)) (restorePodNamespacedName peer) = Some p \<longrightarrow> finished p"
proof -
  have "eventually (\<lambda>n. \<forall>p. rv_pods (view (f n)) (restorePodNamespacedName peer) = Some p \<longrightarrow> finished p) sequentially"
    if peer: "peer \<in> set peers" for peer
  proof (cases "\<exists>n p. rv_pods (view (f n)) (restorePodNamespacedName peer) = Some p")
    case True
    then obtain m q where m: "rv_pods (view (f m)) (restorePodNamespacedName peer) = Some q" "finished q"
      using fair peer unfolding restore_fair_def by metis
    have "finished p" if "m \<le> n" "rv_pods (view (f n)) (restorePodNamespacedName peer) = Some p" for n p
    proof -
      have "pod_Phase p = pod_Phase q"
        using run_steps(1) [OF law run eo that(1)] m that(2) unfolding keeps_def by fastforce
      with m(2) show ?thesis by (simp add: finished_def)
    qed
    then show ?thesis unfolding eventually_sequentially by blast
  qed (auto simp: eventually_sequentially)
  then have "eventually (\<lambda>n. \<forall>peer \<in> set peers. \<forall>p. rv_pods (view (f n)) (restorePodNamespacedName peer) = Some p \<longrightarrow> finished p) sequentially"
    by (intro eventually_ball_finite) auto
  then show ?thesis unfolding eventually_sequentially .
qed

lemma to_do_0: "to_do c peers pvcs v = 0 \<longleftrightarrow> ended (rv_phase v)"
  by (simp add: to_do_def)

text \<open>A pod can be built as soon as the template says what resources it gets.\<close>

definition sized :: "EtcdRestore \<Rightarrow> bool" where
  "sized restore \<longleftrightarrow>
     (case cs_PodTemplate (ct_Spec (ClusterTemplate (restore_spec restore))) of
        None \<Rightarrow> False
      | Some t \<Rightarrow> pts_Resources t \<noteq> None)"

lemma sized_built:
  assumes "expectedObjects l restore = Return (c, peers, pvcs)" "sized restore"
  shows "\<forall>peer \<in> set peers. \<forall>n. podForRestore l r (shareDefaults restore) peer n \<noteq> Panic"
  using podForRestore_Panic_iff [OF assms(1)] assms(2) by (auto simp: sized_def split: option.splits)

lemma restore_ends:
  assumes law: "restore_lawful cl req good view" and run: "restore_run l r cl req good view f"
    and eo: "expectedObjects l (rv_restore (view (f 0))) = Return (c, peers, pvcs)" and fair: "restore_fair l r cl req view peers f"
    and sized: "sized (rv_restore (view (f 0)))"
  shows "\<exists>N. ended (rv_phase (view (f N)))"
proof (rule descent [where left = "\<lambda>n. to_do c peers pvcs (view (f n))"])
  fix n
  show "to_do c peers pvcs (view (f (Suc n))) \<le> to_do c peers pvcs (view (f n))" by (rule run_steps(2) [OF law run eo]) simp
  obtain M where M: "\<And>n. M \<le> n \<Longrightarrow> \<forall>peer \<in> set peers. \<forall>p. rv_pods (view (f n)) (restorePodNamespacedName peer) = Some p \<longrightarrow> finished p"
    using pods_finish [OF law run eo fair] by blast
  obtain m where m: "max n M \<le> m" "f (Suc m) = server (restore_pass_from l r cl req (f m))"
    "list_all restore_answered (trace (restore_pass_from l r cl req (f m)))"
    using fair unfolding restore_fair_def by blast
  have ab: "about good view (rv_restore (view (f 0))) (f m)" by (rule run_about [OF law run eo])
  then have g: "good (f m)" and key: "key_of (restore_meta (rv_restore (view (f m)))) = req"
    using law by (auto simp: about_def restore_lawful_def)
  have eo': "expectedObjects l (rv_restore (view (f m))) = Return (c, peers, pvcs)" using about_expected [OF ab] eo by simp
  have sized': "sized (rv_restore (view (f m)))" using ab sized by (auto simp: about_def sized_def)
  obtain out where pass: "restore_pass l r req out (trace (restore_pass_from l r cl req (f m)))"
    using restore_pass_grammar [of l r req cl "f m"] by blast
  have "uneventful (trace (restore_pass_from l r cl req (f m))) \<longrightarrow> explained l r req (trace (restore_pass_from l r cl req (f m)))"
    unfolding restore_pass_from_def by (rule emits_run [OF Restore_Reconcile_uneventful]) simp
  from pass_progress [OF restore_pass_run(2) [OF law g] pass this eo' key m(3) _ sized_built [OF eo' sized'] M]
  have "ended (rv_phase (view (f m))) \<or> to_do c peers pvcs (view (f (Suc m))) < to_do c peers pvcs (view (f m))"
    using m(1,2) by auto
  with m(1) show "\<exists>m \<ge> n. ended (rv_phase (view (f m))) \<or> to_do c peers pvcs (view (f (Suc m))) < to_do c peers pvcs (view (f m))"
    by auto
qed

section \<open>The end of a run\<close>

lemma ended_acts:
  assumes law: "restore_lawful cl req good view" and g: "good s" and act: "restore_acts l r cl req good view s s'"
    and "ended (rv_phase (view s))"
  shows "rv_restore (view s') = rv_restore (view s)"
  using act
proof cases
  case pass
  obtain out where p: "restore_pass l r req out (trace (restore_pass_from l r cl req s))"
    using restore_pass_grammar [of l r req cl s] by blast
  from p restore_pass_run(2) [OF law g] have "rv_restore (view (server (restore_pass_from l r cl req s))) = rv_restore (view s)"
  proof (cases rule: pass_moment)
    case (change x u u')
    with assms(4) show ?thesis by (auto simp: restore_change_def ended_def restore_phase_defs)
  qed (simp add: drifts_def)
  then show ?thesis unfolding pass .
qed (simp add: drifts_def)

lemma ended_stays:
  assumes law: "restore_lawful cl req good view" and run: "restore_run l r cl req good view f"
    and eo: "expectedObjects l (rv_restore (view (f 0))) = Return (c, peers, pvcs)"
    and "ended (rv_phase (view (f N)))" "N \<le> n"
  shows "rv_restore (view (f n)) = rv_restore (view (f N))"
  using assms(5)
proof (induction rule: dec_induct)
  case (step n)
  have "restore_acts l r cl req good view (f n) (f (Suc n))" "good (f n)"
    using run run_about [OF law run eo, of n] by (simp_all add: restore_run_def about_def)
  from ended_acts [OF law this(2,1)] step(3) assms(4) show ?case by simp
qed simp

lemma about_same:
  assumes "about good view restore s"
  shows "complete (rv_restore (view s)) = complete restore" "broken (rv_restore (view s)) = broken restore"
  using assms by (auto simp: about_def complete_def broken_def ours_marks fun_eq_iff)

text \<open>A restore ends in a pass, which saw why.\<close>

lemma restore_ends_well:
  assumes law: "restore_lawful cl req good view" and run: "restore_run l r cl req good view f"
    and eo: "expectedObjects l (rv_restore (view (f 0))) = Return (c, peers, pvcs)"
    and new: "\<not> ended (rv_phase (view (f 0)))" and "ended (rv_phase (view (f N)))"
  obtains m where "m < N" "rv_phase (view (f (Suc m))) = EtcdRestorePhaseCompleted"
      "complete (rv_restore (view (f 0))) c peers pvcs (view (f (Suc m)))"
  | m where "m < N" "rv_phase (view (f (Suc m))) = EtcdRestorePhaseFailed" "f (Suc m) = server (restore_pass_from l r cl req (f m))"
      "broken (rv_restore (view (f 0))) pvcs peers (trace (restore_pass_from l r cl req (f m)))"
proof -
  obtain m where m: "m < N" "\<not> ended (rv_phase (view (f m)))" "ended (rv_phase (view (f (Suc m))))"
    using ex_least_nat_less [of "\<lambda>n. ended (rv_phase (view (f n)))" N] new assms(5) by auto
  have act: "restore_acts l r cl req good view (f m) (f (Suc m))" using run by (simp add: restore_run_def)
  have ab: "about good view (rv_restore (view (f 0))) (f m)" by (rule run_about [OF law run eo])
  then have g: "good (f m)" by (simp add: about_def)
  have eo': "expectedObjects l (rv_restore (view (f m))) = Return (c, peers, pvcs)" using about_expected [OF ab] eo by simp
  have p: "f (Suc m) = server (restore_pass_from l r cl req (f m))"
    using act m(2,3) by cases (auto simp: drifts_def)
  obtain out where pass: "restore_pass l r req out (trace (restore_pass_from l r cl req (f m)))"
    using restore_pass_grammar [of l r req cl "f m"] by blast
  note out = pass_outcome [OF pass restore_pass_run(2) [OF law g] eo' m(2), folded p, unfolded about_same [OF ab]]
  from m(3) show thesis using that out m(1) p unfolding ended_def by blast
qed

lemma restore_run_outcome:
  assumes law: "restore_lawful cl req good view" and run: "restore_run l r cl req good view f"
    and eo: "expectedObjects l (rv_restore (view (f 0))) = Return (c, peers, pvcs)" and fair: "restore_fair l r cl req view peers f"
    and sized: "sized (rv_restore (view (f 0)))" and new: "\<not> ended (rv_phase (view (f 0)))"
  shows "(\<exists>N. \<forall>n. N \<le> n \<longrightarrow> rv_phase (view (f n)) = EtcdRestorePhaseCompleted \<and>
       complete (rv_restore (view (f 0))) c peers pvcs (view (f n))) \<or>
     (\<exists>m. (\<forall>n. m < n \<longrightarrow> rv_phase (view (f n)) = EtcdRestorePhaseFailed) \<and>
       broken (rv_restore (view (f 0))) pvcs peers (trace (restore_pass_from l r cl req (f m))))"
proof -
  obtain N where N: "ended (rv_phase (view (f N)))" using restore_ends [OF law run eo fair sized] by blast
  have stays: "rv_phase (view (f n)) = rv_phase (view (f m))" if "ended (rv_phase (view (f m)))" "m \<le> n" for m n
    using ended_stays [OF law run eo that] by simp
  from law run eo new N show ?thesis
  proof (cases rule: restore_ends_well)
    case (1 m)
    have "rv_phase (view (f n)) = EtcdRestorePhaseCompleted \<and> complete (rv_restore (view (f 0))) c peers pvcs (view (f n))"
      if "Suc m \<le> n" for n
      using stays [of "Suc m" n] that 1(2) complete_keeps [OF 1(3) run_steps(1) [OF law run eo that]] by (simp add: ended_def)
    then show ?thesis by blast
  next
    case (2 m)
    have "rv_phase (view (f n)) = EtcdRestorePhaseFailed" if "m < n" for n
      using stays [of "Suc m" n] that 2(2) by (simp add: ended_def)
    with 2(4) show ?thesis by blast
  qed
qed

end
