(* ===== verification/RestoreRunProps.thy ===== *)
theory RestoreRunProps
  imports RestoreRuns
begin

text \<open>
  The end of every restore, as a property of runs, with a small API server and a sample run on it that
  show that the hypotheses can hold.
\<close>

section \<open>A server for one restore\<close>

record rstore =
  ro_restore :: EtcdRestore
  ro_claims :: "(NamespacedName \<times> PersistentVolumeClaim) list"
  ro_pods :: "(NamespacedName \<times> Pod) list"
  ro_clusters :: "(NamespacedName \<times> EtcdCluster) list"

definition rstore_view :: "rstore \<Rightarrow> rview" where
  "rstore_view w =
     \<lparr>rv_restore = ro_restore w, rv_claims = map_of (ro_claims w), rv_pods = map_of (ro_pods w),
      rv_clusters = fst ` set (ro_clusters w)\<rparr>"

definition rstore_good :: "NamespacedName \<Rightarrow> rstore \<Rightarrow> bool" where
  "rstore_good req w \<longleftrightarrow> key_of (restore_meta (ro_restore w)) = req"

definition look :: "('k \<times> 'v) list \<Rightarrow> 'k \<Rightarrow> api_error + 'v" where
  "look xs k = (case map_of xs k of None \<Rightarrow> Inl NotFound | Some x \<Rightarrow> Inr x)"

fun rstore_create :: "object \<Rightarrow> rstore \<Rightarrow> api_error option \<times> rstore" where
  "rstore_create (OPVC c) w =
     (case map_of (ro_claims w) (key_of (pvc_meta c)) of
        Some _ \<Rightarrow> (Some AlreadyExists, w)
      | None \<Rightarrow> (None, w\<lparr>ro_claims := (key_of (pvc_meta c), c) # ro_claims w\<rparr>))"
| "rstore_create (OPod p) w =
     (case map_of (ro_pods w) (key_of (pod_meta p)) of
        Some _ \<Rightarrow> (Some AlreadyExists, w)
      | None \<Rightarrow> (None, w\<lparr>ro_pods := (key_of (pod_meta p), p) # ro_pods w\<rparr>))"
| "rstore_create (OCluster c) w =
     (case map_of (ro_clusters w) (key_of (cluster_meta c)) of
        Some _ \<Rightarrow> (Some AlreadyExists, w)
      | None \<Rightarrow> (None, w\<lparr>ro_clusters := (key_of (cluster_meta c), c) # ro_clusters w\<rparr>))"
| "rstore_create _ w = (Some (OtherError ''refused''), w)"

fun rstore_status :: "object \<Rightarrow> rstore \<Rightarrow> api_error option \<times> rstore" where
  "rstore_status (ORestore s) w =
     (if key_of (restore_meta s) = key_of (restore_meta (ro_restore w))
      then (None, w\<lparr>ro_restore := (ro_restore w)\<lparr>restore_status := restore_status s\<rparr>\<rparr>)
      else (Some NotFound, w))"
| "rstore_status _ w = (Some (OtherError ''refused''), w)"

definition refuse :: "rstore \<Rightarrow> api_error option \<times> rstore" where
  "refuse w = (Some (OtherError ''refused''), w)"

definition rstore_client :: "rstore client" where
  "rstore_client =
     \<lparr>c_get_Cluster = (\<lambda>k w. (look (ro_clusters w) k, w)),
      c_get_Peer = (\<lambda>k w. (Inl NotFound, w)),
      c_get_Backup = (\<lambda>k w. (Inl NotFound, w)),
      c_get_BackupSchedule = (\<lambda>k w. (Inl NotFound, w)),
      c_get_Restore = (\<lambda>k w. (if k = key_of (restore_meta (ro_restore w)) then Inr (ro_restore w) else Inl NotFound, w)),
      c_get_Service = (\<lambda>k w. (Inl NotFound, w)),
      c_get_PVC = (\<lambda>k w. (look (ro_claims w) k, w)),
      c_get_ReplicaSet = (\<lambda>k w. (Inl NotFound, w)),
      c_get_Pod = (\<lambda>k w. (look (ro_pods w) k, w)),
      c_get_ServiceAccount = (\<lambda>k w. (Inl NotFound, w)),
      c_list_Peers = (\<lambda>ns n w. (Inr [], w)),
      c_create = rstore_create,
      c_update = (\<lambda>obj. refuse),
      c_delete = (\<lambda>obj. refuse),
      c_patch = (\<lambda>new base. refuse),
      c_status_update = rstore_status,
      c_status_patch = (\<lambda>new base. refuse)\<rparr>"

lemma map_of_keys: "map_of xs k = None \<longleftrightarrow> k \<notin> fst ` set xs"
  by (rule map_of_eq_None_iff)

lemma rstore_create_executes:
  "case rstore_create obj w of (a, w') \<Rightarrow>
     rstore_good req w' = rstore_good req w \<and> executes req (Create obj a) (rstore_view w) (rstore_view w')"
  by (cases "(obj, w)" rule: rstore_create.cases)
    (auto simp: rstore_good_def rstore_view_def map_of_keys split: option.splits)

lemma rstore_status_executes:
  assumes "rstore_good req w"
  shows "case rstore_status obj w of (a, w') \<Rightarrow>
     rstore_good req w' \<and> executes req (StatusUpdate obj a) (rstore_view w) (rstore_view w')"
  using assms by (cases "(obj, w)" rule: rstore_status.cases) (auto simp: rstore_good_def rstore_view_def)

lemma serves_executes:
  assumes "\<And>w. good w \<Longrightarrow> case f w of (a, w') \<Rightarrow> good w' \<and> executes req (log a) (view w) (view w')"
  shows "serves (serves_restore req) good view log f"
  unfolding serves_def using assms restore_server.executed by fastforce

lemma rstore_lawful: "restore_lawful rstore_client req (rstore_good req) rstore_view"
  unfolding restore_lawful_def
proof (intro conjI allI impI serves_executes, goal_cases)
  case (6 obj w)
  then show ?case using rstore_create_executes [where obj = obj and w = w and req = req] by (auto simp: rstore_client_def)
next
  case (7 obj w)
  then show ?case using rstore_status_executes [where obj = obj and w = w and req = req] by (simp add: rstore_client_def)
qed (auto simp: rstore_client_def rstore_good_def rstore_view_def look_def map_of_keys split: option.splits
    dest!: map_of_SomeD intro: rev_image_eqI)

section \<open>A sample run\<close>

text \<open>A restore of a cluster with one member: it begins, makes the claim and the pod, the pod succeeds, the cluster is made.\<close>

definition run_reconciler :: EtcdRestoreReconciler where
  "run_reconciler = \<lparr>RestorePodImage = ''i'', rr_ProxyURL = ''p''\<rparr>"

definition run_restore :: EtcdRestore where
  "run_restore =
     \<lparr>restore_meta = sample_meta ''r'',
      restore_spec =
        \<lparr>rs_Source = \<lparr>ObjectURL = ''s3://b/x''\<rparr>,
         ClusterTemplate =
           \<lparr>ct_ClusterName = ''c'',
            ct_Spec = (cluster_spec (sample_cluster 1))
              \<lparr>cs_PodTemplate := Some \<lparr>pts_Metadata = None, pts_Resources = Some noResources, pts_Affinity = None\<rparr>\<rparr>\<rparr>\<rparr>,
      restore_status = \<lparr>rst_Phase = []\<rparr>\<rparr>"

definition run_key :: NamespacedName where
  "run_key = key_of (restore_meta run_restore)"

definition run_pass :: "rstore \<Rightarrow> rstore world" where
  "run_pass = restore_pass_from std_lib run_reconciler rstore_client run_key"

definition succeed :: "rstore \<Rightarrow> rstore" where
  "succeed w = w\<lparr>ro_pods := map (\<lambda>(k, p). (k, p\<lparr>pod_Phase := PodSucceeded\<rparr>)) (ro_pods w)\<rparr>"

fun restore_states :: "nat \<Rightarrow> rstore" where
  "restore_states 0 = \<lparr>ro_restore = run_restore, ro_claims = [], ro_pods = [], ro_clusters = []\<rparr>"
| "restore_states (Suc n) = (if n = 3 then succeed (restore_states n) else server (run_pass (restore_states n)))"

lemma restore_states_end:
  "let w = restore_states 6; p = run_pass w in
     server p = w \<and> list_all restore_answered (trace p) \<and> list_all (\<lambda>(k, pod). finished pod) (ro_pods w) \<and>
     rst_Phase (restore_status (ro_restore w)) = EtcdRestorePhaseCompleted"
  by code_simp

lemma restore_states_stay: "6 \<le> n \<Longrightarrow> restore_states n = restore_states 6"
proof (induction rule: dec_induct)
  case (step n)
  then show ?case using restore_states_end unfolding Let_def restore_states.simps by simp
qed simp

lemma succeed_drifts:
  "list_all (\<lambda>(k, p). \<not> finished p) (ro_pods w) \<Longrightarrow> drifts (rstore_view w) (rstore_view (succeed w))"
  by (auto simp: drifts_def keeps_def rstore_view_def succeed_def map_of_map list_all_iff dest: map_of_SomeD)

lemma restore_states_run:
  "restore_run std_lib run_reconciler rstore_client run_key (rstore_good run_key) rstore_view restore_states"
  unfolding restore_run_def
proof (intro conjI allI)
  let ?acts = "restore_acts std_lib run_reconciler rstore_client run_key (rstore_good run_key) rstore_view"
  show start: "rstore_good run_key (restore_states 0)" by (simp add: rstore_good_def run_key_def)
  have "list_all (\<lambda>(k, p). \<not> finished p) (ro_pods (restore_states 3)) \<and> key_of (restore_meta (ro_restore (restore_states 3))) = run_key"
    by code_simp
  then have "?acts (restore_states 3) (restore_states (Suc 3))"
    unfolding restore_states.simps by (auto simp: rstore_good_def succeed_def intro!: restore_acts.around succeed_drifts [unfolded succeed_def])
  moreover have "?acts (restore_states n) (restore_states (Suc n))" if "n \<noteq> 3" for n
    using that restore_acts.pass [of std_lib run_reconciler rstore_client run_key "rstore_good run_key" rstore_view] by (simp add: run_pass_def)
  ultimately show "?acts (restore_states n) (restore_states (Suc n))" for n by metis
qed

lemma run_restore_expected:
  obtains c peers pvcs where "expectedObjects std_lib run_restore = Return (c, peers, pvcs)"
proof -
  have "case expectedObjects std_lib run_restore of Return _ \<Rightarrow> True | Panic \<Rightarrow> False" by code_simp
  with that show thesis by (auto split: outcome.splits)
qed

lemma restore_states_fair:
  assumes "expectedObjects std_lib run_restore = Return (c, peers, pvcs)"
  shows "restore_fair std_lib run_reconciler rstore_client run_key rstore_view peers restore_states"
  unfolding restore_fair_def
proof (intro conjI allI ballI impI)
  fix n :: nat
  let ?m = "max n 6"
  have m: "restore_states ?m = restore_states 6" "restore_states (Suc ?m) = restore_states 6"
    by (rule restore_states_stay, simp)+
  show "\<exists>m\<ge>n. restore_states (Suc m) = server (restore_pass_from std_lib run_reconciler rstore_client run_key (restore_states m)) \<and>
      list_all restore_answered (trace (restore_pass_from std_lib run_reconciler rstore_client run_key (restore_states m)))"
    using restore_states_end unfolding Let_def run_pass_def by (intro exI [of _ ?m]) (simp only: m max.cobounded1 simp_thms)
  fix peer p assume "rv_pods (rstore_view (restore_states n)) (restorePodNamespacedName peer) = Some p"
  then obtain q where "rv_pods (rstore_view (restore_states 6)) (restorePodNamespacedName peer) = Some q"
    using run_steps(1) [OF rstore_lawful restore_states_run _ max.cobounded1 [of n 6]] assms
    unfolding m keeps_def by (fastforce simp: rstore_view_def)
  moreover from this have "finished q"
    using restore_states_end unfolding Let_def by (auto simp: rstore_view_def list_all_iff simp del: restore_states.simps dest!: map_of_SomeD)
  ultimately show "\<exists>m\<ge>n. \<exists>q. rv_pods (rstore_view (restore_states m)) (restorePodNamespacedName peer) = Some q \<and> finished q"
    using m(1) max.cobounded1 [of n 6] by metis
qed

section \<open>Properties\<close>

text \<open>C6: every restore ends. On a server that keeps its promises, with other programs at work that remove nothing
  and leave the restore alone, if passes in which every request is answered happen again and again
  and every restore pod finishes sometime, then a restore whose template says what its pods need
  ends. Either it completes, and from then on every claim is there, marked as ours, every restore
  pod is there, ours and succeeded, and the cluster is there; or it fails, for good, in a pass that
  saw a foreign claim, a foreign pod, or a failed or unknown pod.\<close>

theorem restore_converges:
  assumes "restore_lawful cl req good view" "restore_run l r cl req good view f"
    and "expectedObjects l (rv_restore (view (f 0))) = Return (c, peers, pvcs)" "restore_fair l r cl req view peers f"
    and "sized (rv_restore (view (f 0)))" "\<not> ended (rv_phase (view (f 0)))"
  shows "(\<exists>N. \<forall>n. N \<le> n \<longrightarrow> rv_phase (view (f n)) = EtcdRestorePhaseCompleted \<and>
       complete (rv_restore (view (f 0))) c peers pvcs (view (f n))) \<or>
     (\<exists>m. (\<forall>n. m < n \<longrightarrow> rv_phase (view (f n)) = EtcdRestorePhaseFailed) \<and>
       broken (rv_restore (view (f 0))) pvcs peers (trace (restore_pass_from l r cl req (f m))))"
  by (rule restore_run_outcome [OF assms])

theorem restore_converges_witness:
  "\<exists>N c peers pvcs. \<forall>n. N \<le> n \<longrightarrow> rv_phase (rstore_view (restore_states n)) = EtcdRestorePhaseCompleted \<and>
     complete run_restore c peers pvcs (rstore_view (restore_states n))"
proof -
  obtain c peers pvcs where eo: "expectedObjects std_lib run_restore = Return (c, peers, pvcs)"
    by (rule run_restore_expected)
  have start: "rv_restore (rstore_view (restore_states 0)) = run_restore" by (simp add: rstore_view_def)
  have "sized run_restore" "\<not> ended (rst_Phase (restore_status run_restore))" by code_simp+
  note ends = restore_converges [OF rstore_lawful restore_states_run, unfolded start, OF eo restore_states_fair [OF eo] this]
  have "rv_phase (rstore_view (restore_states n)) \<noteq> EtcdRestorePhaseFailed" if "6 \<le> n" for n
    using restore_states_end restore_states_stay [OF that] unfolding Let_def by (simp add: rstore_view_def restore_phase_defs)
  then have "\<not> (\<forall>n. m < n \<longrightarrow> rv_phase (rstore_view (restore_states n)) = EtcdRestorePhaseFailed)" for m
    by (metis less_Suc_eq_le max.cobounded1 max.cobounded2 le_SucI)
  with ends show ?thesis by blast
qed

end
