(* ===== verification/AdmissionProps.thy ===== *)
theory AdmissionProps
  imports MemServer
begin

text \<open>
  The properties of defaulting and validation: what an admitted EtcdCluster is, that defaulting and
  validation agree however often the webhooks and the reconcilers apply them, and what an update
  may change.
\<close>

section \<open>Properties\<close>

text \<open>C40: validation accepts a cluster exactly if its version is one of etcd 3, its storage names a storage
  class and requests an amount of storage, and no annotation of its pod template has a reserved name.\<close>

theorem cluster_valid_iff:
  "EtcdCluster_ValidateCreate sv c = None \<longleftrightarrow>
     sv (cs_Version (cluster_spec c)) = Inr 3 \<and>
     (\<exists>s t k q. cs_Storage (cluster_spec c) = Some s \<and> VolumeClaimTemplate s = Some t \<and>
        StorageClassName t = Some k \<and> map_of (Requests (pvc_Resources t)) ''storage'' = Some q) \<and>
     (case cs_PodTemplate (cluster_spec c) of
        None \<Rightarrow> True
      | Some ts \<Rightarrow>
          (case pts_Metadata ts of
             None \<Rightarrow> True
           | Some m \<Rightarrow> list_all (\<lambda>(a, _). \<not> HasPrefix a ''etcd.improbable.io/'') (ptm_Annotations m)))"
  unfolding EtcdCluster_ValidateCreate_iff valid_version_def valid_storage_def valid_podTemplate_def
    IsInvalidUserProvidedAnnotationName_def
  by (fastforce simp: list_all_iff split: option.split)

text \<open>Defaulting twice is defaulting once, defaulting never changes the verdict of validation, and a valid
  cluster that has been defaulted has the access modes and the volume mode of its claims set; nothing
  but the storage of the cluster is changed.\<close>

lemma cluster_defaulting:
  "EtcdCluster_Default (EtcdCluster_Default c) = EtcdCluster_Default c \<and>
   EtcdCluster_ValidateCreate sv (EtcdCluster_Default c) = EtcdCluster_ValidateCreate sv c \<and>
   (EtcdCluster_ValidateCreate sv c = None \<longrightarrow>
      (\<exists>s t am vm. cs_Storage (cluster_spec (EtcdCluster_Default c)) = Some s \<and> VolumeClaimTemplate s = Some t \<and>
         AccessModes t = Some am \<and> VolumeMode t = Some vm)) \<and>
   (EtcdCluster_Default c)\<lparr>cluster_spec := (cluster_spec c)\<rparr> = c"
proof -
  have "(EtcdCluster_Default c)\<lparr>cluster_spec := (cluster_spec c)\<rparr> = c" by (simp add: EtcdCluster_Default_def)
  then show ?thesis
    using setDefaults_valid [of "cs_Storage (cluster_spec c)"]
    by (simp add: cluster_admission.Default_idem cluster_admission.ValidateCreate_Default
        EtcdCluster_ValidateCreate_iff)
qed

text \<open>An update of a cluster is accepted exactly if the new cluster is valid and its storage and pod
  template are the old ones, so only the version and the number of replicas may change; an object of
  another kind is never accepted as the old one.\<close>

lemma cluster_update_iff:
  assumes "diff_ok Diff"
  shows "EtcdCluster_ValidateUpdate sv Diff c old = None \<longleftrightarrow>
     EtcdCluster_ValidateCreate sv c = None \<and>
     (\<exists>o'. old = OCluster o' \<and> cs_Storage (cluster_spec o') = cs_Storage (cluster_spec c) \<and>
        cs_PodTemplate (cluster_spec o') = cs_PodTemplate (cluster_spec c))"
proof -
  have "Diff a b = [] \<longleftrightarrow> a = b" for a b using assms by (simp add: diff_ok_def)
  moreover have "(cluster_spec o')\<lparr>cs_Replicas := cs_Replicas (cluster_spec c), cs_Version := cs_Version (cluster_spec c)\<rparr> =
      cluster_spec c \<longleftrightarrow>
      cs_Storage (cluster_spec o') = cs_Storage (cluster_spec c) \<and>
      cs_PodTemplate (cluster_spec o') = cs_PodTemplate (cluster_spec c)" for o'
    by (cases "cluster_spec o'"; cases "cluster_spec c") auto
  ultimately show ?thesis
    by (auto simp: EtcdCluster_ValidateUpdate_def Let_def split: object.splits option.splits)
qed

end
