(* ===== verification/Proxy.thy ===== *)
theory Proxy
  imports GoUrl KubeTypes
begin

text \<open>
  The upload/download proxy (\<open>cmd/proxy/main.go\<close>) and the messages it serves
  (\<open>api/proxy/v1/proxy.proto\<close>). The object store library \<open>gocloud.dev/blob\<close> is a parameter:
  its operations act on a state \<open>'w\<close> and return an error or a handle.
\<close>

section \<open>Messages\<close>

type_synonym bytes = "8 word list"

record UploadRequest =
  ur_BackupUrl :: string
  ur_Backup :: bytes

record UploadResponse =
  ups_BackupUrl :: string

record DownloadRequest =
  dr_BackupUrl :: string

record DownloadResponse =
  dns_Backup :: bytes

section \<open>The object store library\<close>

record ('w, 'b, 'u, 'd) blob =
  OpenBucket :: "string \<Rightarrow> 'w \<Rightarrow> (string + 'b) \<times> 'w"
  NewWriter :: "'b \<Rightarrow> string \<Rightarrow> 'w \<Rightarrow> (string + 'u) \<times> 'w"
  Writer_Write :: "'u \<Rightarrow> bytes \<Rightarrow> 'w \<Rightarrow> (string + nat) \<times> 'w"
  Writer_Close :: "'u \<Rightarrow> 'w \<Rightarrow> string option \<times> 'w"
  NewReader :: "'b \<Rightarrow> string \<Rightarrow> 'w \<Rightarrow> (string + 'd) \<times> 'w"
  Reader_ReadAll :: "'d \<Rightarrow> 'w \<Rightarrow> (string + bytes) \<times> 'w"
  Reader_Close :: "'d \<Rightarrow> 'w \<Rightarrow> string option \<times> 'w"

section \<open>The server\<close>

definition parseBackupURL :: "string \<Rightarrow> string + (string \<times> string)" where
  "parseBackupURL backupUrl =
     (case Parse backupUrl of
        Inl err \<Rightarrow> Inl err
      | Inr u \<Rightarrow> Inr (String (u\<lparr>Path := []\<rparr>), Path u))"

text \<open>\<open>fmt.Errorf("%s: %s", message, err)\<close>.\<close>

definition loggedError :: "string \<Rightarrow> string \<Rightarrow> go_error" where
  "loggedError err message = Text (message @ '': '') (NewError err)"

text \<open>The deferred closing of the writer adds its error to the one that is returned.\<close>

definition Upload ::
    "('w, 'b, 'u, 'd) blob \<Rightarrow> UploadRequest \<Rightarrow> ('w, UploadResponse option \<times> go_error option) state" where
  "Upload bl req =
     (case parseBackupURL (ur_BackupUrl req) of
        Inl err \<Rightarrow> State_Monad.return (None, Some (loggedError err ''failed to parse backup URL''))
      | Inr (bucketName, objectPath) \<Rightarrow> do {
          opened \<leftarrow> State (OpenBucket bl bucketName);
          case opened of
            Inl err \<Rightarrow> State_Monad.return (None, Some (loggedError err ''failed to open bucket''))
          | Inr bucket \<Rightarrow> do {
              made \<leftarrow> State (NewWriter bl bucket objectPath);
              case made of
                Inl err \<Rightarrow> State_Monad.return (None, Some (loggedError err ''failed to create blob writer''))
              | Inr blobWriter \<Rightarrow> do {
                  written \<leftarrow> State (Writer_Write bl blobWriter (ur_Backup req));
                  let (response, reterr) =
                    (case written of
                       Inl err \<Rightarrow> (None, Some (loggedError err ''failed to write blob''))
                     | Inr n \<Rightarrow> (Some \<lparr>ups_BackupUrl = []\<rparr>, None));
                  closed \<leftarrow> State (Writer_Close bl blobWriter);
                  State_Monad.return
                    (case closed of
                       None \<Rightarrow> (response, reterr)
                     | Some err \<Rightarrow>
                         (response, NewAggregate [reterr, Some (loggedError err ''failed to close blob writer'')]))
                }
            }
        })"

text \<open>An error on closing the reader is logged only.\<close>

definition Download ::
    "('w, 'b, 'u, 'd) blob \<Rightarrow> DownloadRequest \<Rightarrow> ('w, DownloadResponse option \<times> go_error option) state" where
  "Download bl req =
     (case parseBackupURL (dr_BackupUrl req) of
        Inl err \<Rightarrow> State_Monad.return (None, Some (loggedError err ''failed to parse backup URL''))
      | Inr (bucketName, objectPath) \<Rightarrow> do {
          opened \<leftarrow> State (OpenBucket bl bucketName);
          case opened of
            Inl err \<Rightarrow> State_Monad.return (None, Some (loggedError err ''failed to open bucket''))
          | Inr bucket \<Rightarrow> do {
              made \<leftarrow> State (NewReader bl bucket objectPath);
              case made of
                Inl err \<Rightarrow> State_Monad.return (None, Some (loggedError err ''failed to create blob reader''))
              | Inr blobReader \<Rightarrow> do {
                  backup \<leftarrow> State (Reader_ReadAll bl blobReader);
                  closed \<leftarrow> State (Reader_Close bl blobReader);
                  State_Monad.return
                    (case backup of
                       Inl err \<Rightarrow> (None, Some (loggedError err ''failed to read blob''))
                     | Inr d \<Rightarrow> (Some \<lparr>dns_Backup = d\<rparr>, None))
                }
            }
        })"

section \<open>What the store promises\<close>

text \<open>
  The documented behaviour of \<open>blob\<close>: what a successfully closed writer was given is what a
  reader of the same object delivers. \<open>name\<close>, \<open>target\<close> and \<open>source\<close> say which bucket and object
  a handle stands for, \<open>pending\<close> what a writer has been given, \<open>stored\<close> what the store holds.
\<close>

definition blob_ok ::
    "('w, 'b, 'u, 'd) blob \<Rightarrow> ('b \<Rightarrow> string) \<Rightarrow> ('u \<Rightarrow> string \<times> string) \<Rightarrow> ('d \<Rightarrow> string \<times> string) \<Rightarrow>
     ('w \<Rightarrow> 'u \<Rightarrow> bytes) \<Rightarrow> ('w \<Rightarrow> string \<times> string \<Rightarrow> bytes option) \<Rightarrow> bool" where
  "blob_ok bl name target source pending stored \<longleftrightarrow>
     (\<forall>n w b w'. OpenBucket bl n w = (Inr b, w') \<longrightarrow> name b = n \<and> stored w' = stored w) \<and>
     (\<forall>b p w u w'. NewWriter bl b p w = (Inr u, w') \<longrightarrow> target u = (name b, p) \<and> pending w' u = []) \<and>
     (\<forall>u d w n w'. Writer_Write bl u d w = (Inr n, w') \<longrightarrow> pending w' u = pending w u @ d) \<and>
     (\<forall>u w w'. Writer_Close bl u w = (None, w') \<longrightarrow> stored w' (target u) = Some (pending w u)) \<and>
     (\<forall>b p w d w'. NewReader bl b p w = (Inr d, w') \<longrightarrow> source d = (name b, p) \<and> stored w' = stored w) \<and>
     (\<forall>r w d w'. Reader_ReadAll bl r w = (Inr d, w') \<longrightarrow> stored w (source r) = Some d)"

lemma blob_okD:
  assumes "blob_ok bl name target source pending stored"
  shows "OpenBucket bl n w = (Inr b, w') \<Longrightarrow> name b = n \<and> stored w' = stored w"
    and "NewWriter bl b p w = (Inr u, w') \<Longrightarrow> target u = (name b, p) \<and> pending w' u = []"
    and "Writer_Write bl u x w = (Inr k, w') \<Longrightarrow> pending w' u = pending w u @ x"
    and "Writer_Close bl u w = (None, w') \<Longrightarrow> stored w' (target u) = Some (pending w u)"
    and "NewReader bl b p w = (Inr r, w') \<Longrightarrow> source r = (name b, p) \<and> stored w' = stored w"
    and "Reader_ReadAll bl r w = (Inr x, w') \<Longrightarrow> stored w (source r) = Some x"
  using assms unfolding blob_ok_def by simp_all

section \<open>Lemmas\<close>

lemma NewAggregate_pair: "\<exists>e'. NewAggregate [r, Some e] = Some e'"
  by (cases r) (simp_all add: NewAggregate_def List.map_filter_simps Let_def)

text \<open>The success of an upload, step by step.\<close>

lemma Upload_success:
  "snd (fst (run_state (Upload bl req) w)) = None \<longleftrightarrow>
     (\<exists>n p b u k w1 w2 w3 w4.
        parseBackupURL (ur_BackupUrl req) = Inr (n, p) \<and> OpenBucket bl n w = (Inr b, w1) \<and>
        NewWriter bl b p w1 = (Inr u, w2) \<and> Writer_Write bl u (ur_Backup req) w2 = (Inr k, w3) \<and>
        Writer_Close bl u w3 = (None, w4) \<and> snd (run_state (Upload bl req) w) = w4)"
  by (auto simp: Upload_def NewAggregate_pair split: sum.splits prod.splits option.splits)

lemma Upload_stored:
  assumes "blob_ok bl name target source pending stored"
    and "snd (fst (run_state (Upload bl req) w)) = None"
  obtains loc where "parseBackupURL (ur_BackupUrl req) = Inr loc"
    "stored (snd (run_state (Upload bl req) w)) loc = Some (ur_Backup req)"
proof -
  obtain n p b u k w1 w2 w3 w4 where steps: "parseBackupURL (ur_BackupUrl req) = Inr (n, p)"
    "OpenBucket bl n w = (Inr b, w1)" "NewWriter bl b p w1 = (Inr u, w2)"
    "Writer_Write bl u (ur_Backup req) w2 = (Inr k, w3)" "Writer_Close bl u w3 = (None, w4)"
    "snd (run_state (Upload bl req) w) = w4"
    using assms(2) unfolding Upload_success by blast
  note ok = blob_okD [OF assms(1)]
  have "stored w4 (n, p) = Some (ur_Backup req)"
    using ok(1) [OF steps(2)] ok(2) [OF steps(3)] ok(3) [OF steps(4)] ok(4) [OF steps(5)] by simp
  with steps show thesis by (intro that) simp_all
qed

lemma Download_result:
  assumes "blob_ok bl name target source pending stored"
    and "parseBackupURL (dr_BackupUrl req) = Inr loc" "stored w loc = Some d"
  shows "fst (run_state (Download bl req) w) = (Some \<lparr>dns_Backup = d\<rparr>, None) \<or>
    (\<exists>err. \<exists>message \<in> {''failed to open bucket'', ''failed to create blob reader'', ''failed to read blob''}.
       fst (run_state (Download bl req) w) = (None, Some (loggedError err message)))"
  using assms(2,3)
  by (auto simp: Download_def dest!: blob_okD [OF assms(1)] split: sum.splits prod.splits)

end
