(* ===== verification/Agents.thy ===== *)
theory Agents
  imports Proxy
begin

text \<open>
  The two programs that run in the pods of the operator: the backup agent
  (\<open>cmd/backup-agent/main.go\<close>) and the restore agent (\<open>cmd/restore-agent/main.go\<close>). The etcd
  snapshot library, the operating system, gRPC and the directory copier are parameters, operations
  on a state \<open>'w\<close>; flag parsing is left out, its result is a record.
\<close>

section \<open>path/filepath\<close>

text \<open>
  \<open>filepath.Clean\<close> drops empty and \<open>.\<close> elements and resolves \<open>..\<close> as far as it can; above the
  root there is nothing.
\<close>

fun clean_elems :: "bool \<Rightarrow> string list \<Rightarrow> string list \<Rightarrow> string list" where
  "clean_elems rooted out [] = rev out"
| "clean_elems rooted out (e # es) =
     (if e = [] \<or> e = ''.'' then clean_elems rooted out es
      else if e = ''..'' then
        (case out of
           [] \<Rightarrow> clean_elems rooted (if rooted then [] else [e]) es
         | o' # os \<Rightarrow> if o' = ''..'' then clean_elems rooted (e # out) es else clean_elems rooted os es)
      else clean_elems rooted (e # out) es)"

definition Clean :: "string \<Rightarrow> string" where
  "Clean path =
     (let rooted = HasPrefix path ''/'';
          cleaned = (if rooted then ''/'' else []) @ Join (clean_elems rooted [] (Split path (CHR ''/''))) ''/''
      in if cleaned = [] then ''.'' else cleaned)"

definition filepath_Join :: "string list \<Rightarrow> string" where
  "filepath_Join elems =
     (case dropWhile (\<lambda>e. e = []) elems of
        [] \<Rightarrow> []
      | es \<Rightarrow> Clean (Join es ''/''))"

section \<open>The world of an agent\<close>

record RestoreConfig =
  SnapshotPath :: string
  rcf_Name :: string
  OutputDataDir :: string
  OutputWALDir :: string
  rcf_PeerURLs :: "string list"
  rcf_InitialCluster :: string
  InitialClusterToken :: string
  SkipHashCheck :: bool

text \<open>
  \<open>file_Copy\<close> is \<open>io.Copy\<close> into the buffered writer of a file and \<open>file_Flush\<close> its \<open>Flush\<close>.
  Times are \<open>int64\<close> nanoseconds.
\<close>

record ('w, 'f, 'c) platform =
  snapshot_Save :: "string list \<Rightarrow> 64 word \<Rightarrow> string \<Rightarrow> 'w \<Rightarrow> string option \<times> 'w"
  snapshot_Restore :: "RestoreConfig \<Rightarrow> 'w \<Rightarrow> string option \<times> 'w"
  os_Open :: "string \<Rightarrow> 'w \<Rightarrow> (string + 'f) \<times> 'w"
  os_Create :: "string \<Rightarrow> 'w \<Rightarrow> (string + 'f) \<times> 'w"
  file_ReadAll :: "'f \<Rightarrow> 'w \<Rightarrow> (string + bytes) \<times> 'w"
  file_Copy :: "'f \<Rightarrow> bytes \<Rightarrow> 'w \<Rightarrow> string option \<times> 'w"
  file_Flush :: "'f \<Rightarrow> 'w \<Rightarrow> string option \<times> 'w"
  file_Close :: "'f \<Rightarrow> 'w \<Rightarrow> string option \<times> 'w"
  grpc_Dial :: "string \<Rightarrow> 'w \<Rightarrow> (string + 'c) \<times> 'w"
  conn_Upload :: "'c \<Rightarrow> UploadRequest \<Rightarrow> 'w \<Rightarrow> (string + UploadResponse) \<times> 'w"
  conn_Download :: "'c \<Rightarrow> DownloadRequest \<Rightarrow> 'w \<Rightarrow> (string + DownloadResponse) \<times> 'w"
  conn_Close :: "'c \<Rightarrow> 'w \<Rightarrow> string option \<times> 'w"
  dir_Copy :: "string \<Rightarrow> string \<Rightarrow> 'w \<Rightarrow> string option \<times> 'w"

text \<open>How an agent ends: it runs to the end of \<open>main\<close>, exits with a code, or panics with an error.\<close>

datatype exit = Finished | Exit int | Panicked go_error

text \<open>\<open>panic(loggedError(log, err, message))\<close> if there is an error, else the rest.\<close>

definition or_panic :: "string option \<Rightarrow> string \<Rightarrow> ('w, exit) state \<Rightarrow> ('w, exit) state" where
  "or_panic err message k =
     (case err of Some e \<Rightarrow> State_Monad.return (Panicked (loggedError e message)) | None \<Rightarrow> k)"

definition got_or_panic :: "string + 'a \<Rightarrow> string \<Rightarrow> ('a \<Rightarrow> ('w, exit) state) \<Rightarrow> ('w, exit) state" where
  "got_or_panic r message k =
     (case r of Inl e \<Rightarrow> State_Monad.return (Panicked (loggedError e message)) | Inr x \<Rightarrow> k x)"

section \<open>The backup agent\<close>

record backup_flags =
  bf_proxyURL :: string
  backupTempDir :: string
  bf_backupURL :: string
  etcdURL :: string
  etcdDialTimeoutSeconds :: "64 word"
  bf_printVersion :: bool

definition second :: "64 word" where "second = 1000000000"

definition snapshot_path :: "string \<Rightarrow> string" where
  "snapshot_path dir = filepath_Join [dir, ''snapshot.db'']"

text \<open>The file is closed when \<open>main\<close> ends, also by a panic after it was opened.\<close>

definition backup_upload :: "('w, 'f, 'c) platform \<Rightarrow> backup_flags \<Rightarrow> 'f \<Rightarrow> ('w, exit) state" where
  "backup_upload pf flags sourceFile = do {
     r \<leftarrow> State (file_ReadAll pf sourceFile);
     got_or_panic r ''failed to read snapshot file'' (\<lambda>sourceBytes. do {
       r' \<leftarrow> State (grpc_Dial pf (bf_proxyURL flags));
       got_or_panic r' ''failed to dial proxy'' (\<lambda>conn. do {
         r'' \<leftarrow> State (conn_Upload pf conn \<lparr>ur_BackupUrl = bf_backupURL flags, ur_Backup = sourceBytes\<rparr>);
         got_or_panic r'' ''failed to upload backup'' (\<lambda>_. State_Monad.return Finished)
       })
     })
   }"

definition backup_agent :: "('w, 'f, 'c) platform \<Rightarrow> backup_flags \<Rightarrow> ('w, exit) state" where
  "backup_agent pf flags =
     (if bf_printVersion flags then State_Monad.return (Exit 0)
      else do {
        let localPath = snapshot_path (backupTempDir flags);
        err \<leftarrow> State (snapshot_Save pf [etcdURL flags] (second * etcdDialTimeoutSeconds flags) localPath);
        or_panic err ''failed to get etcd snapshot'' (do {
          r \<leftarrow> State (os_Open pf localPath);
          got_or_panic r ''failed to open snapshot file'' (\<lambda>sourceFile. do {
            out \<leftarrow> backup_upload pf flags sourceFile;
            _ \<leftarrow> State (file_Close pf sourceFile);
            State_Monad.return out
          })
        })
      })"

section \<open>The restore agent\<close>

record restore_flags =
  etcdPeerName :: string
  etcdClusterName :: string
  etcdInitialCluster :: string
  etcdAdvertiseURL :: string
  etcdDataDir :: string
  rf_snapshotDir :: string
  rf_proxyURL :: string
  rf_backupURL :: string
  rf_printVersion :: bool

definition restoreDir :: "restore_flags \<Rightarrow> string" where
  "restoreDir flags = filepath_Join [rf_snapshotDir flags, ''data-dir'']"

definition restoreConfig :: "restore_flags \<Rightarrow> RestoreConfig" where
  "restoreConfig flags =
     \<lparr>SnapshotPath = snapshot_path (rf_snapshotDir flags),
      rcf_Name = etcdPeerName flags,
      OutputDataDir = restoreDir flags,
      OutputWALDir = filepath_Join [restoreDir flags, ''member'', ''wal''],
      rcf_PeerURLs = [etcdAdvertiseURL flags],
      rcf_InitialCluster = etcdInitialCluster flags,
      InitialClusterToken = etcdClusterName flags,
      SkipHashCheck = False\<rparr>"

definition save_snapshot ::
    "('w, 'f, 'c) platform \<Rightarrow> string \<Rightarrow> bytes \<Rightarrow> ('w, exit) state \<Rightarrow> ('w, exit) state" where
  "save_snapshot pf path backup k = do {
     r \<leftarrow> State (os_Create pf path);
     got_or_panic r ''failed to create snapshot file'' (\<lambda>snapshotFile. do {
       err \<leftarrow> State (file_Copy pf snapshotFile backup);
       or_panic err ''failed to copy backup to snapshot file'' (do {
         err' \<leftarrow> State (file_Flush pf snapshotFile);
         or_panic err' ''failed to flush snapshot file'' k
       })
     })
   }"

definition restore_data :: "('w, 'f, 'c) platform \<Rightarrow> restore_flags \<Rightarrow> ('w, exit) state" where
  "restore_data pf flags = do {
     err \<leftarrow> State (snapshot_Restore pf (restoreConfig flags));
     or_panic err ''failed to restore'' (do {
       err' \<leftarrow> State (dir_Copy pf (restoreDir flags) (etcdDataDir flags));
       or_panic err' ''failed to copy restored data into PV'' (State_Monad.return Finished)
     })
   }"

definition restore_agent :: "('w, 'f, 'c) platform \<Rightarrow> restore_flags \<Rightarrow> ('w, exit) state" where
  "restore_agent pf flags =
     (if rf_printVersion flags then State_Monad.return (Exit 0)
      else do {
        r \<leftarrow> State (grpc_Dial pf (rf_proxyURL flags));
        got_or_panic r ''failed to dial proxy'' (\<lambda>conn. do {
          r' \<leftarrow> State (conn_Download pf conn \<lparr>dr_BackupUrl = rf_backupURL flags\<rparr>);
          got_or_panic r' ''failed to download'' (\<lambda>response. do {
            err \<leftarrow> State (conn_Close pf conn);
            or_panic err ''failed to close proxy connection''
              (save_snapshot pf (snapshot_path (rf_snapshotDir flags)) (dns_Backup response)
                 (restore_data pf flags))
          })
        })
      })"

section \<open>The operator's address of the proxy\<close>

text \<open>\<open>main.go\<close> adds the default port to a proxy address that has no colon.\<close>

definition defaultProxyPort :: nat where "defaultProxyPort = 80"

definition proxyAddress :: "string \<Rightarrow> string" where
  "proxyAddress proxyURL =
     (if CHR '':'' \<notin> set proxyURL then proxyURL @ '':'' @ decimal defaultProxyPort else proxyURL)"

end
