(* ===== verification/ProxyProps.thy ===== *)
theory ProxyProps
  imports Proxy
begin

text \<open>
  Properties of the proxy: how a backup URL is split, when an upload is reported as done, and that
  a download delivers what was uploaded.
\<close>

section \<open>Backup URLs\<close>

text \<open>
  Characters that stand for themselves in the path of a URL, and characters of its query.
\<close>

definition path_char :: "char \<Rightarrow> bool" where
  "path_char c \<longleftrightarrow> is_alnum c \<or> c \<in> set ''-_.~/''"

definition query_char :: "char \<Rightarrow> bool" where
  "query_char c \<longleftrightarrow> c \<noteq> CHR ''#'' \<and> \<not> of_char c < (32 :: nat) \<and> of_char c \<noteq> (127 :: nat)"

definition url_scheme :: "string \<Rightarrow> bool" where
  "url_scheme s \<longleftrightarrow> (case s of [] \<Rightarrow> False | c # cs \<Rightarrow> is_lower c \<and> list_all (\<lambda>x. is_lower x \<or> is_dec x) cs)"

text \<open>A query with its question mark, or nothing.\<close>

definition url_query :: "string option \<Rightarrow> string" where
  "url_query q = (case q of None \<Rightarrow> [] | Some s \<Rightarrow> ''?'' @ s)"

lemma cut_append: "c \<notin> set a \<Longrightarrow> cut (a @ c # t) c b = (a, if b then t else c # t)"
  by (induction a) (auto simp: cut_def)

lemma path_char_plain:
  assumes "path_char c"
  shows "c \<noteq> CHR ''%'' \<and> \<not> shouldEscape c encodePath \<and> query_char c \<and> c \<noteq> CHR ''?''"
  using assms is_alnum_special [of c] is_alnum_print [of c]
  by (auto simp: path_char_def query_char_def shouldEscape_def)

lemma unescape_path_id: "list_all path_char p \<Longrightarrow> unescape encodePath p = Inr p"
  by (induction p) (auto dest: path_char_plain)

lemma escape_path_id: "list_all path_char p \<Longrightarrow> escape p encodePath = p"
  by (rule escape_id) (auto simp: list_all_iff dest: path_char_plain)

lemma lower_not_upper: "is_lower c \<or> is_dec c \<Longrightarrow> \<not> is_upper c"
  by (auto simp: is_lower_def is_upper_def is_dec_def between_def)

lemma to_lower_scheme: "url_scheme s \<Longrightarrow> map to_lower s = s"
  by (cases s) (auto simp: url_scheme_def to_lower_def list_all_iff lower_not_upper intro!: map_idI)

lemma getscheme_tail:
  "list_all (\<lambda>x. is_lower x \<or> is_dec x) cs \<Longrightarrow> 0 < i \<Longrightarrow>
   getscheme_from i acc (cs @ '':'' @ rest) raw = Inr (acc @ cs, rest)"
proof (induction cs arbitrary: i acc)
  case Nil
  then show ?case by (simp add: is_lower_def is_upper_def is_dec_def between_def)
qed auto

lemma getscheme_scheme: "url_scheme s \<Longrightarrow> getscheme (s @ '':'' @ rest) = Inr (s, rest)"
proof (cases s)
  case (Cons c cs)
  then show "url_scheme s \<Longrightarrow> ?thesis"
    using getscheme_tail [of cs 1 "[c]" rest] by (simp add: getscheme_def url_scheme_def)
qed (simp add: url_scheme_def)

lemma parseAuthority_host:
  assumes h: "list_all host_char h"
  shows "parseAuthority h = Inr (None, h)"
proof -
  have chars: "c \<notin> set ''/?#@:[%'' \<and> \<not> shouldEscape c encodeHost" if "c \<in> set h" for c
    using that h host_char_special shouldEscape_host by (auto simp: list_all_iff)
  then have "unescape encodeHost h = Inr h" by (intro unescape_host_id) auto
  moreover have "\<not> HasPrefix h ''[''" using chars by (cases h) (auto simp: HasPrefix_def)
  moreover have "from_last (CHR ''@'') h = None" "from_last (CHR '':'') h = None"
    using chars by (auto simp: from_last_def)
  ultimately show ?thesis by (simp add: parseAuthority_def parseHost_def)
qed

lemma parse_rest_host_path:
  assumes b: "list_all host_char b" and p: "list_all path_char (CHR ''/'' # p)" and u: "Scheme u \<noteq> []"
  shows "parse_rest u (''//'' @ b @ CHR ''/'' # p) =
    Inr (u\<lparr>User := None, Host := b, Path := CHR ''/'' # p, RawPath := []\<rparr>)"
proof -
  have "CHR ''/'' \<notin> set b" using b host_char_special by (auto simp: list_all_iff)
  then have "cut (b @ CHR ''/'' # p) (CHR ''/'') False = (b, CHR ''/'' # p)" by (simp add: cut_append)
  then show ?thesis
    using parseAuthority_host [OF b] unescape_path_id [OF p] escape_path_id [OF p] u
    by (simp add: parse_rest_def setPath_def HasPrefix_def)
qed

text \<open>The URL of an object, parsed.\<close>

definition object_url :: "string \<Rightarrow> string \<Rightarrow> string \<Rightarrow> string option \<Rightarrow> string" where
  "object_url s b p q = s @ ''://'' @ b @ p @ url_query q"

lemma alnum_query_char: "is_alnum c \<Longrightarrow> query_char c \<and> c \<noteq> CHR ''?''"
  using path_char_plain [of c] by (simp add: path_char_def)

lemma host_query_char: "host_char c \<Longrightarrow> query_char c \<and> c \<noteq> CHR ''?''"
  using path_char_plain [of c] by (auto simp: path_char_def host_char_def)

lemma scheme_chars: "url_scheme s \<Longrightarrow> c \<in> set s \<Longrightarrow> query_char c"
  by (cases s) (auto simp: url_scheme_def list_all_iff is_alnum_def intro!: conjunct1 [OF alnum_query_char])

lemma query_char_colon: "query_char (CHR '':'')" "query_char (CHR ''/'')" "query_char (CHR ''?'')"
  by (simp_all add: query_char_def)

lemma object_url_chars:
  assumes "url_scheme s" "list_all host_char b" "list_all path_char p"
    "case q of None \<Rightarrow> True | Some t \<Rightarrow> list_all query_char t"
  shows "list_all query_char (object_url s b p q)"
  using assms query_char_colon scheme_chars [OF assms(1)]
  by (auto simp: object_url_def url_query_def list_all_iff host_query_char path_char_plain split: option.splits)

definition with_query :: "URL \<Rightarrow> string option \<Rightarrow> URL" where
  "with_query u q =
     (case q of None \<Rightarrow> u | Some [] \<Rightarrow> u\<lparr>ForceQuery := True\<rparr> | Some t \<Rightarrow> u\<lparr>RawQuery := t\<rparr>)"

lemma parse_query:
  assumes ctl: "\<not> list_ex (\<lambda>c. of_char c < (32 :: nat) \<or> of_char c = (127 :: nat)) raw" and star: "raw \<noteq> ''*''"
    and scheme: "getscheme raw = Inr (s, r @ url_query q)" "map to_lower s = s"
    and plain: "CHR ''?'' \<notin> set r" "r \<noteq> []"
  shows "parse raw = parse_rest (with_query (emptyURL\<lparr>Scheme := s\<rparr>) q) r"
proof (cases q)
  case None
  have "last r \<noteq> CHR ''?''" using plain last_in_set by metis
  then show ?thesis
    using assms None cut_absent [OF plain(1)] by (simp add: parse_def url_query_def with_query_def emptyURL_def)
next
  case (Some t)
  then show ?thesis
  proof (cases t)
    case Nil
    then show ?thesis
      using assms Some by (simp add: parse_def url_query_def with_query_def butlast_append)
  next
    case (Cons c cs)
    then show ?thesis
      using assms Some cut_append [OF plain(1), of t True]
      by (simp add: parse_def url_query_def with_query_def butlast_append)
  qed
qed

lemma String_bucket:
  assumes "s \<noteq> []" "b \<noteq> []" "list_all host_char b"
  shows "String (with_query (emptyURL\<lparr>Scheme := s\<rparr>) q\<lparr>User := None, Host := b, RawPath := [], Path := []\<rparr>) =
    object_url s b [] q"
proof -
  have "escape b encodeHost = b"
    by (rule escape_id) (use assms(3) shouldEscape_host in \<open>auto simp: list_all_iff\<close>)
  then show ?thesis
    using assms(1,2)
    by (simp add: String_def emptyURL_def EscapedPath_def escape_def cut_def with_query_def object_url_def
        url_query_def Let_def split: option.split list.split)
qed

text \<open>C37: a backup URL splits into bucket and object the way the storage library expects: for a scheme, a
  bucket name, a path of plain characters and an optional query, the bucket URL is the URL without
  the path, its query kept, and the object is the path with its leading slash.\<close>

theorem parse_backup_url_splits:
  assumes s: "url_scheme s" and b: "list_all host_char b" "b \<noteq> []" and p: "list_all path_char (CHR ''/'' # p)"
    and q: "case q of None \<Rightarrow> True | Some t \<Rightarrow> list_all query_char t"
  shows "parseBackupURL (object_url s b (CHR ''/'' # p) q) = Inr (object_url s b [] q, CHR ''/'' # p)"
proof -
  let ?raw = "object_url s b (CHR ''/'' # p) q" and ?r = "''//'' @ b @ CHR ''/'' # p"
  have chars: "list_all query_char ?raw" by (rule object_url_chars [OF s b(1) p q])
  then have frag: "cut ?raw (CHR ''#'') True = (?raw, [])"
    by (intro cut_absent) (auto simp: list_all_iff query_char_def)
  have ctl: "\<not> list_ex (\<lambda>c. of_char c < (32 :: nat) \<or> of_char c = (127 :: nat)) ?raw"
    using chars by (auto simp: list_all_iff list_ex_iff query_char_def)
  have scheme: "getscheme ?raw = Inr (s, ?r @ url_query q)"
    using getscheme_scheme [OF s, of "?r @ url_query q"] by (simp add: object_url_def)
  have ne: "s \<noteq> []" "?raw \<noteq> ''*''" using s by (auto simp: url_scheme_def object_url_def)
  have "CHR ''?'' \<notin> set ?r"
    using b(1) p host_query_char path_char_plain by (auto simp: list_all_iff)
  from parse_query [OF ctl ne(2) scheme to_lower_scheme [OF s] this]
  have "parse ?raw = parse_rest (with_query (emptyURL\<lparr>Scheme := s\<rparr>) q) ?r" by simp
  moreover have "Scheme (with_query (emptyURL\<lparr>Scheme := s\<rparr>) q) = s"
    by (simp add: with_query_def split: option.split list.split)
  ultimately have "Parse ?raw = Inr (with_query (emptyURL\<lparr>Scheme := s\<rparr>) q
      \<lparr>User := None, Host := b, Path := CHR ''/'' # p, RawPath := []\<rparr>)"
    using parse_rest_host_path [OF b(1) p] ne(1) frag by (simp add: Parse_def)
  then show ?thesis using String_bucket [OF ne(1) b(2,1)] by (simp add: parseBackupURL_def)
qed

theorem parse_backup_url_splits_witness:
  "parseBackupURL ''s3://mybucket/foo/bar.mkv?endpoint=my.minio.local:8080&disableSSL=true'' =
     Inr (''s3://mybucket?endpoint=my.minio.local:8080&disableSSL=true'', ''/foo/bar.mkv'')"
proof -
  have "url_scheme ''s3''" "list_all host_char ''mybucket''" "list_all path_char ''/foo/bar.mkv''"
    "list_all query_char ''endpoint=my.minio.local:8080&disableSSL=true''"
    by code_simp+
  then show ?thesis
    using parse_backup_url_splits [of "''s3''" "''mybucket''" "''foo/bar.mkv''"
        "Some ''endpoint=my.minio.local:8080&disableSSL=true''"]
    by (simp add: object_url_def url_query_def)
qed

section \<open>A store in memory\<close>

record store =
  objects_of :: "((string \<times> string) \<times> bytes) list"
  pending_of :: "((string \<times> string) \<times> bytes) list"

definition empty_store :: store where
  "empty_store = \<lparr>objects_of = [], pending_of = []\<rparr>"

definition pending_at :: "'a store_scheme \<Rightarrow> string \<times> string \<Rightarrow> bytes" where
  "pending_at w u = (case map_of (pending_of w) u of None \<Rightarrow> [] | Some d \<Rightarrow> d)"

definition mem_blob :: "('a store_scheme, string, string \<times> string, string \<times> string) blob" where
  "mem_blob =
     \<lparr>OpenBucket = (\<lambda>n w. (if n = [] then Inl ''no bucket'' else Inr n, w)),
      NewWriter = (\<lambda>b p w. (Inr (b, p), w\<lparr>pending_of := AList.update (b, p) [] (pending_of w)\<rparr>)),
      Writer_Write = (\<lambda>u d w.
        (Inr (length d), w\<lparr>pending_of := AList.update u (pending_at w u @ d) (pending_of w)\<rparr>)),
      Writer_Close = (\<lambda>u w. (None, w\<lparr>objects_of := AList.update u (pending_at w u) (objects_of w)\<rparr>)),
      NewReader = (\<lambda>b p w. (Inr (b, p), w)),
      Reader_ReadAll = (\<lambda>r w. (case map_of (objects_of w) r of None \<Rightarrow> Inl ''not found'' | Some d \<Rightarrow> Inr d, w)),
      Reader_Close = (\<lambda>r w. (None, w))\<rparr>"

lemma mem_blob_ok: "blob_ok mem_blob id id id pending_at (\<lambda>w. map_of (objects_of w))"
  by (auto simp: blob_ok_def mem_blob_def pending_at_def split: option.splits if_splits)

section \<open>Uploads and downloads\<close>

text \<open>An upload is reported as done exactly when the URL could be parsed and the bucket opened, and the
  writer was created, took the whole backup and was closed, each without an error; in particular an
  error of the deferred close is not lost.\<close>

lemma upload_done_iff:
  "snd (fst (run_state (Upload bl req) w)) = None \<longleftrightarrow>
     (\<exists>n p b u k w1 w2 w3 w4.
        parseBackupURL (ur_BackupUrl req) = Inr (n, p) \<and> OpenBucket bl n w = (Inr b, w1) \<and>
        NewWriter bl b p w1 = (Inr u, w2) \<and> Writer_Write bl u (ur_Backup req) w2 = (Inr k, w3) \<and>
        Writer_Close bl u w3 = (None, w4) \<and> snd (run_state (Upload bl req) w) = w4)"
  by (rule Upload_success)

text \<open>What was uploaded is what is downloaded: after an upload that reported no error, as long as the
  stored objects stay as they are, a download of the same URL delivers exactly the uploaded backup,
  unless the store itself fails; it never fails to understand the URL and never delivers other bytes.\<close>

lemma upload_download_roundtrip:
  assumes ok: "blob_ok bl name target source pending stored"
    and up: "run_state (Upload bl \<lparr>ur_BackupUrl = url, ur_Backup = d\<rparr>) w = ((response, None), w1)"
    and kept: "stored w2 = stored w1"
  shows "fst (run_state (Download bl \<lparr>dr_BackupUrl = url\<rparr>) w2) = (Some \<lparr>dns_Backup = d\<rparr>, None) \<or>
    (\<exists>err. \<exists>message \<in> {''failed to open bucket'', ''failed to create blob reader'', ''failed to read blob''}.
       fst (run_state (Download bl \<lparr>dr_BackupUrl = url\<rparr>) w2) = (None, Some (loggedError err message)))"
proof -
  obtain loc where "parseBackupURL url = Inr loc" "stored w1 loc = Some d"
    using Upload_stored [OF ok, of "\<lparr>ur_BackupUrl = url, ur_Backup = d\<rparr>" w] up by auto
  with kept show ?thesis by (intro Download_result [OF ok]) simp_all
qed

end
