(* ===== verification/AgentProps.thy ===== *)
theory AgentProps
  imports Agents ProxyProps
begin

text \<open>
  The agents end to end: a backup that was taken and reported as finished is the one a restore
  feeds to etcd.
\<close>

section \<open>What the platform promises\<close>

text \<open>
  \<open>contents\<close> says what a file holds and \<open>path\<close> which file a handle stands for. A successful save
  leaves a snapshot in the file; reading delivers the contents of the file; a created file is empty
  and, after a copy and a flush without errors, holds what was copied; a remote call that succeeds
  has run the proxy's method; dialling and closing leave the store alone.
\<close>

definition platform_ok ::
    "('w, 'f, 'c) platform \<Rightarrow> ('w, 'b, 'u, 'd) blob \<Rightarrow> ('f \<Rightarrow> string) \<Rightarrow> ('w \<Rightarrow> string \<Rightarrow> bytes option) \<Rightarrow>
     ('w \<Rightarrow> string \<times> string \<Rightarrow> bytes option) \<Rightarrow> bool" where
  "platform_ok pf bl path contents stored \<longleftrightarrow>
     (\<forall>es t p w w'. snapshot_Save pf es t p w = (None, w') \<longrightarrow> contents w' p \<noteq> None) \<and>
     (\<forall>p w f w'. os_Open pf p w = (Inr f, w') \<longrightarrow> path f = p \<and> contents w' = contents w) \<and>
     (\<forall>f w x w'. file_ReadAll pf f w = (Inr x, w') \<longrightarrow> contents w (path f) = Some x) \<and>
     (\<forall>f w. stored (snd (file_Close pf f w)) = stored w) \<and>
     (\<forall>p w f w'. os_Create pf p w = (Inr f, w') \<longrightarrow> path f = p \<and> contents w' p = Some []) \<and>
     (\<forall>f x y w w1 w2. contents w (path f) = Some y \<longrightarrow> file_Copy pf f x w = (None, w1) \<longrightarrow>
        file_Flush pf f w1 = (None, w2) \<longrightarrow> contents w2 (path f) = Some (y @ x)) \<and>
     (\<forall>url w. stored (snd (grpc_Dial pf url w)) = stored w) \<and>
     (\<forall>c req w x w'. conn_Upload pf c req w = (Inr x, w') \<longrightarrow>
        run_state (Upload bl req) w = ((Some x, None), w')) \<and>
     (\<forall>c req w x w'. conn_Download pf c req w = (Inr x, w') \<longrightarrow>
        run_state (Download bl req) w = ((Some x, None), w'))"

lemma platform_okD:
  assumes "platform_ok pf bl path contents stored"
  shows "snapshot_Save pf es t p w = (None, w') \<Longrightarrow> contents w' p \<noteq> None"
    and "os_Open pf p w = (Inr f, w') \<Longrightarrow> path f = p \<and> contents w' = contents w"
    and "file_ReadAll pf f w = (Inr x, w') \<Longrightarrow> contents w (path f) = Some x"
    and "stored (snd (file_Close pf f w)) = stored w"
    and "os_Create pf p w = (Inr f, w') \<Longrightarrow> path f = p \<and> contents w' p = Some []"
    and "stored (snd (grpc_Dial pf url w)) = stored w"
    and "conn_Upload pf c ureq w = (Inr u, w') \<Longrightarrow> run_state (Upload bl ureq) w = ((Some u, None), w')"
    and "conn_Download pf c dreq w = (Inr v, w') \<Longrightarrow> run_state (Download bl dreq) w = ((Some v, None), w')"
  using assms unfolding platform_ok_def by simp_all

lemma platform_ok_copy:
  assumes "platform_ok pf bl path contents stored" "contents w (path f) = Some y"
    "file_Copy pf f x w = (None, w1)" "file_Flush pf f w1 = (None, w2)"
  shows "contents w2 (path f) = Some (y @ x)"
  using assms unfolding platform_ok_def by blast

section \<open>Agents that finish\<close>

lemma or_panic_Finished:
  "run_state (or_panic err message k) w = (Finished, w') \<longleftrightarrow> err = None \<and> run_state k w = (Finished, w')"
  by (cases err) (simp_all add: or_panic_def)

lemma got_or_panic_Finished:
  "run_state (got_or_panic r message k) w = (Finished, w') \<longleftrightarrow>
     (\<exists>x. r = Inr x \<and> run_state (k x) w = (Finished, w'))"
  by (cases r) (simp_all add: got_or_panic_def)

lemma run_bind_State:
  "run_state (State_Monad.bind (State f) g) w = (x, w') \<longleftrightarrow>
     (\<exists>a w1. f w = (a, w1) \<and> run_state (g a) w1 = (x, w'))"
  by (auto split: prod.splits)

lemma run_deferred:
  "run_state (State_Monad.bind m (\<lambda>out. State_Monad.bind (State g) (\<lambda>_. State_Monad.return out))) w = (x, w') \<longleftrightarrow>
     (\<exists>w1. run_state m w = (x, w1) \<and> w' = snd (g w1))"
  by (auto split: prod.splits)

lemmas agent_steps = or_panic_Finished got_or_panic_Finished run_bind_State run_deferred

lemma backup_agent_Finished:
  assumes "run_state (backup_agent pf flags) w = (Finished, w')"
  obtains ws wo f wr x wd conn wu u where
    "snapshot_Save pf [etcdURL flags] (second * etcdDialTimeoutSeconds flags) (snapshot_path (backupTempDir flags)) w = (None, ws)"
    "os_Open pf (snapshot_path (backupTempDir flags)) ws = (Inr f, wo)" "file_ReadAll pf f wo = (Inr x, wr)"
    "grpc_Dial pf (bf_proxyURL flags) wr = (Inr conn, wd)"
    "conn_Upload pf conn \<lparr>ur_BackupUrl = bf_backupURL flags, ur_Backup = x\<rparr> wd = (Inr u, wu)"
    "w' = snd (file_Close pf f wu)"
proof -
  from assms obtain ws f wo out wu where steps:
    "snapshot_Save pf [etcdURL flags] (second * etcdDialTimeoutSeconds flags) (snapshot_path (backupTempDir flags)) w = (None, ws)"
    "os_Open pf (snapshot_path (backupTempDir flags)) ws = (Inr f, wo)"
    and up: "run_state (backup_upload pf flags f) wo = (Finished, wu)" "w' = snd (file_Close pf f wu)"
    by (auto simp: backup_agent_def Let_def agent_steps simp del: run_state_bind split: if_splits)
  from up(1) show thesis
    by (auto simp: backup_upload_def agent_steps simp del: run_state_bind intro: that [OF steps _ _ _ up(2)])
qed

text \<open>An agent that finished a backup has left the snapshot it saved in the store.\<close>

lemma backup_agent_stored:
  assumes ok: "blob_ok bl name target source pending stored" "platform_ok pf bl path contents stored"
    and run: "run_state (backup_agent pf flags) w = (Finished, w')"
  obtains ws snap loc where
    "snapshot_Save pf [etcdURL flags] (second * etcdDialTimeoutSeconds flags) (snapshot_path (backupTempDir flags)) w = (None, ws)"
    "contents ws (snapshot_path (backupTempDir flags)) = Some snap"
    "parseBackupURL (bf_backupURL flags) = Inr loc" "stored w' loc = Some snap"
  using run
proof (rule backup_agent_Finished)
  fix ws wo f wr x wd conn wu u
  assume save: "snapshot_Save pf [etcdURL flags] (second * etcdDialTimeoutSeconds flags) (snapshot_path (backupTempDir flags)) w = (None, ws)"
    and io: "os_Open pf (snapshot_path (backupTempDir flags)) ws = (Inr f, wo)" "file_ReadAll pf f wo = (Inr x, wr)"
    and up: "conn_Upload pf conn \<lparr>ur_BackupUrl = bf_backupURL flags, ur_Backup = x\<rparr> wd = (Inr u, wu)"
    and w': "w' = snd (file_Close pf f wu)"
  note p = platform_okD [OF ok(2)]
  have snap: "contents ws (snapshot_path (backupTempDir flags)) = Some x" using p(2) [OF io(1)] p(3) [OF io(2)] by simp
  obtain loc where "parseBackupURL (bf_backupURL flags) = Inr loc" "stored wu loc = Some x"
    using Upload_stored [OF ok(1), of "\<lparr>ur_BackupUrl = bf_backupURL flags, ur_Backup = x\<rparr>" wd] p(7) [OF up] by auto
  then show thesis using that [OF save snap] p(4) [of f wu] w' by simp
qed

lemma restore_agent_Finished:
  assumes "run_state (restore_agent pf flags) w = (Finished, w')"
  obtains conn wd x wl wc f wf wy wr wo where "grpc_Dial pf (rf_proxyURL flags) w = (Inr conn, wd)"
    "conn_Download pf conn \<lparr>dr_BackupUrl = rf_backupURL flags\<rparr> wd = (Inr x, wl)"
    "os_Create pf (snapshot_path (rf_snapshotDir flags)) wc = (Inr f, wf)"
    "file_Copy pf f (dns_Backup x) wf = (None, wy)" "file_Flush pf f wy = (None, wr)"
    "snapshot_Restore pf (restoreConfig flags) wr = (None, wo)"
    "dir_Copy pf (restoreDir flags) (etcdDataDir flags) wo = (None, w')"
  using assms
  by (auto simp: restore_agent_def save_snapshot_def restore_data_def agent_steps simp del: run_state_bind
      split: if_splits)

lemma Download_delivers:
  assumes "blob_ok bl name target source pending stored" "run_state (Download bl req) w = ((Some x, None), w')"
    "parseBackupURL (dr_BackupUrl req) = Inr loc" "stored w loc = Some d"
  shows "dns_Backup x = d"
  using Download_result [OF assms(1,3,4)] assms(2) by auto

section \<open>The proxy's address\<close>

text \<open>The address handed to the agents has a port, and an address that has one is left alone.\<close>

lemma proxyAddress_port:
  "CHR '':'' \<in> set (proxyAddress u)" "CHR '':'' \<in> set u \<Longrightarrow> proxyAddress u = u"
  by (simp_all add: proxyAddress_def)

section \<open>A platform in memory\<close>

record machine = store +
  files_of :: "(string \<times> bytes) list"
  database :: bytes

definition mem_platform :: "(machine, string, unit) platform" where
  "mem_platform =
     \<lparr>snapshot_Save = (\<lambda>es t p w. (None, w\<lparr>files_of := AList.update p (database w) (files_of w)\<rparr>)),
      snapshot_Restore = (\<lambda>cfg w.
        (case map_of (files_of w) (SnapshotPath cfg) of
           None \<Rightarrow> (Some ''no snapshot'', w)
         | Some x \<Rightarrow> (None, w\<lparr>database := x\<rparr>))),
      os_Open = (\<lambda>p w. (case map_of (files_of w) p of None \<Rightarrow> Inl ''not found'' | Some _ \<Rightarrow> Inr p, w)),
      os_Create = (\<lambda>p w. (Inr p, w\<lparr>files_of := AList.update p [] (files_of w)\<rparr>)),
      file_ReadAll = (\<lambda>f w. (case map_of (files_of w) f of None \<Rightarrow> Inl ''not found'' | Some x \<Rightarrow> Inr x, w)),
      file_Copy = (\<lambda>f x w.
        (case map_of (files_of w) f of
           None \<Rightarrow> (Some ''not found'', w)
         | Some y \<Rightarrow> (None, w\<lparr>files_of := AList.update f (y @ x) (files_of w)\<rparr>))),
      file_Flush = (\<lambda>f w. (None, w)),
      file_Close = (\<lambda>f w. (None, w)),
      grpc_Dial = (\<lambda>url w. (if url = [] then Inl ''no address'' else Inr (), w)),
      conn_Upload = (\<lambda>c req w.
        (case run_state (Upload mem_blob req) w of
           ((Some x, None), w') \<Rightarrow> (Inr x, w')
         | (_, w') \<Rightarrow> (Inl ''rpc error'', w'))),
      conn_Download = (\<lambda>c req w.
        (case run_state (Download mem_blob req) w of
           ((Some x, None), w') \<Rightarrow> (Inr x, w')
         | (_, w') \<Rightarrow> (Inl ''rpc error'', w'))),
      conn_Close = (\<lambda>c w. (None, w)),
      dir_Copy = (\<lambda>from to w. (None, w))\<rparr>"

lemma mem_platform_ok:
  "platform_ok mem_platform mem_blob id (\<lambda>w. map_of (files_of w)) (\<lambda>w. map_of (objects_of w))"
  unfolding platform_ok_def
  by (intro conjI; simp add: mem_platform_def split: option.splits prod.splits; fastforce?)

definition sample_machine :: machine where
  "sample_machine = \<lparr>objects_of = [], pending_of = [], files_of = [], database = [7, 8]\<rparr>"

definition sample_backup_flags :: backup_flags where
  "sample_backup_flags =
     \<lparr>bf_proxyURL = ''proxy:80'', backupTempDir = ''/tmp'', bf_backupURL = ''gs://b/o'',
      etcdURL = ''http://c:2379'', etcdDialTimeoutSeconds = 5, bf_printVersion = False\<rparr>"

definition sample_restore_flags :: restore_flags where
  "sample_restore_flags =
     \<lparr>etcdPeerName = ''c-0'', etcdClusterName = ''c'', etcdInitialCluster = ''c-0=http://c-0.c:2380'',
      etcdAdvertiseURL = ''http://c-0.c:2380'', etcdDataDir = ''/var/lib/etcd'', rf_snapshotDir = ''/tmp/snapshot'',
      rf_proxyURL = ''proxy:80'', rf_backupURL = ''gs://b/o'', rf_printVersion = False\<rparr>"

section \<open>Backup and restore\<close>

text \<open>C26: a backup can be restored: when the backup agent has finished, and as long as the stored objects stay
  as they are, a restore agent that finishes for the same backup URL has run etcd's restore on a
  file with exactly the contents of the snapshot that the backup agent saved, under the name, the
  peer URL, the initial cluster and the cluster name of its flags, and has copied the directory it
  restored into to the data directory.\<close>

theorem restore_of_backup:
  assumes ok: "blob_ok bl name target source pending stored" "platform_ok pf bl path contents stored"
    and backup: "run_state (backup_agent pf bf) w = (Finished, w1)"
    and kept: "stored w2 = stored w1"
    and restore: "run_state (restore_agent pf rf) w2 = (Finished, w3)" "rf_backupURL rf = bf_backupURL bf"
  shows "\<exists>ws snap wr wo.
     snapshot_Save pf [etcdURL bf] (second * etcdDialTimeoutSeconds bf) (snapshot_path (backupTempDir bf)) w = (None, ws) \<and>
     contents ws (snapshot_path (backupTempDir bf)) = Some snap \<and>
     contents wr (SnapshotPath (restoreConfig rf)) = Some snap \<and>
     snapshot_Restore pf (restoreConfig rf) wr = (None, wo) \<and>
     rcf_Name (restoreConfig rf) = etcdPeerName rf \<and> rcf_PeerURLs (restoreConfig rf) = [etcdAdvertiseURL rf] \<and>
     rcf_InitialCluster (restoreConfig rf) = etcdInitialCluster rf \<and>
     InitialClusterToken (restoreConfig rf) = etcdClusterName rf \<and> OutputDataDir (restoreConfig rf) = restoreDir rf \<and>
     dir_Copy pf (restoreDir rf) (etcdDataDir rf) wo = (None, w3)"
proof -
  obtain ws snap loc where b:
    "snapshot_Save pf [etcdURL bf] (second * etcdDialTimeoutSeconds bf) (snapshot_path (backupTempDir bf)) w = (None, ws)"
    "contents ws (snapshot_path (backupTempDir bf)) = Some snap"
    "parseBackupURL (bf_backupURL bf) = Inr loc" "stored w1 loc = Some snap"
    by (rule backup_agent_stored [OF ok backup])
  obtain conn wd x wl wc f wf wy wr wo where r: "grpc_Dial pf (rf_proxyURL rf) w2 = (Inr conn, wd)"
    "conn_Download pf conn \<lparr>dr_BackupUrl = rf_backupURL rf\<rparr> wd = (Inr x, wl)"
    "os_Create pf (snapshot_path (rf_snapshotDir rf)) wc = (Inr f, wf)"
    "file_Copy pf f (dns_Backup x) wf = (None, wy)" "file_Flush pf f wy = (None, wr)"
    "snapshot_Restore pf (restoreConfig rf) wr = (None, wo)"
    "dir_Copy pf (restoreDir rf) (etcdDataDir rf) wo = (None, w3)"
    by (rule restore_agent_Finished [OF restore(1)])
  note p = platform_okD [OF ok(2)]
  have "stored wd = stored w1" using p(6) [of "rf_proxyURL rf" w2] r(1) kept by simp
  then have "dns_Backup x = snap"
    using Download_delivers [OF ok(1) p(8) [OF r(2)]] b(3,4) restore(2) by simp
  moreover have "path f = SnapshotPath (restoreConfig rf)" "contents wf (path f) = Some []"
    using p(5) [OF r(3)] by (simp_all add: restoreConfig_def)
  ultimately have "contents wr (SnapshotPath (restoreConfig rf)) = Some snap"
    using platform_ok_copy [OF ok(2) _ r(4,5)] by simp
  moreover have "rcf_Name (restoreConfig rf) = etcdPeerName rf" "rcf_PeerURLs (restoreConfig rf) = [etcdAdvertiseURL rf]"
    "rcf_InitialCluster (restoreConfig rf) = etcdInitialCluster rf" "InitialClusterToken (restoreConfig rf) = etcdClusterName rf"
    "OutputDataDir (restoreConfig rf) = restoreDir rf" by (simp_all add: restoreConfig_def)
  ultimately show ?thesis using b(1,2) r(6,7) by blast
qed

theorem restore_of_backup_witness:
  "\<exists>w1 w3 snap wr wo.
     run_state (backup_agent mem_platform sample_backup_flags) sample_machine = (Finished, w1) \<and>
     run_state (restore_agent mem_platform sample_restore_flags) (w1\<lparr>database := []\<rparr>) = (Finished, w3) \<and>
     map_of (files_of wr) ''/tmp/snapshot/snapshot.db'' = Some snap \<and>
     snapshot_Restore mem_platform (restoreConfig sample_restore_flags) wr = (None, wo)"
proof -
  let ?b = "run_state (backup_agent mem_platform sample_backup_flags) sample_machine"
  let ?r = "run_state (restore_agent mem_platform sample_restore_flags) ((snd ?b)\<lparr>database := []\<rparr>)"
  have fin: "fst ?b = Finished" "fst ?r = Finished" by code_simp+
  then have runs: "?b = (Finished, snd ?b)" "?r = (Finished, snd ?r)" by (metis prod.collapse)+
  have url: "rf_backupURL sample_restore_flags = bf_backupURL sample_backup_flags"
    "SnapshotPath (restoreConfig sample_restore_flags) = ''/tmp/snapshot/snapshot.db''"
    by code_simp+
  have "\<exists>snap wr wo. map_of (files_of wr) ''/tmp/snapshot/snapshot.db'' = Some snap \<and>
     snapshot_Restore mem_platform (restoreConfig sample_restore_flags) wr = (None, wo)"
    using restore_of_backup [OF mem_blob_ok mem_platform_ok runs(1) _ runs(2) url(1)] url(2) by auto
  then show ?thesis using runs by blast
qed

end
