(* ===== verification/Manager.thy ===== *)
theory Manager
  imports BackupController ScheduleController RestoreController Agents
begin

text \<open>
  The operator's entry point (\<open>main.go\<close>), the registration of its controllers (the
  \<open>SetupWithManager\<close> functions in \<open>controllers/\<close>) and webhooks (\<open>webhooks/etcdcluster.go\<close>) with the
  manager, the permissions its sources declare, and the entry point of the proxy
  (\<open>cmd/proxy/main.go\<close>). The manager of \<open>controller-runtime\<close>, the cron library and the gRPC
  library are outside the sources: their answers are parameters, and a start-up is the sequence of
  the calls it makes to them.
\<close>

section \<open>Kinds of objects\<close>

datatype kind =
    KCluster | KPeer | KBackup | KBackupSchedule | KRestore
  | KService | KPVC | KReplicaSet | KPod | KServiceAccount

fun object_kind :: "object \<Rightarrow> kind" where
  "object_kind (OCluster _) = KCluster"
| "object_kind (OPeer _) = KPeer"
| "object_kind (OBackup _) = KBackup"
| "object_kind (OBackupSchedule _) = KBackupSchedule"
| "object_kind (ORestore _) = KRestore"
| "object_kind (OService _) = KService"
| "object_kind (OPVC _) = KPVC"
| "object_kind (OReplicaSet _) = KReplicaSet"
| "object_kind (OPod _) = KPod"
| "object_kind (OServiceAccount _) = KServiceAccount"

text \<open>The name of a kind in owner references.\<close>

fun kind_name :: "kind \<Rightarrow> string" where
  "kind_name KCluster = ''EtcdCluster''"
| "kind_name KPeer = ''EtcdPeer''"
| "kind_name KBackup = ''EtcdBackup''"
| "kind_name KBackupSchedule = ''EtcdBackupSchedule''"
| "kind_name KRestore = ''EtcdRestore''"
| "kind_name KService = ''Service''"
| "kind_name KPVC = ''PersistentVolumeClaim''"
| "kind_name KReplicaSet = ''ReplicaSet''"
| "kind_name KPod = ''Pod''"
| "kind_name KServiceAccount = ''ServiceAccount''"

section \<open>Registrations\<close>

text \<open>
  What a controller is built from: the kind it is for, the kinds it owns, and the kinds it watches
  with the function that maps a changed object to requests.
\<close>

datatype source =
    Owns kind
  | Watches kind "ObjectMeta \<Rightarrow> NamespacedName list"

record controller =
  ctl_For :: kind
  ctl_Sources :: "source list"

text \<open>The reconcilers with their settings.\<close>

datatype reconciler =
    PeerReconciler string
  | ClusterReconciler
  | BackupReconciler EtcdBackupReconciler
  | BackupScheduleReconciler
  | RestoreReconciler EtcdRestoreReconciler

datatype registration =
    IndexField kind string "object \<Rightarrow> string list"
  | Controller controller reconciler
  | Webhook kind

record manager_options =
  MetricsBindAddress :: string
  LeaderElection :: bool
  LeaderElectionID :: string
  Port :: nat

text \<open>The calls of a start-up with their answers, and the calls of the proxy.\<close>

datatype startup_call =
    PrintVersion
  | GetConfigOrDie "string option"
  | NewManager manager_options "string option"
  | Register registration "string option"
  | CronStart
  | ManagerStart "string option"
  | CronStop
  | Listen string "string option"
  | RegisterProxyService
  | Serve "string option"

record 'm platform_manager =
  pm_GetConfig :: "'m \<Rightarrow> string option \<times> 'm"
  pm_NewManager :: "manager_options \<Rightarrow> 'm \<Rightarrow> string option \<times> 'm"
  pm_Register :: "registration \<Rightarrow> 'm \<Rightarrow> string option \<times> 'm"
  pm_Start :: "'m \<Rightarrow> string option \<times> 'm"
  pm_Listen :: "string \<Rightarrow> 'm \<Rightarrow> string option \<times> 'm"
  pm_Serve :: "'m \<Rightarrow> string option \<times> 'm"

type_synonym ('m, 'a) startup = "('m \<times> startup_call list, 'a) state"

definition ask :: "(string option \<Rightarrow> startup_call) \<Rightarrow> ('m \<Rightarrow> string option \<times> 'm) \<Rightarrow> ('m, string option) startup" where
  "ask log f = State (\<lambda>(m, tr). case f m of (err, m') \<Rightarrow> (err, (m', tr @ [log err])))"

definition tell :: "startup_call \<Rightarrow> ('m, unit) startup" where
  "tell c = State (\<lambda>(m, tr). ((), (m, tr @ [c])))"

definition register :: "'m platform_manager \<Rightarrow> registration \<Rightarrow> ('m, string option) startup" where
  "register pm r = ask (Register r) (pm_Register pm r)"

section \<open>Setting up the controllers\<close>

definition peerController :: controller where
  "peerController = \<lparr>ctl_For = KPeer, ctl_Sources = [Owns KReplicaSet, Watches KPVC pvcMapper_Map]\<rparr>"

definition Peer_SetupWithManager :: "'m platform_manager \<Rightarrow> string \<Rightarrow> ('m, string option) startup" where
  "Peer_SetupWithManager pm etcdRepository = register pm (Controller peerController (PeerReconciler etcdRepository))"

definition clusterNameSpecField :: string where "clusterNameSpecField = ''spec.clusterName''"

fun indexClusterName :: "object \<Rightarrow> string list" where
  "indexClusterName (OPeer peer) = [ps_ClusterName (peer_spec peer)]"
| "indexClusterName _ = []"

definition clusterController :: controller where
  "clusterController = \<lparr>ctl_For = KCluster, ctl_Sources = [Owns KService, Owns KPeer]\<rparr>"

definition Cluster_SetupWithManager :: "'m platform_manager \<Rightarrow> ('m, string option) startup" where
  "Cluster_SetupWithManager pm = do {
     err \<leftarrow> register pm (IndexField KPeer clusterNameSpecField indexClusterName);
     case err of
       Some e \<Rightarrow> State_Monad.return (Some e)
     | None \<Rightarrow> register pm (Controller clusterController ClusterReconciler)
   }"

definition backupController :: controller where
  "backupController = \<lparr>ctl_For = KBackup, ctl_Sources = [Owns KServiceAccount, Owns KPod]\<rparr>"

definition Backup_SetupWithManager :: "'m platform_manager \<Rightarrow> EtcdBackupReconciler \<Rightarrow> ('m, string option) startup" where
  "Backup_SetupWithManager pm r = register pm (Controller backupController (BackupReconciler r))"

definition scheduleController :: controller where
  "scheduleController = \<lparr>ctl_For = KBackupSchedule, ctl_Sources = []\<rparr>"

definition Schedule_SetupWithManager :: "'m platform_manager \<Rightarrow> ('m, string option) startup" where
  "Schedule_SetupWithManager pm = register pm (Controller scheduleController BackupScheduleReconciler)"

definition restoreController :: controller where
  "restoreController =
     \<lparr>ctl_For = KRestore,
      ctl_Sources = [Owns KPod, Watches KPVC restoredFromMapper_Map, Watches KCluster restoredFromMapper_Map]\<rparr>"

definition Restore_SetupWithManager :: "'m platform_manager \<Rightarrow> EtcdRestoreReconciler \<Rightarrow> ('m, string option) startup" where
  "Restore_SetupWithManager pm r = register pm (Controller restoreController (RestoreReconciler r))"

definition EtcdCluster_webhook_SetupWithManager :: "'m platform_manager \<Rightarrow> ('m, string option) startup" where
  "EtcdCluster_webhook_SetupWithManager pm = register pm (Webhook KCluster)"

definition EtcdPeer_webhook_SetupWithManager :: "'m platform_manager \<Rightarrow> ('m, string option) startup" where
  "EtcdPeer_webhook_SetupWithManager pm = register pm (Webhook KPeer)"

section \<open>The operator's main function\<close>

text \<open>How a process ends: \<open>main\<close> returns, or \<open>os.Exit\<close> is called, which runs no deferred function.\<close>

datatype ending = Returned | Exited int

record operator_flags =
  of_metricsAddr :: string
  of_enableLeaderElection :: bool
  of_leaderElectionID :: string
  of_etcdRepository :: string
  of_backupAgentImage :: string
  of_restoreAgentImage :: string
  of_proxyURL :: string
  of_printVersion :: bool

definition defaultFlags :: operator_flags where
  "defaultFlags =
     \<lparr>of_metricsAddr = '':8080'', of_enableLeaderElection = False,
      of_leaderElectionID = ''etcd-cluster-operator-controller-leader-election-helper'',
      of_etcdRepository = ''quay.io/coreos/etcd'', of_backupAgentImage = ''REPLACE_ME'',
      of_restoreAgentImage = ''REPLACE_ME'', of_proxyURL = [], of_printVersion = False\<rparr>"

text \<open>The shape of every step of the set-up: an error is logged and ends the process with status 1.\<close>

definition or_exit :: "('m, string option) startup \<Rightarrow> ('m, ending) startup \<Rightarrow> ('m, ending) startup" where
  "or_exit m k = do {
     err \<leftarrow> m;
     case err of Some _ \<Rightarrow> State_Monad.return (Exited 1) | None \<Rightarrow> k
   }"

text \<open>
  From the webhooks on: unless they are disabled by the environment, then the cron handler and the
  manager are started; the cron handler is stopped by a deferred function.
\<close>

definition start_operator :: "'m platform_manager \<Rightarrow> ('m, ending) startup" where
  "start_operator pm = do {
     tell CronStart;
     or_exit (ask ManagerStart (pm_Start pm)) (do { tell CronStop; State_Monad.return Returned })
   }"

text \<open>\<open>ctrl.GetConfigOrDie\<close>, which looks for the address and credentials of the API server, ends the process itself.\<close>

definition operator_main :: "'m platform_manager \<Rightarrow> operator_flags \<Rightarrow> string \<Rightarrow> ('m, ending) startup" where
  "operator_main pm flags disableWebhooks =
     (if of_printVersion flags then do { tell PrintVersion; State_Monad.return Returned }
      else
        (let proxyURL = proxyAddress (of_proxyURL flags);
             options = \<lparr>MetricsBindAddress = of_metricsAddr flags, LeaderElection = of_enableLeaderElection flags,
                        LeaderElectionID = of_leaderElectionID flags, Port = 9443\<rparr>
         in or_exit (ask GetConfigOrDie (pm_GetConfig pm))
           (or_exit (ask (NewManager options) (pm_NewManager pm options))
           (or_exit (Peer_SetupWithManager pm (of_etcdRepository flags))
           (or_exit (Cluster_SetupWithManager pm)
           (or_exit (Backup_SetupWithManager pm
                      \<lparr>BackupAgentImage = of_backupAgentImage flags, bk_ProxyURL = proxyURL\<rparr>)
           (or_exit (Schedule_SetupWithManager pm)
           (or_exit (Restore_SetupWithManager pm
                      \<lparr>RestorePodImage = of_restoreAgentImage flags, rr_ProxyURL = proxyURL\<rparr>)
           (if disableWebhooks \<noteq> [] then start_operator pm
            else
              or_exit (EtcdCluster_webhook_SetupWithManager pm)
              (or_exit (EtcdPeer_webhook_SetupWithManager pm) (start_operator pm)))))))))))"

section \<open>The proxy's main function\<close>

record proxy_flags =
  px_printVersion :: bool
  px_apiPort :: int

definition proxy_main :: "'m platform_manager \<Rightarrow> proxy_flags \<Rightarrow> ('m, ending) startup" where
  "proxy_main pm flags =
     (if px_printVersion flags then do { tell PrintVersion; State_Monad.return (Exited 0) }
      else
        (let grpcAddress = '':'' @ decimal_int (px_apiPort flags)
         in or_exit (ask (Listen grpcAddress) (pm_Listen pm grpcAddress))
           (do {
              tell RegisterProxyService;
              or_exit (ask Serve (pm_Serve pm)) (State_Monad.return Returned)
            })))"

section \<open>Permissions\<close>

text \<open>
  The permissions that the sources declare next to each handler: group, resource and verbs. The
  operator's role is their union.
\<close>

datatype verb = get_v | list_v | watch_v | create_v | update_v | patch_v | delete_v

type_synonym rule = "string \<times> string \<times> verb list"

definition etcdGroup :: string where "etcdGroup = ''etcd.improbable.io''"

definition peerRules :: "rule list" where
  "peerRules =
     [(etcdGroup, ''etcdpeers'', [get_v, list_v, watch_v, patch_v]),
      (etcdGroup, ''etcdpeers/status'', [get_v, update_v, patch_v]),
      (''apps'', ''replicasets'', [list_v, get_v, create_v, watch_v]),
      (''core'', ''persistentvolumeclaims'', [list_v, get_v, create_v, watch_v, delete_v])]"

definition clusterRules :: "rule list" where
  "clusterRules =
     [(etcdGroup, ''etcdclusters'', [get_v, list_v, watch_v]),
      (etcdGroup, ''etcdclusters/status'', [get_v, update_v, patch_v]),
      (''core'', ''services'', [get_v, list_v, watch_v, create_v]),
      (etcdGroup, ''etcdpeers'', [get_v, list_v, watch_v, create_v, delete_v, patch_v]),
      (''core'', ''events'', [create_v, patch_v])]"

definition scheduleRules :: "rule list" where
  "scheduleRules =
     [(etcdGroup, ''etcdbackupschedules'', [get_v, list_v, watch_v, create_v, update_v, patch_v, delete_v]),
      (etcdGroup, ''etcdbackupschedules/status'', [get_v, update_v, patch_v]),
      (etcdGroup, ''etcdbackups'', [create_v])]"

definition restoreRules :: "rule list" where
  "restoreRules =
     [(etcdGroup, ''etcdrestores'', [get_v, list_v, watch_v]),
      (etcdGroup, ''etcdclusters'', [get_v, list_v, watch_v, create_v, patch_v]),
      (etcdGroup, ''etcdrestores/status'', [get_v, update_v, patch_v]),
      (''core'', ''persistantvolumeclaims/status'', [get_v, watch_v, update_v, patch_v, create_v]),
      (''core'', ''pods'', [get_v, watch_v, list_v, create_v])]"

definition backupRules :: "rule list" where
  "backupRules =
     [(etcdGroup, ''etcdbackups'', [get_v, list_v, watch_v]),
      (etcdGroup, ''etcdbackups/status'', [get_v, update_v, patch_v]),
      (''core'', ''serviceaccounts'', [get_v, list_v, watch_v, create_v]),
      (''core'', ''pods'', [get_v, list_v, watch_v, create_v])]"

definition managerRole :: "rule list" where
  "managerRole = peerRules @ clusterRules @ scheduleRules @ restoreRules @ backupRules"

definition grants :: "rule list \<Rightarrow> string \<times> string \<times> verb \<Rightarrow> bool" where
  "grants role need = (case need of (g, r, v) \<Rightarrow> list_ex (\<lambda>(g', r', vs). g' = g \<and> r' = r \<and> List.member vs v) role)"

end
