(* ===== verification/ManagerProps.thy ===== *)
theory ManagerProps
  imports Manager ClusterCorrect BackupProps ScheduleProps RestoreProps PeerProps
begin

text \<open>
  The properties of the operator as a whole: every call of every handler is covered by the
  permissions its sources declare, an object that a handler creates wakes the same handler for the
  same resource when it changes, and the operator starts nothing before everything is set up.
\<close>

section \<open>All calls of a handler\<close>

definition uses :: "(call \<Rightarrow> bool) \<Rightarrow> ('w, 'a) io \<Rightarrow> bool" where
  "uses P m \<longleftrightarrow> emits m (\<lambda>_ tr. list_all P tr)"

named_theorems uses_steps \<open>rules that check every call of a handler\<close>

lemma uses_return [uses_steps]: "uses P (State_Monad.return x)"
  by (simp add: uses_def emits_return)

lemma uses_call [uses_steps]: "(\<And>a. P (log a)) \<Longrightarrow> uses P (call log f)"
  by (simp add: uses_def emits_call)

lemma uses_record [uses_steps]: "P (Recorded ev) \<Longrightarrow> uses P (record_event ev)"
  by (simp add: uses_def emits_record_event)

lemma uses_bind [uses_steps]: "uses P m \<Longrightarrow> (\<And>x. uses P (f x)) \<Longrightarrow> uses P (State_Monad.bind m f)"
  unfolding uses_def by (rule emits_bind) (auto intro: emits_mono)

lemma uses_case [uses_steps]:
  "(\<And>a. x = Inl a \<Longrightarrow> uses P (f a)) \<Longrightarrow> (\<And>b. x = Inr b \<Longrightarrow> uses P (g b)) \<Longrightarrow> uses P (case x of Inl a \<Rightarrow> f a | Inr b \<Rightarrow> g b)"
  "(y = None \<Longrightarrow> uses P m) \<Longrightarrow> (\<And>b. y = Some b \<Longrightarrow> uses P (h b)) \<Longrightarrow> uses P (case y of None \<Rightarrow> m | Some b \<Rightarrow> h b)"
  "(z = Panic \<Longrightarrow> uses P m) \<Longrightarrow> (\<And>b. z = Return b \<Longrightarrow> uses P (h' b)) \<Longrightarrow> uses P (case z of Panic \<Rightarrow> m | Return b \<Rightarrow> h' b)"
  "(\<And>a b. p = (a, b) \<Longrightarrow> uses P (k a b)) \<Longrightarrow> uses P (case p of (a, b) \<Rightarrow> k a b)"
  "(c \<Longrightarrow> uses P m) \<Longrightarrow> (\<not> c \<Longrightarrow> uses P n) \<Longrightarrow> uses P (if c then m else n)"
  "uses P (f' v) \<Longrightarrow> uses P (let w = v in f' w)"
  by (auto split: sum.split option.split outcome.split prod.split)

lemma uses_list [uses_steps]:
  "(xs = [] \<Longrightarrow> uses P m) \<Longrightarrow> (\<And>a as. xs = a # as \<Longrightarrow> uses P (k a as)) \<Longrightarrow> uses P (case xs of [] \<Rightarrow> m | a # as \<Rightarrow> k a as)"
  by (cases xs) simp_all

lemma uses_mono: "uses P m \<Longrightarrow> (\<And>x. P x \<Longrightarrow> Q x) \<Longrightarrow> uses Q m"
  unfolding uses_def by (erule emits_mono) (auto simp: list_all_iff)

section \<open>Permissions\<close>

text \<open>
  What a request needs: the client of the manager reads through a cache, which gets, lists and
  watches the kind; writes need their verb on the resource or its status; events are created and
  patched.
\<close>

fun kind_resource :: "kind \<Rightarrow> string \<times> string" where
  "kind_resource KCluster = (etcdGroup, ''etcdclusters'')"
| "kind_resource KPeer = (etcdGroup, ''etcdpeers'')"
| "kind_resource KBackup = (etcdGroup, ''etcdbackups'')"
| "kind_resource KBackupSchedule = (etcdGroup, ''etcdbackupschedules'')"
| "kind_resource KRestore = (etcdGroup, ''etcdrestores'')"
| "kind_resource KService = (''core'', ''services'')"
| "kind_resource KPVC = (''core'', ''persistentvolumeclaims'')"
| "kind_resource KReplicaSet = (''apps'', ''replicasets'')"
| "kind_resource KPod = (''core'', ''pods'')"
| "kind_resource KServiceAccount = (''core'', ''serviceaccounts'')"

definition need :: "verb \<Rightarrow> kind \<Rightarrow> string \<times> string \<times> verb" where
  "need v k = (case kind_resource k of (g, r) \<Rightarrow> (g, r, v))"

definition status_need :: "verb \<Rightarrow> kind \<Rightarrow> string \<times> string \<times> verb" where
  "status_need v k = (case kind_resource k of (g, r) \<Rightarrow> (g, r @ ''/status'', v))"

definition cached :: "kind \<Rightarrow> (string \<times> string \<times> verb) list" where
  "cached k = [need get_v k, need list_v k, need watch_v k]"

fun needs :: "call \<Rightarrow> (string \<times> string \<times> verb) list" where
  "needs (GetCluster _ _) = cached KCluster"
| "needs (GetPeer _ _) = cached KPeer"
| "needs (GetBackup _ _) = cached KBackup"
| "needs (GetBackupSchedule _ _) = cached KBackupSchedule"
| "needs (GetRestore _ _) = cached KRestore"
| "needs (GetService _ _) = cached KService"
| "needs (GetPVC _ _) = cached KPVC"
| "needs (GetReplicaSet _ _) = cached KReplicaSet"
| "needs (GetPod _ _) = cached KPod"
| "needs (GetServiceAccount _ _) = cached KServiceAccount"
| "needs (ListPeers _ _ _) = cached KPeer"
| "needs (Create obj _) = [need create_v (object_kind obj)]"
| "needs (Update obj _) = [need update_v (object_kind obj)]"
| "needs (Delete obj _) = [need delete_v (object_kind obj)]"
| "needs (Patch new _ _) = [need patch_v (object_kind new)]"
| "needs (StatusUpdate obj _) = [status_need update_v (object_kind obj)]"
| "needs (StatusPatch new _ _) = [status_need patch_v (object_kind new)]"
| "needs (Recorded _) = [(''core'', ''events'', create_v), (''core'', ''events'', patch_v)]"
| "needs _ = []"

definition allowed :: "call \<Rightarrow> bool" where
  "allowed x \<longleftrightarrow> list_all (grants managerRole) (needs x)"

lemma granted_reads: "list_all (grants managerRole) (cached k)"
  by (cases k) (simp_all add: cached_def need_def grants_def managerRole_def peerRules_def clusterRules_def scheduleRules_def
      restoreRules_def backupRules_def etcdGroup_def)

lemma granted_writes:
  "list_all (\<lambda>k. grants managerRole (need create_v k)) [KPeer, KService, KPVC, KReplicaSet, KPod, KServiceAccount, KCluster, KBackup]"
  "list_all (\<lambda>k. grants managerRole (need delete_v k)) [KPeer, KPVC]"
  "grants managerRole (need patch_v KPeer)" "grants managerRole (need update_v KBackupSchedule)"
  "grants managerRole (status_need update_v KRestore)"
  "list_all (\<lambda>k. grants managerRole (status_need patch_v k)) [KCluster, KPeer, KBackup]"
  "grants managerRole (''core'', ''events'', create_v)" "grants managerRole (''core'', ''events'', patch_v)"
  by code_simp+

lemma allowed_calls [simp]:
  "allowed (GetCluster k1 a1)" "allowed (GetPeer k2 a2)" "allowed (GetBackup k3 a3)" "allowed (GetBackupSchedule k4 a4)"
  "allowed (GetRestore k5 a5)" "allowed (GetService k6 a6)" "allowed (GetPVC k7 a7)" "allowed (GetReplicaSet k8 a8)"
  "allowed (GetPod k9 a9)" "allowed (GetServiceAccount k10 a10)" "allowed (ListPeers ns n a11)" "allowed (Recorded ev)"
  "allowed (EtcdNew cfg b1)" "allowed (EtcdList cfg b2)" "allowed (EtcdGetVersion cfg b3)" "allowed (EtcdAdd cfg url b4)"
  "allowed (EtcdRemove cfg mid b5)" "allowed (CronAddFunc spec k b6)" "allowed (CronRemove i)"
  "allowed (Create (OPeer p) e)" "allowed (Create (OService s) e)" "allowed (Create (OPVC v) e)"
  "allowed (Create (OReplicaSet rs) e)" "allowed (Create (OPod po) e)" "allowed (Create (OServiceAccount sa) e)"
  "allowed (Create (OCluster c) e)" "allowed (Create (OBackup b) e)" "allowed (Delete (OPeer p) e)" "allowed (Delete (OPVC v) e)"
  "allowed (Patch (OPeer p) old e)" "allowed (Update (OBackupSchedule sc) e)" "allowed (StatusUpdate (ORestore r) e)"
  "allowed (StatusPatch (OCluster c) old e)" "allowed (StatusPatch (OPeer p) old e)" "allowed (StatusPatch (OBackup b) old e)"
  using granted_reads granted_writes by (simp_all add: allowed_def)

lemma cluster_uses_allowed: "uses allowed (Cluster_Reconcile l sv cl e req)"
proof -
  have missing: "uses allowed (addMissingPeer l cl c peers members rest)" for c peers members rest
    by (induction rest) (auto simp: createPeerForMember_def call_defs Let_def intro!: uses_steps)
  have surplus: "uses allowed (removeSurplusPeer l cl names peers)" for names peers
    by (induction peers) (auto simp: call_defs Let_def intro!: uses_steps)
  have event: "uses allowed (ClusterEvent_Record ev)" for ev
    by (cases ev) (auto intro!: uses_steps)
  show ?thesis
    unfolding Cluster_Reconcile_def dialCluster_def patchClusterStatus_def reconcile_def hasService_def createService_def
      reconcileNoContact_def createBootstrapPeer_def reconcileMembers_def upgradePeer_def scaleMembers_def addNewMember_def
      addEtcdMember_def removeMember_def removeEtcdMember_def call_defs
    by (intro uses_steps missing surplus event) simp_all
qed

lemma peer_uses_allowed: "uses allowed (Peer_Reconcile l sv cl e repo req)"
  unfolding Peer_Reconcile_def dialPeer_def patchPeerStatus_def reconcilePeer_def maybeCreatePvc_def
    PeerPVCDeleter_Execute_def call_defs
  by (intro uses_steps) simp_all

lemma schedule_uses_allowed: "uses allowed (Schedule_Reconcile cl cr schedules req)" "uses allowed (fire l cl req)"
  unfolding Schedule_Reconcile_def fire_def call_defs by (intro uses_steps; simp)+

lemma restore_uses_allowed: "uses allowed (Restore_Reconcile l r cl req)"
proof -
  have claims: "uses allowed (ensurePVCs cl restore pvcs)" for restore pvcs
    by (induction pvcs) (auto simp: failRestore_def call_defs intro!: uses_steps)
  have found: "uses allowed (findRestorePods cl peers)" for peers
    by (induction peers) (auto simp: call_defs intro!: uses_steps)
  have launched: "uses allowed (launchPod l r cl restore xs)" for restore xs
    by (induction l r cl restore xs rule: launchPod.induct) (auto simp: call_defs intro!: uses_steps)
  show ?thesis
    unfolding Restore_Reconcile_def reconcileRestore_def verifyPods_def failRestore_def joinPods_def ensureCluster_def call_defs
    by (intro uses_steps claims found launched) simp_all
qed

lemma backup_acts_allowed: "backup_acts bl r backup tr act ev \<Longrightarrow> allowed (call_of act e)"
  by (erule backup_acts.cases) (simp_all add: phase_patch_def)

lemma backup_reads_allowed: "uses (\<lambda>x. is_mutation x \<or> allowed x) (Backup_Reconcile bl r cl req)"
proof -
  have act: "uses (\<lambda>x. is_mutation x \<or> allowed x) (Action_Execute cl act)" for act
    by (cases act) (auto simp: CreateRuntimeObject_Execute_def PatchStatus_Execute_def call_defs intro!: uses_steps)
  have event: "uses (\<lambda>x. is_mutation x \<or> allowed x) (BackupEvent_Record gvk ev)" for gvk ev
    by (cases ev) (auto intro!: uses_steps)
  show ?thesis
    unfolding Backup_Reconcile_def getState_def setStateActual_def call_defs
    by (intro uses_steps act event) simp_all
qed

lemma backup_uses_allowed: "uses allowed (Backup_Reconcile bl r cl req)"
  unfolding uses_def
proof (rule emits_mono [OF emits_conj [OF Backup_Reconcile_pass backup_reads_allowed [unfolded uses_def]]], elim conjE)
  fix out tr
  assume pass: "backup_pass bl r req out tr" and reads: "list_all (\<lambda>x. is_mutation x \<or> allowed x) tr"
  from pass have "allowed x" if "x \<in> set (mutations tr)" for x
    by cases (use that in \<open>auto dest: backup_acts_allowed split: if_splits\<close>)
  with reads show "list_all allowed tr" by (auto simp: list_all_iff set_mutations)
qed

text \<open>The kinds that a controller watches.\<close>

fun source_kind :: "source \<Rightarrow> kind" where
  "source_kind (Owns k) = k"
| "source_kind (Watches k f) = k"

definition watched :: "controller \<Rightarrow> kind list" where
  "watched c = ctl_For c # map source_kind (ctl_Sources c)"

text \<open>C21: every request that a handler or a cron entry makes to the API server, whatever is answered, is covered
  by the role made of the permissions that the sources of the controllers declare; so are the
  objects that the controllers watch.\<close>

theorem handlers_stay_within_role:
  "emits (Cluster_Reconcile l sv cl e req) (\<lambda>_ tr. list_all allowed tr) \<and>
   emits (Peer_Reconcile l sv cl e repo req) (\<lambda>_ tr. list_all allowed tr) \<and>
   emits (Backup_Reconcile bl br cl req) (\<lambda>_ tr. list_all allowed tr) \<and>
   emits (Schedule_Reconcile cl cr schedules req) (\<lambda>_ tr. list_all allowed tr) \<and>
   emits (fire l cl req) (\<lambda>_ tr. list_all allowed tr) \<and>
   emits (Restore_Reconcile l rr cl req) (\<lambda>_ tr. list_all allowed tr) \<and>
   list_all (\<lambda>c. list_all (\<lambda>k. list_all (grants managerRole) (cached k)) (watched c))
     [peerController, clusterController, backupController, scheduleController, restoreController]"
  unfolding uses_def [symmetric]
  by (intro conjI cluster_uses_allowed peer_uses_allowed backup_uses_allowed schedule_uses_allowed restore_uses_allowed)
    (simp add: granted_reads list.pred_True)

text \<open>
  The restore handler relies on what the peer controller declares: its own permissions misspell the
  claims, and do not cover the claims it creates.
\<close>

lemma restore_rules_miss_claims:
  "\<not> list_all (grants restoreRules) (needs (Create (OPVC pvc) e))"
  "list_all (grants peerRules) (needs (Create (OPVC pvc) e))"
  by (simp_all add: need_def grants_def restoreRules_def peerRules_def etcdGroup_def)

section \<open>Waking up\<close>

text \<open>
  The manager is outside the sources: \<open>enq c obj\<close> are the requests it hands to the controller \<open>c\<close>
  when \<open>obj\<close> changes. Documented: a request for the object itself if it is of the kind the
  controller is for; for each owned kind a request for the owner that is marked as the controller,
  if that is of the controller's kind; and the requests of the mappers. The API group of an owner,
  which controller-runtime compares as well, is not part of the owner references here: all owners
  that the handlers set are resources of the operator's own group.
\<close>

definition enqueues :: "(controller \<Rightarrow> object \<Rightarrow> NamespacedName list) \<Rightarrow> bool" where
  "enqueues enq \<longleftrightarrow>
     (\<forall>c obj. object_kind obj = ctl_For c \<longrightarrow> key_of (object_meta obj) \<in> set (enq c obj)) \<and>
     (\<forall>c obj r. Owns (object_kind obj) \<in> set (ctl_Sources c) \<longrightarrow> r \<in> set (OwnerReferences (object_meta obj)) \<longrightarrow>
        or_Controller r \<longrightarrow> or_Kind r = kind_name (ctl_For c) \<longrightarrow>
        \<lparr>nn_Namespace = Namespace (object_meta obj), nn_Name = or_Name r\<rparr> \<in> set (enq c obj)) \<and>
     (\<forall>c obj f. Watches (object_kind obj) f \<in> set (ctl_Sources c) \<longrightarrow> set (f (object_meta obj)) \<subseteq> set (enq c obj))"

lemma enqueuesD:
  assumes "enqueues enq"
  shows "Owns (object_kind obj) \<in> set (ctl_Sources c) \<Longrightarrow> r \<in> set (OwnerReferences (object_meta obj)) \<Longrightarrow>
      or_Controller r \<Longrightarrow> or_Kind r = kind_name (ctl_For c) \<Longrightarrow>
      \<lparr>nn_Namespace = Namespace (object_meta obj), nn_Name = or_Name r\<rparr> \<in> set (enq c obj)"
    "Watches (object_kind obj) f \<in> set (ctl_Sources c) \<Longrightarrow> k \<in> set (f (object_meta obj)) \<Longrightarrow> k \<in> set (enq c obj)"
  using assms unfolding enqueues_def by blast+

text \<open>An object that is created with a reference to an owner in its own namespace.\<close>

lemma owned_wakes:
  assumes "enqueues enq" "lib_ok l" "Owns (object_kind obj) \<in> set (ctl_Sources c)"
    and "NewControllerRef l m (kind_name (ctl_For c)) \<in> set (OwnerReferences (object_meta obj))"
    and "Namespace (object_meta obj) = Namespace m"
  shows "key_of m \<in> set (enq c obj)"
  using enqueuesD(1) [OF assms(1,3,4)] lib_okD(1) [OF assms(2)] assms(5) by (simp add: key_of_def)

fun wakes :: "(controller \<Rightarrow> object \<Rightarrow> NamespacedName list) \<Rightarrow> controller \<Rightarrow> NamespacedName \<Rightarrow> call \<Rightarrow> bool" where
  "wakes enq c k (Create obj _) \<longleftrightarrow> k \<in> set (enq c obj)"
| "wakes enq c k _ \<longleftrightarrow> True"

lemma cluster_wakes:
  assumes "enqueues enq" "lib_ok l"
  shows "key_of (cluster_meta c) \<in> set (enq clusterController (OService (headlessServiceForCluster l c)))"
    "key_of (cluster_meta c) \<in> set (enq clusterController (OPeer (peerForCluster l c n)))"
    "peer_meta p = peer_meta (peerForCluster l c n) \<Longrightarrow> key_of (cluster_meta c) \<in> set (enq clusterController (OPeer p))"
  by (rule owned_wakes [OF assms];
      simp add: clusterController_def headlessServiceForCluster_def peerForCluster_def serviceName_def Let_def)+

lemma peer_wakes:
  assumes "enqueues enq" "lib_ok l"
  shows "pvcForPeer p = Return pvc \<Longrightarrow> key_of (peer_meta p) \<in> set (enq peerController (OPVC pvc))"
    "defineReplicaSet l p repo = Return rs \<Longrightarrow> key_of (peer_meta p) \<in> set (enq peerController (OReplicaSet rs))"
proof -
  show "key_of (peer_meta p) \<in> set (enq peerController (OPVC pvc))" if "pvcForPeer p = Return pvc"
    by (rule enqueuesD(2) [OF assms(1), where f = pvcMapper_Map])
      (simp_all add: peerController_def claim_wakes_its_peer [OF that])
  show "key_of (peer_meta p) \<in> set (enq peerController (OReplicaSet rs))" if "defineReplicaSet l p repo = Return rs"
    by (rule owned_wakes [OF assms])
      (use that in \<open>auto simp: peerController_def defineReplicaSet_def Let_def split: option.splits\<close>)
qed

text \<open>Handlers that first read their resource, and every object they create after that.\<close>

definition wake_reader ::
    "(controller \<Rightarrow> object \<Rightarrow> NamespacedName list) \<Rightarrow> controller \<Rightarrow> (NamespacedName \<Rightarrow> 'r \<Rightarrow> call) \<Rightarrow> NamespacedName \<Rightarrow>
     ('r \<Rightarrow> NamespacedName option) \<Rightarrow> call list \<Rightarrow> bool" where
  "wake_reader enq ctl get req key tr \<longleftrightarrow>
     (\<forall>obj e. Create obj e \<in> set tr \<longrightarrow> (\<exists>r k. get req r \<in> set tr \<and> key r = Some k \<and> k \<in> set (enq ctl obj)))"

lemma emits_wake_reader:
  assumes "\<And>r obj e. get req r \<noteq> Create obj e"
    and "\<And>r k. key r = Some k \<Longrightarrow> uses (wakes enq ctl k) (f r)" "\<And>r. key r = None \<Longrightarrow> uses (\<lambda>x. \<forall>obj e. x \<noteq> Create obj e) (f r)"
  shows "emits (State_Monad.bind (call (get req) g) f) (\<lambda>_ tr. wake_reader enq ctl get req key tr)"
proof (rule emits_bind_call)
  fix r
  show "emits (f r) (\<lambda>_ tr. wake_reader enq ctl get req key (get req r # tr))"
  proof (cases "key r")
    case None
    show ?thesis
      by (rule emits_mono [OF assms(3) [OF None, unfolded uses_def]])
        (use assms(1) in \<open>auto simp: wake_reader_def list_all_iff; metis\<close>)
  next
    case (Some k)
    have "wake_reader enq ctl get req key (get req r # tr)" if tr: "list_all (wakes enq ctl k) tr" for tr
      unfolding wake_reader_def
    proof (intro allI impI)
      fix obj e assume "Create obj e \<in> set (get req r # tr)"
      then have "Create obj e \<in> set tr" using assms(1) [of r obj e] by auto
      with tr have "wakes enq ctl k (Create obj e)" unfolding list_all_iff by blast
      then show "\<exists>r' k. get req r' \<in> set (get req r # tr) \<and> key r' = Some k \<and> k \<in> set (enq ctl obj)"
        using Some by (intro exI [of _ r] exI [of _ k]) simp
    qed
    then show ?thesis by (rule emits_mono [OF assms(2) [OF Some, unfolded uses_def]])
  qed
qed

definition found_key :: "('r \<Rightarrow> ObjectMeta) \<Rightarrow> api_error + 'r \<Rightarrow> NamespacedName option" where
  "found_key meta r = (case r of Inl _ \<Rightarrow> None | Inr x \<Rightarrow> Some (key_of (meta x)))"

lemma found_key_simps [simp]: "found_key meta (Inl err) = None" "found_key meta (Inr x) = Some (key_of (meta x))"
  by (simp_all add: found_key_def)

lemma cluster_reconcile_wakes:
  assumes "enqueues enq" "lib_ok l"
  shows "uses (wakes enq clusterController (key_of (cluster_meta c))) (reconcile l cl e members peers c)"
proof -
  note wake = cluster_wakes [OF assms]
  have missing: "uses (wakes enq clusterController (key_of (cluster_meta c))) (addMissingPeer l cl c peers members rest)"
    for members rest
    by (induction rest)
      (auto simp: createPeerForMember_def configureJoinExistingCluster_def call_defs Let_def wake(3) [OF set_bootstrap_meta]
        intro!: uses_steps)
  have surplus: "uses (wakes enq clusterController (key_of (cluster_meta c))) (removeSurplusPeer l cl names peers)" for names
    by (induction peers) (auto simp: call_defs Let_def intro!: uses_steps)
  show ?thesis
    unfolding reconcile_def hasService_def createService_def reconcileNoContact_def createBootstrapPeer_def
      reconcileMembers_def upgradePeer_def scaleMembers_def addNewMember_def addEtcdMember_def removeMember_def
      removeEtcdMember_def call_defs
    by (intro uses_steps missing surplus) (auto simp: wake(1) intro!: wake(3) dest: configurePeerBootstrap_meta)
qed

lemma cluster_handler_wakes:
  assumes "enqueues enq" "lib_ok l"
  shows "emits (Cluster_Reconcile l sv cl e req)
    (\<lambda>_ tr. wake_reader enq clusterController GetCluster req (found_key cluster_meta) tr)"
proof -
  have event: "uses (wakes enq clusterController k) (ClusterEvent_Record ev)" for k ev
    by (cases ev) (auto intro!: uses_steps)
  have step: "uses (wakes enq clusterController (key_of (cluster_meta fetched)))
      (reconcile l cl e members peers (Cluster_updateStatus (EtcdCluster_Default fetched) members peers v))" for fetched members peers v
    using cluster_reconcile_wakes [OF assms, of "Cluster_updateStatus (EtcdCluster_Default fetched) members peers v"]
    by (simp add: Cluster_updateStatus_def EtcdCluster_Default_def Let_def)
  show ?thesis
    unfolding Cluster_Reconcile_def get_Cluster_def
    by (rule emits_wake_reader)
      (auto simp: found_key_def dialCluster_def patchClusterStatus_def call_defs Let_def
        intro!: uses_steps event step split: sum.splits)
qed

lemma peer_handler_wakes:
  assumes "enqueues enq" "lib_ok l"
  shows "emits (Peer_Reconcile l sv cl e repo req)
    (\<lambda>_ tr. wake_reader enq peerController GetPeer req (found_key peer_meta) tr)"
proof -
  have step: "uses (wakes enq peerController (key_of (peer_meta fetched)))
      (reconcilePeer l cl repo (Peer_updateStatus (EtcdPeer_Default fetched) v))" for fetched v
  proof -
    let ?p = "Peer_updateStatus (EtcdPeer_Default fetched) v"
    have "key_of (peer_meta ?p) = key_of (peer_meta fetched)" by (simp add: Peer_updateStatus_def EtcdPeer_Default_def)
    then show ?thesis
      using peer_wakes [OF assms, of ?p] unfolding reconcilePeer_def maybeCreatePvc_def PeerPVCDeleter_Execute_def call_defs
      by (intro uses_steps) simp_all
  qed
  show ?thesis
    unfolding Peer_Reconcile_def get_Peer_def
    by (rule emits_wake_reader)
      (auto simp: found_key_def dialPeer_def patchPeerStatus_def call_defs Let_def intro!: uses_steps step split: sum.splits)
qed

lemma restore_wakes:
  assumes "enqueues enq" "lib_ok l"
  shows "expectedObjects l restore = Return (c, peers, pvcs) \<Longrightarrow> pvc \<in> set pvcs \<Longrightarrow>
      key_of (restore_meta restore) \<in> set (enq restoreController (OPVC pvc))"
    "expectedObjects l restore = Return (c, peers, pvcs) \<Longrightarrow> key_of (restore_meta restore) \<in> set (enq restoreController (OCluster c))"
    "podForRestore l r restore peer n = Return pod \<Longrightarrow> key_of (restore_meta restore) \<in> set (enq restoreController (OPod pod))"
proof -
  show "key_of (restore_meta restore) \<in> set (enq restoreController (OPVC pvc))"
    if eo: "expectedObjects l restore = Return (c, peers, pvcs)" and pvc: "pvc \<in> set pvcs"
  proof -
    from expectedObjects_Return(3) [OF eo] pvc obtain peer where peer: "peer \<in> set peers" "expectedPVCForRestore restore peer = Return pvc"
      by (blast dest: list_all2_ex2)
    from expectedObjects_Return(2) [OF eo] peer(1) obtain n where n: "expectedPeerForRestore l c n = Return peer"
      by (blast dest: list_all2_ex2)
    obtain pvc' where pvc': "pvcForPeer peer = Return pvc'" "pvc = markPVC restore pvc'"
      using peer(2) by (auto simp: expectedPVCForRestore_def elim: bind_outcome.elims)
    have "Namespace (pvc_meta pvc') = Namespace (restore_meta restore)"
      using pvc'(1) configurePeerBootstrap_meta [OF n [unfolded expectedPeerForRestore_def]] expectedObjects_Return(1) [OF eo]
      by (auto simp: pvcForPeer_def EtcdPeer_Default_def EtcdCluster_Default_def clusterForRestore_def markCluster_def set_label_def
          split: option.splits)
    from marked_claim_wakes_restore [OF this] show ?thesis
      by (intro enqueuesD(2) [OF assms(1), where f = restoredFromMapper_Map]) (simp_all add: restoreController_def pvc'(2))
  qed
  show "key_of (restore_meta restore) \<in> set (enq restoreController (OCluster c))"
    if "expectedObjects l restore = Return (c, peers, pvcs)"
    by (rule enqueuesD(2) [OF assms(1), where f = restoredFromMapper_Map])
      (use expectedObjects_Return(1) [OF that] in \<open>auto simp: restoreController_def restoredFromMapper_Map_def EtcdCluster_Default_def
        clusterForRestore_def markCluster_def set_label_def key_of_def\<close>)
  show "key_of (restore_meta restore) \<in> set (enq restoreController (OPod pod))"
    if "podForRestore l r restore peer n = Return pod"
    by (rule owned_wakes [OF assms])
      (use that in \<open>auto simp: restoreController_def podForRestore_def markPod_def set_label_def split: option.splits\<close>)
qed

lemma restore_handler_wakes:
  assumes "enqueues enq" "lib_ok l"
  shows "emits (Restore_Reconcile l r cl req)
    (\<lambda>_ tr. wake_reader enq restoreController GetRestore req (found_key restore_meta) tr)"
proof -
  note wake = restore_wakes [OF assms]
  have claims: "uses (wakes enq restoreController k) (ensurePVCs cl restore pvcs)"
    if "\<forall>pvc \<in> set pvcs. k \<in> set (enq restoreController (OPVC pvc))" for k restore pvcs
    using that by (induction pvcs) (auto simp: failRestore_def call_defs intro!: uses_steps)
  have found: "uses (wakes enq restoreController k) (findRestorePods cl peers)" for k peers
    by (induction peers) (auto simp: call_defs intro!: uses_steps)
  have launched: "uses (wakes enq restoreController (key_of (restore_meta restore))) (launchPod l r cl restore xs)" for restore xs
    using wake(3) by (induction l r cl restore xs rule: launchPod.induct) (auto simp: call_defs intro!: uses_steps)
  have step: "uses (wakes enq restoreController (key_of (restore_meta restore)))
      (reconcileRestore l r cl (shareDefaults restore) c peers pvcs)"
    if "expectedObjects l restore = Return (c, peers, pvcs)" for restore c peers pvcs
  proof -
    have "restore_meta (shareDefaults restore) = restore_meta restore" by (simp add: shareDefaults_def Let_def)
    with launched [of "shareDefaults restore"] have "uses (wakes enq restoreController (key_of (restore_meta restore)))
        (launchPod l r cl (shareDefaults restore) xs)" for xs by simp
    then show ?thesis
      unfolding reconcileRestore_def verifyPods_def failRestore_def joinPods_def ensureCluster_def call_defs
      using wake(1,2) [OF that] by (intro uses_steps claims found) auto
  qed
  show ?thesis
    unfolding Restore_Reconcile_def get_Restore_def
    by (rule emits_wake_reader)
      (auto simp: found_key_def call_defs Let_def intro!: uses_steps step split: sum.splits)
qed

text \<open>\<open>SetControllerReference\<close>: the object names the backup as its owner and controller, and keeps its namespace.\<close>

definition owns_for_backup :: "'t backup_lib \<Rightarrow> bool" where
  "owns_for_backup bl \<longleftrightarrow>
     (\<forall>owner m m'. SetControllerReference bl owner m = Inr m' \<longrightarrow> Namespace m' = Namespace m \<and>
        (\<exists>r \<in> set (OwnerReferences m'). or_Controller r \<and> or_Kind r = ''EtcdBackup'' \<and> or_Name r = Name owner))"

lemma backup_reference_wakes:
  assumes "enqueues enq" "owns_for_backup bl" "SetControllerReference bl (backup_meta b) m = Inr (object_meta obj)"
    and "Owns (object_kind obj) \<in> set (ctl_Sources backupController)" "Namespace m = Namespace (backup_meta b)"
  shows "key_of (backup_meta b) \<in> set (enq backupController obj)"
proof -
  from assms(2,3) obtain r where r: "Namespace (object_meta obj) = Namespace m" "r \<in> set (OwnerReferences (object_meta obj))"
    "or_Controller r" "or_Kind r = ''EtcdBackup''" "or_Name r = Name (backup_meta b)" unfolding owns_for_backup_def by blast
  from enqueuesD(1) [OF assms(1,4) r(2,3)] r(1,4,5) assms(5) show ?thesis
    by (simp add: backupController_def key_of_def)
qed

lemma backup_wakes:
  assumes "enqueues enq" "owns_for_backup bl" "setStateDesired bl r b = Inr desired"
  shows "bsc_serviceAccount desired = Some sa \<Longrightarrow> key_of (backup_meta b) \<in> set (enq backupController (OServiceAccount sa))"
    "bsc_pod desired = Some pod \<Longrightarrow> key_of (backup_meta b) \<in> set (enq backupController (OPod pod))"
proof -
  from assms(3) obtain sam po pm where d: "SetControllerReference bl (backup_meta b) (sa_meta (serviceAccountForBackup b)) = Inr sam"
    "podForBackup bl b (BackupAgentImage r) (bk_ProxyURL r) (Name sam) = Inr po"
    "SetControllerReference bl (backup_meta b) (pod_meta po) = Inr pm"
    "desired = \<lparr>bsc_serviceAccount = Some ((serviceAccountForBackup b)\<lparr>sa_meta := sam\<rparr>), bsc_pod = Some (po\<lparr>pod_meta := pm\<rparr>)\<rparr>"
    by (auto simp: setStateDesired_def Let_def split: sum.splits)
  have "Namespace (pod_meta po) = Namespace (backup_meta b)" using d(2) by (auto simp: podForBackup_def split: sum.splits)
  then show "bsc_pod desired = Some pod \<Longrightarrow> key_of (backup_meta b) \<in> set (enq backupController (OPod pod))"
    using d(3,4) by (intro backup_reference_wakes [OF assms(1,2), where m = "pod_meta po"]) (auto simp: backupController_def)
  show "bsc_serviceAccount desired = Some sa \<Longrightarrow> key_of (backup_meta b) \<in> set (enq backupController (OServiceAccount sa))"
    using d(1,4) by (intro backup_reference_wakes [OF assms(1,2), where m = "sa_meta (serviceAccountForBackup b)"]) (auto simp: backupController_def serviceAccountForBackup_def)
qed

lemma backup_handler_wakes:
  assumes "enqueues enq" "owns_for_backup bl"
  shows "emits (Backup_Reconcile bl r cl req)
    (\<lambda>_ tr. wake_reader enq backupController GetBackup req (found_key backup_meta) tr)"
proof (rule emits_mono [OF Backup_Reconcile_pass])
  fix out tr assume "backup_pass bl r req out tr"
  moreover have acts: "Create obj e = call_of act e' \<Longrightarrow> key_of (backup_meta b) \<in> set (enq backupController obj)"
    if "backup_acts bl r b tr' act ev" for obj e act e' b tr' ev
    using that by cases (auto simp: phase_patch_def intro: backup_wakes [OF assms])
  moreover have quiet: "Create obj e \<notin> set tr'" if "mutations tr' = []" for obj e tr'
    using that unfolding mutations_def by (auto simp: filter_empty_conv)
  ultimately show "wake_reader enq backupController GetBackup req (found_key backup_meta) tr"
  proof cases
    case (acted tr' backup act ev)
    then show ?thesis unfolding wake_reader_def using acts [OF acted(7)] quiet [OF acted(3)] by auto
  next
    case (refused tr' backup act ev err e)
    then show ?thesis unfolding wake_reader_def using acts [OF refused(7)] quiet [OF refused(3)] by auto
  qed (auto simp: wake_reader_def)
qed

text \<open>C20: an object that a handler creates brings the handler back: whenever the cluster, peer, restore or backup
  handler creates an object, the manager hands the same controller a request for the resource that
  the handler had read, when that object changes: by its owner reference or by the label that the
  controller's mapper reads.\<close>

theorem created_objects_wake_their_handler:
  assumes "enqueues enq" "lib_ok l" "owns_for_backup bl"
  shows "emits (Cluster_Reconcile l sv cl e req)
      (\<lambda>_ tr. wake_reader enq clusterController GetCluster req (found_key cluster_meta) tr) \<and>
    emits (Peer_Reconcile l sv cl e repo req)
      (\<lambda>_ tr. wake_reader enq peerController GetPeer req (found_key peer_meta) tr) \<and>
    emits (Restore_Reconcile l rr cl req)
      (\<lambda>_ tr. wake_reader enq restoreController GetRestore req (found_key restore_meta) tr) \<and>
    emits (Backup_Reconcile bl br cl req)
      (\<lambda>_ tr. wake_reader enq backupController GetBackup req (found_key backup_meta) tr)"
  by (intro conjI cluster_handler_wakes peer_handler_wakes restore_handler_wakes backup_handler_wakes assms)

text \<open>A manager as documented, and a library that sets the reference.\<close>

fun source_requests :: "controller \<Rightarrow> object \<Rightarrow> source \<Rightarrow> NamespacedName list" where
  "source_requests c obj (Owns k) =
     (if object_kind obj = k
      then map (\<lambda>r. \<lparr>nn_Namespace = Namespace (object_meta obj), nn_Name = or_Name r\<rparr>)
        (filter (\<lambda>r. or_Controller r \<and> or_Kind r = kind_name (ctl_For c)) (OwnerReferences (object_meta obj)))
      else [])"
| "source_requests c obj (Watches k f) = (if object_kind obj = k then f (object_meta obj) else [])"

definition sample_enqueue :: "controller \<Rightarrow> object \<Rightarrow> NamespacedName list" where
  "sample_enqueue c obj =
     (if object_kind obj = ctl_For c then [key_of (object_meta obj)] else []) @
     concat (map (source_requests c obj) (ctl_Sources c))"

definition sample_backup_lib :: "string backup_lib" where
  "sample_backup_lib =
     \<lparr>SetControllerReference = (\<lambda>owner m. Inr (m\<lparr>OwnerReferences :=
        \<lparr>or_Kind = ''EtcdBackup'', or_Name = Name owner, or_UID = UID owner, or_Controller = True\<rparr> # OwnerReferences m\<rparr>)),
      template_Parse = (\<lambda>s. Inr s), template_Execute = (\<lambda>t b. Inr t), GVKForObject = (\<lambda>obj. Inr ''Object'')\<rparr>"

lemma sample_enqueue_ok: "enqueues sample_enqueue"
  unfolding enqueues_def
proof (intro conjI allI impI)
  fix c :: controller and obj r
  assume "Owns (object_kind obj) \<in> set (ctl_Sources c)" "r \<in> set (OwnerReferences (object_meta obj))" "or_Controller r"
    "or_Kind r = kind_name (ctl_For c)"
  then show "\<lparr>nn_Namespace = Namespace (object_meta obj), nn_Name = or_Name r\<rparr> \<in> set (sample_enqueue c obj)"
    unfolding sample_enqueue_def by (auto intro!: bexI [of _ "Owns (object_kind obj)"])
next
  fix c :: controller and obj f
  assume "Watches (object_kind obj) f \<in> set (ctl_Sources c)"
  then show "set (f (object_meta obj)) \<subseteq> set (sample_enqueue c obj)"
    unfolding sample_enqueue_def by (auto intro!: bexI [of _ "Watches (object_kind obj) f"])
qed (simp add: sample_enqueue_def)

theorem created_objects_wake_their_handler_witness:
  "emits (Restore_Reconcile std_lib \<lparr>RestorePodImage = ''i'', rr_ProxyURL = ''p''\<rparr> mem_client \<lparr>nn_Namespace = ''default'', nn_Name = ''r''\<rparr>)
      (\<lambda>_ tr. wake_reader sample_enqueue restoreController GetRestore \<lparr>nn_Namespace = ''default'', nn_Name = ''r''\<rparr>
        (found_key restore_meta) tr)"
proof -
  have "owns_for_backup sample_backup_lib" by (auto simp: owns_for_backup_def sample_backup_lib_def)
  from created_objects_wake_their_handler [OF sample_enqueue_ok std_lib_ok this] show ?thesis by blast
qed

section \<open>Starting up\<close>

text \<open>The calls of a start-up that goes well, in order.\<close>

definition main_options :: "operator_flags \<Rightarrow> manager_options" where
  "main_options flags = \<lparr>MetricsBindAddress = of_metricsAddr flags, LeaderElection = of_enableLeaderElection flags,
     LeaderElectionID = of_leaderElectionID flags, Port = 9443\<rparr>"

definition registrations :: "operator_flags \<Rightarrow> string \<Rightarrow> registration list" where
  "registrations flags disableWebhooks =
     [Controller peerController (PeerReconciler (of_etcdRepository flags)),
      IndexField KPeer clusterNameSpecField indexClusterName,
      Controller clusterController ClusterReconciler,
      Controller backupController (BackupReconciler
        \<lparr>BackupAgentImage = of_backupAgentImage flags, bk_ProxyURL = proxyAddress (of_proxyURL flags)\<rparr>),
      Controller scheduleController BackupScheduleReconciler,
      Controller restoreController (RestoreReconciler
        \<lparr>RestorePodImage = of_restoreAgentImage flags, rr_ProxyURL = proxyAddress (of_proxyURL flags)\<rparr>)] @
     (if disableWebhooks = [] then [Webhook KCluster, Webhook KPeer] else [])"

definition startup_plan :: "operator_flags \<Rightarrow> string \<Rightarrow> (string option \<Rightarrow> startup_call) list" where
  "startup_plan flags disableWebhooks =
     GetConfigOrDie # NewManager (main_options flags) # map Register (registrations flags disableWebhooks)"

text \<open>A start-up that follows a list of calls: up to the first that fails, or all of them and then the rest.\<close>

definition follows :: "(string option \<Rightarrow> startup_call) list \<Rightarrow> (ending \<Rightarrow> startup_call list \<Rightarrow> bool) \<Rightarrow> ending \<Rightarrow> startup_call list \<Rightarrow> bool" where
  "follows cs Q out tr \<longleftrightarrow>
     (\<exists>k e. k < length cs \<and> out = Exited 1 \<and> tr = map (\<lambda>c. c None) (take k cs) @ [(cs ! k) (Some e)]) \<or>
     (\<exists>tr'. tr = map (\<lambda>c. c None) cs @ tr' \<and> Q out tr')"

definition starts :: "('m, ending) startup \<Rightarrow> (ending \<Rightarrow> startup_call list \<Rightarrow> bool) \<Rightarrow> bool" where
  "starts m P \<longleftrightarrow> (\<forall>s tr. \<exists>out s' tr'. run_state m (s, tr) = (out, (s', tr @ tr')) \<and> P out tr')"

lemma starts_return: "P out [] \<Longrightarrow> starts (State_Monad.return out) P"
  by (simp add: starts_def)

lemma starts_tell: "starts m (\<lambda>out tr. P out (c # tr)) \<Longrightarrow> starts (State_Monad.bind (tell c) (\<lambda>_. m)) P"
  unfolding starts_def tell_def by (auto; metis append.assoc append_Cons append_Nil)

lemma starts_or_exit:
  assumes "\<And>e. P (Exited 1) [c (Some e)]" "starts k (\<lambda>out tr. P out (c None # tr))"
  shows "starts (or_exit (ask c f) k) P"
  unfolding starts_def
proof (intro allI)
  fix s tr
  obtain err s1 where f: "f s = (err, s1)" by fastforce
  show "\<exists>out s' tr'. run_state (or_exit (ask c f) k) (s, tr) = (out, (s', tr @ tr')) \<and> P out tr'"
  proof (cases err)
    case None
    from assms(2) obtain out s' tr' where "run_state k (s1, tr @ [c None]) = (out, (s', (tr @ [c None]) @ tr'))" "P out (c None # tr')"
      unfolding starts_def by blast
    then show ?thesis by (auto simp: or_exit_def ask_def f None)
  next
    case (Some e)
    then show ?thesis using assms(1) by (auto simp: or_exit_def ask_def f)
  qed
qed

lemma follows_Cons:
  "follows (c # cs) Q (Exited 1) [c (Some e)]"
  "follows cs Q out tr \<Longrightarrow> follows (c # cs) Q out (c None # tr)"
proof -
  show "follows (c # cs) Q (Exited 1) [c (Some e)]"
    unfolding follows_def by (rule disjI1, rule exI [of _ 0]) auto
  show "follows cs Q out tr \<Longrightarrow> follows (c # cs) Q out (c None # tr)"
    unfolding follows_def by (elim disjE exE conjE) (force intro: exI [of _ "Suc _"])+
qed

lemma starts_mono: "starts m P \<Longrightarrow> (\<And>out tr. P out tr \<Longrightarrow> Q out tr) \<Longrightarrow> starts m Q"
  unfolding starts_def by meson

lemma starts_follow: "starts k (follows cs Q) \<Longrightarrow> starts (or_exit (ask c f) k) (follows (c # cs) Q)"
  by (rule starts_or_exit) (auto intro: follows_Cons(1) starts_mono [OF _ follows_Cons(2)])

lemma starts_end: "starts k Q \<Longrightarrow> starts k (follows [] Q)"
  by (erule starts_mono) (simp add: follows_def)

lemma or_exit_both:
  "or_exit (do { err \<leftarrow> ask c1 f1; case err of Some e \<Rightarrow> State_Monad.return (Some e) | None \<Rightarrow> ask c2 f2 }) k =
   or_exit (ask c1 f1) (or_exit (ask c2 f2) k)"
  unfolding or_exit_def by (rule state.expand) (auto simp: fun_eq_iff split: option.split prod.split)

lemma start_operator_starts:
  "starts (start_operator pm) (\<lambda>out tr.
     out = Exited 1 \<and> (\<exists>e. tr = [CronStart, ManagerStart (Some e)]) \<or>
     out = Returned \<and> tr = [CronStart, ManagerStart None, CronStop])"
  unfolding start_operator_def by (intro starts_tell starts_or_exit starts_return) auto

text \<open>C22: the operator starts last. Asked for its version, it prints it and returns. Otherwise it finds the
  address of the API server, creates the manager with the options of its flags and registers, in this order, the five controllers with
  their settings (the proxy address completed, the index on the cluster name before the cluster
  controller) and, unless they are disabled, the two webhooks; the first of these that fails is the
  last call, and the process exits with status 1. Only when all have succeeded are the cron
  scheduler and the manager started. If the manager stops without an error, the cron scheduler is
  stopped and the program returns; if it fails, the process exits with status 1 and the deferred
  stop of the cron scheduler does not run.\<close>

theorem operator_starts_last:
  "starts (operator_main pm flags disableWebhooks) (\<lambda>out tr.
     if of_printVersion flags then out = Returned \<and> tr = [PrintVersion]
     else follows (startup_plan flags disableWebhooks) (\<lambda>out tr.
       out = Exited 1 \<and> (\<exists>e. tr = [CronStart, ManagerStart (Some e)]) \<or>
       out = Returned \<and> tr = [CronStart, ManagerStart None, CronStop]) out tr)"
proof (cases "of_printVersion flags")
  case True
  then show ?thesis by (simp add: operator_main_def) (intro starts_tell starts_return; simp)
next
  case False
  then show ?thesis
    by (auto simp: operator_main_def startup_plan_def registrations_def main_options_def Let_def register_def
        Peer_SetupWithManager_def Cluster_SetupWithManager_def Backup_SetupWithManager_def Schedule_SetupWithManager_def
        Restore_SetupWithManager_def EtcdCluster_webhook_SetupWithManager_def EtcdPeer_webhook_SetupWithManager_def or_exit_both
        intro!: starts_follow starts_end start_operator_starts)
qed

text \<open>The proxy listens before it serves, on the port of its flags, and exits with status 1 on an error.\<close>

lemma proxy_serves:
  "starts (proxy_main pm flags) (\<lambda>out tr.
     if px_printVersion flags then out = Exited 0 \<and> tr = [PrintVersion]
     else follows [Listen ('':'' @ decimal_int (px_apiPort flags))] (\<lambda>out tr.
       out = Exited 1 \<and> (\<exists>e. tr = [RegisterProxyService, Serve (Some e)]) \<or>
       out = Returned \<and> tr = [RegisterProxyService, Serve None]) out tr)"
proof (cases "px_printVersion flags")
  case True
  then show ?thesis by (simp add: proxy_main_def) (intro starts_tell starts_return; simp)
next
  case False
  then show ?thesis
    unfolding proxy_main_def Let_def
    by simp (intro starts_follow starts_end starts_tell starts_or_exit starts_return; simp)
qed

end
