(* ===== verification/Scheme.thy ===== *)
theory Scheme
  imports Manager
begin

text \<open>
  The scheme, by which the Kubernetes client finds the resource of a Go type: the group and version of
  the operator's API (\<open>groupversion_info.go\<close>), the registration of its types (the \<open>init\<close> functions of
  the \<open>_types.go\<close> files), and the scheme of the operator (\<open>init\<close> of \<open>main.go\<close>). Schemes are of the
  Kubernetes libraries and a parameter.
\<close>

record GroupVersion =
  gv_Group :: string
  gv_Version :: string

record 's scheme_lib =
  NewScheme :: 's
  AddKnownTypes :: "GroupVersion \<Rightarrow> string list \<Rightarrow> 's \<Rightarrow> 's"
  clientgoscheme_AddToScheme :: "'s \<Rightarrow> 's"
  Recognizes :: "'s \<Rightarrow> GroupVersion \<Rightarrow> string \<Rightarrow> bool"

definition etcdGroupVersion :: GroupVersion where
  "etcdGroupVersion = \<lparr>gv_Group = ''etcd.improbable.io'', gv_Version = ''v1alpha1''\<rparr>"

text \<open>The types that each file registers; the files are initialised in the order of their names.\<close>

definition init_etcdbackup_types :: "string list" where
  "init_etcdbackup_types = [''EtcdBackup'', ''EtcdBackupList'']"

definition init_etcdbackupschedule_types :: "string list" where
  "init_etcdbackupschedule_types = [''EtcdBackupSchedule'', ''EtcdBackupScheduleList'']"

definition init_etcdcluster_types :: "string list" where
  "init_etcdcluster_types = [''EtcdCluster'', ''EtcdClusterList'']"

definition init_etcdpeer_types :: "string list" where
  "init_etcdpeer_types = [''EtcdPeer'', ''EtcdPeerList'']"

definition init_etcdrestore_types :: "string list" where
  "init_etcdrestore_types = [''EtcdRestore'', ''EtcdRestoreList'']"

definition SchemeBuilder :: "string list list" where
  "SchemeBuilder =
     [init_etcdbackup_types, init_etcdbackupschedule_types, init_etcdcluster_types, init_etcdpeer_types, init_etcdrestore_types]"

definition AddToScheme :: "'s scheme_lib \<Rightarrow> 's \<Rightarrow> 's" where
  "AddToScheme S = fold (AddKnownTypes S etcdGroupVersion) SchemeBuilder"

definition operatorScheme :: "'s scheme_lib \<Rightarrow> 's" where
  "operatorScheme S = AddToScheme S (clientgoscheme_AddToScheme S (NewScheme S))"

section \<open>What the libraries promise\<close>

fun group_version :: "kind \<Rightarrow> GroupVersion" where
  "group_version KService = \<lparr>gv_Group = [], gv_Version = ''v1''\<rparr>"
| "group_version KPVC = \<lparr>gv_Group = [], gv_Version = ''v1''\<rparr>"
| "group_version KPod = \<lparr>gv_Group = [], gv_Version = ''v1''\<rparr>"
| "group_version KServiceAccount = \<lparr>gv_Group = [], gv_Version = ''v1''\<rparr>"
| "group_version KReplicaSet = \<lparr>gv_Group = ''apps'', gv_Version = ''v1''\<rparr>"
| "group_version _ = etcdGroupVersion"

text \<open>Adding types makes them known and forgets none; the scheme of the Go client knows Kubernetes' own types.\<close>

definition scheme_ok :: "'s scheme_lib \<Rightarrow> bool" where
  "scheme_ok S \<longleftrightarrow>
     (\<forall>gv ks s gv' k. Recognizes S (AddKnownTypes S gv ks s) gv' k \<longleftrightarrow> gv' = gv \<and> k \<in> set ks \<or> Recognizes S s gv' k) \<and>
     (\<forall>s. \<forall>k \<in> {KService, KPVC, KPod, KServiceAccount, KReplicaSet}.
        Recognizes S (clientgoscheme_AddToScheme S s) (group_version k) (kind_name k))"

lemma AddToScheme_Recognizes:
  assumes "scheme_ok S"
  shows "Recognizes S (AddToScheme S s) gv k \<longleftrightarrow> gv = etcdGroupVersion \<and> k \<in> set (concat SchemeBuilder) \<or> Recognizes S s gv k"
proof -
  have "Recognizes S (fold (AddKnownTypes S etcdGroupVersion) kss s) gv k \<longleftrightarrow>
      gv = etcdGroupVersion \<and> k \<in> set (concat kss) \<or> Recognizes S s gv k" for kss s
    using assms by (induction kss arbitrary: s) (auto simp: scheme_ok_def)
  then show ?thesis by (simp add: AddToScheme_def)
qed

text \<open>The operator's client knows every kind of object that its handlers read or write, and the lists it asks for.\<close>

lemma operatorScheme_knows:
  assumes "scheme_ok S"
  shows "Recognizes S (operatorScheme S) (group_version k) (kind_name k)"
    "Recognizes S (operatorScheme S) etcdGroupVersion ''EtcdPeerList''"
proof -
  show "Recognizes S (operatorScheme S) (group_version k) (kind_name k)"
    unfolding operatorScheme_def AddToScheme_Recognizes [OF assms]
    using assms by (cases k) (auto simp: SchemeBuilder_def init_etcdbackup_types_def init_etcdbackupschedule_types_def
        init_etcdcluster_types_def init_etcdpeer_types_def init_etcdrestore_types_def scheme_ok_def)
  show "Recognizes S (operatorScheme S) etcdGroupVersion ''EtcdPeerList''"
    unfolding operatorScheme_def AddToScheme_Recognizes [OF assms] by (simp add: SchemeBuilder_def init_etcdpeer_types_def)
qed

text \<open>The hypothesis can hold: a scheme as the set of what it knows.\<close>

definition set_scheme :: "(GroupVersion \<times> string) set scheme_lib" where
  "set_scheme =
     \<lparr>NewScheme = {}, AddKnownTypes = (\<lambda>gv ks s. s \<union> Pair gv ` set ks),
      clientgoscheme_AddToScheme = (\<lambda>s. s \<union> (\<lambda>k. (group_version k, kind_name k)) ` {KService, KPVC, KPod, KServiceAccount, KReplicaSet}),
      Recognizes = (\<lambda>s gv k. (gv, k) \<in> s)\<rparr>"

lemma set_scheme_ok: "scheme_ok set_scheme"
  by (auto simp: scheme_ok_def set_scheme_def)

end
