(* ===== verification/EtcdClient.thy ===== *)
theory EtcdClient
  imports Client
begin

text \<open>
  The real builder of etcd clients (\<open>internal/etcd/etcd.go\<close>): one connection serves both the members
  interface and the version. The etcd client library is outside the sources and a parameter; its \<open>New\<close>
  only checks and stores the configuration.
\<close>

record ('w, 'c, 'm) etcdclient =
  lib_New :: "EtcdConfig \<Rightarrow> string + 'c"
  lib_NewMembersAPI :: "'c \<Rightarrow> 'm"
  lib_List :: "'m \<Rightarrow> 'w \<Rightarrow> (string + Member list) \<times> 'w"
  lib_Add :: "'m \<Rightarrow> string \<Rightarrow> 'w \<Rightarrow> (string + Member) \<times> 'w"
  lib_Remove :: "'m \<Rightarrow> string \<Rightarrow> 'w \<Rightarrow> string option \<times> 'w"
  lib_GetVersion :: "'c \<Rightarrow> 'w \<Rightarrow> (string + Versions) \<times> 'w"

record ('c, 'm) ClientEtcdAPI =
  MembersAPI :: 'm
  ApiClient :: 'c

definition ClientEtcdAPIBuilder_New :: "('w, 'c, 'm) etcdclient \<Rightarrow> EtcdConfig \<Rightarrow> string + ('c, 'm) ClientEtcdAPI" where
  "ClientEtcdAPIBuilder_New L config =
     (case lib_New L config of
        Inl err \<Rightarrow> Inl err
      | Inr client \<Rightarrow> Inr \<lparr>MembersAPI = lib_NewMembersAPI L client, ApiClient = client\<rparr>)"

text \<open>
  The methods of \<open>API\<close> are promoted from the two embedded interfaces. The handlers call a method only
  on an API that was built, so what an unbuilt one answers does not matter.
\<close>

definition on_api :: "('w, 'c, 'm) etcdclient \<Rightarrow> EtcdConfig \<Rightarrow> (string \<Rightarrow> 'a) \<Rightarrow> (('c, 'm) ClientEtcdAPI \<Rightarrow> 'w \<Rightarrow> 'a \<times> 'w) \<Rightarrow> 'w \<Rightarrow> 'a \<times> 'w" where
  "on_api L config fail f w = (case ClientEtcdAPIBuilder_New L config of Inl err \<Rightarrow> (fail err, w) | Inr api \<Rightarrow> f api w)"

definition client_etcd_api :: "('w, 'c, 'm) etcdclient \<Rightarrow> 'w etcd_api" where
  "client_etcd_api L =
     \<lparr>e_New = (\<lambda>config w. (case ClientEtcdAPIBuilder_New L config of Inl err \<Rightarrow> Some err | Inr api \<Rightarrow> None, w)),
      e_List = (\<lambda>config. on_api L config Inl (\<lambda>api. lib_List L (MembersAPI api))),
      e_Add = (\<lambda>config url. on_api L config Inl (\<lambda>api. lib_Add L (MembersAPI api) url)),
      e_Remove = (\<lambda>config mid. on_api L config Some (\<lambda>api. lib_Remove L (MembersAPI api) mid)),
      e_GetVersion = (\<lambda>config. on_api L config Inl (\<lambda>api. lib_GetVersion L (ApiClient api)))\<rparr>"

text \<open>Building fails exactly when the library refuses the configuration, and asks nobody.\<close>

lemma New_fails_iff: "fst (e_New (client_etcd_api L) config w) = Some err \<longleftrightarrow> lib_New L config = Inl err"
  by (simp add: client_etcd_api_def ClientEtcdAPIBuilder_New_def split: sum.split)

lemma New_quiet: "snd (e_New (client_etcd_api L) config w) = w"
  by (simp add: client_etcd_api_def)

text \<open>Once built, members and version are asked through the same connection.\<close>

lemma built_api_calls:
  assumes "lib_New L config = Inr client"
  shows "e_List (client_etcd_api L) config = lib_List L (lib_NewMembersAPI L client)"
    "e_Add (client_etcd_api L) config = lib_Add L (lib_NewMembersAPI L client)"
    "e_Remove (client_etcd_api L) config = lib_Remove L (lib_NewMembersAPI L client)"
    "e_GetVersion (client_etcd_api L) config = lib_GetVersion L client"
  using assms by (auto simp: client_etcd_api_def on_api_def ClientEtcdAPIBuilder_New_def fun_eq_iff)

end
