(* ===== verification/Memory.thy ===== *)
theory Memory
  imports Prelude
begin

text \<open>
  Go's memory, for the code in which sharing matters: cells that are allocated and never moved,
  pointers, slices and maps that refer to cells, and the statements from which the generated deep
  copies are built. \<open>deep\<close> says what a deep copy is: the copy holds the same value, what was in memory
  before is untouched, and every cell that the copy reaches is new.
\<close>

section \<open>Cells, pointers and slices\<close>

text \<open>
  An address is the position of a cell. A pointer or a map is an address or nil. A slice is a part of
  a backing array, or nil; its capacity plays no role here. A computation that dereferences nil, or
  goes out of the bounds of an array, is \<open>None\<close>.
\<close>

type_synonym addr = nat
type_synonym pointer = "addr option"

record slice_header =
  sl_array :: addr
  sl_offset :: nat
  sl_len :: nat

type_synonym slice = "slice_header option"

text \<open>\<open>unbox\<close> reads a cell as a value of the type that it should have.\<close>

definition load :: "('c \<Rightarrow> 'v option) \<Rightarrow> addr \<Rightarrow> 'c list \<Rightarrow> 'v option" where
  "load unbox a h = (if a < length h then unbox (h ! a) else None)"

definition alloc :: "'c \<Rightarrow> 'c list \<Rightarrow> addr \<times> 'c list" where
  "alloc c h = (length h, h @ [c])"

definition store :: "addr \<Rightarrow> 'c \<Rightarrow> 'c list \<Rightarrow> 'c list" where
  "store a c h = h[a := c]"

section \<open>Copying\<close>

text \<open>
  A copier gets the value to copy, references included, and yields the value that the copy holds. A
  copy through a pointer allocates a cell, puts the value there and then what copying makes of it.
\<close>

definition copy_pointer ::
  "('v \<Rightarrow> 'c) \<Rightarrow> ('c \<Rightarrow> 'v option) \<Rightarrow> ('v \<Rightarrow> 'c list \<Rightarrow> ('v \<times> 'c list) option) \<Rightarrow>
   pointer \<Rightarrow> 'c list \<Rightarrow> (pointer \<times> 'c list) option" where
  "copy_pointer box unbox copy p h =
     (case p of
        None \<Rightarrow> Some (None, h)
      | Some a \<Rightarrow> do {
          v \<leftarrow> load unbox a h;
          let (b, h1) = alloc (box v) h;
          (v', h2) \<leftarrow> copy v h1;
          Some (Some b, store b (box v') h2)
        })"

text \<open>A slice of values without references: \<open>make\<close> and \<open>copy\<close>.\<close>

definition copy_slice ::
  "('v list \<Rightarrow> 'c) \<Rightarrow> ('c \<Rightarrow> 'v list option) \<Rightarrow> 'v \<Rightarrow> slice \<Rightarrow> 'c list \<Rightarrow> (slice \<times> 'c list) option" where
  "copy_slice box unbox zero s h =
     (case s of
        None \<Rightarrow> Some (None, h)
      | Some sl \<Rightarrow> do {
          xs \<leftarrow> load unbox (sl_array sl) h;
          if sl_offset sl + sl_len sl \<le> length xs then do {
            let (b, h1) = alloc (box (replicate (sl_len sl) zero)) h;
            Some (Some \<lparr>sl_array = b, sl_offset = 0, sl_len = sl_len sl\<rparr>,
                  store b (box (take (sl_len sl) (drop (sl_offset sl) xs))) h1)
          } else None
        })"

text \<open>A slice of structs: \<open>make\<close> and a loop that copies each element into its place.\<close>

fun fill :: "('v list \<Rightarrow> 'c) \<Rightarrow> ('c \<Rightarrow> 'v list option) \<Rightarrow> ('v \<Rightarrow> 'c list \<Rightarrow> ('v \<times> 'c list) option) \<Rightarrow>
    slice_header \<Rightarrow> addr \<Rightarrow> nat list \<Rightarrow> 'c list \<Rightarrow> 'c list option" where
  "fill box unbox copy sl b [] h = Some h"
| "fill box unbox copy sl b (i # is) h = do {
     xs \<leftarrow> load unbox (sl_array sl) h;
     if sl_offset sl + i < length xs then do {
       (v', h1) \<leftarrow> copy (xs ! (sl_offset sl + i)) h;
       ys \<leftarrow> load unbox b h1;
       if i < length ys then fill box unbox copy sl b is (store b (box (ys[i := v'])) h1) else None
     } else None
   }"

definition copy_items ::
  "('v list \<Rightarrow> 'c) \<Rightarrow> ('c \<Rightarrow> 'v list option) \<Rightarrow> 'v \<Rightarrow> ('v \<Rightarrow> 'c list \<Rightarrow> ('v \<times> 'c list) option) \<Rightarrow>
   slice \<Rightarrow> 'c list \<Rightarrow> (slice \<times> 'c list) option" where
  "copy_items box unbox zero copy s h =
     (case s of
        None \<Rightarrow> Some (None, h)
      | Some sl \<Rightarrow> do {
          let (b, h1) = alloc (box (replicate (sl_len sl) zero)) h;
          h2 \<leftarrow> fill box unbox copy sl b [0..<sl_len sl] h1;
          Some (Some \<lparr>sl_array = b, sl_offset = 0, sl_len = sl_len sl\<rparr>, h2)
        })"

text \<open>
  A map: \<open>make\<close> and a loop over the entries. Go leaves the order of such a loop open; \<open>order\<close> is the
  order it takes for the entries in this memory.
\<close>

definition copy_map ::
  "(smap \<Rightarrow> 'c) \<Rightarrow> ('c \<Rightarrow> smap option) \<Rightarrow> ('c list \<Rightarrow> smap \<Rightarrow> smap) \<Rightarrow>
   pointer \<Rightarrow> 'c list \<Rightarrow> (pointer \<times> 'c list) option" where
  "copy_map box unbox order p h =
     (case p of
        None \<Rightarrow> Some (None, h)
      | Some a \<Rightarrow> do {
          m \<leftarrow> load unbox a h;
          let (b, h1) = alloc (box []) h;
          Some (Some b, store b (box (foldl (\<lambda>out (key, val). AList.update key val out) [] (order h m))) h1)
        })"

section \<open>Reading\<close>

text \<open>
  What a value with references stands for: a walk through the memory yields the value without
  references, and the addresses it has passed. A map is read with its keys in order.
\<close>

definition walk_pointer ::
  "('c \<Rightarrow> 'v option) \<Rightarrow> ('v \<Rightarrow> 'c list \<Rightarrow> ('a \<times> addr list) option) \<Rightarrow>
   pointer \<Rightarrow> 'c list \<Rightarrow> ('a option \<times> addr list) option" where
  "walk_pointer unbox walk p h =
     (case p of
        None \<Rightarrow> Some (None, [])
      | Some a \<Rightarrow> do {v \<leftarrow> load unbox a h; (x, as) \<leftarrow> walk v h; Some (Some x, a # as)})"

fun walk_list ::
  "('v \<Rightarrow> 'c list \<Rightarrow> ('a \<times> addr list) option) \<Rightarrow> 'v list \<Rightarrow> 'c list \<Rightarrow> ('a list \<times> addr list) option" where
  "walk_list walk [] h = Some ([], [])"
| "walk_list walk (v # vs) h = do {(x, as) \<leftarrow> walk v h; (xs, bs) \<leftarrow> walk_list walk vs h; Some (x # xs, as @ bs)}"

definition walk_slice ::
  "('c \<Rightarrow> 'v list option) \<Rightarrow> ('v \<Rightarrow> 'c list \<Rightarrow> ('a \<times> addr list) option) \<Rightarrow>
   slice \<Rightarrow> 'c list \<Rightarrow> ('a list option \<times> addr list) option" where
  "walk_slice unbox walk s h =
     (case s of
        None \<Rightarrow> Some (None, [])
      | Some sl \<Rightarrow> do {
          vs \<leftarrow> load unbox (sl_array sl) h;
          if sl_offset sl + sl_len sl \<le> length vs then do {
            (xs, as) \<leftarrow> walk_list walk (take (sl_len sl) (drop (sl_offset sl) vs)) h;
            Some (Some xs, sl_array sl # as)
          } else None
        })"

definition walk_map ::
  "('c \<Rightarrow> smap option) \<Rightarrow> pointer \<Rightarrow> 'c list \<Rightarrow> (smap option \<times> addr list) option" where
  "walk_map unbox p h =
     (case p of
        None \<Rightarrow> Some (None, [])
      | Some a \<Rightarrow> do {
          m \<leftarrow> load unbox a h;
          if distinct (map fst m) then Some (Some (sort_key fst m), [a]) else None
        })"

text \<open>A value without references.\<close>

definition plain :: "('v \<Rightarrow> 'a) \<Rightarrow> 'v \<Rightarrow> 'c list \<Rightarrow> ('a \<times> addr list) option" where
  "plain f v h = Some (f v, [])"

definition assign :: "'v \<Rightarrow> 'c list \<Rightarrow> ('v \<times> 'c list) option" where
  "assign v h = Some (v, h)"

section \<open>What a deep copy is\<close>

text \<open>A walk depends on the cells it passes, and on nothing else.\<close>

definition same_at :: "'c list \<Rightarrow> 'c list \<Rightarrow> addr \<Rightarrow> bool" where
  "same_at h h' a \<longleftrightarrow> a < length h' \<and> h' ! a = h ! a"

definition local :: "('v \<Rightarrow> 'c list \<Rightarrow> ('a \<times> addr list) option) \<Rightarrow> bool" where
  "local walk \<longleftrightarrow> (\<forall>v h x as. walk v h = Some (x, as) \<longrightarrow> (\<forall>a \<in> set as. a < length h) \<and>
     (\<forall>h'. (\<forall>a \<in> set as. same_at h h' a) \<longrightarrow> walk v h' = Some (x, as)))"

definition deep ::
  "('v \<Rightarrow> 'c list \<Rightarrow> ('v \<times> 'c list) option) \<Rightarrow> ('v \<Rightarrow> 'c list \<Rightarrow> ('a \<times> addr list) option) \<Rightarrow> bool" where
  "deep copy walk \<longleftrightarrow> local walk \<and> (\<forall>v h x as. walk v h = Some (x, as) \<longrightarrow>
     (\<exists>v' new as'. copy v h = Some (v', h @ new) \<and> walk v' (h @ new) = Some (x, as') \<and>
        set as' \<subseteq> {length h..<length (h @ new)}))"

lemma localD:
  assumes "local walk" "walk v h = Some (x, as)"
  shows "\<And>a. a \<in> set as \<Longrightarrow> a < length h"
    and "(\<And>a. a \<in> set as \<Longrightarrow> same_at h h' a) \<Longrightarrow> walk v h' = Some (x, as)"
  using assms unfolding local_def by blast+

lemma localI:
  assumes "\<And>v h x as. walk v h = Some (x, as) \<Longrightarrow> (\<forall>a \<in> set as. a < length h) \<and>
    (\<forall>h'. (\<forall>a \<in> set as. same_at h h' a) \<longrightarrow> walk v h' = Some (x, as))"
  shows "local walk"
  using assms unfolding local_def by blast

lemma deepD:
  assumes "deep copy walk" "walk v h = Some (x, as)"
  obtains v' new as' where "copy v h = Some (v', h @ new)" "walk v' (h @ new) = Some (x, as')"
    "\<And>a. a \<in> set as' \<Longrightarrow> length h \<le> a \<and> a < length h + length new"
proof -
  from assms obtain v' new as' where "copy v h = Some (v', h @ new)" "walk v' (h @ new) = Some (x, as')"
    "set as' \<subseteq> {length h..<length (h @ new)}" unfolding deep_def by blast
  then show ?thesis by (intro that) auto
qed

lemma deep_local: "deep copy walk \<Longrightarrow> local walk"
  by (simp add: deep_def)

lemma deepI:
  assumes "local walk"
    and "\<And>v h x as. walk v h = Some (x, as) \<Longrightarrow> \<exists>v' new as'. copy v h = Some (v', h @ new) \<and>
      walk v' (h @ new) = Some (x, as') \<and> (\<forall>a \<in> set as'. length h \<le> a \<and> a < length h + length new)"
  shows "deep copy walk"
  unfolding deep_def
proof (intro conjI allI impI)
  fix v h x as assume "walk v h = Some (x, as)"
  from assms(2) [OF this] obtain v' new as' where "copy v h = Some (v', h @ new)"
    "walk v' (h @ new) = Some (x, as')" "\<forall>a \<in> set as'. length h \<le> a \<and> a < length h + length new" by blast
  then show "\<exists>v' new as'. copy v h = Some (v', h @ new) \<and> walk v' (h @ new) = Some (x, as') \<and>
      set as' \<subseteq> {length h..<length (h @ new)}"
    by (intro exI [of _ v'] exI [of _ new] exI [of _ as']) auto
qed (rule assms(1))

lemma same_at_append [simp]: "a < length h \<Longrightarrow> same_at h (h @ new) a"
  by (simp add: same_at_def nth_append)

lemma load_Some: "load unbox a h = Some v \<longleftrightarrow> a < length h \<and> unbox (h ! a) = Some v"
  by (simp add: load_def)

lemma load_same: "load unbox a h = Some v \<Longrightarrow> same_at h h' a \<Longrightarrow> load unbox a h' = Some v"
  by (simp add: load_Some same_at_def)

lemma walk_append: "local walk \<Longrightarrow> walk v h = Some (x, as) \<Longrightarrow> walk v (h @ new) = Some (x, as)"
  by (metis localD same_at_append)

lemma load_append: "load unbox a h = Some v \<Longrightarrow> load unbox a (h @ new) = Some v"
  by (simp add: load_Some nth_append)

section \<open>The statements of a deep copy are deep\<close>

lemma local_plain: "local (plain f)"
  by (rule localI) (simp add: plain_def)

lemma deep_assign: "deep assign (plain f)"
  by (rule deepI [OF local_plain]) (auto simp: assign_def plain_def)

lemma local_pointer:
  assumes "local walk"
  shows "local (walk_pointer unbox walk)"
proof (rule localI)
  fix p h x as assume w: "walk_pointer unbox walk p h = Some (x, as)"
  show "(\<forall>a \<in> set as. a < length h) \<and> (\<forall>h'. (\<forall>a \<in> set as. same_at h h' a) \<longrightarrow> walk_pointer unbox walk p h' = Some (x, as))"
  proof (cases p)
    case (Some a)
    with w obtain v y bs where v: "load unbox a h = Some v" and y: "walk v h = Some (y, bs)" and as: "as = a # bs" "x = Some y"
      by (auto simp: walk_pointer_def bind_eq_Some_conv)
    have "walk_pointer unbox walk p h' = Some (x, as)" if "\<forall>a \<in> set as. same_at h h' a" for h'
      using that load_same [OF v, of h'] localD(2) [OF assms y, of h'] by (simp add: walk_pointer_def as Some)
    then show ?thesis
      using localD(1) [OF assms y] v by (simp add: as load_Some)
  qed (use w in \<open>simp add: walk_pointer_def\<close>)
qed

text \<open>A box and its reading fit each other.\<close>

locale boxed =
  fixes box :: "'v \<Rightarrow> 'c" and unbox :: "'c \<Rightarrow> 'v option"
  assumes unbox_box [simp]: "unbox (box v) = Some v"
begin

lemma load_stored [simp]:
  "load unbox (length h) (h @ box v # new) = Some v"
  by (simp add: load_Some)

lemma store_alloc: "store (length h) (box v') (h @ box v # new) = h @ box v' # new"
  by (simp add: store_def list_update_append)

lemma deep_pointer:
  assumes "deep copy walk"
  shows "deep (copy_pointer box unbox copy) (walk_pointer unbox walk)"
proof (rule deepI [OF local_pointer [OF deep_local [OF assms]]])
  fix p h x as assume w: "walk_pointer unbox walk p h = Some (x, as)"
  show "\<exists>p' new as'. copy_pointer box unbox copy p h = Some (p', h @ new) \<and>
      walk_pointer unbox walk p' (h @ new) = Some (x, as') \<and> (\<forall>a \<in> set as'. length h \<le> a \<and> a < length h + length new)"
  proof (cases p)
    case None
    with w show ?thesis by (auto simp: copy_pointer_def walk_pointer_def)
  next
    case (Some a)
    with w obtain v y bs where v: "load unbox a h = Some v" and y: "walk v h = Some (y, bs)" and x: "x = Some y"
      by (auto simp: walk_pointer_def bind_eq_Some_conv)
    note walk_append [OF deep_local [OF assms] y, of "[box v]"]
    from deepD [OF assms this] obtain v' new cs where c: "copy v (h @ [box v]) = Some (v', h @ box v # new)"
      and w': "walk v' (h @ box v # new) = Some (y, cs)"
      and cs: "\<And>a. a \<in> set cs \<Longrightarrow> length h < a \<and> a < Suc (length h + length new)" by (auto simp: Suc_le_eq)
    have "walk v' (h @ box v' # new) = Some (y, cs)"
    proof (rule localD(2) [OF deep_local [OF assms] w'])
      fix a assume "a \<in> set cs"
      with cs show "same_at (h @ box v # new) (h @ box v' # new) a"
        by (auto simp: same_at_def nth_append nth_Cons split: nat.split)
    qed
    then show ?thesis
      using cs by (intro exI [of _ "Some (length h)"] exI [of _ "box v' # new"] exI [of _ "length h # cs"])
        (auto simp: Some copy_pointer_def walk_pointer_def v c alloc_def store_alloc x less_imp_le less_Suc_eq_le)
  qed
qed

end

section \<open>Slices and maps\<close>

lemma local_list:
  assumes "local walk"
  shows "local (walk_list walk)"
proof (rule localI)
  fix vs h x as assume "walk_list walk vs h = Some (x, as)"
  then show "(\<forall>a \<in> set as. a < length h) \<and> (\<forall>h'. (\<forall>a \<in> set as. same_at h h' a) \<longrightarrow> walk_list walk vs h' = Some (x, as))"
  proof (induction vs arbitrary: x as)
    case (Cons v vs)
    from Cons.prems obtain y bs ys cs where y: "walk v h = Some (y, bs)" and ys: "walk_list walk vs h = Some (ys, cs)"
      and eqs: "x = y # ys" "as = bs @ cs" by (auto simp: bind_eq_Some_conv)
    have "walk_list walk (v # vs) h' = Some (x, as)" if "\<forall>a \<in> set as. same_at h h' a" for h'
    proof -
      have "walk v h' = Some (y, bs)" by (rule localD(2) [OF assms y]) (use that in \<open>simp add: eqs\<close>)
      moreover have "walk_list walk vs h' = Some (ys, cs)"
        by (rule conjunct2 [OF Cons.IH [OF ys], rule_format]) (use that in \<open>simp add: eqs\<close>)
      ultimately show ?thesis by (simp add: eqs)
    qed
    moreover have "a < length h" if "a \<in> set as" for a
      using that localD(1) [OF assms y] conjunct1 [OF Cons.IH [OF ys]] by (auto simp: eqs)
    ultimately show ?case by blast
  qed simp
qed

lemma local_slice:
  assumes "local walk"
  shows "local (walk_slice unbox walk)"
proof (rule localI)
  fix s h x as assume w: "walk_slice unbox walk s h = Some (x, as)"
  show "(\<forall>a \<in> set as. a < length h) \<and> (\<forall>h'. (\<forall>a \<in> set as. same_at h h' a) \<longrightarrow> walk_slice unbox walk s h' = Some (x, as))"
  proof (cases s)
    case (Some sl)
    with w obtain vs y bs where v: "load unbox (sl_array sl) h = Some vs"
      and y: "walk_list walk (take (sl_len sl) (drop (sl_offset sl) vs)) h = Some (y, bs)"
      and eqs: "as = sl_array sl # bs" "x = Some y" "sl_offset sl + sl_len sl \<le> length vs"
      by (auto simp: walk_slice_def bind_eq_Some_conv split: if_splits)
    have "walk_slice unbox walk s h' = Some (x, as)" if "\<forall>a \<in> set as. same_at h h' a" for h'
      using that load_same [OF v, of h'] localD(2) [OF local_list [OF assms] y, of h']
      by (simp add: walk_slice_def eqs Some)
    then show ?thesis
      using localD(1) [OF local_list [OF assms] y] v by (simp add: eqs load_Some)
  qed (use w in \<open>simp add: walk_slice_def\<close>)
qed

lemma local_map: "local (walk_map unbox)"
proof (rule localI)
  fix p h x as assume "walk_map unbox p h = Some (x, as)"
  then show "(\<forall>a \<in> set as. a < length h) \<and> (\<forall>h'. (\<forall>a \<in> set as. same_at h h' a) \<longrightarrow> walk_map unbox p h' = Some (x, as))"
    by (auto simp: walk_map_def bind_eq_Some_conv load_Some same_at_def split: option.splits if_splits)
qed

lemma walk_list_plain [simp]: "walk_list (plain f) vs h = Some (map f vs, [])"
  by (induction vs) (simp_all add: plain_def)

lemma update_new: "k \<notin> fst ` set xs \<Longrightarrow> AList.update k v xs = xs @ [(k, v)]"
  by (induction xs) auto

lemma update_entries:
  assumes "distinct (map fst (xs @ ys))"
  shows "foldl (\<lambda>out (key, val). AList.update key val out) xs ys = xs @ ys"
  using assms
proof (induction ys arbitrary: xs)
  case (Cons y ys)
  obtain k v where y: "y = (k, v)" by (cases y)
  have "AList.update k v xs = xs @ [(k, v)]"
    using Cons.prems by (intro update_new) (auto simp: y)
  with Cons.IH [of "xs @ [(k, v)]"] Cons.prems show ?case by (simp add: y)
qed simp

lemma walk_list_append:
  "walk_list walk us h = Some (xs, as) \<Longrightarrow> walk_list walk vs h = Some (ys, bs) \<Longrightarrow>
   walk_list walk (us @ vs) h = Some (xs @ ys, as @ bs)"
  by (induction us arbitrary: xs as) (auto simp: bind_eq_Some_conv)

lemma walk_list_nth:
  "walk_list walk vs h = Some (xs, as) \<Longrightarrow>
   length xs = length vs \<and> (\<forall>k < length vs. \<exists>bs. walk (vs ! k) h = Some (xs ! k, bs))"
proof (induction vs arbitrary: xs as)
  case (Cons v vs)
  then obtain y bs ys cs where "walk v h = Some (y, bs)" "walk_list walk vs h = Some (ys, cs)" "xs = y # ys"
    by (auto simp: bind_eq_Some_conv)
  with Cons.IH show ?case by (auto simp: nth_Cons split: nat.split)
qed simp

lemma same_beyond: "length h < a \<Longrightarrow> a < Suc (length h + length new) \<Longrightarrow> same_at (h @ x # new) (h @ y # new @ rest) a"
  by (auto simp: same_at_def nth_append nth_Cons split: nat.split)

locale boxed_array = boxed box unbox for box :: "'v list \<Rightarrow> 'c" and unbox
begin

lemma deep_slice: "deep (copy_slice box unbox zero) (walk_slice unbox (plain f))"
proof (rule deepI [OF local_slice [OF local_plain]])
  fix s h x as assume w: "walk_slice unbox (plain f) s h = Some (x, as)"
  show "\<exists>s' new as'. copy_slice box unbox zero s h = Some (s', h @ new) \<and>
      walk_slice unbox (plain f) s' (h @ new) = Some (x, as') \<and> (\<forall>a \<in> set as'. length h \<le> a \<and> a < length h + length new)"
  proof (cases s)
    case None
    with w show ?thesis by (auto simp: copy_slice_def walk_slice_def)
  next
    case (Some sl)
    with w obtain vs where "load unbox (sl_array sl) h = Some vs" "sl_offset sl + sl_len sl \<le> length vs"
      "x = Some (map f (take (sl_len sl) (drop (sl_offset sl) vs)))"
      by (auto simp: walk_slice_def bind_eq_Some_conv split: if_splits)
    then show ?thesis
      by (intro exI [of _ "Some \<lparr>sl_array = length h, sl_offset = 0, sl_len = sl_len sl\<rparr>"]
            exI [of _ "[box (take (sl_len sl) (drop (sl_offset sl) vs))]"] exI [of _ "[length h]"])
        (simp add: Some copy_slice_def walk_slice_def alloc_def store_alloc)
  qed
qed

lemma fill_deep:
  assumes deep: "deep copy walk"
    and arr: "load unbox (sl_array sl) h = Some xs" "sl_offset sl + n \<le> length xs"
    and items: "walk_list walk (take n (drop (sl_offset sl) xs)) h = Some (ys, as)"
    and filled: "length ws = n" "k \<le> n" "walk_list walk (take k ws) (h @ box ws # new) = Some (take k ys, cs)"
      "\<forall>a \<in> set cs. length h < a"
  shows "\<exists>ws' new' cs'. fill box unbox copy sl (length h) [k..<n] (h @ box ws # new) = Some (h @ box ws' # new') \<and>
    length ws' = n \<and> walk_list walk ws' (h @ box ws' # new') = Some (ys, cs') \<and> (\<forall>a \<in> set cs'. length h < a)"
  using filled
proof (induction "n - k" arbitrary: k ws new cs)
  case 0
  with walk_list_nth [OF items] arr show ?case by auto
next
  case (Suc d)
  let ?h = "h @ box ws # new" and ?v = "xs ! (sl_offset sl + k)"
  note loc = deep_local [OF deep]
  have k: "k < n" using Suc.hyps(2) by simp
  from walk_list_nth [OF items] arr k obtain bs where "walk ?v h = Some (ys ! k, bs)" and len: "length ys = n" by auto
  from deepD [OF deep walk_append [OF loc this(1), of "box ws # new"]] obtain v' rest bs'
    where c: "copy ?v ?h = Some (v', ?h @ rest)" and w': "walk v' (?h @ rest) = Some (ys ! k, bs')"
      and bs': "\<And>a. a \<in> set bs' \<Longrightarrow> length ?h \<le> a \<and> a < length ?h + length rest" by blast
  let ?ws = "ws[k := v']" and ?new = "new @ rest"
  have "walk_list walk (take k ws) (h @ box ?ws # ?new) = Some (take k ys, cs)"
    using Suc.prems(4) localD(1) [OF local_list [OF loc] Suc.prems(3)]
    by (intro localD(2) [OF local_list [OF loc] Suc.prems(3)] same_beyond) auto
  moreover have "walk v' (h @ box ?ws # ?new) = Some (ys ! k, bs')"
  proof (rule localD(2) [OF loc w'])
    fix a assume "a \<in> set bs'"
    from bs' [OF this] same_beyond [of h a ?new "box ws" "box ?ws" "[]"]
    show "same_at (?h @ rest) (h @ box ?ws # ?new) a" by simp
  qed
  ultimately have "walk_list walk (take k ws @ [v']) (h @ box ?ws # ?new) = Some (take k ys @ [ys ! k], cs @ bs')"
    by (intro walk_list_append) auto
  then have "walk_list walk (take (Suc k) ?ws) (h @ box ?ws # ?new) = Some (take (Suc k) ys, cs @ bs')"
    using k Suc.prems(1) len by (simp add: take_Suc_conv_app_nth)
  moreover have "\<forall>a \<in> set (cs @ bs'). length h < a" using Suc.prems(4) bs' by force
  moreover have "fill box unbox copy sl (length h) [k..<n] ?h = fill box unbox copy sl (length h) [Suc k..<n] (h @ box ?ws # ?new)"
    using k arr Suc.prems(1) c by (simp add: upt_conv_Cons load_append store_alloc)
  ultimately show ?case
    using Suc.hyps(1) [of "Suc k" ?ws ?new "cs @ bs'"] Suc.hyps(2) k Suc.prems(1) by simp
qed

lemma deep_items:
  assumes "deep copy walk"
  shows "deep (copy_items box unbox zero copy) (walk_slice unbox walk)"
proof (rule deepI [OF local_slice [OF deep_local [OF assms]]])
  fix s h x as assume w: "walk_slice unbox walk s h = Some (x, as)"
  show "\<exists>s' new as'. copy_items box unbox zero copy s h = Some (s', h @ new) \<and>
      walk_slice unbox walk s' (h @ new) = Some (x, as') \<and> (\<forall>a \<in> set as'. length h \<le> a \<and> a < length h + length new)"
  proof (cases s)
    case None
    with w show ?thesis by (auto simp: copy_items_def walk_slice_def)
  next
    case (Some sl)
    let ?n = "sl_len sl"
    from Some w obtain vs ys bs where vs: "load unbox (sl_array sl) h = Some vs" "sl_offset sl + ?n \<le> length vs"
      and ys: "walk_list walk (take ?n (drop (sl_offset sl) vs)) h = Some (ys, bs)" and x: "x = Some ys"
      by (auto simp: walk_slice_def bind_eq_Some_conv split: if_splits)
    from fill_deep [OF assms vs ys, of "replicate ?n zero" 0 "[]" "[]"] obtain ws new cs
      where f: "fill box unbox copy sl (length h) [0..<?n] (h @ [box (replicate ?n zero)]) = Some (h @ box ws # new)"
        and ws: "length ws = ?n" "walk_list walk ws (h @ box ws # new) = Some (ys, cs)" "\<forall>a \<in> set cs. length h < a"
      by auto
    show ?thesis
      using localD(1) [OF local_list [OF deep_local [OF assms]] ws(2)] ws f
      by (intro exI [of _ "Some \<lparr>sl_array = length h, sl_offset = 0, sl_len = ?n\<rparr>"]
            exI [of _ "box ws # new"] exI [of _ "length h # cs"])
        (simp add: Some x copy_items_def walk_slice_def alloc_def less_imp_le)
  qed
qed

end

locale boxed_map = boxed box unbox for box :: "smap \<Rightarrow> 'c" and unbox
begin

lemma deep_map:
  assumes "\<And>h m. mset (order h m) = mset m"
  shows "deep (copy_map box unbox order) (walk_map unbox)"
proof (rule deepI [OF local_map])
  fix p h x as assume w: "walk_map unbox p h = Some (x, as)"
  show "\<exists>p' new as'. copy_map box unbox order p h = Some (p', h @ new) \<and>
      walk_map unbox p' (h @ new) = Some (x, as') \<and> (\<forall>a \<in> set as'. length h \<le> a \<and> a < length h + length new)"
  proof (cases p)
    case None
    with w show ?thesis by (auto simp: copy_map_def walk_map_def)
  next
    case (Some a)
    with w obtain m where m: "load unbox a h = Some m" "distinct (map fst m)" "x = Some (sort_key fst m)"
      by (auto simp: walk_map_def bind_eq_Some_conv split: if_splits)
    have d: "distinct (map fst (order h m))"
      using m(2) assms [of h m] by (metis mset_eq_imp_distinct_iff mset_map)
    then have "sort_key fst (order h m) = sort_key fst m"
      by (intro sort_key_inj_key_eq) (use assms in \<open>auto simp: distinct_map\<close>)
    with m d show ?thesis
      by (intro exI [of _ "Some (length h)"] exI [of _ "[box (order h m)]"] exI [of _ "[length h]"])
        (simp add: Some copy_map_def walk_map_def alloc_def store_alloc update_entries [of "[]", simplified])
  qed
qed

end

section \<open>Structs\<close>

text \<open>
  \<open>*out = *in\<close> copies the fields of a struct; then some are replaced, one after the other. The rules are
  for one, two and three such fields; \<open>get\<close> selects a field, \<open>put\<close> writes the fields back, and \<open>build\<close>
  builds the value from the struct and what its fields stand for.
\<close>

definition copy_both ::
  "('v \<Rightarrow> 'c list \<Rightarrow> ('v \<times> 'c list) option) \<Rightarrow> ('u \<Rightarrow> 'c list \<Rightarrow> ('u \<times> 'c list) option) \<Rightarrow>
   'v \<times> 'u \<Rightarrow> 'c list \<Rightarrow> (('v \<times> 'u) \<times> 'c list) option" where
  "copy_both c d x h = do {(v, h1) \<leftarrow> c (fst x) h; (u, h2) \<leftarrow> d (snd x) h1; Some ((v, u), h2)}"

definition walk_both ::
  "('v \<Rightarrow> 'c list \<Rightarrow> ('a \<times> addr list) option) \<Rightarrow> ('u \<Rightarrow> 'c list \<Rightarrow> ('b \<times> addr list) option) \<Rightarrow>
   'v \<times> 'u \<Rightarrow> 'c list \<Rightarrow> (('a \<times> 'b) \<times> addr list) option" where
  "walk_both w u x h = do {(y, as) \<leftarrow> w (fst x) h; (z, bs) \<leftarrow> u (snd x) h; Some ((y, z), as @ bs)}"

lemma walk_both_Some:
  "walk_both w u x h = Some (yz, cs) \<longleftrightarrow> (\<exists>y z as bs. w (fst x) h = Some (y, as) \<and> u (snd x) h = Some (z, bs) \<and>
     yz = (y, z) \<and> cs = as @ bs)"
  by (auto simp: walk_both_def bind_eq_Some_conv)

lemma deep_both:
  assumes c: "deep c w" and d: "deep d u"
  shows "deep (copy_both c d) (walk_both w u)"
proof (rule deepI)
  note wl = deep_local [OF c] and ul = deep_local [OF d]
  show "local (walk_both w u)"
  proof (rule localI)
    fix x h yz cs assume "walk_both w u x h = Some (yz, cs)"
    then obtain y z as bs where y: "w (fst x) h = Some (y, as)" and z: "u (snd x) h = Some (z, bs)"
      and eqs: "yz = (y, z)" "cs = as @ bs" by (auto simp: walk_both_Some)
    have "walk_both w u x h' = Some (yz, cs)" if "\<forall>a \<in> set cs. same_at h h' a" for h'
    proof -
      have "w (fst x) h' = Some (y, as)" by (rule localD(2) [OF wl y]) (use that in \<open>simp add: eqs\<close>)
      moreover have "u (snd x) h' = Some (z, bs)" by (rule localD(2) [OF ul z]) (use that in \<open>simp add: eqs\<close>)
      ultimately show ?thesis by (simp add: walk_both_Some eqs)
    qed
    then show "(\<forall>a \<in> set cs. a < length h) \<and> (\<forall>h'. (\<forall>a \<in> set cs. same_at h h' a) \<longrightarrow> walk_both w u x h' = Some (yz, cs))"
      using localD(1) [OF wl y] localD(1) [OF ul z] by (auto simp: eqs)
  qed
  fix x h yz cs assume "walk_both w u x h = Some (yz, cs)"
  then obtain y z as bs where y: "w (fst x) h = Some (y, as)" and z: "u (snd x) h = Some (z, bs)"
    and yz: "yz = (y, z)" by (auto simp: walk_both_Some)
  from deepD [OF c y] obtain v' new as' where v': "c (fst x) h = Some (v', h @ new)" "w v' (h @ new) = Some (y, as')"
    "\<And>a. a \<in> set as' \<Longrightarrow> length h \<le> a \<and> a < length h + length new" by blast
  from deepD [OF d walk_append [OF ul z, of new]] obtain u' rest bs' where u': "d (snd x) (h @ new) = Some (u', (h @ new) @ rest)"
    "u u' ((h @ new) @ rest) = Some (z, bs')"
    "\<And>a. a \<in> set bs' \<Longrightarrow> length (h @ new) \<le> a \<and> a < length (h @ new) + length rest" by blast
  have "\<forall>a \<in> set (as' @ bs'). length h \<le> a \<and> a < length h + length (new @ rest)"
    using v'(3) u'(3) by fastforce
  moreover have "walk_both w u (v', u') (h @ new @ rest) = Some (yz, as' @ bs')"
    using walk_append [OF wl v'(2), of rest] u'(2) by (auto simp: walk_both_Some yz)
  moreover have "copy_both c d x h = Some ((v', u'), h @ new @ rest)"
    using v'(1) u'(1) by (simp add: copy_both_def)
  ultimately show "\<exists>v' new as'. copy_both c d x h = Some (v', h @ new) \<and> walk_both w u v' (h @ new) = Some (yz, as') \<and>
      (\<forall>a \<in> set as'. length h \<le> a \<and> a < length h + length new)" by blast
qed

lemma deep_field:
  assumes c: "deep c w" and put: "\<And>v s. get (put v s) = s" "\<And>v s x. build (put v s) x = build v x"
  shows "deep (\<lambda>v h. do {(s, h1) \<leftarrow> c (get v) h; Some (put v s, h1)}) (\<lambda>v h. do {(x, as) \<leftarrow> w (get v) h; Some (build v x, as)})"
    (is "deep ?c ?w")
proof (rule deepI)
  note wl = deep_local [OF c]
  show "local ?w"
  proof (rule localI)
    fix v h y as assume "?w v h = Some (y, as)"
    then obtain x where x: "w (get v) h = Some (x, as)" and y: "y = build v x" by (auto simp: bind_eq_Some_conv)
    then show "(\<forall>a \<in> set as. a < length h) \<and> (\<forall>h'. (\<forall>a \<in> set as. same_at h h' a) \<longrightarrow> ?w v h' = Some (y, as))"
      using localD(1) [OF wl x] localD(2) [OF wl x] by auto
  qed
  fix v h y as assume "?w v h = Some (y, as)"
  then obtain x where x: "w (get v) h = Some (x, as)" and y: "y = build v x" by (auto simp: bind_eq_Some_conv)
  from deepD [OF c x] obtain s new as' where "c (get v) h = Some (s, h @ new)" "w s (h @ new) = Some (x, as')"
    "\<And>a. a \<in> set as' \<Longrightarrow> length h \<le> a \<and> a < length h + length new" by blast
  then show "\<exists>v' new as'. ?c v h = Some (v', h @ new) \<and> ?w v' (h @ new) = Some (y, as') \<and>
      (\<forall>a \<in> set as'. length h \<le> a \<and> a < length h + length new)"
    by (intro exI [of _ "put v s"] exI [of _ new] exI [of _ as']) (simp add: put y)
qed

lemma deep_fields2:
  assumes "deep c w" "deep d u" "\<And>v s t. get (put v s t) = s" "\<And>v s t. get' (put v s t) = t"
    "\<And>v s t x y. build (put v s t) x y = build v x y"
  shows "deep (\<lambda>v h. do {(s, h1) \<leftarrow> c (get v) h; (t, h2) \<leftarrow> d (get' v) h1; Some (put v s t, h2)})
    (\<lambda>v h. do {(x, as) \<leftarrow> w (get v) h; (y, bs) \<leftarrow> u (get' v) h; Some (build v x y, as @ bs)})"
  using deep_field [OF deep_both [OF assms(1,2)], of "\<lambda>v. (get v, get' v)" "\<lambda>v (s, t). put v s t" "\<lambda>v (x, y). build v x y"]
  by (simp add: assms(3-) copy_both_def walk_both_def split_def)

lemma deep_fields3:
  assumes "deep c w" "deep d u" "deep e r" "\<And>v s t z. get (put v s t z) = s" "\<And>v s t z. get' (put v s t z) = t"
    "\<And>v s t z. get'' (put v s t z) = z" "\<And>v s t z x y l. build (put v s t z) x y l = build v x y l"
  shows "deep (\<lambda>v h. do {(s, h1) \<leftarrow> c (get v) h; (t, h2) \<leftarrow> d (get' v) h1; (z, h3) \<leftarrow> e (get'' v) h2; Some (put v s t z, h3)})
    (\<lambda>v h. do {(x, as) \<leftarrow> w (get v) h; (y, bs) \<leftarrow> u (get' v) h; (l, cs) \<leftarrow> r (get'' v) h; Some (build v x y l, as @ bs @ cs)})"
  using deep_field [OF deep_both [OF assms(1) deep_both [OF assms(2,3)]], of "\<lambda>v. (get v, get' v, get'' v)"
      "\<lambda>v (s, t, z). put v s t z" "\<lambda>v (x, y, l). build v x y l"]
  by (simp add: assms(4-) copy_both_def walk_both_def split_def)

section \<open>What a deep copy is good for\<close>

text \<open>
  What is changed in the cells of the copy is not seen through the original, and what is changed
  elsewhere is not seen through the copy.
\<close>

lemma deep_isolates:
  assumes "deep copy walk" "walk v h = Some (x, as)" "copy v h = Some (v', h')" "walk v' h' = Some (y, as')"
  shows "y = x" "set as \<inter> set as' = {}"
    "\<And>g. (\<And>a. a < length h' \<Longrightarrow> a \<notin> set as' \<Longrightarrow> same_at h' g a) \<Longrightarrow> walk v g = Some (x, as)"
    "\<And>g. (\<And>a. a \<in> set as' \<Longrightarrow> same_at h' g a) \<Longrightarrow> walk v' g = Some (x, as')"
proof -
  note loc = deep_local [OF assms(1)]
  from deepD [OF assms(1,2)] assms(3,4) obtain new where h': "h' = h @ new" and y: "y = x"
    and as': "\<And>a. a \<in> set as' \<Longrightarrow> length h \<le> a" by (metis option.inject prod.inject)
  note as = localD(1) [OF loc assms(2)]
  show "y = x" by (rule y)
  show "set as \<inter> set as' = {}" using as as' by fastforce
  show "walk v g = Some (x, as)" if "\<And>a. a < length h' \<Longrightarrow> a \<notin> set as' \<Longrightarrow> same_at h' g a" for g
  proof (rule localD(2) [OF loc assms(2)])
    fix a assume "a \<in> set as"
    with as as' that [of a] show "same_at h g a" by (fastforce simp: h' same_at_def nth_append)
  qed
  show "walk v' g = Some (x, as')" if "\<And>a. a \<in> set as' \<Longrightarrow> same_at h' g a" for g
    using localD(2) [OF loc assms(4)] that y by blast
qed

end
