(* ===== verification/DeepCopy.thy ===== *)
theory DeepCopy
  imports ApiTypes Memory
begin

text \<open>
  The generated deep copies of \<open>api/v1alpha1/zz_generated.deepcopy.go\<close>, over memory. The rest of the
  development treats API objects as values; here a struct holds pointers, slices and maps, and the
  functions are translated statement by statement. \<open>DeepCopyInto\<close> is a function from the struct that
  \<open>in\<close> points to, to the struct it leaves where \<open>out\<close> points; \<open>out\<close> is always memory that the caller has
  just made.
\<close>

section \<open>Structs in memory\<close>

record TypeMeta =
  tm_Kind :: string
  tm_APIVersion :: string

text \<open>The structs of Kubernetes, as far as \<open>KubeTypes\<close> knows them.\<close>

record mObjectMeta =
  mm_Name :: string
  mm_GenerateName :: string
  mm_Namespace :: string
  mm_UID :: string
  mm_Labels :: pointer
  mm_Annotations :: pointer
  mm_Finalizers :: slice
  mm_OwnerReferences :: slice
  mm_DeletionTimestamp :: pointer

record mListMeta =
  ml_SelfLink :: string
  ml_ResourceVersion :: string
  ml_Continue :: string
  ml_RemainingItemCount :: pointer

record ListMeta =
  SelfLink :: string
  ResourceVersion :: string
  Continue :: string
  RemainingItemCount :: "64 word option"

record mResourceRequirements =
  mr_Limits :: pointer
  mr_Requests :: pointer

record mPersistentVolumeClaimSpec =
  mv_AccessModes :: slice
  mv_Resources :: mResourceRequirements
  mv_VolumeMode :: pointer
  mv_StorageClassName :: pointer
  mv_VolumeName :: string

text \<open>The structs of \<open>api/v1alpha1\<close> that hold references. The others are as in \<open>ApiTypes\<close>.\<close>

record mStaticBootstrap =
  m_InitialCluster :: slice

record mBootstrap =
  m_Static :: pointer
  m_InitialClusterState :: InitialClusterState

record mEtcdPeerStorage =
  m_VolumeClaimTemplate :: pointer

record mEtcdPodTemplateObjectMeta =
  m_Annotations :: pointer

record mEtcdPodTemplateSpec =
  m_Metadata :: pointer
  m_Resources :: pointer
  m_Affinity :: pointer

record mEtcdPeerSpec =
  mp_ClusterName :: string
  mp_Version :: string
  mp_Bootstrap :: pointer
  mp_Storage :: pointer
  mp_PodTemplate :: pointer

record mEtcdClusterSpec =
  mc_Version :: string
  mc_Replicas :: pointer
  mc_Storage :: pointer
  mc_PodTemplate :: pointer

record mEtcdClusterStatus =
  ms_Replicas :: int32
  ms_Members :: slice
  ms_ClusterVersion :: string

record mEtcdBackupStatus =
  mb_Phase :: EtcdBackupPhase
  mb_StartTime :: pointer
  mb_CompletionTime :: pointer

record mEtcdClusterTemplate =
  mt_ClusterName :: string
  mt_Spec :: mEtcdClusterSpec

record mEtcdRestoreSpec =
  m_Source :: EtcdRestoreSource
  m_ClusterTemplate :: mEtcdClusterTemplate

text \<open>A resource, and a list of resources.\<close>

record ('s, 't) mObject =
  o_TypeMeta :: TypeMeta
  o_ObjectMeta :: mObjectMeta
  o_Spec :: 's
  o_Status :: 't

record mList =
  ls_TypeMeta :: TypeMeta
  ls_ListMeta :: mListMeta
  ls_Items :: slice

type_synonym EtcdBackupScheduleStatus = unit
type_synonym mEtcdPeer = "(mEtcdPeerSpec, EtcdPeerStatus) mObject"
type_synonym mEtcdCluster = "(mEtcdClusterSpec, mEtcdClusterStatus) mObject"
type_synonym mEtcdBackup = "(EtcdBackupSpec, mEtcdBackupStatus) mObject"
type_synonym mEtcdBackupSchedule = "(EtcdBackupScheduleSpec, EtcdBackupScheduleStatus) mObject"
type_synonym mEtcdRestore = "(mEtcdRestoreSpec, EtcdRestoreStatus) mObject"
type_synonym mEtcdPeerList = mList
type_synonym mEtcdClusterList = mList
type_synonym mEtcdBackupList = mList
type_synonym mEtcdBackupScheduleList = mList
type_synonym mEtcdRestoreList = mList

section \<open>Cells\<close>

text \<open>What a cell of memory may hold: what a pointer points to, a backing array, or a map.\<close>

datatype (plugins only: code) cell =
    CInt32 int32
  | CInt64 "64 word"
  | CTime nat
  | CString string
  | CStrings "string list"
  | COwners "OwnerReference list"
  | CStringMap smap
  | CQuantities "(string \<times> Quantity) list"
  | CResourceRequirements mResourceRequirements
  | CPersistentVolumeClaimSpec mPersistentVolumeClaimSpec
  | CAffinity Affinity
  | CBootstrap mBootstrap
  | CEtcdBackup mEtcdBackup
  | CEtcdBackupDestination EtcdBackupDestination
  | CEtcdBackupList mEtcdBackupList
  | CEtcdBackupSchedule mEtcdBackupSchedule
  | CEtcdBackupScheduleList mEtcdBackupScheduleList
  | CEtcdBackupScheduleSpec EtcdBackupScheduleSpec
  | CEtcdBackupScheduleStatus EtcdBackupScheduleStatus
  | CEtcdBackupSource EtcdBackupSource
  | CEtcdBackupSpec EtcdBackupSpec
  | CEtcdBackupStatus mEtcdBackupStatus
  | CEtcdCluster mEtcdCluster
  | CEtcdClusterList mEtcdClusterList
  | CEtcdClusterSpec mEtcdClusterSpec
  | CEtcdClusterStatus mEtcdClusterStatus
  | CEtcdClusterTemplate mEtcdClusterTemplate
  | CEtcdMember EtcdMember
  | CEtcdPeer mEtcdPeer
  | CEtcdPeerList mEtcdPeerList
  | CEtcdPeerSpec mEtcdPeerSpec
  | CEtcdPeerStatus EtcdPeerStatus
  | CEtcdPeerStorage mEtcdPeerStorage
  | CEtcdPodTemplateObjectMeta mEtcdPodTemplateObjectMeta
  | CEtcdPodTemplateSpec mEtcdPodTemplateSpec
  | CEtcdRestore mEtcdRestore
  | CEtcdRestoreList mEtcdRestoreList
  | CEtcdRestoreSource EtcdRestoreSource
  | CEtcdRestoreSpec mEtcdRestoreSpec
  | CEtcdRestoreStatus EtcdRestoreStatus
  | CInitialClusterMember InitialClusterMember
  | CStaticBootstrap mStaticBootstrap
  | CInitialClusterMembers "InitialClusterMember list"
  | CEtcdMembers "EtcdMember list"
  | CEtcdBackups "mEtcdBackup list"
  | CEtcdBackupSchedules "mEtcdBackupSchedule list"
  | CEtcdClusters "mEtcdCluster list"
  | CEtcdPeers "mEtcdPeer list"
  | CEtcdRestores "mEtcdRestore list"

type_synonym memory = "cell list"

definition as_Int32 :: "cell \<Rightarrow> int32 option" where
  "as_Int32 c = (case c of CInt32 v \<Rightarrow> Some v | _ \<Rightarrow> None)"

definition as_Int64 :: "cell \<Rightarrow> 64 word option" where
  "as_Int64 c = (case c of CInt64 v \<Rightarrow> Some v | _ \<Rightarrow> None)"

definition as_Time :: "cell \<Rightarrow> nat option" where
  "as_Time c = (case c of CTime v \<Rightarrow> Some v | _ \<Rightarrow> None)"

definition as_String :: "cell \<Rightarrow> string option" where
  "as_String c = (case c of CString v \<Rightarrow> Some v | _ \<Rightarrow> None)"

definition as_Strings :: "cell \<Rightarrow> string list option" where
  "as_Strings c = (case c of CStrings v \<Rightarrow> Some v | _ \<Rightarrow> None)"

definition as_Owners :: "cell \<Rightarrow> OwnerReference list option" where
  "as_Owners c = (case c of COwners v \<Rightarrow> Some v | _ \<Rightarrow> None)"

definition as_StringMap :: "cell \<Rightarrow> smap option" where
  "as_StringMap c = (case c of CStringMap v \<Rightarrow> Some v | _ \<Rightarrow> None)"

definition as_Quantities :: "cell \<Rightarrow> ((string \<times> Quantity) list) option" where
  "as_Quantities c = (case c of CQuantities v \<Rightarrow> Some v | _ \<Rightarrow> None)"

definition as_ResourceRequirements :: "cell \<Rightarrow> mResourceRequirements option" where
  "as_ResourceRequirements c = (case c of CResourceRequirements v \<Rightarrow> Some v | _ \<Rightarrow> None)"

definition as_PersistentVolumeClaimSpec :: "cell \<Rightarrow> mPersistentVolumeClaimSpec option" where
  "as_PersistentVolumeClaimSpec c = (case c of CPersistentVolumeClaimSpec v \<Rightarrow> Some v | _ \<Rightarrow> None)"

definition as_Affinity :: "cell \<Rightarrow> Affinity option" where
  "as_Affinity c = (case c of CAffinity v \<Rightarrow> Some v | _ \<Rightarrow> None)"

definition as_Bootstrap :: "cell \<Rightarrow> mBootstrap option" where
  "as_Bootstrap c = (case c of CBootstrap v \<Rightarrow> Some v | _ \<Rightarrow> None)"

definition as_EtcdBackup :: "cell \<Rightarrow> mEtcdBackup option" where
  "as_EtcdBackup c = (case c of CEtcdBackup v \<Rightarrow> Some v | _ \<Rightarrow> None)"

definition as_EtcdBackupDestination :: "cell \<Rightarrow> EtcdBackupDestination option" where
  "as_EtcdBackupDestination c = (case c of CEtcdBackupDestination v \<Rightarrow> Some v | _ \<Rightarrow> None)"

definition as_EtcdBackupList :: "cell \<Rightarrow> mEtcdBackupList option" where
  "as_EtcdBackupList c = (case c of CEtcdBackupList v \<Rightarrow> Some v | _ \<Rightarrow> None)"

definition as_EtcdBackupSchedule :: "cell \<Rightarrow> mEtcdBackupSchedule option" where
  "as_EtcdBackupSchedule c = (case c of CEtcdBackupSchedule v \<Rightarrow> Some v | _ \<Rightarrow> None)"

definition as_EtcdBackupScheduleList :: "cell \<Rightarrow> mEtcdBackupScheduleList option" where
  "as_EtcdBackupScheduleList c = (case c of CEtcdBackupScheduleList v \<Rightarrow> Some v | _ \<Rightarrow> None)"

definition as_EtcdBackupScheduleSpec :: "cell \<Rightarrow> EtcdBackupScheduleSpec option" where
  "as_EtcdBackupScheduleSpec c = (case c of CEtcdBackupScheduleSpec v \<Rightarrow> Some v | _ \<Rightarrow> None)"

definition as_EtcdBackupScheduleStatus :: "cell \<Rightarrow> EtcdBackupScheduleStatus option" where
  "as_EtcdBackupScheduleStatus c = (case c of CEtcdBackupScheduleStatus v \<Rightarrow> Some v | _ \<Rightarrow> None)"

definition as_EtcdBackupSource :: "cell \<Rightarrow> EtcdBackupSource option" where
  "as_EtcdBackupSource c = (case c of CEtcdBackupSource v \<Rightarrow> Some v | _ \<Rightarrow> None)"

definition as_EtcdBackupSpec :: "cell \<Rightarrow> EtcdBackupSpec option" where
  "as_EtcdBackupSpec c = (case c of CEtcdBackupSpec v \<Rightarrow> Some v | _ \<Rightarrow> None)"

definition as_EtcdBackupStatus :: "cell \<Rightarrow> mEtcdBackupStatus option" where
  "as_EtcdBackupStatus c = (case c of CEtcdBackupStatus v \<Rightarrow> Some v | _ \<Rightarrow> None)"

definition as_EtcdCluster :: "cell \<Rightarrow> mEtcdCluster option" where
  "as_EtcdCluster c = (case c of CEtcdCluster v \<Rightarrow> Some v | _ \<Rightarrow> None)"

definition as_EtcdClusterList :: "cell \<Rightarrow> mEtcdClusterList option" where
  "as_EtcdClusterList c = (case c of CEtcdClusterList v \<Rightarrow> Some v | _ \<Rightarrow> None)"

definition as_EtcdClusterSpec :: "cell \<Rightarrow> mEtcdClusterSpec option" where
  "as_EtcdClusterSpec c = (case c of CEtcdClusterSpec v \<Rightarrow> Some v | _ \<Rightarrow> None)"

definition as_EtcdClusterStatus :: "cell \<Rightarrow> mEtcdClusterStatus option" where
  "as_EtcdClusterStatus c = (case c of CEtcdClusterStatus v \<Rightarrow> Some v | _ \<Rightarrow> None)"

definition as_EtcdClusterTemplate :: "cell \<Rightarrow> mEtcdClusterTemplate option" where
  "as_EtcdClusterTemplate c = (case c of CEtcdClusterTemplate v \<Rightarrow> Some v | _ \<Rightarrow> None)"

definition as_EtcdMember :: "cell \<Rightarrow> EtcdMember option" where
  "as_EtcdMember c = (case c of CEtcdMember v \<Rightarrow> Some v | _ \<Rightarrow> None)"

definition as_EtcdPeer :: "cell \<Rightarrow> mEtcdPeer option" where
  "as_EtcdPeer c = (case c of CEtcdPeer v \<Rightarrow> Some v | _ \<Rightarrow> None)"

definition as_EtcdPeerList :: "cell \<Rightarrow> mEtcdPeerList option" where
  "as_EtcdPeerList c = (case c of CEtcdPeerList v \<Rightarrow> Some v | _ \<Rightarrow> None)"

definition as_EtcdPeerSpec :: "cell \<Rightarrow> mEtcdPeerSpec option" where
  "as_EtcdPeerSpec c = (case c of CEtcdPeerSpec v \<Rightarrow> Some v | _ \<Rightarrow> None)"

definition as_EtcdPeerStatus :: "cell \<Rightarrow> EtcdPeerStatus option" where
  "as_EtcdPeerStatus c = (case c of CEtcdPeerStatus v \<Rightarrow> Some v | _ \<Rightarrow> None)"

definition as_EtcdPeerStorage :: "cell \<Rightarrow> mEtcdPeerStorage option" where
  "as_EtcdPeerStorage c = (case c of CEtcdPeerStorage v \<Rightarrow> Some v | _ \<Rightarrow> None)"

definition as_EtcdPodTemplateObjectMeta :: "cell \<Rightarrow> mEtcdPodTemplateObjectMeta option" where
  "as_EtcdPodTemplateObjectMeta c = (case c of CEtcdPodTemplateObjectMeta v \<Rightarrow> Some v | _ \<Rightarrow> None)"

definition as_EtcdPodTemplateSpec :: "cell \<Rightarrow> mEtcdPodTemplateSpec option" where
  "as_EtcdPodTemplateSpec c = (case c of CEtcdPodTemplateSpec v \<Rightarrow> Some v | _ \<Rightarrow> None)"

definition as_EtcdRestore :: "cell \<Rightarrow> mEtcdRestore option" where
  "as_EtcdRestore c = (case c of CEtcdRestore v \<Rightarrow> Some v | _ \<Rightarrow> None)"

definition as_EtcdRestoreList :: "cell \<Rightarrow> mEtcdRestoreList option" where
  "as_EtcdRestoreList c = (case c of CEtcdRestoreList v \<Rightarrow> Some v | _ \<Rightarrow> None)"

definition as_EtcdRestoreSource :: "cell \<Rightarrow> EtcdRestoreSource option" where
  "as_EtcdRestoreSource c = (case c of CEtcdRestoreSource v \<Rightarrow> Some v | _ \<Rightarrow> None)"

definition as_EtcdRestoreSpec :: "cell \<Rightarrow> mEtcdRestoreSpec option" where
  "as_EtcdRestoreSpec c = (case c of CEtcdRestoreSpec v \<Rightarrow> Some v | _ \<Rightarrow> None)"

definition as_EtcdRestoreStatus :: "cell \<Rightarrow> EtcdRestoreStatus option" where
  "as_EtcdRestoreStatus c = (case c of CEtcdRestoreStatus v \<Rightarrow> Some v | _ \<Rightarrow> None)"

definition as_InitialClusterMember :: "cell \<Rightarrow> InitialClusterMember option" where
  "as_InitialClusterMember c = (case c of CInitialClusterMember v \<Rightarrow> Some v | _ \<Rightarrow> None)"

definition as_StaticBootstrap :: "cell \<Rightarrow> mStaticBootstrap option" where
  "as_StaticBootstrap c = (case c of CStaticBootstrap v \<Rightarrow> Some v | _ \<Rightarrow> None)"

definition as_InitialClusterMembers :: "cell \<Rightarrow> InitialClusterMember list option" where
  "as_InitialClusterMembers c = (case c of CInitialClusterMembers v \<Rightarrow> Some v | _ \<Rightarrow> None)"

definition as_EtcdMembers :: "cell \<Rightarrow> EtcdMember list option" where
  "as_EtcdMembers c = (case c of CEtcdMembers v \<Rightarrow> Some v | _ \<Rightarrow> None)"

definition as_EtcdBackups :: "cell \<Rightarrow> mEtcdBackup list option" where
  "as_EtcdBackups c = (case c of CEtcdBackups v \<Rightarrow> Some v | _ \<Rightarrow> None)"

definition as_EtcdBackupSchedules :: "cell \<Rightarrow> mEtcdBackupSchedule list option" where
  "as_EtcdBackupSchedules c = (case c of CEtcdBackupSchedules v \<Rightarrow> Some v | _ \<Rightarrow> None)"

definition as_EtcdClusters :: "cell \<Rightarrow> mEtcdCluster list option" where
  "as_EtcdClusters c = (case c of CEtcdClusters v \<Rightarrow> Some v | _ \<Rightarrow> None)"

definition as_EtcdPeers :: "cell \<Rightarrow> mEtcdPeer list option" where
  "as_EtcdPeers c = (case c of CEtcdPeers v \<Rightarrow> Some v | _ \<Rightarrow> None)"

definition as_EtcdRestores :: "cell \<Rightarrow> mEtcdRestore list option" where
  "as_EtcdRestores c = (case c of CEtcdRestores v \<Rightarrow> Some v | _ \<Rightarrow> None)"

section \<open>Copiers of other packages\<close>

text \<open>
  The deep copies of Kubernetes' own structs, and the order in which a loop visits the entries of a
  map, which the language leaves open.
\<close>

record copiers =
  ObjectMeta_DeepCopyInto :: "mObjectMeta \<Rightarrow> memory \<Rightarrow> (mObjectMeta \<times> memory) option"
  ListMeta_DeepCopyInto :: "mListMeta \<Rightarrow> memory \<Rightarrow> (mListMeta \<times> memory) option"
  Time_DeepCopy :: "pointer \<Rightarrow> memory \<Rightarrow> (pointer \<times> memory) option"
  PersistentVolumeClaimSpec_DeepCopyInto ::
    "mPersistentVolumeClaimSpec \<Rightarrow> memory \<Rightarrow> (mPersistentVolumeClaimSpec \<times> memory) option"
  ResourceRequirements_DeepCopyInto ::
    "mResourceRequirements \<Rightarrow> memory \<Rightarrow> (mResourceRequirements \<times> memory) option"
  Affinity_DeepCopyInto :: "Affinity \<Rightarrow> memory \<Rightarrow> (Affinity \<times> memory) option"
  range_order :: "memory \<Rightarrow> smap \<Rightarrow> smap"

text \<open>
  An \<open>Affinity\<close> is a value without references here, so what its own copier shares inside it is not
  seen; the other types of Kubernetes are copied down to their slices and maps.
\<close>

section \<open>The deep copies\<close>

text \<open>Structs without references.\<close>

definition InitialClusterMember_DeepCopyInto :: "InitialClusterMember \<Rightarrow> memory \<Rightarrow> (InitialClusterMember \<times> memory) option" where
  "InitialClusterMember_DeepCopyInto = assign"

definition InitialClusterMember_DeepCopy :: "pointer \<Rightarrow> memory \<Rightarrow> (pointer \<times> memory) option" where
  "InitialClusterMember_DeepCopy = copy_pointer CInitialClusterMember as_InitialClusterMember InitialClusterMember_DeepCopyInto"

definition EtcdMember_DeepCopyInto :: "EtcdMember \<Rightarrow> memory \<Rightarrow> (EtcdMember \<times> memory) option" where
  "EtcdMember_DeepCopyInto = assign"

definition EtcdMember_DeepCopy :: "pointer \<Rightarrow> memory \<Rightarrow> (pointer \<times> memory) option" where
  "EtcdMember_DeepCopy = copy_pointer CEtcdMember as_EtcdMember EtcdMember_DeepCopyInto"

definition EtcdPeerStatus_DeepCopyInto :: "EtcdPeerStatus \<Rightarrow> memory \<Rightarrow> (EtcdPeerStatus \<times> memory) option" where
  "EtcdPeerStatus_DeepCopyInto = assign"

definition EtcdPeerStatus_DeepCopy :: "pointer \<Rightarrow> memory \<Rightarrow> (pointer \<times> memory) option" where
  "EtcdPeerStatus_DeepCopy = copy_pointer CEtcdPeerStatus as_EtcdPeerStatus EtcdPeerStatus_DeepCopyInto"

definition EtcdBackupDestination_DeepCopyInto :: "EtcdBackupDestination \<Rightarrow> memory \<Rightarrow> (EtcdBackupDestination \<times> memory) option" where
  "EtcdBackupDestination_DeepCopyInto = assign"

definition EtcdBackupDestination_DeepCopy :: "pointer \<Rightarrow> memory \<Rightarrow> (pointer \<times> memory) option" where
  "EtcdBackupDestination_DeepCopy = copy_pointer CEtcdBackupDestination as_EtcdBackupDestination EtcdBackupDestination_DeepCopyInto"

definition EtcdBackupSource_DeepCopyInto :: "EtcdBackupSource \<Rightarrow> memory \<Rightarrow> (EtcdBackupSource \<times> memory) option" where
  "EtcdBackupSource_DeepCopyInto = assign"

definition EtcdBackupSource_DeepCopy :: "pointer \<Rightarrow> memory \<Rightarrow> (pointer \<times> memory) option" where
  "EtcdBackupSource_DeepCopy = copy_pointer CEtcdBackupSource as_EtcdBackupSource EtcdBackupSource_DeepCopyInto"

definition EtcdBackupSpec_DeepCopyInto :: "EtcdBackupSpec \<Rightarrow> memory \<Rightarrow> (EtcdBackupSpec \<times> memory) option" where
  "EtcdBackupSpec_DeepCopyInto v h = assign (v\<lparr>bk_Source := bk_Source v, bk_Destination := bk_Destination v\<rparr>) h"

definition EtcdBackupSpec_DeepCopy :: "pointer \<Rightarrow> memory \<Rightarrow> (pointer \<times> memory) option" where
  "EtcdBackupSpec_DeepCopy = copy_pointer CEtcdBackupSpec as_EtcdBackupSpec EtcdBackupSpec_DeepCopyInto"

definition EtcdBackupScheduleSpec_DeepCopyInto :: "EtcdBackupScheduleSpec \<Rightarrow> memory \<Rightarrow> (EtcdBackupScheduleSpec \<times> memory) option" where
  "EtcdBackupScheduleSpec_DeepCopyInto v h = assign (v\<lparr>BackupTemplate := BackupTemplate v\<rparr>) h"

definition EtcdBackupScheduleSpec_DeepCopy :: "pointer \<Rightarrow> memory \<Rightarrow> (pointer \<times> memory) option" where
  "EtcdBackupScheduleSpec_DeepCopy = copy_pointer CEtcdBackupScheduleSpec as_EtcdBackupScheduleSpec EtcdBackupScheduleSpec_DeepCopyInto"

definition EtcdBackupScheduleStatus_DeepCopyInto :: "EtcdBackupScheduleStatus \<Rightarrow> memory \<Rightarrow> (EtcdBackupScheduleStatus \<times> memory) option" where
  "EtcdBackupScheduleStatus_DeepCopyInto = assign"

definition EtcdBackupScheduleStatus_DeepCopy :: "pointer \<Rightarrow> memory \<Rightarrow> (pointer \<times> memory) option" where
  "EtcdBackupScheduleStatus_DeepCopy = copy_pointer CEtcdBackupScheduleStatus as_EtcdBackupScheduleStatus EtcdBackupScheduleStatus_DeepCopyInto"

definition EtcdRestoreSource_DeepCopyInto :: "EtcdRestoreSource \<Rightarrow> memory \<Rightarrow> (EtcdRestoreSource \<times> memory) option" where
  "EtcdRestoreSource_DeepCopyInto = assign"

definition EtcdRestoreSource_DeepCopy :: "pointer \<Rightarrow> memory \<Rightarrow> (pointer \<times> memory) option" where
  "EtcdRestoreSource_DeepCopy = copy_pointer CEtcdRestoreSource as_EtcdRestoreSource EtcdRestoreSource_DeepCopyInto"

definition EtcdRestoreStatus_DeepCopyInto :: "EtcdRestoreStatus \<Rightarrow> memory \<Rightarrow> (EtcdRestoreStatus \<times> memory) option" where
  "EtcdRestoreStatus_DeepCopyInto = assign"

definition EtcdRestoreStatus_DeepCopy :: "pointer \<Rightarrow> memory \<Rightarrow> (pointer \<times> memory) option" where
  "EtcdRestoreStatus_DeepCopy = copy_pointer CEtcdRestoreStatus as_EtcdRestoreStatus EtcdRestoreStatus_DeepCopyInto"

text \<open>The parts of peers and clusters.\<close>

definition zeroInitialClusterMember :: InitialClusterMember where
  "zeroInitialClusterMember = \<lparr>icm_Name = [], icm_Host = []\<rparr>"

definition zeroEtcdMember :: EtcdMember where
  "zeroEtcdMember = \<lparr>em_Name = [], em_ID = []\<rparr>"

definition StaticBootstrap_DeepCopyInto :: "mStaticBootstrap \<Rightarrow> memory \<Rightarrow> (mStaticBootstrap \<times> memory) option" where
  "StaticBootstrap_DeepCopyInto v h = do {
     (members, h1) \<leftarrow> copy_slice CInitialClusterMembers as_InitialClusterMembers zeroInitialClusterMember (m_InitialCluster v) h;
     Some (v\<lparr>m_InitialCluster := members\<rparr>, h1)
   }"

definition StaticBootstrap_DeepCopy :: "pointer \<Rightarrow> memory \<Rightarrow> (pointer \<times> memory) option" where
  "StaticBootstrap_DeepCopy = copy_pointer CStaticBootstrap as_StaticBootstrap StaticBootstrap_DeepCopyInto"

definition Bootstrap_DeepCopyInto :: "mBootstrap \<Rightarrow> memory \<Rightarrow> (mBootstrap \<times> memory) option" where
  "Bootstrap_DeepCopyInto v h = do {
     (static, h1) \<leftarrow> copy_pointer CStaticBootstrap as_StaticBootstrap StaticBootstrap_DeepCopyInto (m_Static v) h;
     Some (v\<lparr>m_Static := static\<rparr>, h1)
   }"

definition Bootstrap_DeepCopy :: "pointer \<Rightarrow> memory \<Rightarrow> (pointer \<times> memory) option" where
  "Bootstrap_DeepCopy = copy_pointer CBootstrap as_Bootstrap Bootstrap_DeepCopyInto"

definition EtcdPeerStorage_DeepCopyInto :: "copiers \<Rightarrow> mEtcdPeerStorage \<Rightarrow> memory \<Rightarrow> (mEtcdPeerStorage \<times> memory) option" where
  "EtcdPeerStorage_DeepCopyInto K v h = do {
     (template, h1) \<leftarrow> copy_pointer CPersistentVolumeClaimSpec as_PersistentVolumeClaimSpec (PersistentVolumeClaimSpec_DeepCopyInto K) (m_VolumeClaimTemplate v) h;
     Some (v\<lparr>m_VolumeClaimTemplate := template\<rparr>, h1)
   }"

definition EtcdPeerStorage_DeepCopy :: "copiers \<Rightarrow> pointer \<Rightarrow> memory \<Rightarrow> (pointer \<times> memory) option" where
  "EtcdPeerStorage_DeepCopy K = copy_pointer CEtcdPeerStorage as_EtcdPeerStorage (EtcdPeerStorage_DeepCopyInto K)"

definition EtcdPodTemplateObjectMeta_DeepCopyInto :: "copiers \<Rightarrow> mEtcdPodTemplateObjectMeta \<Rightarrow> memory \<Rightarrow> (mEtcdPodTemplateObjectMeta \<times> memory) option" where
  "EtcdPodTemplateObjectMeta_DeepCopyInto K v h = do {
     (annotations, h1) \<leftarrow> copy_map CStringMap as_StringMap (range_order K) (m_Annotations v) h;
     Some (v\<lparr>m_Annotations := annotations\<rparr>, h1)
   }"

definition EtcdPodTemplateObjectMeta_DeepCopy :: "copiers \<Rightarrow> pointer \<Rightarrow> memory \<Rightarrow> (pointer \<times> memory) option" where
  "EtcdPodTemplateObjectMeta_DeepCopy K = copy_pointer CEtcdPodTemplateObjectMeta as_EtcdPodTemplateObjectMeta (EtcdPodTemplateObjectMeta_DeepCopyInto K)"

definition EtcdPodTemplateSpec_DeepCopyInto :: "copiers \<Rightarrow> mEtcdPodTemplateSpec \<Rightarrow> memory \<Rightarrow> (mEtcdPodTemplateSpec \<times> memory) option" where
  "EtcdPodTemplateSpec_DeepCopyInto K v h = do {
     (metadata, h1) \<leftarrow> copy_pointer CEtcdPodTemplateObjectMeta as_EtcdPodTemplateObjectMeta (EtcdPodTemplateObjectMeta_DeepCopyInto K) (m_Metadata v) h;
     (resources, h2) \<leftarrow> copy_pointer CResourceRequirements as_ResourceRequirements (ResourceRequirements_DeepCopyInto K) (m_Resources v) h1;
     (affinity, h3) \<leftarrow> copy_pointer CAffinity as_Affinity (Affinity_DeepCopyInto K) (m_Affinity v) h2;
     Some (v\<lparr>m_Metadata := metadata, m_Resources := resources, m_Affinity := affinity\<rparr>, h3)
   }"

definition EtcdPodTemplateSpec_DeepCopy :: "copiers \<Rightarrow> pointer \<Rightarrow> memory \<Rightarrow> (pointer \<times> memory) option" where
  "EtcdPodTemplateSpec_DeepCopy K = copy_pointer CEtcdPodTemplateSpec as_EtcdPodTemplateSpec (EtcdPodTemplateSpec_DeepCopyInto K)"

definition EtcdPeerSpec_DeepCopyInto :: "copiers \<Rightarrow> mEtcdPeerSpec \<Rightarrow> memory \<Rightarrow> (mEtcdPeerSpec \<times> memory) option" where
  "EtcdPeerSpec_DeepCopyInto K v h = do {
     (bootstrap, h1) \<leftarrow> copy_pointer CBootstrap as_Bootstrap Bootstrap_DeepCopyInto (mp_Bootstrap v) h;
     (storage, h2) \<leftarrow> copy_pointer CEtcdPeerStorage as_EtcdPeerStorage (EtcdPeerStorage_DeepCopyInto K) (mp_Storage v) h1;
     (template, h3) \<leftarrow> copy_pointer CEtcdPodTemplateSpec as_EtcdPodTemplateSpec (EtcdPodTemplateSpec_DeepCopyInto K) (mp_PodTemplate v) h2;
     Some (v\<lparr>mp_Bootstrap := bootstrap, mp_Storage := storage, mp_PodTemplate := template\<rparr>, h3)
   }"

definition EtcdPeerSpec_DeepCopy :: "copiers \<Rightarrow> pointer \<Rightarrow> memory \<Rightarrow> (pointer \<times> memory) option" where
  "EtcdPeerSpec_DeepCopy K = copy_pointer CEtcdPeerSpec as_EtcdPeerSpec (EtcdPeerSpec_DeepCopyInto K)"

definition EtcdClusterSpec_DeepCopyInto :: "copiers \<Rightarrow> mEtcdClusterSpec \<Rightarrow> memory \<Rightarrow> (mEtcdClusterSpec \<times> memory) option" where
  "EtcdClusterSpec_DeepCopyInto K v h = do {
     (replicas, h1) \<leftarrow> copy_pointer CInt32 as_Int32 assign (mc_Replicas v) h;
     (storage, h2) \<leftarrow> copy_pointer CEtcdPeerStorage as_EtcdPeerStorage (EtcdPeerStorage_DeepCopyInto K) (mc_Storage v) h1;
     (template, h3) \<leftarrow> copy_pointer CEtcdPodTemplateSpec as_EtcdPodTemplateSpec (EtcdPodTemplateSpec_DeepCopyInto K) (mc_PodTemplate v) h2;
     Some (v\<lparr>mc_Replicas := replicas, mc_Storage := storage, mc_PodTemplate := template\<rparr>, h3)
   }"

definition EtcdClusterSpec_DeepCopy :: "copiers \<Rightarrow> pointer \<Rightarrow> memory \<Rightarrow> (pointer \<times> memory) option" where
  "EtcdClusterSpec_DeepCopy K = copy_pointer CEtcdClusterSpec as_EtcdClusterSpec (EtcdClusterSpec_DeepCopyInto K)"

definition EtcdClusterStatus_DeepCopyInto :: "mEtcdClusterStatus \<Rightarrow> memory \<Rightarrow> (mEtcdClusterStatus \<times> memory) option" where
  "EtcdClusterStatus_DeepCopyInto v h = do {
     (members, h1) \<leftarrow> copy_slice CEtcdMembers as_EtcdMembers zeroEtcdMember (ms_Members v) h;
     Some (v\<lparr>ms_Members := members\<rparr>, h1)
   }"

definition EtcdClusterStatus_DeepCopy :: "pointer \<Rightarrow> memory \<Rightarrow> (pointer \<times> memory) option" where
  "EtcdClusterStatus_DeepCopy = copy_pointer CEtcdClusterStatus as_EtcdClusterStatus EtcdClusterStatus_DeepCopyInto"

definition EtcdClusterTemplate_DeepCopyInto :: "copiers \<Rightarrow> mEtcdClusterTemplate \<Rightarrow> memory \<Rightarrow> (mEtcdClusterTemplate \<times> memory) option" where
  "EtcdClusterTemplate_DeepCopyInto K v h = do {
     (spec, h1) \<leftarrow> EtcdClusterSpec_DeepCopyInto K (mt_Spec v) h;
     Some (v\<lparr>mt_Spec := spec\<rparr>, h1)
   }"

definition EtcdClusterTemplate_DeepCopy :: "copiers \<Rightarrow> pointer \<Rightarrow> memory \<Rightarrow> (pointer \<times> memory) option" where
  "EtcdClusterTemplate_DeepCopy K = copy_pointer CEtcdClusterTemplate as_EtcdClusterTemplate (EtcdClusterTemplate_DeepCopyInto K)"

definition EtcdRestoreSpec_DeepCopyInto :: "copiers \<Rightarrow> mEtcdRestoreSpec \<Rightarrow> memory \<Rightarrow> (mEtcdRestoreSpec \<times> memory) option" where
  "EtcdRestoreSpec_DeepCopyInto K v h = do {
     (template, h1) \<leftarrow> EtcdClusterTemplate_DeepCopyInto K (m_ClusterTemplate v) h;
     Some (v\<lparr>m_Source := m_Source v, m_ClusterTemplate := template\<rparr>, h1)
   }"

definition EtcdRestoreSpec_DeepCopy :: "copiers \<Rightarrow> pointer \<Rightarrow> memory \<Rightarrow> (pointer \<times> memory) option" where
  "EtcdRestoreSpec_DeepCopy K = copy_pointer CEtcdRestoreSpec as_EtcdRestoreSpec (EtcdRestoreSpec_DeepCopyInto K)"

text \<open>
  The code asks whether the time is nil before it calls \<open>Time.DeepCopy\<close>.
\<close>

definition copy_time :: "copiers \<Rightarrow> pointer \<Rightarrow> memory \<Rightarrow> (pointer \<times> memory) option" where
  "copy_time K p h = (if p \<noteq> None then Time_DeepCopy K p h else Some (None, h))"

definition EtcdBackupStatus_DeepCopyInto :: "copiers \<Rightarrow> mEtcdBackupStatus \<Rightarrow> memory \<Rightarrow> (mEtcdBackupStatus \<times> memory) option" where
  "EtcdBackupStatus_DeepCopyInto K v h = do {
     (start, h1) \<leftarrow> copy_time K (mb_StartTime v) h;
     (completion, h2) \<leftarrow> copy_time K (mb_CompletionTime v) h1;
     Some (v\<lparr>mb_StartTime := start, mb_CompletionTime := completion\<rparr>, h2)
   }"

definition EtcdBackupStatus_DeepCopy :: "copiers \<Rightarrow> pointer \<Rightarrow> memory \<Rightarrow> (pointer \<times> memory) option" where
  "EtcdBackupStatus_DeepCopy K = copy_pointer CEtcdBackupStatus as_EtcdBackupStatus (EtcdBackupStatus_DeepCopyInto K)"

section \<open>Resources\<close>

text \<open>
  A \<open>runtime.Object\<close> is an interface: nil, or a pointer together with the type it points to. An
  interface that holds a nil pointer is not nil.
\<close>

datatype resource_type =
    EtcdBackupType | EtcdBackupListType | EtcdBackupScheduleType | EtcdBackupScheduleListType | EtcdClusterType
  | EtcdClusterListType | EtcdPeerType | EtcdPeerListType | EtcdRestoreType | EtcdRestoreListType

type_synonym runtime_object = "(resource_type \<times> pointer) option"

definition EtcdPeer_DeepCopyInto :: "copiers \<Rightarrow> mEtcdPeer \<Rightarrow> memory \<Rightarrow> (mEtcdPeer \<times> memory) option" where
  "EtcdPeer_DeepCopyInto K v h = do {
     (meta, h1) \<leftarrow> ObjectMeta_DeepCopyInto K (o_ObjectMeta v) h;
     (spec, h2) \<leftarrow> EtcdPeerSpec_DeepCopyInto K (o_Spec v) h1;
     Some (v\<lparr>o_TypeMeta := o_TypeMeta v, o_ObjectMeta := meta, o_Spec := spec, o_Status := o_Status v\<rparr>, h2)
   }"

definition EtcdPeer_DeepCopy :: "copiers \<Rightarrow> pointer \<Rightarrow> memory \<Rightarrow> (pointer \<times> memory) option" where
  "EtcdPeer_DeepCopy K = copy_pointer CEtcdPeer as_EtcdPeer (EtcdPeer_DeepCopyInto K)"

definition EtcdPeer_DeepCopyObject :: "copiers \<Rightarrow> pointer \<Rightarrow> memory \<Rightarrow> (runtime_object \<times> memory) option" where
  "EtcdPeer_DeepCopyObject K p h = do {
     (c, h1) \<leftarrow> EtcdPeer_DeepCopy K p h;
     Some (if c \<noteq> None then Some (EtcdPeerType, c) else None, h1)
   }"

definition EtcdCluster_DeepCopyInto :: "copiers \<Rightarrow> mEtcdCluster \<Rightarrow> memory \<Rightarrow> (mEtcdCluster \<times> memory) option" where
  "EtcdCluster_DeepCopyInto K v h = do {
     (meta, h1) \<leftarrow> ObjectMeta_DeepCopyInto K (o_ObjectMeta v) h;
     (spec, h2) \<leftarrow> EtcdClusterSpec_DeepCopyInto K (o_Spec v) h1;
     (status, h3) \<leftarrow> EtcdClusterStatus_DeepCopyInto (o_Status v) h2;
     Some (v\<lparr>o_TypeMeta := o_TypeMeta v, o_ObjectMeta := meta, o_Spec := spec, o_Status := status\<rparr>, h3)
   }"

definition EtcdCluster_DeepCopy :: "copiers \<Rightarrow> pointer \<Rightarrow> memory \<Rightarrow> (pointer \<times> memory) option" where
  "EtcdCluster_DeepCopy K = copy_pointer CEtcdCluster as_EtcdCluster (EtcdCluster_DeepCopyInto K)"

definition EtcdCluster_DeepCopyObject :: "copiers \<Rightarrow> pointer \<Rightarrow> memory \<Rightarrow> (runtime_object \<times> memory) option" where
  "EtcdCluster_DeepCopyObject K p h = do {
     (c, h1) \<leftarrow> EtcdCluster_DeepCopy K p h;
     Some (if c \<noteq> None then Some (EtcdClusterType, c) else None, h1)
   }"

definition EtcdBackup_DeepCopyInto :: "copiers \<Rightarrow> mEtcdBackup \<Rightarrow> memory \<Rightarrow> (mEtcdBackup \<times> memory) option" where
  "EtcdBackup_DeepCopyInto K v h = do {
     (meta, h1) \<leftarrow> ObjectMeta_DeepCopyInto K (o_ObjectMeta v) h;
     (status, h2) \<leftarrow> EtcdBackupStatus_DeepCopyInto K (o_Status v) h1;
     Some (v\<lparr>o_TypeMeta := o_TypeMeta v, o_ObjectMeta := meta, o_Spec := o_Spec v, o_Status := status\<rparr>, h2)
   }"

definition EtcdBackup_DeepCopy :: "copiers \<Rightarrow> pointer \<Rightarrow> memory \<Rightarrow> (pointer \<times> memory) option" where
  "EtcdBackup_DeepCopy K = copy_pointer CEtcdBackup as_EtcdBackup (EtcdBackup_DeepCopyInto K)"

definition EtcdBackup_DeepCopyObject :: "copiers \<Rightarrow> pointer \<Rightarrow> memory \<Rightarrow> (runtime_object \<times> memory) option" where
  "EtcdBackup_DeepCopyObject K p h = do {
     (c, h1) \<leftarrow> EtcdBackup_DeepCopy K p h;
     Some (if c \<noteq> None then Some (EtcdBackupType, c) else None, h1)
   }"

definition EtcdBackupSchedule_DeepCopyInto :: "copiers \<Rightarrow> mEtcdBackupSchedule \<Rightarrow> memory \<Rightarrow> (mEtcdBackupSchedule \<times> memory) option" where
  "EtcdBackupSchedule_DeepCopyInto K v h = do {
     (meta, h1) \<leftarrow> ObjectMeta_DeepCopyInto K (o_ObjectMeta v) h;
     Some (v\<lparr>o_TypeMeta := o_TypeMeta v, o_ObjectMeta := meta, o_Spec := o_Spec v, o_Status := o_Status v\<rparr>, h1)
   }"

definition EtcdBackupSchedule_DeepCopy :: "copiers \<Rightarrow> pointer \<Rightarrow> memory \<Rightarrow> (pointer \<times> memory) option" where
  "EtcdBackupSchedule_DeepCopy K = copy_pointer CEtcdBackupSchedule as_EtcdBackupSchedule (EtcdBackupSchedule_DeepCopyInto K)"

definition EtcdBackupSchedule_DeepCopyObject :: "copiers \<Rightarrow> pointer \<Rightarrow> memory \<Rightarrow> (runtime_object \<times> memory) option" where
  "EtcdBackupSchedule_DeepCopyObject K p h = do {
     (c, h1) \<leftarrow> EtcdBackupSchedule_DeepCopy K p h;
     Some (if c \<noteq> None then Some (EtcdBackupScheduleType, c) else None, h1)
   }"

definition EtcdRestore_DeepCopyInto :: "copiers \<Rightarrow> mEtcdRestore \<Rightarrow> memory \<Rightarrow> (mEtcdRestore \<times> memory) option" where
  "EtcdRestore_DeepCopyInto K v h = do {
     (meta, h1) \<leftarrow> ObjectMeta_DeepCopyInto K (o_ObjectMeta v) h;
     (spec, h2) \<leftarrow> EtcdRestoreSpec_DeepCopyInto K (o_Spec v) h1;
     Some (v\<lparr>o_TypeMeta := o_TypeMeta v, o_ObjectMeta := meta, o_Spec := spec, o_Status := o_Status v\<rparr>, h2)
   }"

definition EtcdRestore_DeepCopy :: "copiers \<Rightarrow> pointer \<Rightarrow> memory \<Rightarrow> (pointer \<times> memory) option" where
  "EtcdRestore_DeepCopy K = copy_pointer CEtcdRestore as_EtcdRestore (EtcdRestore_DeepCopyInto K)"

definition EtcdRestore_DeepCopyObject :: "copiers \<Rightarrow> pointer \<Rightarrow> memory \<Rightarrow> (runtime_object \<times> memory) option" where
  "EtcdRestore_DeepCopyObject K p h = do {
     (c, h1) \<leftarrow> EtcdRestore_DeepCopy K p h;
     Some (if c \<noteq> None then Some (EtcdRestoreType, c) else None, h1)
   }"

section \<open>Lists of resources\<close>

text \<open>\<open>make\<close> fills a new array with zero values.\<close>

definition zeroObject :: "'s \<Rightarrow> 't \<Rightarrow> ('s, 't) mObject" where
  "zeroObject spec status = \<lparr>o_TypeMeta = \<lparr>tm_Kind = [], tm_APIVersion = []\<rparr>,
     o_ObjectMeta = \<lparr>mm_Name = [], mm_GenerateName = [], mm_Namespace = [], mm_UID = [], mm_Labels = None,
       mm_Annotations = None, mm_Finalizers = None, mm_OwnerReferences = None, mm_DeletionTimestamp = None\<rparr>,
     o_Spec = spec, o_Status = status\<rparr>"

definition zeroClusterSpec :: mEtcdClusterSpec where
  "zeroClusterSpec = \<lparr>mc_Version = [], mc_Replicas = None, mc_Storage = None, mc_PodTemplate = None\<rparr>"

definition zeroBackupSpec :: EtcdBackupSpec where
  "zeroBackupSpec = \<lparr>bk_Source = \<lparr>ClusterURL = []\<rparr>, bk_Destination = \<lparr>ObjectURLTemplate = []\<rparr>\<rparr>"

definition zeroEtcdPeer :: mEtcdPeer where
  "zeroEtcdPeer = zeroObject \<lparr>mp_ClusterName = [], mp_Version = [], mp_Bootstrap = None, mp_Storage = None, mp_PodTemplate = None\<rparr>
     \<lparr>ServerVersion = []\<rparr>"

definition zeroEtcdCluster :: mEtcdCluster where
  "zeroEtcdCluster = zeroObject zeroClusterSpec \<lparr>ms_Replicas = 0, ms_Members = None, ms_ClusterVersion = []\<rparr>"

definition zeroEtcdBackup :: mEtcdBackup where
  "zeroEtcdBackup = zeroObject zeroBackupSpec \<lparr>mb_Phase = [], mb_StartTime = None, mb_CompletionTime = None\<rparr>"

definition zeroEtcdBackupSchedule :: mEtcdBackupSchedule where
  "zeroEtcdBackupSchedule = zeroObject \<lparr>sc_Schedule = [], BackupTemplate = zeroBackupSpec\<rparr> ()"

definition zeroEtcdRestore :: mEtcdRestore where
  "zeroEtcdRestore = zeroObject \<lparr>m_Source = \<lparr>ObjectURL = []\<rparr>,
     m_ClusterTemplate = \<lparr>mt_ClusterName = [], mt_Spec = zeroClusterSpec\<rparr>\<rparr> \<lparr>rst_Phase = []\<rparr>"

definition EtcdPeerList_DeepCopyInto :: "copiers \<Rightarrow> mEtcdPeerList \<Rightarrow> memory \<Rightarrow> (mEtcdPeerList \<times> memory) option" where
  "EtcdPeerList_DeepCopyInto K v h = do {
     (meta, h1) \<leftarrow> ListMeta_DeepCopyInto K (ls_ListMeta v) h;
     (items, h2) \<leftarrow> copy_items CEtcdPeers as_EtcdPeers zeroEtcdPeer (EtcdPeer_DeepCopyInto K) (ls_Items v) h1;
     Some (v\<lparr>ls_TypeMeta := ls_TypeMeta v, ls_ListMeta := meta, ls_Items := items\<rparr>, h2)
   }"

definition EtcdPeerList_DeepCopy :: "copiers \<Rightarrow> pointer \<Rightarrow> memory \<Rightarrow> (pointer \<times> memory) option" where
  "EtcdPeerList_DeepCopy K = copy_pointer CEtcdPeerList as_EtcdPeerList (EtcdPeerList_DeepCopyInto K)"

definition EtcdPeerList_DeepCopyObject :: "copiers \<Rightarrow> pointer \<Rightarrow> memory \<Rightarrow> (runtime_object \<times> memory) option" where
  "EtcdPeerList_DeepCopyObject K p h = do {
     (c, h1) \<leftarrow> EtcdPeerList_DeepCopy K p h;
     Some (if c \<noteq> None then Some (EtcdPeerListType, c) else None, h1)
   }"

definition EtcdClusterList_DeepCopyInto :: "copiers \<Rightarrow> mEtcdClusterList \<Rightarrow> memory \<Rightarrow> (mEtcdClusterList \<times> memory) option" where
  "EtcdClusterList_DeepCopyInto K v h = do {
     (meta, h1) \<leftarrow> ListMeta_DeepCopyInto K (ls_ListMeta v) h;
     (items, h2) \<leftarrow> copy_items CEtcdClusters as_EtcdClusters zeroEtcdCluster (EtcdCluster_DeepCopyInto K) (ls_Items v) h1;
     Some (v\<lparr>ls_TypeMeta := ls_TypeMeta v, ls_ListMeta := meta, ls_Items := items\<rparr>, h2)
   }"

definition EtcdClusterList_DeepCopy :: "copiers \<Rightarrow> pointer \<Rightarrow> memory \<Rightarrow> (pointer \<times> memory) option" where
  "EtcdClusterList_DeepCopy K = copy_pointer CEtcdClusterList as_EtcdClusterList (EtcdClusterList_DeepCopyInto K)"

definition EtcdClusterList_DeepCopyObject :: "copiers \<Rightarrow> pointer \<Rightarrow> memory \<Rightarrow> (runtime_object \<times> memory) option" where
  "EtcdClusterList_DeepCopyObject K p h = do {
     (c, h1) \<leftarrow> EtcdClusterList_DeepCopy K p h;
     Some (if c \<noteq> None then Some (EtcdClusterListType, c) else None, h1)
   }"

definition EtcdBackupList_DeepCopyInto :: "copiers \<Rightarrow> mEtcdBackupList \<Rightarrow> memory \<Rightarrow> (mEtcdBackupList \<times> memory) option" where
  "EtcdBackupList_DeepCopyInto K v h = do {
     (meta, h1) \<leftarrow> ListMeta_DeepCopyInto K (ls_ListMeta v) h;
     (items, h2) \<leftarrow> copy_items CEtcdBackups as_EtcdBackups zeroEtcdBackup (EtcdBackup_DeepCopyInto K) (ls_Items v) h1;
     Some (v\<lparr>ls_TypeMeta := ls_TypeMeta v, ls_ListMeta := meta, ls_Items := items\<rparr>, h2)
   }"

definition EtcdBackupList_DeepCopy :: "copiers \<Rightarrow> pointer \<Rightarrow> memory \<Rightarrow> (pointer \<times> memory) option" where
  "EtcdBackupList_DeepCopy K = copy_pointer CEtcdBackupList as_EtcdBackupList (EtcdBackupList_DeepCopyInto K)"

definition EtcdBackupList_DeepCopyObject :: "copiers \<Rightarrow> pointer \<Rightarrow> memory \<Rightarrow> (runtime_object \<times> memory) option" where
  "EtcdBackupList_DeepCopyObject K p h = do {
     (c, h1) \<leftarrow> EtcdBackupList_DeepCopy K p h;
     Some (if c \<noteq> None then Some (EtcdBackupListType, c) else None, h1)
   }"

definition EtcdBackupScheduleList_DeepCopyInto :: "copiers \<Rightarrow> mEtcdBackupScheduleList \<Rightarrow> memory \<Rightarrow> (mEtcdBackupScheduleList \<times> memory) option" where
  "EtcdBackupScheduleList_DeepCopyInto K v h = do {
     (meta, h1) \<leftarrow> ListMeta_DeepCopyInto K (ls_ListMeta v) h;
     (items, h2) \<leftarrow> copy_items CEtcdBackupSchedules as_EtcdBackupSchedules zeroEtcdBackupSchedule (EtcdBackupSchedule_DeepCopyInto K) (ls_Items v) h1;
     Some (v\<lparr>ls_TypeMeta := ls_TypeMeta v, ls_ListMeta := meta, ls_Items := items\<rparr>, h2)
   }"

definition EtcdBackupScheduleList_DeepCopy :: "copiers \<Rightarrow> pointer \<Rightarrow> memory \<Rightarrow> (pointer \<times> memory) option" where
  "EtcdBackupScheduleList_DeepCopy K = copy_pointer CEtcdBackupScheduleList as_EtcdBackupScheduleList (EtcdBackupScheduleList_DeepCopyInto K)"

definition EtcdBackupScheduleList_DeepCopyObject :: "copiers \<Rightarrow> pointer \<Rightarrow> memory \<Rightarrow> (runtime_object \<times> memory) option" where
  "EtcdBackupScheduleList_DeepCopyObject K p h = do {
     (c, h1) \<leftarrow> EtcdBackupScheduleList_DeepCopy K p h;
     Some (if c \<noteq> None then Some (EtcdBackupScheduleListType, c) else None, h1)
   }"

definition EtcdRestoreList_DeepCopyInto :: "copiers \<Rightarrow> mEtcdRestoreList \<Rightarrow> memory \<Rightarrow> (mEtcdRestoreList \<times> memory) option" where
  "EtcdRestoreList_DeepCopyInto K v h = do {
     (meta, h1) \<leftarrow> ListMeta_DeepCopyInto K (ls_ListMeta v) h;
     (items, h2) \<leftarrow> copy_items CEtcdRestores as_EtcdRestores zeroEtcdRestore (EtcdRestore_DeepCopyInto K) (ls_Items v) h1;
     Some (v\<lparr>ls_TypeMeta := ls_TypeMeta v, ls_ListMeta := meta, ls_Items := items\<rparr>, h2)
   }"

definition EtcdRestoreList_DeepCopy :: "copiers \<Rightarrow> pointer \<Rightarrow> memory \<Rightarrow> (pointer \<times> memory) option" where
  "EtcdRestoreList_DeepCopy K = copy_pointer CEtcdRestoreList as_EtcdRestoreList (EtcdRestoreList_DeepCopyInto K)"

definition EtcdRestoreList_DeepCopyObject :: "copiers \<Rightarrow> pointer \<Rightarrow> memory \<Rightarrow> (runtime_object \<times> memory) option" where
  "EtcdRestoreList_DeepCopyObject K p h = do {
     (c, h1) \<leftarrow> EtcdRestoreList_DeepCopy K p h;
     Some (if c \<noteq> None then Some (EtcdRestoreListType, c) else None, h1)
   }"

end
