(* ===== verification/DeepCopyProps.thy ===== *)
theory DeepCopyProps
  imports DeepCopy
begin

text \<open>
  The generated deep copies are deep. What a struct in memory stands for is a value of \<open>ApiTypes\<close>;
  copying keeps it, and so a deep copy is the identity on the values on which the controllers are
  modelled.
\<close>

section \<open>What structs in memory stand for\<close>

text \<open>A nil map and a nil slice read like empty ones where \<open>ApiTypes\<close> does not tell them apart.\<close>

definition or_empty :: "'a list option \<Rightarrow> 'a list" where
  "or_empty x = (case x of None \<Rightarrow> [] | Some xs \<Rightarrow> xs)"

definition walk_quantities :: "pointer \<Rightarrow> memory \<Rightarrow> ((string \<times> Quantity) list option \<times> addr list) option" where
  "walk_quantities = walk_pointer as_Quantities (plain id)"

definition walk_ResourceRequirements :: "mResourceRequirements \<Rightarrow> memory \<Rightarrow> (ResourceRequirements \<times> addr list) option" where
  "walk_ResourceRequirements v h = do {
     (limits, as) \<leftarrow> walk_quantities (mr_Limits v) h;
     (requests, bs) \<leftarrow> walk_quantities (mr_Requests v) h;
     Some (\<lparr>Limits = or_empty limits, Requests = or_empty requests\<rparr>, as @ bs)
   }"

definition walk_PersistentVolumeClaimSpec ::
  "mPersistentVolumeClaimSpec \<Rightarrow> memory \<Rightarrow> (PersistentVolumeClaimSpec \<times> addr list) option" where
  "walk_PersistentVolumeClaimSpec v h = do {
     (modes, as) \<leftarrow> walk_slice as_Strings (plain id) (mv_AccessModes v) h;
     (others, bs) \<leftarrow> walk_both walk_ResourceRequirements
        (walk_both (walk_pointer as_String (plain id)) (walk_pointer as_String (plain id)))
        (mv_Resources v, mv_VolumeMode v, mv_StorageClassName v) h;
     Some (\<lparr>AccessModes = modes, pvc_Resources = fst others, VolumeMode = fst (snd others),
            StorageClassName = snd (snd others), VolumeName = mv_VolumeName v\<rparr>, as @ bs)
   }"

definition walk_ObjectMeta :: "mObjectMeta \<Rightarrow> memory \<Rightarrow> (ObjectMeta \<times> addr list) option" where
  "walk_ObjectMeta v h = do {
     (maps, as) \<leftarrow> walk_both (walk_map as_StringMap) (walk_map as_StringMap)
        (mm_Labels v, mm_Annotations v) h;
     (others, bs) \<leftarrow> walk_both (walk_slice as_Strings (plain id))
        (walk_both (walk_slice as_Owners (plain id)) (walk_pointer as_Time (plain id)))
        (mm_Finalizers v, mm_OwnerReferences v, mm_DeletionTimestamp v) h;
     Some (\<lparr>Name = mm_Name v, GenerateName = mm_GenerateName v, Namespace = mm_Namespace v, UID = mm_UID v,
            Labels = or_empty (fst maps), Annotations = or_empty (snd maps), Finalizers = or_empty (fst others),
            OwnerReferences = or_empty (fst (snd others)), DeletionTimestamp = snd (snd others)\<rparr>, as @ bs)
   }"

definition walk_ListMeta :: "mListMeta \<Rightarrow> memory \<Rightarrow> (ListMeta \<times> addr list) option" where
  "walk_ListMeta v h = do {
     (count, as) \<leftarrow> walk_pointer as_Int64 (plain id) (ml_RemainingItemCount v) h;
     Some (\<lparr>SelfLink = ml_SelfLink v, ResourceVersion = ml_ResourceVersion v, Continue = ml_Continue v,
            RemainingItemCount = count\<rparr>, as)
   }"

text \<open>The structs of \<open>api/v1alpha1\<close>. A resource is read together with its type.\<close>

definition walk_StaticBootstrap :: "mStaticBootstrap \<Rightarrow> memory \<Rightarrow> (StaticBootstrap \<times> addr list) option" where
  "walk_StaticBootstrap v h = do {
     (members, as) \<leftarrow> walk_slice as_InitialClusterMembers (plain id) (m_InitialCluster v) h;
     Some (\<lparr>InitialCluster = or_empty members\<rparr>, as)
   }"

definition walk_Bootstrap :: "mBootstrap \<Rightarrow> memory \<Rightarrow> (Bootstrap \<times> addr list) option" where
  "walk_Bootstrap v h = do {
     (static, as) \<leftarrow> walk_pointer as_StaticBootstrap walk_StaticBootstrap (m_Static v) h;
     Some (\<lparr>Static = static, bs_InitialClusterState = m_InitialClusterState v\<rparr>, as)
   }"

definition walk_EtcdPeerStorage :: "mEtcdPeerStorage \<Rightarrow> memory \<Rightarrow> (EtcdPeerStorage \<times> addr list) option" where
  "walk_EtcdPeerStorage v h = do {
     (template, as) \<leftarrow> walk_pointer as_PersistentVolumeClaimSpec walk_PersistentVolumeClaimSpec (m_VolumeClaimTemplate v) h;
     Some (\<lparr>VolumeClaimTemplate = template\<rparr>, as)
   }"

definition walk_EtcdPodTemplateObjectMeta :: "mEtcdPodTemplateObjectMeta \<Rightarrow> memory \<Rightarrow> (EtcdPodTemplateObjectMeta \<times> addr list) option" where
  "walk_EtcdPodTemplateObjectMeta v h = do {
     (annotations, as) \<leftarrow> walk_map as_StringMap (m_Annotations v) h;
     Some (\<lparr>ptm_Annotations = or_empty annotations\<rparr>, as)
   }"

definition walk_EtcdPodTemplateSpec :: "mEtcdPodTemplateSpec \<Rightarrow> memory \<Rightarrow> (EtcdPodTemplateSpec \<times> addr list) option" where
  "walk_EtcdPodTemplateSpec v h = do {
     (metadata, as) \<leftarrow> walk_pointer as_EtcdPodTemplateObjectMeta walk_EtcdPodTemplateObjectMeta (m_Metadata v) h;
     (resources, bs) \<leftarrow> walk_pointer as_ResourceRequirements walk_ResourceRequirements (m_Resources v) h;
     (affinity, cs) \<leftarrow> walk_pointer as_Affinity (plain id) (m_Affinity v) h;
     Some (\<lparr>pts_Metadata = metadata, pts_Resources = resources, pts_Affinity = affinity\<rparr>, as @ bs @ cs)
   }"

definition walk_EtcdPeerSpec :: "mEtcdPeerSpec \<Rightarrow> memory \<Rightarrow> (EtcdPeerSpec \<times> addr list) option" where
  "walk_EtcdPeerSpec v h = do {
     (bootstrap, as) \<leftarrow> walk_pointer as_Bootstrap walk_Bootstrap (mp_Bootstrap v) h;
     (storage, bs) \<leftarrow> walk_pointer as_EtcdPeerStorage walk_EtcdPeerStorage (mp_Storage v) h;
     (template, cs) \<leftarrow> walk_pointer as_EtcdPodTemplateSpec walk_EtcdPodTemplateSpec (mp_PodTemplate v) h;
     Some (\<lparr>ps_ClusterName = mp_ClusterName v, ps_Version = mp_Version v, ps_Bootstrap = bootstrap, ps_Storage = storage, ps_PodTemplate = template\<rparr>, as @ bs @ cs)
   }"

definition walk_EtcdClusterSpec :: "mEtcdClusterSpec \<Rightarrow> memory \<Rightarrow> (EtcdClusterSpec \<times> addr list) option" where
  "walk_EtcdClusterSpec v h = do {
     (replicas, as) \<leftarrow> walk_pointer as_Int32 (plain id) (mc_Replicas v) h;
     (storage, bs) \<leftarrow> walk_pointer as_EtcdPeerStorage walk_EtcdPeerStorage (mc_Storage v) h;
     (template, cs) \<leftarrow> walk_pointer as_EtcdPodTemplateSpec walk_EtcdPodTemplateSpec (mc_PodTemplate v) h;
     Some (\<lparr>cs_Version = mc_Version v, cs_Replicas = replicas, cs_Storage = storage, cs_PodTemplate = template\<rparr>, as @ bs @ cs)
   }"

definition walk_EtcdClusterStatus :: "mEtcdClusterStatus \<Rightarrow> memory \<Rightarrow> (EtcdClusterStatus \<times> addr list) option" where
  "walk_EtcdClusterStatus v h = do {
     (members, as) \<leftarrow> walk_slice as_EtcdMembers (plain id) (ms_Members v) h;
     Some (\<lparr>st_Replicas = ms_Replicas v, st_Members = members, st_ClusterVersion = ms_ClusterVersion v\<rparr>, as)
   }"

definition walk_EtcdClusterTemplate :: "mEtcdClusterTemplate \<Rightarrow> memory \<Rightarrow> (EtcdClusterTemplate \<times> addr list) option" where
  "walk_EtcdClusterTemplate v h = do {
     (spec, as) \<leftarrow> walk_EtcdClusterSpec (mt_Spec v) h;
     Some (\<lparr>ct_ClusterName = mt_ClusterName v, ct_Spec = spec\<rparr>, as)
   }"

definition walk_EtcdRestoreSpec :: "mEtcdRestoreSpec \<Rightarrow> memory \<Rightarrow> (EtcdRestoreSpec \<times> addr list) option" where
  "walk_EtcdRestoreSpec v h = do {
     (template, as) \<leftarrow> walk_EtcdClusterTemplate (m_ClusterTemplate v) h;
     Some (\<lparr>rs_Source = m_Source v, ClusterTemplate = template\<rparr>, as)
   }"

definition walk_EtcdBackupStatus :: "mEtcdBackupStatus \<Rightarrow> memory \<Rightarrow> (EtcdBackupStatus \<times> addr list) option" where
  "walk_EtcdBackupStatus v h = do {
     (start, as) \<leftarrow> walk_pointer as_Time (plain id) (mb_StartTime v) h;
     (completion, bs) \<leftarrow> walk_pointer as_Time (plain id) (mb_CompletionTime v) h;
     Some (\<lparr>bk_Phase = mb_Phase v, StartTime = start, CompletionTime = completion\<rparr>, as @ bs)
   }"

definition walk_EtcdPeer :: "mEtcdPeer \<Rightarrow> memory \<Rightarrow> ((TypeMeta \<times> EtcdPeer) \<times> addr list) option" where
  "walk_EtcdPeer v h = do {
     (meta, as) \<leftarrow> walk_ObjectMeta (o_ObjectMeta v) h;
     (spec, bs) \<leftarrow> walk_EtcdPeerSpec (o_Spec v) h;
     Some ((o_TypeMeta v, \<lparr>peer_meta = meta, peer_spec = spec, peer_status = o_Status v\<rparr>), as @ bs)
   }"

definition walk_EtcdCluster :: "mEtcdCluster \<Rightarrow> memory \<Rightarrow> ((TypeMeta \<times> EtcdCluster) \<times> addr list) option" where
  "walk_EtcdCluster v h = do {
     (meta, as) \<leftarrow> walk_ObjectMeta (o_ObjectMeta v) h;
     (spec, bs) \<leftarrow> walk_EtcdClusterSpec (o_Spec v) h;
     (status, cs) \<leftarrow> walk_EtcdClusterStatus (o_Status v) h;
     Some ((o_TypeMeta v, \<lparr>cluster_meta = meta, cluster_spec = spec, cluster_status = status\<rparr>), as @ bs @ cs)
   }"

definition walk_EtcdBackup :: "mEtcdBackup \<Rightarrow> memory \<Rightarrow> ((TypeMeta \<times> EtcdBackup) \<times> addr list) option" where
  "walk_EtcdBackup v h = do {
     (meta, as) \<leftarrow> walk_ObjectMeta (o_ObjectMeta v) h;
     (status, bs) \<leftarrow> walk_EtcdBackupStatus (o_Status v) h;
     Some ((o_TypeMeta v, \<lparr>backup_meta = meta, backup_spec = o_Spec v, backup_status = status\<rparr>), as @ bs)
   }"

definition walk_EtcdBackupSchedule :: "mEtcdBackupSchedule \<Rightarrow> memory \<Rightarrow> ((TypeMeta \<times> EtcdBackupSchedule) \<times> addr list) option" where
  "walk_EtcdBackupSchedule v h = do {
     (meta, as) \<leftarrow> walk_ObjectMeta (o_ObjectMeta v) h;
     Some ((o_TypeMeta v, \<lparr>schedule_meta = meta, schedule_spec = o_Spec v\<rparr>), as)
   }"

definition walk_EtcdRestore :: "mEtcdRestore \<Rightarrow> memory \<Rightarrow> ((TypeMeta \<times> EtcdRestore) \<times> addr list) option" where
  "walk_EtcdRestore v h = do {
     (meta, as) \<leftarrow> walk_ObjectMeta (o_ObjectMeta v) h;
     (spec, bs) \<leftarrow> walk_EtcdRestoreSpec (o_Spec v) h;
     Some ((o_TypeMeta v, \<lparr>restore_meta = meta, restore_spec = spec, restore_status = o_Status v\<rparr>), as @ bs)
   }"

text \<open>A list of resources, with a walk for its items.\<close>

definition walk_List ::
  "(slice \<Rightarrow> memory \<Rightarrow> ('a list option \<times> addr list) option) \<Rightarrow> mList \<Rightarrow> memory \<Rightarrow>
   ((TypeMeta \<times> ListMeta \<times> 'a list option) \<times> addr list) option" where
  "walk_List walk v h = do {
     (meta, as) \<leftarrow> walk_ListMeta (ls_ListMeta v) h;
     (items, bs) \<leftarrow> walk (ls_Items v) h;
     Some ((ls_TypeMeta v, meta, items), as @ bs)
   }"

section \<open>Boxes\<close>

interpretation Int32_box: boxed CInt32 as_Int32
  by unfold_locales (simp add: as_Int32_def)

interpretation Int64_box: boxed CInt64 as_Int64
  by unfold_locales (simp add: as_Int64_def)

interpretation Time_box: boxed CTime as_Time
  by unfold_locales (simp add: as_Time_def)

interpretation String_box: boxed CString as_String
  by unfold_locales (simp add: as_String_def)

interpretation Strings_box: boxed_array CStrings as_Strings
  by unfold_locales (simp add: as_Strings_def)

interpretation Owners_box: boxed_array COwners as_Owners
  by unfold_locales (simp add: as_Owners_def)

interpretation StringMap_box: boxed_map CStringMap as_StringMap
  by unfold_locales (simp add: as_StringMap_def)

interpretation Quantities_box: boxed CQuantities as_Quantities
  by unfold_locales (simp add: as_Quantities_def)

interpretation ResourceRequirements_box: boxed CResourceRequirements as_ResourceRequirements
  by unfold_locales (simp add: as_ResourceRequirements_def)

interpretation PersistentVolumeClaimSpec_box: boxed CPersistentVolumeClaimSpec as_PersistentVolumeClaimSpec
  by unfold_locales (simp add: as_PersistentVolumeClaimSpec_def)

interpretation Affinity_box: boxed CAffinity as_Affinity
  by unfold_locales (simp add: as_Affinity_def)

interpretation Bootstrap_box: boxed CBootstrap as_Bootstrap
  by unfold_locales (simp add: as_Bootstrap_def)

interpretation EtcdBackup_box: boxed CEtcdBackup as_EtcdBackup
  by unfold_locales (simp add: as_EtcdBackup_def)

interpretation EtcdBackupDestination_box: boxed CEtcdBackupDestination as_EtcdBackupDestination
  by unfold_locales (simp add: as_EtcdBackupDestination_def)

interpretation EtcdBackupList_box: boxed CEtcdBackupList as_EtcdBackupList
  by unfold_locales (simp add: as_EtcdBackupList_def)

interpretation EtcdBackupSchedule_box: boxed CEtcdBackupSchedule as_EtcdBackupSchedule
  by unfold_locales (simp add: as_EtcdBackupSchedule_def)

interpretation EtcdBackupScheduleList_box: boxed CEtcdBackupScheduleList as_EtcdBackupScheduleList
  by unfold_locales (simp add: as_EtcdBackupScheduleList_def)

interpretation EtcdBackupScheduleSpec_box: boxed CEtcdBackupScheduleSpec as_EtcdBackupScheduleSpec
  by unfold_locales (simp add: as_EtcdBackupScheduleSpec_def)

interpretation EtcdBackupScheduleStatus_box: boxed CEtcdBackupScheduleStatus as_EtcdBackupScheduleStatus
  by unfold_locales (simp add: as_EtcdBackupScheduleStatus_def)

interpretation EtcdBackupSource_box: boxed CEtcdBackupSource as_EtcdBackupSource
  by unfold_locales (simp add: as_EtcdBackupSource_def)

interpretation EtcdBackupSpec_box: boxed CEtcdBackupSpec as_EtcdBackupSpec
  by unfold_locales (simp add: as_EtcdBackupSpec_def)

interpretation EtcdBackupStatus_box: boxed CEtcdBackupStatus as_EtcdBackupStatus
  by unfold_locales (simp add: as_EtcdBackupStatus_def)

interpretation EtcdCluster_box: boxed CEtcdCluster as_EtcdCluster
  by unfold_locales (simp add: as_EtcdCluster_def)

interpretation EtcdClusterList_box: boxed CEtcdClusterList as_EtcdClusterList
  by unfold_locales (simp add: as_EtcdClusterList_def)

interpretation EtcdClusterSpec_box: boxed CEtcdClusterSpec as_EtcdClusterSpec
  by unfold_locales (simp add: as_EtcdClusterSpec_def)

interpretation EtcdClusterStatus_box: boxed CEtcdClusterStatus as_EtcdClusterStatus
  by unfold_locales (simp add: as_EtcdClusterStatus_def)

interpretation EtcdClusterTemplate_box: boxed CEtcdClusterTemplate as_EtcdClusterTemplate
  by unfold_locales (simp add: as_EtcdClusterTemplate_def)

interpretation EtcdMember_box: boxed CEtcdMember as_EtcdMember
  by unfold_locales (simp add: as_EtcdMember_def)

interpretation EtcdPeer_box: boxed CEtcdPeer as_EtcdPeer
  by unfold_locales (simp add: as_EtcdPeer_def)

interpretation EtcdPeerList_box: boxed CEtcdPeerList as_EtcdPeerList
  by unfold_locales (simp add: as_EtcdPeerList_def)

interpretation EtcdPeerSpec_box: boxed CEtcdPeerSpec as_EtcdPeerSpec
  by unfold_locales (simp add: as_EtcdPeerSpec_def)

interpretation EtcdPeerStatus_box: boxed CEtcdPeerStatus as_EtcdPeerStatus
  by unfold_locales (simp add: as_EtcdPeerStatus_def)

interpretation EtcdPeerStorage_box: boxed CEtcdPeerStorage as_EtcdPeerStorage
  by unfold_locales (simp add: as_EtcdPeerStorage_def)

interpretation EtcdPodTemplateObjectMeta_box: boxed CEtcdPodTemplateObjectMeta as_EtcdPodTemplateObjectMeta
  by unfold_locales (simp add: as_EtcdPodTemplateObjectMeta_def)

interpretation EtcdPodTemplateSpec_box: boxed CEtcdPodTemplateSpec as_EtcdPodTemplateSpec
  by unfold_locales (simp add: as_EtcdPodTemplateSpec_def)

interpretation EtcdRestore_box: boxed CEtcdRestore as_EtcdRestore
  by unfold_locales (simp add: as_EtcdRestore_def)

interpretation EtcdRestoreList_box: boxed CEtcdRestoreList as_EtcdRestoreList
  by unfold_locales (simp add: as_EtcdRestoreList_def)

interpretation EtcdRestoreSource_box: boxed CEtcdRestoreSource as_EtcdRestoreSource
  by unfold_locales (simp add: as_EtcdRestoreSource_def)

interpretation EtcdRestoreSpec_box: boxed CEtcdRestoreSpec as_EtcdRestoreSpec
  by unfold_locales (simp add: as_EtcdRestoreSpec_def)

interpretation EtcdRestoreStatus_box: boxed CEtcdRestoreStatus as_EtcdRestoreStatus
  by unfold_locales (simp add: as_EtcdRestoreStatus_def)

interpretation InitialClusterMember_box: boxed CInitialClusterMember as_InitialClusterMember
  by unfold_locales (simp add: as_InitialClusterMember_def)

interpretation StaticBootstrap_box: boxed CStaticBootstrap as_StaticBootstrap
  by unfold_locales (simp add: as_StaticBootstrap_def)

interpretation InitialClusterMembers_box: boxed_array CInitialClusterMembers as_InitialClusterMembers
  by unfold_locales (simp add: as_InitialClusterMembers_def)

interpretation EtcdMembers_box: boxed_array CEtcdMembers as_EtcdMembers
  by unfold_locales (simp add: as_EtcdMembers_def)

interpretation EtcdBackups_box: boxed_array CEtcdBackups as_EtcdBackups
  by unfold_locales (simp add: as_EtcdBackups_def)

interpretation EtcdBackupSchedules_box: boxed_array CEtcdBackupSchedules as_EtcdBackupSchedules
  by unfold_locales (simp add: as_EtcdBackupSchedules_def)

interpretation EtcdClusters_box: boxed_array CEtcdClusters as_EtcdClusters
  by unfold_locales (simp add: as_EtcdClusters_def)

interpretation EtcdPeers_box: boxed_array CEtcdPeers as_EtcdPeers
  by unfold_locales (simp add: as_EtcdPeers_def)

interpretation EtcdRestores_box: boxed_array CEtcdRestores as_EtcdRestores
  by unfold_locales (simp add: as_EtcdRestores_def)

section \<open>The deep copies are deep\<close>

text \<open>What is relied on of the other packages: their copies are deep, and a loop visits every entry of a map once.\<close>

definition copiers_ok :: "copiers \<Rightarrow> bool" where
  "copiers_ok K \<longleftrightarrow>
     deep (ObjectMeta_DeepCopyInto K) walk_ObjectMeta \<and> deep (ListMeta_DeepCopyInto K) walk_ListMeta \<and>
     deep (Time_DeepCopy K) (walk_pointer as_Time (plain id)) \<and>
     deep (PersistentVolumeClaimSpec_DeepCopyInto K) walk_PersistentVolumeClaimSpec \<and>
     deep (ResourceRequirements_DeepCopyInto K) walk_ResourceRequirements \<and>
     deep (Affinity_DeepCopyInto K) (plain id) \<and> (\<forall>h m. mset (range_order K h m) = mset m)"

lemma copiers_okD:
  assumes "copiers_ok K"
  shows "deep (ObjectMeta_DeepCopyInto K) walk_ObjectMeta" "deep (ListMeta_DeepCopyInto K) walk_ListMeta"
    "deep (Time_DeepCopy K) (walk_pointer as_Time (plain id))"
    "deep (PersistentVolumeClaimSpec_DeepCopyInto K) walk_PersistentVolumeClaimSpec"
    "deep (ResourceRequirements_DeepCopyInto K) walk_ResourceRequirements"
    "deep (Affinity_DeepCopyInto K) (plain id)" "\<And>h m. mset (range_order K h m) = mset m"
  using assms by (simp_all add: copiers_ok_def)

lemma StaticBootstrap_deep:
  shows "deep StaticBootstrap_DeepCopyInto walk_StaticBootstrap"
  unfolding StaticBootstrap_DeepCopyInto_def [abs_def] walk_StaticBootstrap_def [abs_def]
  by (rule deep_field [OF InitialClusterMembers_box.deep_slice]) simp_all

lemma Bootstrap_deep:
  shows "deep Bootstrap_DeepCopyInto walk_Bootstrap"
  unfolding Bootstrap_DeepCopyInto_def [abs_def] walk_Bootstrap_def [abs_def]
  by (rule deep_field [OF StaticBootstrap_box.deep_pointer [OF StaticBootstrap_deep]]) simp_all

lemma EtcdPeerStorage_deep:
  assumes "copiers_ok K"
  shows "deep (EtcdPeerStorage_DeepCopyInto K) walk_EtcdPeerStorage"
  unfolding EtcdPeerStorage_DeepCopyInto_def [abs_def] walk_EtcdPeerStorage_def [abs_def]
  by (rule deep_field [OF PersistentVolumeClaimSpec_box.deep_pointer [OF copiers_okD(4) [OF assms]]]) simp_all

lemma EtcdPodTemplateObjectMeta_deep:
  assumes "copiers_ok K"
  shows "deep (EtcdPodTemplateObjectMeta_DeepCopyInto K) walk_EtcdPodTemplateObjectMeta"
  unfolding EtcdPodTemplateObjectMeta_DeepCopyInto_def [abs_def] walk_EtcdPodTemplateObjectMeta_def [abs_def]
  by (rule deep_field [OF StringMap_box.deep_map [OF copiers_okD(7) [OF assms]]]) simp_all

lemma EtcdPodTemplateSpec_deep:
  assumes "copiers_ok K"
  shows "deep (EtcdPodTemplateSpec_DeepCopyInto K) walk_EtcdPodTemplateSpec"
  unfolding EtcdPodTemplateSpec_DeepCopyInto_def [abs_def] walk_EtcdPodTemplateSpec_def [abs_def]
  by (rule deep_fields3 [OF EtcdPodTemplateObjectMeta_box.deep_pointer [OF EtcdPodTemplateObjectMeta_deep [OF assms]]
      ResourceRequirements_box.deep_pointer [OF copiers_okD(5) [OF assms]]
      Affinity_box.deep_pointer [OF copiers_okD(6) [OF assms]]]) simp_all

lemma EtcdPeerSpec_deep:
  assumes "copiers_ok K"
  shows "deep (EtcdPeerSpec_DeepCopyInto K) walk_EtcdPeerSpec"
  unfolding EtcdPeerSpec_DeepCopyInto_def [abs_def] walk_EtcdPeerSpec_def [abs_def]
  by (rule deep_fields3 [OF Bootstrap_box.deep_pointer [OF Bootstrap_deep]
      EtcdPeerStorage_box.deep_pointer [OF EtcdPeerStorage_deep [OF assms]]
      EtcdPodTemplateSpec_box.deep_pointer [OF EtcdPodTemplateSpec_deep [OF assms]]]) simp_all

lemma EtcdClusterSpec_deep:
  assumes "copiers_ok K"
  shows "deep (EtcdClusterSpec_DeepCopyInto K) walk_EtcdClusterSpec"
  unfolding EtcdClusterSpec_DeepCopyInto_def [abs_def] walk_EtcdClusterSpec_def [abs_def]
  by (rule deep_fields3 [OF Int32_box.deep_pointer [OF deep_assign]
      EtcdPeerStorage_box.deep_pointer [OF EtcdPeerStorage_deep [OF assms]]
      EtcdPodTemplateSpec_box.deep_pointer [OF EtcdPodTemplateSpec_deep [OF assms]]]) simp_all

lemma EtcdClusterStatus_deep:
  shows "deep EtcdClusterStatus_DeepCopyInto walk_EtcdClusterStatus"
  unfolding EtcdClusterStatus_DeepCopyInto_def [abs_def] walk_EtcdClusterStatus_def [abs_def]
  by (rule deep_field [OF EtcdMembers_box.deep_slice]) simp_all

lemma EtcdClusterTemplate_deep:
  assumes "copiers_ok K"
  shows "deep (EtcdClusterTemplate_DeepCopyInto K) walk_EtcdClusterTemplate"
  unfolding EtcdClusterTemplate_DeepCopyInto_def [abs_def] walk_EtcdClusterTemplate_def [abs_def]
  by (rule deep_field [OF EtcdClusterSpec_deep [OF assms]]) simp_all

lemma EtcdRestoreSpec_deep:
  assumes "copiers_ok K"
  shows "deep (EtcdRestoreSpec_DeepCopyInto K) walk_EtcdRestoreSpec"
  unfolding EtcdRestoreSpec_DeepCopyInto_def [abs_def] walk_EtcdRestoreSpec_def [abs_def]
  by (rule deep_field [OF EtcdClusterTemplate_deep [OF assms]]) simp_all

lemma copy_time_deep:
  assumes "copiers_ok K"
  shows "deep (copy_time K) (walk_pointer as_Time (plain id))"
proof -
  note t = copiers_okD(3) [OF assms]
  show ?thesis
  proof (rule deepI [OF deep_local [OF t]])
    fix p h x as assume w: "walk_pointer as_Time (plain id) p h = Some (x, as)"
    show "\<exists>p' new as'. copy_time K p h = Some (p', h @ new) \<and> walk_pointer as_Time (plain id) p' (h @ new) = Some (x, as') \<and>
        (\<forall>a \<in> set as'. length h \<le> a \<and> a < length h + length new)"
    proof (cases p)
      case None
      with w show ?thesis by (auto simp: copy_time_def walk_pointer_def)
    next
      case (Some a)
      from deepD [OF t w] obtain p' new as' where "Time_DeepCopy K p h = Some (p', h @ new)"
        "walk_pointer as_Time (plain id) p' (h @ new) = Some (x, as')"
        "\<And>a. a \<in> set as' \<Longrightarrow> length h \<le> a \<and> a < length h + length new" by blast
      with Some show ?thesis by (auto simp: copy_time_def)
    qed
  qed
qed

lemma EtcdBackupStatus_deep:
  assumes "copiers_ok K"
  shows "deep (EtcdBackupStatus_DeepCopyInto K) walk_EtcdBackupStatus"
  unfolding EtcdBackupStatus_DeepCopyInto_def [abs_def] walk_EtcdBackupStatus_def [abs_def]
  by (rule deep_fields2 [OF copy_time_deep [OF assms] copy_time_deep [OF assms]]) simp_all

lemma EtcdPeer_deep:
  assumes "copiers_ok K"
  shows "deep (EtcdPeer_DeepCopyInto K) walk_EtcdPeer"
  unfolding EtcdPeer_DeepCopyInto_def [abs_def] walk_EtcdPeer_def [abs_def]
  by (rule deep_fields2 [OF copiers_okD(1) [OF assms] EtcdPeerSpec_deep [OF assms]]) simp_all

lemma EtcdCluster_deep:
  assumes "copiers_ok K"
  shows "deep (EtcdCluster_DeepCopyInto K) walk_EtcdCluster"
  unfolding EtcdCluster_DeepCopyInto_def [abs_def] walk_EtcdCluster_def [abs_def]
  by (rule deep_fields3 [OF copiers_okD(1) [OF assms] EtcdClusterSpec_deep [OF assms] EtcdClusterStatus_deep]) simp_all

lemma EtcdBackup_deep:
  assumes "copiers_ok K"
  shows "deep (EtcdBackup_DeepCopyInto K) walk_EtcdBackup"
  unfolding EtcdBackup_DeepCopyInto_def [abs_def] walk_EtcdBackup_def [abs_def]
  by (rule deep_fields2 [OF copiers_okD(1) [OF assms] EtcdBackupStatus_deep [OF assms]]) simp_all

lemma EtcdBackupSchedule_deep:
  assumes "copiers_ok K"
  shows "deep (EtcdBackupSchedule_DeepCopyInto K) walk_EtcdBackupSchedule"
  unfolding EtcdBackupSchedule_DeepCopyInto_def [abs_def] walk_EtcdBackupSchedule_def [abs_def]
  by (rule deep_field [OF copiers_okD(1) [OF assms]]) simp_all

lemma EtcdRestore_deep:
  assumes "copiers_ok K"
  shows "deep (EtcdRestore_DeepCopyInto K) walk_EtcdRestore"
  unfolding EtcdRestore_DeepCopyInto_def [abs_def] walk_EtcdRestore_def [abs_def]
  by (rule deep_fields2 [OF copiers_okD(1) [OF assms] EtcdRestoreSpec_deep [OF assms]]) simp_all

lemma EtcdBackupList_deep:
  assumes "copiers_ok K"
  shows "deep (EtcdBackupList_DeepCopyInto K) (walk_List (walk_slice as_EtcdBackups walk_EtcdBackup))"
  unfolding EtcdBackupList_DeepCopyInto_def [abs_def] walk_List_def [abs_def]
  by (rule deep_fields2 [OF copiers_okD(2) [OF assms] EtcdBackups_box.deep_items [OF EtcdBackup_deep [OF assms]]]) simp_all

lemma EtcdBackupScheduleList_deep:
  assumes "copiers_ok K"
  shows "deep (EtcdBackupScheduleList_DeepCopyInto K) (walk_List (walk_slice as_EtcdBackupSchedules walk_EtcdBackupSchedule))"
  unfolding EtcdBackupScheduleList_DeepCopyInto_def [abs_def] walk_List_def [abs_def]
  by (rule deep_fields2 [OF copiers_okD(2) [OF assms] EtcdBackupSchedules_box.deep_items [OF EtcdBackupSchedule_deep [OF assms]]]) simp_all

lemma EtcdClusterList_deep:
  assumes "copiers_ok K"
  shows "deep (EtcdClusterList_DeepCopyInto K) (walk_List (walk_slice as_EtcdClusters walk_EtcdCluster))"
  unfolding EtcdClusterList_DeepCopyInto_def [abs_def] walk_List_def [abs_def]
  by (rule deep_fields2 [OF copiers_okD(2) [OF assms] EtcdClusters_box.deep_items [OF EtcdCluster_deep [OF assms]]]) simp_all

lemma EtcdPeerList_deep:
  assumes "copiers_ok K"
  shows "deep (EtcdPeerList_DeepCopyInto K) (walk_List (walk_slice as_EtcdPeers walk_EtcdPeer))"
  unfolding EtcdPeerList_DeepCopyInto_def [abs_def] walk_List_def [abs_def]
  by (rule deep_fields2 [OF copiers_okD(2) [OF assms] EtcdPeers_box.deep_items [OF EtcdPeer_deep [OF assms]]]) simp_all

lemma EtcdRestoreList_deep:
  assumes "copiers_ok K"
  shows "deep (EtcdRestoreList_DeepCopyInto K) (walk_List (walk_slice as_EtcdRestores walk_EtcdRestore))"
  unfolding EtcdRestoreList_DeepCopyInto_def [abs_def] walk_List_def [abs_def]
  by (rule deep_fields2 [OF copiers_okD(2) [OF assms] EtcdRestores_box.deep_items [OF EtcdRestore_deep [OF assms]]]) simp_all

text \<open>Structs without references.\<close>

lemma value_structs_deep:
  "deep EtcdBackupDestination_DeepCopyInto (plain id)"
  "deep EtcdBackupScheduleSpec_DeepCopyInto (plain id)"
  "deep EtcdBackupScheduleStatus_DeepCopyInto (plain id)"
  "deep EtcdBackupSource_DeepCopyInto (plain id)"
  "deep EtcdBackupSpec_DeepCopyInto (plain id)"
  "deep EtcdMember_DeepCopyInto (plain id)"
  "deep EtcdPeerStatus_DeepCopyInto (plain id)"
  "deep EtcdRestoreSource_DeepCopyInto (plain id)"
  "deep EtcdRestoreStatus_DeepCopyInto (plain id)"
  "deep InitialClusterMember_DeepCopyInto (plain id)"
  unfolding
    EtcdBackupDestination_DeepCopyInto_def [abs_def] EtcdBackupScheduleSpec_DeepCopyInto_def [abs_def]
    EtcdBackupScheduleStatus_DeepCopyInto_def [abs_def] EtcdBackupSource_DeepCopyInto_def [abs_def]
    EtcdBackupSpec_DeepCopyInto_def [abs_def] EtcdMember_DeepCopyInto_def [abs_def]
    EtcdPeerStatus_DeepCopyInto_def [abs_def] EtcdRestoreSource_DeepCopyInto_def [abs_def]
    EtcdRestoreStatus_DeepCopyInto_def [abs_def] InitialClusterMember_DeepCopyInto_def [abs_def]
  by (simp_all add: deep_assign)

lemmas deep_copy_defs =
  Bootstrap_DeepCopy_def EtcdBackup_DeepCopy_def EtcdBackupDestination_DeepCopy_def
  EtcdBackupList_DeepCopy_def EtcdBackupSchedule_DeepCopy_def EtcdBackupScheduleList_DeepCopy_def
  EtcdBackupScheduleSpec_DeepCopy_def EtcdBackupScheduleStatus_DeepCopy_def EtcdBackupSource_DeepCopy_def
  EtcdBackupSpec_DeepCopy_def EtcdBackupStatus_DeepCopy_def EtcdCluster_DeepCopy_def
  EtcdClusterList_DeepCopy_def EtcdClusterSpec_DeepCopy_def EtcdClusterStatus_DeepCopy_def
  EtcdClusterTemplate_DeepCopy_def EtcdMember_DeepCopy_def EtcdPeer_DeepCopy_def
  EtcdPeerList_DeepCopy_def EtcdPeerSpec_DeepCopy_def EtcdPeerStatus_DeepCopy_def
  EtcdPeerStorage_DeepCopy_def EtcdPodTemplateObjectMeta_DeepCopy_def EtcdPodTemplateSpec_DeepCopy_def
  EtcdRestore_DeepCopy_def EtcdRestoreList_DeepCopy_def EtcdRestoreSource_DeepCopy_def
  EtcdRestoreSpec_DeepCopy_def EtcdRestoreStatus_DeepCopy_def InitialClusterMember_DeepCopy_def
  StaticBootstrap_DeepCopy_def

lemmas deep_pointers =
  Bootstrap_box.deep_pointer [OF Bootstrap_deep] EtcdBackup_box.deep_pointer [OF EtcdBackup_deep]
  EtcdBackupList_box.deep_pointer [OF EtcdBackupList_deep] EtcdBackupSchedule_box.deep_pointer [OF EtcdBackupSchedule_deep]
  EtcdBackupScheduleList_box.deep_pointer [OF EtcdBackupScheduleList_deep] EtcdBackupStatus_box.deep_pointer [OF EtcdBackupStatus_deep]
  EtcdCluster_box.deep_pointer [OF EtcdCluster_deep] EtcdClusterList_box.deep_pointer [OF EtcdClusterList_deep]
  EtcdClusterSpec_box.deep_pointer [OF EtcdClusterSpec_deep] EtcdClusterStatus_box.deep_pointer [OF EtcdClusterStatus_deep]
  EtcdClusterTemplate_box.deep_pointer [OF EtcdClusterTemplate_deep] EtcdPeer_box.deep_pointer [OF EtcdPeer_deep]
  EtcdPeerList_box.deep_pointer [OF EtcdPeerList_deep] EtcdPeerSpec_box.deep_pointer [OF EtcdPeerSpec_deep]
  EtcdPeerStorage_box.deep_pointer [OF EtcdPeerStorage_deep] EtcdPodTemplateObjectMeta_box.deep_pointer [OF EtcdPodTemplateObjectMeta_deep]
  EtcdPodTemplateSpec_box.deep_pointer [OF EtcdPodTemplateSpec_deep] EtcdRestore_box.deep_pointer [OF EtcdRestore_deep]
  EtcdRestoreList_box.deep_pointer [OF EtcdRestoreList_deep] EtcdRestoreSpec_box.deep_pointer [OF EtcdRestoreSpec_deep]
  StaticBootstrap_box.deep_pointer [OF StaticBootstrap_deep]
  EtcdBackupDestination_box.deep_pointer [OF value_structs_deep(1)] EtcdBackupScheduleSpec_box.deep_pointer [OF value_structs_deep(2)]
  EtcdBackupScheduleStatus_box.deep_pointer [OF value_structs_deep(3)] EtcdBackupSource_box.deep_pointer [OF value_structs_deep(4)]
  EtcdBackupSpec_box.deep_pointer [OF value_structs_deep(5)] EtcdMember_box.deep_pointer [OF value_structs_deep(6)]
  EtcdPeerStatus_box.deep_pointer [OF value_structs_deep(7)] EtcdRestoreSource_box.deep_pointer [OF value_structs_deep(8)]
  EtcdRestoreStatus_box.deep_pointer [OF value_structs_deep(9)] InitialClusterMember_box.deep_pointer [OF value_structs_deep(10)]

text \<open>A copy as an interface value: nil for nil, and otherwise a deep copy under its own type.\<close>

definition copies_object ::
  "resource_type \<Rightarrow> (pointer \<Rightarrow> memory \<Rightarrow> (runtime_object \<times> memory) option) \<Rightarrow>
   (pointer \<Rightarrow> memory \<Rightarrow> ('a \<times> addr list) option) \<Rightarrow> bool" where
  "copies_object t copy walk \<longleftrightarrow> (\<forall>h. copy None h = Some (None, h)) \<and>
     (\<forall>a h x as. walk (Some a) h = Some (x, as) \<longrightarrow>
       (\<exists>b new bs. copy (Some a) h = Some (Some (t, Some b), h @ new) \<and> walk (Some b) (h @ new) = Some (x, bs) \<and>
          set bs \<subseteq> {length h..<length (h @ new)}))"

lemma copies_objectI:
  assumes "boxed box unbox" "deep copy walk"
  shows "copies_object t (\<lambda>p h. do {(c, h1) \<leftarrow> copy_pointer box unbox copy p h; Some (if c \<noteq> None then Some (t, c) else None, h1)})
    (walk_pointer unbox walk)"
  unfolding copies_object_def
proof (intro conjI allI impI)
  fix a h x as assume w: "walk_pointer unbox walk (Some a) h = Some (x, as)"
  from deepD [OF boxed.deep_pointer [OF assms] w] obtain q new bs where
    q: "copy_pointer box unbox copy (Some a) h = Some (q, h @ new)" "walk_pointer unbox walk q (h @ new) = Some (x, bs)"
      "\<And>a. a \<in> set bs \<Longrightarrow> length h \<le> a \<and> a < length h + length new" by blast
  moreover from q(1) obtain b where "q = Some b" by (auto simp: copy_pointer_def bind_eq_Some_conv alloc_def)
  ultimately show "\<exists>b new bs. do {(c, h1) \<leftarrow> copy_pointer box unbox copy (Some a) h; Some (if c \<noteq> None then Some (t, c) else None, h1)} =
       Some (Some (t, Some b), h @ new) \<and> walk_pointer unbox walk (Some b) (h @ new) = Some (x, bs) \<and>
       set bs \<subseteq> {length h..<length (h @ new)}"
    by (intro exI [of _ b] exI [of _ new] exI [of _ bs]) auto
qed (simp add: copy_pointer_def)

text \<open>
  What is written through one of two references is not seen through the other: after \<open>copy\<close>, changing
  any cells but those of the copy leaves its value, and so for the original.
\<close>

definition kept_apart ::
  "(pointer \<Rightarrow> memory \<Rightarrow> (pointer \<times> memory) option) \<Rightarrow> (pointer \<Rightarrow> memory \<Rightarrow> ('a \<times> addr list) option) \<Rightarrow> bool" where
  "kept_apart copy walk \<longleftrightarrow> (\<forall>p h x as. walk p h = Some (x, as) \<longrightarrow>
     (\<exists>q h' bs. copy p h = Some (q, h') \<and> walk q h' = Some (x, bs) \<and>
        (\<forall>g. (\<forall>a < length h'. a \<notin> set bs \<longrightarrow> same_at h' g a) \<longrightarrow> walk p g = Some (x, as)) \<and>
        (\<forall>g. (\<forall>a < length h'. a \<notin> set as \<longrightarrow> same_at h' g a) \<longrightarrow> walk q g = Some (x, bs))))"

lemma deep_kept_apart:
  assumes "deep copy walk"
  shows "kept_apart copy walk"
  unfolding kept_apart_def
proof (intro allI impI)
  fix p h x as assume w: "walk p h = Some (x, as)"
  from deepD [OF assms w] obtain q new bs where q: "copy p h = Some (q, h @ new)" "walk q (h @ new) = Some (x, bs)"
    "\<And>a. a \<in> set bs \<Longrightarrow> length h \<le> a \<and> a < length h + length new" by blast
  note iso = deep_isolates [OF assms w q(1,2)]
  have "walk q g = Some (x, bs)" if "\<forall>a < length (h @ new). a \<notin> set as \<longrightarrow> same_at (h @ new) g a" for g
  proof (rule iso(4))
    fix a assume "a \<in> set bs"
    with iso(2) localD(1) [OF deep_local [OF assms] q(2)] that show "same_at (h @ new) g a" by blast
  qed
  with q(1,2) iso(3) show "\<exists>q h' bs. copy p h = Some (q, h') \<and> walk q h' = Some (x, bs) \<and>
        (\<forall>g. (\<forall>a < length h'. a \<notin> set bs \<longrightarrow> same_at h' g a) \<longrightarrow> walk p g = Some (x, as)) \<and>
        (\<forall>g. (\<forall>a < length h'. a \<notin> set as \<longrightarrow> same_at h' g a) \<longrightarrow> walk q g = Some (x, bs))" by blast
qed

lemmas deep_objects =
  copies_objectI [OF EtcdBackup_box.boxed_axioms EtcdBackup_deep]
  copies_objectI [OF EtcdBackupList_box.boxed_axioms EtcdBackupList_deep]
  copies_objectI [OF EtcdBackupSchedule_box.boxed_axioms EtcdBackupSchedule_deep]
  copies_objectI [OF EtcdBackupScheduleList_box.boxed_axioms EtcdBackupScheduleList_deep]
  copies_objectI [OF EtcdCluster_box.boxed_axioms EtcdCluster_deep]
  copies_objectI [OF EtcdClusterList_box.boxed_axioms EtcdClusterList_deep]
  copies_objectI [OF EtcdPeer_box.boxed_axioms EtcdPeer_deep]
  copies_objectI [OF EtcdPeerList_box.boxed_axioms EtcdPeerList_deep]
  copies_objectI [OF EtcdRestore_box.boxed_axioms EtcdRestore_deep]
  copies_objectI [OF EtcdRestoreList_box.boxed_axioms EtcdRestoreList_deep]

lemmas deep_copy_object_defs =
  EtcdBackup_DeepCopyObject_def [abs_def] EtcdBackupList_DeepCopyObject_def [abs_def]
  EtcdBackupSchedule_DeepCopyObject_def [abs_def] EtcdBackupScheduleList_DeepCopyObject_def [abs_def]
  EtcdCluster_DeepCopyObject_def [abs_def] EtcdClusterList_DeepCopyObject_def [abs_def]
  EtcdPeer_DeepCopyObject_def [abs_def] EtcdPeerList_DeepCopyObject_def [abs_def]
  EtcdRestore_DeepCopyObject_def [abs_def] EtcdRestoreList_DeepCopyObject_def [abs_def]

section \<open>Copiers that are deep\<close>

text \<open>Deep copies of the structs of Kubernetes: the hypothesis on them can be met.\<close>

definition std_copiers :: copiers where
  "std_copiers = \<lparr>
     ObjectMeta_DeepCopyInto = (\<lambda>v h. do {
       (maps, h1) \<leftarrow> copy_both (copy_map CStringMap as_StringMap (\<lambda>h m. m)) (copy_map CStringMap as_StringMap (\<lambda>h m. m))
         (mm_Labels v, mm_Annotations v) h;
       (others, h2) \<leftarrow> copy_both (copy_slice CStrings as_Strings [])
         (copy_both (copy_slice COwners as_Owners \<lparr>or_Kind = [], or_Name = [], or_UID = [], or_Controller = False\<rparr>)
           (copy_pointer CTime as_Time assign))
         (mm_Finalizers v, mm_OwnerReferences v, mm_DeletionTimestamp v) h1;
       Some (v\<lparr>mm_Labels := fst maps, mm_Annotations := snd maps, mm_Finalizers := fst others,
               mm_OwnerReferences := fst (snd others), mm_DeletionTimestamp := snd (snd others)\<rparr>, h2)
     }),
     ListMeta_DeepCopyInto = (\<lambda>v h. do {
       (count, h1) \<leftarrow> copy_pointer CInt64 as_Int64 assign (ml_RemainingItemCount v) h;
       Some (v\<lparr>ml_RemainingItemCount := count\<rparr>, h1)
     }),
     Time_DeepCopy = copy_pointer CTime as_Time assign,
     PersistentVolumeClaimSpec_DeepCopyInto = (\<lambda>v h. do {
       (modes, h1) \<leftarrow> copy_slice CStrings as_Strings [] (mv_AccessModes v) h;
       (others, h2) \<leftarrow> copy_both (\<lambda>v h. do {
           (limits, h1) \<leftarrow> copy_pointer CQuantities as_Quantities assign (mr_Limits v) h;
           (requests, h2) \<leftarrow> copy_pointer CQuantities as_Quantities assign (mr_Requests v) h1;
           Some (v\<lparr>mr_Limits := limits, mr_Requests := requests\<rparr>, h2)
         }) (copy_both (copy_pointer CString as_String assign) (copy_pointer CString as_String assign))
         (mv_Resources v, mv_VolumeMode v, mv_StorageClassName v) h1;
       Some (v\<lparr>mv_AccessModes := modes, mv_Resources := fst others, mv_VolumeMode := fst (snd others),
               mv_StorageClassName := snd (snd others)\<rparr>, h2)
     }),
     ResourceRequirements_DeepCopyInto = (\<lambda>v h. do {
       (limits, h1) \<leftarrow> copy_pointer CQuantities as_Quantities assign (mr_Limits v) h;
       (requests, h2) \<leftarrow> copy_pointer CQuantities as_Quantities assign (mr_Requests v) h1;
       Some (v\<lparr>mr_Limits := limits, mr_Requests := requests\<rparr>, h2)
     }),
     Affinity_DeepCopyInto = assign,
     range_order = (\<lambda>h m. m)\<rparr>"

lemma std_resources_deep: "deep (ResourceRequirements_DeepCopyInto std_copiers) walk_ResourceRequirements"
  unfolding walk_ResourceRequirements_def [abs_def] walk_quantities_def std_copiers_def copiers.simps
  by (rule deep_fields2 [OF Quantities_box.deep_pointer [OF deep_assign] Quantities_box.deep_pointer [OF deep_assign]]) simp_all

lemma std_meta_deep: "deep (ObjectMeta_DeepCopyInto std_copiers) walk_ObjectMeta"
  unfolding walk_ObjectMeta_def [abs_def] std_copiers_def copiers.simps
  by (rule deep_fields2 [OF deep_both [OF StringMap_box.deep_map StringMap_box.deep_map]
      deep_both [OF Strings_box.deep_slice deep_both [OF Owners_box.deep_slice Time_box.deep_pointer [OF deep_assign]]]]) simp_all

lemma std_claim_deep: "deep (PersistentVolumeClaimSpec_DeepCopyInto std_copiers) walk_PersistentVolumeClaimSpec"
  unfolding walk_PersistentVolumeClaimSpec_def [abs_def] std_copiers_def copiers.simps
  by (rule deep_fields2 [OF Strings_box.deep_slice deep_both [OF std_resources_deep [unfolded std_copiers_def copiers.simps]
      deep_both [OF String_box.deep_pointer [OF deep_assign] String_box.deep_pointer [OF deep_assign]]]]) simp_all

lemma std_list_deep: "deep (ListMeta_DeepCopyInto std_copiers) walk_ListMeta"
  unfolding walk_ListMeta_def [abs_def] std_copiers_def copiers.simps
  by (rule deep_field [OF Int64_box.deep_pointer [OF deep_assign]]) simp_all

lemma std_copiers_ok: "copiers_ok std_copiers"
  unfolding copiers_ok_def
  by (intro conjI std_meta_deep std_list_deep std_claim_deep std_resources_deep)
    (simp_all add: std_copiers_def deep_assign Time_box.deep_pointer [OF deep_assign])

text \<open>A cluster in memory: its replicas at 1, a list of two members at 2, labels at 3.\<close>

definition sample_memory :: memory where
  "sample_memory =
     [CEtcdCluster \<lparr>o_TypeMeta = \<lparr>tm_Kind = ''EtcdCluster'', tm_APIVersion = ''etcd.improbable.io/v1alpha1''\<rparr>,
        o_ObjectMeta = (o_ObjectMeta zeroEtcdCluster)\<lparr>mm_Name := ''c'', mm_Labels := Some 3\<rparr>,
        o_Spec = zeroClusterSpec\<lparr>mc_Replicas := Some 1\<rparr>,
        o_Status = \<lparr>ms_Replicas = 2, ms_Members = Some \<lparr>sl_array = 2, sl_offset = 0, sl_len = 2\<rparr>, ms_ClusterVersion = []\<rparr>\<rparr>,
      CInt32 2,
      CEtcdMembers [\<lparr>em_Name = ''c-0'', em_ID = ''1''\<rparr>, \<lparr>em_Name = ''c-1'', em_ID = ''2''\<rparr>],
      CStringMap [(''app'', ''etcd'')]]"

section \<open>Properties\<close>

text \<open>C24: every generated DeepCopy returns. The copy stands for the same value as the original, nothing
  that was in memory has changed, and every cell that can be reached from the copy has been allocated
  by the call.
\<close>

theorem deep_copies_are_deep:
  assumes "copiers_ok K"
  shows "deep Bootstrap_DeepCopy (walk_pointer as_Bootstrap walk_Bootstrap) \<and>
    deep (EtcdBackup_DeepCopy K) (walk_pointer as_EtcdBackup walk_EtcdBackup) \<and>
    deep EtcdBackupDestination_DeepCopy (walk_pointer as_EtcdBackupDestination (plain id)) \<and>
    deep (EtcdBackupList_DeepCopy K) (walk_pointer as_EtcdBackupList (walk_List (walk_slice as_EtcdBackups walk_EtcdBackup))) \<and>
    deep (EtcdBackupSchedule_DeepCopy K) (walk_pointer as_EtcdBackupSchedule walk_EtcdBackupSchedule) \<and>
    deep (EtcdBackupScheduleList_DeepCopy K) (walk_pointer as_EtcdBackupScheduleList (walk_List (walk_slice as_EtcdBackupSchedules walk_EtcdBackupSchedule))) \<and>
    deep EtcdBackupScheduleSpec_DeepCopy (walk_pointer as_EtcdBackupScheduleSpec (plain id)) \<and>
    deep EtcdBackupScheduleStatus_DeepCopy (walk_pointer as_EtcdBackupScheduleStatus (plain id)) \<and>
    deep EtcdBackupSource_DeepCopy (walk_pointer as_EtcdBackupSource (plain id)) \<and>
    deep EtcdBackupSpec_DeepCopy (walk_pointer as_EtcdBackupSpec (plain id)) \<and>
    deep (EtcdBackupStatus_DeepCopy K) (walk_pointer as_EtcdBackupStatus walk_EtcdBackupStatus) \<and>
    deep (EtcdCluster_DeepCopy K) (walk_pointer as_EtcdCluster walk_EtcdCluster) \<and>
    deep (EtcdClusterList_DeepCopy K) (walk_pointer as_EtcdClusterList (walk_List (walk_slice as_EtcdClusters walk_EtcdCluster))) \<and>
    deep (EtcdClusterSpec_DeepCopy K) (walk_pointer as_EtcdClusterSpec walk_EtcdClusterSpec) \<and>
    deep EtcdClusterStatus_DeepCopy (walk_pointer as_EtcdClusterStatus walk_EtcdClusterStatus) \<and>
    deep (EtcdClusterTemplate_DeepCopy K) (walk_pointer as_EtcdClusterTemplate walk_EtcdClusterTemplate) \<and>
    deep EtcdMember_DeepCopy (walk_pointer as_EtcdMember (plain id)) \<and>
    deep (EtcdPeer_DeepCopy K) (walk_pointer as_EtcdPeer walk_EtcdPeer) \<and>
    deep (EtcdPeerList_DeepCopy K) (walk_pointer as_EtcdPeerList (walk_List (walk_slice as_EtcdPeers walk_EtcdPeer))) \<and>
    deep (EtcdPeerSpec_DeepCopy K) (walk_pointer as_EtcdPeerSpec walk_EtcdPeerSpec) \<and>
    deep EtcdPeerStatus_DeepCopy (walk_pointer as_EtcdPeerStatus (plain id)) \<and>
    deep (EtcdPeerStorage_DeepCopy K) (walk_pointer as_EtcdPeerStorage walk_EtcdPeerStorage) \<and>
    deep (EtcdPodTemplateObjectMeta_DeepCopy K) (walk_pointer as_EtcdPodTemplateObjectMeta walk_EtcdPodTemplateObjectMeta) \<and>
    deep (EtcdPodTemplateSpec_DeepCopy K) (walk_pointer as_EtcdPodTemplateSpec walk_EtcdPodTemplateSpec) \<and>
    deep (EtcdRestore_DeepCopy K) (walk_pointer as_EtcdRestore walk_EtcdRestore) \<and>
    deep (EtcdRestoreList_DeepCopy K) (walk_pointer as_EtcdRestoreList (walk_List (walk_slice as_EtcdRestores walk_EtcdRestore))) \<and>
    deep EtcdRestoreSource_DeepCopy (walk_pointer as_EtcdRestoreSource (plain id)) \<and>
    deep (EtcdRestoreSpec_DeepCopy K) (walk_pointer as_EtcdRestoreSpec walk_EtcdRestoreSpec) \<and>
    deep EtcdRestoreStatus_DeepCopy (walk_pointer as_EtcdRestoreStatus (plain id)) \<and>
    deep InitialClusterMember_DeepCopy (walk_pointer as_InitialClusterMember (plain id)) \<and>
    deep StaticBootstrap_DeepCopy (walk_pointer as_StaticBootstrap walk_StaticBootstrap)"
  unfolding deep_copy_defs
  using assms by (intro conjI deep_pointers)

text \<open>
  The deep copies applied to a cluster with labels, a number of replicas and two members.
\<close>

theorem deep_copies_are_deep_witness:
  "copiers_ok std_copiers \<and> walk_pointer as_EtcdCluster walk_EtcdCluster (Some 0) sample_memory \<noteq> None \<and>
   deep (EtcdCluster_DeepCopy std_copiers) (walk_pointer as_EtcdCluster walk_EtcdCluster)"
proof (intro conjI std_copiers_ok)
  show "walk_pointer as_EtcdCluster walk_EtcdCluster (Some 0) sample_memory \<noteq> None" by code_simp
  show "deep (EtcdCluster_DeepCopy std_copiers) (walk_pointer as_EtcdCluster walk_EtcdCluster)"
    using deep_copies_are_deep [OF std_copiers_ok] by blast
qed

text \<open>C25: DeepCopyObject of a nil pointer is the nil interface, not an interface around a nil pointer; of
  any other pointer it is a deep copy with the type of the resource.
\<close>

theorem deep_copy_objects:
  assumes "copiers_ok K"
  shows "copies_object EtcdBackupType (EtcdBackup_DeepCopyObject K) (walk_pointer as_EtcdBackup walk_EtcdBackup) \<and>
    copies_object EtcdBackupListType (EtcdBackupList_DeepCopyObject K) (walk_pointer as_EtcdBackupList (walk_List (walk_slice as_EtcdBackups walk_EtcdBackup))) \<and>
    copies_object EtcdBackupScheduleType (EtcdBackupSchedule_DeepCopyObject K) (walk_pointer as_EtcdBackupSchedule walk_EtcdBackupSchedule) \<and>
    copies_object EtcdBackupScheduleListType (EtcdBackupScheduleList_DeepCopyObject K) (walk_pointer as_EtcdBackupScheduleList (walk_List (walk_slice as_EtcdBackupSchedules walk_EtcdBackupSchedule))) \<and>
    copies_object EtcdClusterType (EtcdCluster_DeepCopyObject K) (walk_pointer as_EtcdCluster walk_EtcdCluster) \<and>
    copies_object EtcdClusterListType (EtcdClusterList_DeepCopyObject K) (walk_pointer as_EtcdClusterList (walk_List (walk_slice as_EtcdClusters walk_EtcdCluster))) \<and>
    copies_object EtcdPeerType (EtcdPeer_DeepCopyObject K) (walk_pointer as_EtcdPeer walk_EtcdPeer) \<and>
    copies_object EtcdPeerListType (EtcdPeerList_DeepCopyObject K) (walk_pointer as_EtcdPeerList (walk_List (walk_slice as_EtcdPeers walk_EtcdPeer))) \<and>
    copies_object EtcdRestoreType (EtcdRestore_DeepCopyObject K) (walk_pointer as_EtcdRestore walk_EtcdRestore) \<and>
    copies_object EtcdRestoreListType (EtcdRestoreList_DeepCopyObject K) (walk_pointer as_EtcdRestoreList (walk_List (walk_slice as_EtcdRestores walk_EtcdRestore)))"
  unfolding deep_copy_object_defs deep_copy_defs
  using assms by (intro conjI deep_objects)

theorem deep_copy_objects_witness:
  "copiers_ok std_copiers \<and>
   copies_object EtcdClusterType (EtcdCluster_DeepCopyObject std_copiers) (walk_pointer as_EtcdCluster walk_EtcdCluster)"
  using deep_copy_objects [OF std_copiers_ok] std_copiers_ok by blast

text \<open>
  In particular what is written through a resource is not seen in its copy, and what is written
  through the copy is not seen in the resource.
\<close>

lemma copies_are_kept_apart:
  assumes "copiers_ok K"
  shows "kept_apart (EtcdCluster_DeepCopy K) (walk_pointer as_EtcdCluster walk_EtcdCluster) \<and>
    kept_apart (EtcdPeer_DeepCopy K) (walk_pointer as_EtcdPeer walk_EtcdPeer) \<and>
    kept_apart (EtcdBackup_DeepCopy K) (walk_pointer as_EtcdBackup walk_EtcdBackup) \<and>
    kept_apart (EtcdPeerStorage_DeepCopy K) (walk_pointer as_EtcdPeerStorage walk_EtcdPeerStorage)"
  using assms unfolding deep_copy_defs by (intro conjI deep_kept_apart deep_pointers)

end
