(* ===== verification/Spec2Isabelle.thy ===== *)
theory Spec2Isabelle
  imports ClusterProps ClusterRunProps OperatorProps PeerProps BackupProps BackupRunProps ScheduleProps RestoreProps RestoreRunProps AdmissionProps AgentProps ManagerProps Scheme EtcdClient DeepCopyProps
begin

text \<open>
  Verification of the etcd-cluster-operator, a Kubernetes operator in Go that runs etcd clusters.

  \<^bold>\<open>The program.\<close> Users declare EtcdCluster, EtcdBackup, EtcdBackupSchedule and EtcdRestore
  resources; the operator's controllers (\<open>controllers/\<close>) bring the system there. The cluster
  controller keeps a headless Service and one EtcdPeer per member and talks to etcd itself to add
  and remove members; the peer controller keeps a PersistentVolumeClaim and a one-pod ReplicaSet
  per peer; the backup controller runs one backup-agent pod; the schedule controller creates
  backups from a cron library; the restore controller fills claims with restore-agent pods and then
  creates the cluster whose peers will find these claims. Resources are defaulted and validated by
  \<open>api/v1alpha1\<close>. The agents (\<open>cmd/backup-agent\<close>, \<open>cmd/restore-agent\<close>) move snapshots between etcd
  and an object store through a proxy (\<open>cmd/proxy\<close>). A controller is a function that is called with
  the name of a resource whenever something related changes; all communication between controllers
  goes through the API server.

  \<^bold>\<open>How it is modelled.\<close> A handler is a computation in the state monad over a world that holds
  the server's state, of an arbitrary type, and the trace of requests with their answers
  (\<open>Client\<close>). The Kubernetes client and the etcd client are records of arbitrary functions on that
  state. Theorems without further hypotheses on them, those on single passes in \<open>ClusterProps\<close>,
  \<open>PeerProps\<close>, \<open>BackupProps\<close>, \<open>ScheduleProps\<close>, \<open>RestoreProps\<close> and \<open>ManagerProps\<close>, therefore hold for
  every server, with failures, conflicts and changes by others between any two requests. The
  theorems on runs assume servers that keep promises (below). A Go panic is the value \<open>Panic\<close> of \<open>outcome\<close>; errors are values of
  \<open>go_error\<close>; \<open>int32\<close> replica counts are 32-bit words compared as signed numbers; maps are
  association lists; strings are byte lists and their order is Go's.
  \<open>emits m P\<close> says that every run of \<open>m\<close> appends a trace that, with the result, satisfies \<open>P\<close>.

  \<^bold>\<open>The theories.\<close>
  \<^item> \<open>Prelude\<close>, \<open>GoLib\<close>, \<open>GoUrl\<close>: outcomes, machine integers, and the parts of Go's library the
    operator uses (\<open>fmt\<close>, \<open>strings\<close>, \<open>sort\<close>, \<open>net/url\<close>), with round trips for numbers and
    URLs. The locale \<open>sort_interface\<close> is \<open>sort.Interface\<close>; it is interpreted on \<open>MembersByName\<close> and
    on string slices.
  \<^item> \<open>KubeTypes\<close>, \<open>ApiTypes\<close>: the Kubernetes objects as far as the operator sets or reads them, and
    the resources of \<open>api/v1alpha1\<close>. Functions of the Kubernetes libraries are the parameter \<open>lib\<close>.
  \<^item> \<open>Admission\<close>, \<open>AdmissionProps\<close>: \<open>defaulting.go\<close> and \<open>validation.go\<close>; what is accepted, exactly;
    the locale \<open>admission\<close> (defaulting is idempotent and keeps the verdict) holds for clusters and
    peers.
  \<^item> \<open>Client\<close>, \<open>Events\<close>: requests, traces and their logic; \<open>internal/reconcilerevent\<close> and
    \<open>actions.go\<close>. The locale \<open>reconciler\<close> is the contract of a controller, at most one action
    per call; it is interpreted on the handlers of clusters, peers, backups and restores.
  \<^item> \<open>Tracking\<close>: following the objects of a server through the requests of a handler. The locales
    \<open>server_law\<close> and \<open>shared_server\<close> (others act between the requests) are interpreted on the laws of
    clusters, backups and restores; \<open>descent\<close> is the argument by which runs end.
  \<^item> \<open>ClusterController\<close>: \<open>etcdcluster_controller.go\<close>. \<open>ClusterCorrect\<close> states, as \<open>justified\<close>, when the
    controller may act and proves it for each step; \<open>ClusterHandler\<close> gives the grammar of the whole
    handler's traces; \<open>ClusterProps\<close> has the properties: every action is justified, progress and
    quiescence, status and events, names, bootstrap and joining, scaling and upgrades, absence of
    panics.
  \<^item> \<open>ClusterProgress\<close>: with a member list, a pass acts, or waits for the world, or has nothing to do.
  \<^item> \<open>ClusterPlan\<close>: the abstract specification of a cluster, multisets of members and peers with the
    steps the operator may take (\<open>plan_step\<close>) and those of the world (\<open>world_step\<close>); its steps end
    (a measure), end only where the cluster is as desired (\<open>plan_done\<close>), and keep all but one member
    running (\<open>guarded\<close>), apart from members whose servers fall silent by themselves (\<open>silence\<close>,
    \<open>unanswered\<close>).
  \<^item> \<open>ClusterRefines\<close>, \<open>ClusterSystem\<close>, \<open>ClusterRunProps\<close>: \<open>lawful\<close> states, request by request, what an API
    server with etcd behind it promises; on such servers a pass of the cluster handler refines the
    plan, and it replaces the next outdated peer whether or not the other members run.
    \<open>ClusterServer\<close> and \<open>ClusterSample\<close> are a concrete lawful server and sample passes on it.
  \<^item> \<open>PeerController\<close>, \<open>PeerProps\<close>: \<open>etcdpeer_controller.go\<close>; justification of every action and of
    the deletion of claims, progress, panics, the ReplicaSet and its claim, the initial cluster
    printed and read back.
  \<^item> \<open>PeerRefines\<close>, \<open>OperatorSystem\<close>, \<open>OperatorProps\<close>: the peer handler takes the steps that the plan
    leaves to the world; the step relation \<open>acts\<close> interleaves passes of both handlers with the
    world. Every run settles, and a fair run (\<open>operator_fair\<close>) converges to the desired cluster. The
    step relation \<open>attempts\<close> also lets servers that have reported fail to answer; along such runs
    (\<open>attempted\<close>) at most one member is down that is not just silent.
  \<^item> \<open>BackupController\<close>, \<open>BackupProps\<close>: \<open>etcdbackup_controller_new.go\<close>; the phase machine of a backup
    and what each step requires. \<open>BackupRuns\<close>, \<open>BackupRunProps\<close>: runs on a server that keeps its promises
    (\<open>backup_lawful\<close>); every backup ends, with the phase that its pod calls for.
  \<^item> \<open>ScheduleController\<close>, \<open>ScheduleProps\<close>: \<open>etcdbackupschedule_controller.go\<close>; the locale
    \<open>schedule_store\<close> for the map of schedules, and the agreement of the map with the cron entries
    over any sequence of passes.
  \<^item> \<open>RestoreController\<close>, \<open>RestoreProps\<close>: \<open>etcdrestore_controller.go\<close>; the locale \<open>ownership_mark\<close> for
    marked claims and pods, the justification of every change, the order of the steps, the phase
    machine, the claims and pods that a restore makes.
  \<^item> \<open>RestoreSystem\<close>, \<open>RestoreRuns\<close>, \<open>RestoreRunProps\<close>: passes on a server that keeps its promises
    (\<open>restore_lawful\<close>) and is shared with others; a measure of what is left to do; every restore ends,
    completed with everything in place, or failed for a reason that a pass saw.
  \<^item> \<open>Proxy\<close>, \<open>ProxyProps\<close>: \<open>cmd/proxy/main.go\<close>; how a backup URL is split, when an upload counts as
    done, uploads read back. \<open>Agents\<close>, \<open>AgentProps\<close>: the two agents and the proxy address of
    \<open>main.go\<close>; the snapshot a restore uses is the one that the backup took.
  \<^item> \<open>Manager\<close>, \<open>ManagerProps\<close>: \<open>main.go\<close>, the \<open>SetupWithManager\<close> functions, \<open>webhooks/\<close>, the entry
    point of the proxy, and the permissions that the sources declare: every request of a handler is
    permitted, what a handler creates wakes it again, and nothing runs before everything is set up.
    \<open>Scheme\<close>: the registration of the API types; the operator's client knows every kind it uses.
  \<^item> \<open>EtcdClient\<close>: the builder of \<open>internal/etcd/etcd.go\<close> over the etcd client library, as an
    \<open>etcd_api\<close>.
  \<^item> \<open>Memory\<close>, \<open>DeepCopy\<close>, \<open>DeepCopyProps\<close>: Go's memory with pointers, slices and maps, and the
    generated deep copies of \<open>zz_generated.deepcopy.go\<close> statement by statement. The locales \<open>boxed\<close>,
    \<open>boxed_array\<close> and \<open>boxed_map\<close> state what a kind of cell promises and are interpreted on every
    kind. A deep copy holds the same value, touches nothing and shares nothing, which is why all
    other theories may treat API objects as values.
  \<^item> \<open>MemServer\<close>: an API server and an etcd in memory with sample resources. No property is about
    it; it shows that hypotheses can hold.
  \<^item> This theory: properties across components, that the peers the cluster controller makes are
    peers the peer controller can run, and that a restore prepares the process that will run.

  \<^bold>\<open>Parameters and hypotheses.\<close> Code of other repositories is a parameter: the API server and
  etcd (\<open>client\<close>, \<open>etcd_api\<close>; properties of runs assume \<open>lawful\<close>,
  \<open>restore_lawful\<close> or \<open>backup_lawful\<close>). \<open>lawful\<close> is about passes of the cluster and peer handlers: what
  they read is exact, not an outdated cache, and within one pass only its own requests change
  the objects of the cluster; requests may fail, and others act between passes. In the other two,
  others act between any two requests. Further parameters are owner references and finalizers
  (\<open>lib\<close>, with \<open>lib_ok\<close>), semantic versions, the comparison of specifications, templates
  (\<open>backup_lib\<close>), the cron library (\<open>cron\<close>), the object store (\<open>blob\<close>, with \<open>blob_ok\<close>), what the agents
  call (\<open>platform\<close>, with \<open>platform_ok\<close>), schemes (\<open>scheme_lib\<close>, with \<open>scheme_ok\<close>), the etcd client
  library (\<open>etcdclient\<close>) and the deep copies of Kubernetes' own types (\<open>copiers\<close>, with
  \<open>copiers_ok\<close>; an \<open>Affinity\<close> is a value without references). The predicates state documented
  behaviour and are shown to be satisfiable. Runs towards convergence further assume that an etcd
  server that answers reports the version it was asked to run and that one that has reported keeps
  answering (\<open>honest\<close>; without the latter, \<open>truthful\<close>), that claims of peers being deleted are not made anew, that admission has validated
  the peers, and that the name of the cluster is a host name without dots (\<open>named_ok\<close>).

  \<^bold>\<open>Loops.\<close> All loops of the controllers run over finite slices and are structural recursions; the
  search for a free peer name has a termination proof, whose measure is the number of names already
  taken that are still ahead. No fuel is used.

  \<^bold>\<open>What is not modelled.\<close> Log lines; contexts and deadlines (a deadline shows as an error of the
  call it is passed to); the parsing of flags by the standard library; generated protobuf code,
  which only calls libraries; test support; the version
  string set at build time. Where the source shares a pointer and later code can see a change
  through it (the storage of a restore's template), the model makes the change visible.
\<close>

section \<open>Helper lemmas\<close>

lemma nthPeerName_chars:
  assumes "list_all host_char (cluster_Name c)"
  shows "list_all host_char (nthPeerName c i)" "list_all host_char (expectedURLForPeer c (nthPeerName c i))"
    "CHR '','' \<notin> set (nthPeerName c i)" "CHR ''='' \<notin> set (nthPeerName c i)"
proof -
  have special: "host_char (CHR ''-'') \<and> host_char (CHR ''.'') \<and> \<not> host_char (CHR '','') \<and> \<not> host_char (CHR ''='')"
    by code_simp
  have "host_char x" if "x \<in> set (decimal i)" for x
    using that by (blast dest: decimal_is_dec is_dec_host_char)
  with assms special show n: "list_all host_char (nthPeerName c i)"
    by (auto simp: nthPeerName_def list_all_iff)
  with assms special show "list_all host_char (expectedURLForPeer c (nthPeerName c i))"
    by (auto simp: expectedURLForPeer_def list_all_iff)
  show "CHR '','' \<notin> set (nthPeerName c i)" "CHR ''='' \<notin> set (nthPeerName c i)"
    using n special by (auto simp: list_all_iff)
qed

text \<open>A peer of a cluster advertises the URL under which the initial cluster lists it.\<close>

lemma advertiseURL_listed:
  "advertiseURL (set_bootstrap (peerForCluster l c n) ms st) etcdPeerPort =
     initialMemberURL \<lparr>icm_Name = n, icm_Host = expectedURLForPeer c n\<rparr>"
  by (simp add: advertiseURL_def initialMemberURL_def expectedURLForPeer_def set_bootstrap_def peerForCluster_def)

lemma EtcdPeer_ValidateCreate_of_cluster:
  "EtcdPeer_ValidateCreate sv (set_bootstrap (peerForCluster l c n) ms st) = None \<longleftrightarrow>
   EtcdCluster_ValidateCreate sv c = None"
  by (simp add: EtcdPeer_ValidateCreate_iff EtcdCluster_ValidateCreate_iff set_bootstrap_def peerForCluster_def)

text \<open>A restore whose template sizes the pods, for a witness below.\<close>

definition sized_restore :: EtcdRestore where
  "sized_restore = sample_restore (Some \<lparr>pts_Metadata = None, pts_Resources = Some noResources, pts_Affinity = None\<rparr>)"

text \<open>What the environment of an etcd container says.\<close>

definition etcd_env :: "ReplicaSet \<Rightarrow> string \<Rightarrow> string \<Rightarrow> bool" where
  "etcd_env rs n v \<longleftrightarrow>
     (\<exists>container. ps_Containers (pt_spec (rs_Template rs)) = [container] \<and> env n v \<in> set (c_Env container))"

lemma etcdContainer_env: "set (c_Env (etcdContainer p repo static st)) \<supseteq>
    {env EnvInitialCluster (staticBootstrapInitialCluster static), env EnvName (peer_Name p),
     env EnvInitialAdvertisePeerURLs (String (advertiseURL p etcdPeerPort)),
     env EnvInitialClusterState (clusterStateValue st)}"
  by (auto simp: etcdContainer_def Let_def split: option.split)

lemma defineReplicaSet_env:
  assumes "ps_Bootstrap (peer_spec p) = Some \<lparr>Static = Some static, bs_InitialClusterState = st\<rparr>"
  obtains rs where "defineReplicaSet l p repo = Return rs"
    "etcd_env rs EnvInitialCluster (staticBootstrapInitialCluster static)"
    "etcd_env rs EnvName (peer_Name p)"
    "etcd_env rs EnvInitialAdvertisePeerURLs (String (advertiseURL p etcdPeerPort))"
    "etcd_env rs EnvInitialClusterState (clusterStateValue st)"
proof -
  obtain rs where rs: "defineReplicaSet l p repo = Return rs"
    "ps_Containers (pt_spec (rs_Template rs)) = [etcdContainer p repo static st]"
    using assms by (simp add: defineReplicaSet_def Let_def)
  with etcdContainer_env [where p = p and repo = repo and static = static and st = st] show thesis by (intro that [OF rs(1)]) (auto simp: etcd_env_def)
qed

lemma bootstrapPeer_set_bootstrap:
  assumes "bootstrapPeer l c peers = Return p" "expectedPeerNamesForCluster c = Return names"
  shows "p = set_bootstrap (peerForCluster l c (nextAvailablePeerName c peers))
    (map (\<lambda>n. \<lparr>icm_Name = n, icm_Host = expectedURLForPeer c n\<rparr>) names) InitialClusterStateNew"
  using assms by (simp add: bootstrapPeer_def configurePeerBootstrap_def initialClusterMembers_def)

lemma outcome_not_Panic: "x \<noteq> Panic \<Longrightarrow> \<exists>y. x = Return y"
  by (cases x) auto

text \<open>The i-th peer a restore expects, and the flags of its pod.\<close>

lemma expectedObjects_peer:
  assumes eo: "expectedObjects l restore = Return (c, peers, pvcs)" and i: "i < length peers"
  obtains ms where "initialClusterMembers c = Return ms"
    "peers ! i = set_bootstrap (EtcdPeer_Default (peerForCluster l c (nthPeerName c i))) ms InitialClusterStateNew"
proof -
  obtain names where names: "expectedPeerNamesForCluster c = Return names"
    "list_all2 (\<lambda>n p. expectedPeerForRestore l c n = Return p) names peers"
    using expectedObjects_Return(2) [OF eo] by blast
  have len: "i < length names" using i list_all2_lengthD [OF names(2)] by simp
  have "names ! i = nthPeerName c i"
    using names(1) len by (auto simp: expectedPeerNamesForCluster_def split: option.splits if_splits)
  then have "expectedPeerForRestore l c (nthPeerName c i) = Return (peers ! i)"
    using list_all2_nthD [OF names(2) len] by simp
  then show thesis
    by (auto simp: expectedPeerForRestore_def configurePeerBootstrap_def intro: that split: outcome.splits)
qed

lemma podForRestore_args:
  assumes "podForRestore l r restore peer k = Return pod"
    and "ps_Bootstrap (peer_spec peer) = Some \<lparr>Static = Some static, bs_InitialClusterState = st\<rparr>"
  obtains args where "map c_Args (ps_Containers (pod_spec pod)) = [args]"
    "{''--etcd-initial-cluster='' @ staticBootstrapInitialCluster static,
      ''--etcd-peer-advertise-url='' @ String (advertiseURL peer etcdPeerPort),
      ''--etcd-peer-name='' @ peer_Name peer} \<subseteq> set args"
  using assms by (auto simp: podForRestore_def markPod_def stringFlag_def intro!: that split: option.splits)

section \<open>Properties\<close>

text \<open>C14: a bootstrap peer that the cluster controller creates for a valid cluster is one the peer controller
  accepts and can run: it passes the validation of peers, its ReplicaSet can be defined, and in the
  environment of its etcd process the initial cluster, read by the documented format of that
  variable, lists the name of the process with exactly the peer URL that the process advertises.\<close>

theorem bootstrap_peer_runs:
  assumes valid: "EtcdCluster_ValidateCreate sv c = None" and few: "hasTooFewPeers c peers" "length peers < 2 ^ 31"
    and host: "list_all host_char (cluster_Name c)"
  shows "\<exists>p rs ic url. bootstrapPeer l c peers = Return p \<and> EtcdPeer_ValidateCreate sv p = None \<and>
     defineReplicaSet l p repo = Return rs \<and> etcd_env rs EnvName (peer_Name p) \<and>
     etcd_env rs EnvInitialCluster ic \<and> etcd_env rs EnvInitialAdvertisePeerURLs url \<and>
     etcd_env rs EnvInitialClusterState ''new'' \<and> (peer_Name p, url) \<in> set (parseInitialCluster ic)"
proof -
  obtain names where names: "expectedPeerNamesForCluster c = Return names"
    "nextAvailablePeerName c peers \<in> set names" "length peers < length names"
    using bootstrap_names [OF few] by blast
  let ?n = "nextAvailablePeerName c peers"
  let ?ms = "map (\<lambda>n. \<lparr>icm_Name = n, icm_Host = expectedURLForPeer c n\<rparr>) names"
  obtain p where p: "bootstrapPeer l c peers = Return p"
    using names(1) by (simp add: bootstrapPeer_def configurePeerBootstrap_def initialClusterMembers_def)
  note p' = bootstrapPeer_set_bootstrap [OF p names(1)]
  have boot: "ps_Bootstrap (peer_spec p) = Some \<lparr>Static = Some \<lparr>InitialCluster = ?ms\<rparr>,
      bs_InitialClusterState = InitialClusterStateNew\<rparr>"
    by (simp add: p' set_bootstrap_def)
  obtain rs where rs: "defineReplicaSet l p repo = Return rs"
    "etcd_env rs EnvInitialCluster (staticBootstrapInitialCluster \<lparr>InitialCluster = ?ms\<rparr>)"
    "etcd_env rs EnvName (peer_Name p)"
    "etcd_env rs EnvInitialAdvertisePeerURLs (String (advertiseURL p etcdPeerPort))"
    "etcd_env rs EnvInitialClusterState (clusterStateValue InitialClusterStateNew)"
    by (rule defineReplicaSet_env [OF boot])
  have "\<forall>n \<in> set names. \<exists>i. n = nthPeerName c i"
    using names(1) by (auto simp: expectedPeerNames_Return)
  then have "parseInitialCluster (staticBootstrapInitialCluster \<lparr>InitialCluster = ?ms\<rparr>) =
      map (\<lambda>m. (icm_Name m, String (initialMemberURL m))) ?ms"
    using names(3) nthPeerName_chars [OF host]
    by (subst parseInitialCluster_static) auto
  moreover have "peer_Name p = ?n" by (rule bootstrapPeer_Name [OF p])
  ultimately have "(peer_Name p, String (advertiseURL p etcdPeerPort)) \<in>
      set (parseInitialCluster (staticBootstrapInitialCluster \<lparr>InitialCluster = ?ms\<rparr>))"
    using names(2) by (auto simp: p' advertiseURL_listed)
  moreover have "EtcdPeer_ValidateCreate sv p = None" using valid by (simp add: p' EtcdPeer_ValidateCreate_of_cluster)
  moreover have "clusterStateValue InitialClusterStateNew = ''new''" by (simp add: clusterStateValue_def)
  ultimately show ?thesis using p rs by (intro exI) auto
qed

theorem bootstrap_peer_runs_witness:
  "\<exists>p rs. bootstrapPeer std_lib (sample_cluster 3) [] = Return p \<and>
     defineReplicaSet std_lib p ''quay.io/coreos/etcd'' = Return rs \<and> etcd_env rs EnvName (peer_Name p)"
proof -
  have "EtcdCluster_ValidateCreate sample_semver (sample_cluster 3) = None" "hasTooFewPeers (sample_cluster 3) []"
    "list_all host_char (cluster_Name (sample_cluster 3))"
    by code_simp+
  from bootstrap_peer_runs [OF this(1,2) _ this(3), of std_lib "''quay.io/coreos/etcd''"] show ?thesis by auto
qed

text \<open>The headless service of a cluster serves the pods of its peers: every label of its selector is on
  the pods of every peer made for the cluster, in the namespace of the service, and the host name and
  subdomain of such a pod form, with the name of the service, the host that the initial cluster lists
  for that peer.\<close>

lemma service_reaches_pods:
  "\<exists>rs. defineReplicaSet l (set_bootstrap (peerForCluster l c n) ms st) repo = Return rs \<and>
     list_all (\<lambda>(k, v). map_of (Labels (pt_meta (rs_Template rs))) k = Some v)
       (svc_Selector (headlessServiceForCluster l c)) \<and>
     Namespace (pt_meta (rs_Template rs)) = Namespace (svc_meta (headlessServiceForCluster l c)) \<and>
     ps_Subdomain (pt_spec (rs_Template rs)) = Name (svc_meta (headlessServiceForCluster l c)) \<and>
     ps_Hostname (pt_spec (rs_Template rs)) @ ''.'' @ ps_Subdomain (pt_spec (rs_Template rs)) = expectedURLForPeer c n"
  by (simp add: defineReplicaSet_def set_bootstrap_def peerForCluster_def headlessServiceForCluster_def
      clusterLabels_def serviceName_def peerLabels_def expectedURLForPeer_def label_defs Let_def)

text \<open>C19: a restore prepares exactly the process that will run: the restore pod for the i-th expected peer is
  given, as its flags, the initial cluster and the advertised peer URL that the peer controller will
  put into the environment of the etcd process of that peer of the restored cluster.\<close>

theorem restore_pod_matches_peer:
  assumes eo: "expectedObjects l restore = Return (c, peers, pvcs)" and i: "i < length peers"
    and pod: "podForRestore l r (shareDefaults restore) (peers ! i) k = Return pod"
  shows "\<exists>p rs ic url args. configurePeerBootstrap (peerForCluster l c (nthPeerName c i)) c = Return p \<and>
     defineReplicaSet l p repo = Return rs \<and> etcd_env rs EnvInitialCluster ic \<and>
     etcd_env rs EnvInitialAdvertisePeerURLs url \<and> map c_Args (ps_Containers (pod_spec pod)) = [args] \<and>
     {''--etcd-initial-cluster='' @ ic, ''--etcd-peer-advertise-url='' @ url,
      ''--etcd-peer-name='' @ nthPeerName c i} \<subseteq> set args"
proof -
  obtain ms where ms: "initialClusterMembers c = Return ms"
    and peer: "peers ! i = set_bootstrap (EtcdPeer_Default (peerForCluster l c (nthPeerName c i))) ms InitialClusterStateNew"
    using expectedObjects_peer [OF eo i] .
  let ?p = "set_bootstrap (peerForCluster l c (nthPeerName c i)) ms InitialClusterStateNew"
  have p: "configurePeerBootstrap (peerForCluster l c (nthPeerName c i)) c = Return ?p"
    using ms by (simp add: configurePeerBootstrap_def)
  have boot: "ps_Bootstrap (peer_spec ?p) = Some \<lparr>Static = Some \<lparr>InitialCluster = ms\<rparr>,
      bs_InitialClusterState = InitialClusterStateNew\<rparr>"
    by (simp add: set_bootstrap_def)
  obtain rs where rs: "defineReplicaSet l ?p repo = Return rs"
    "etcd_env rs EnvInitialCluster (staticBootstrapInitialCluster \<lparr>InitialCluster = ms\<rparr>)"
    "etcd_env rs EnvName (peer_Name ?p)"
    "etcd_env rs EnvInitialAdvertisePeerURLs (String (advertiseURL ?p etcdPeerPort))"
    "etcd_env rs EnvInitialClusterState (clusterStateValue InitialClusterStateNew)"
    by (rule defineReplicaSet_env [OF boot])
  have same: "advertiseURL (peers ! i) etcdPeerPort = advertiseURL ?p etcdPeerPort"
    "peer_Name (peers ! i) = nthPeerName c i"
    by (simp_all add: peer advertiseURL_def set_bootstrap_def EtcdPeer_Default_def peerForCluster_def)
  have "ps_Bootstrap (peer_spec (peers ! i)) = Some \<lparr>Static = Some \<lparr>InitialCluster = ms\<rparr>,
      bs_InitialClusterState = InitialClusterStateNew\<rparr>"
    by (simp add: peer set_bootstrap_def)
  from podForRestore_args [OF pod this, unfolded same]
  obtain args where args: "map c_Args (ps_Containers (pod_spec pod)) = [args]"
    "{''--etcd-initial-cluster='' @ staticBootstrapInitialCluster \<lparr>InitialCluster = ms\<rparr>,
      ''--etcd-peer-advertise-url='' @ String (advertiseURL ?p etcdPeerPort),
      ''--etcd-peer-name='' @ nthPeerName c i} \<subseteq> set args" .
  from p rs(1,2,4) args show ?thesis by (intro exI conjI)
qed

theorem restore_pod_matches_peer_witness:
  "\<exists>c peers pvcs pod p rs ic args.
     expectedObjects std_lib sized_restore = Return (c, peers, pvcs) \<and>
     podForRestore std_lib \<lparr>RestorePodImage = ''i'', rr_ProxyURL = ''p''\<rparr> (shareDefaults sized_restore) (peers ! 1) ''c-1'' = Return pod \<and>
     configurePeerBootstrap (peerForCluster std_lib c (nthPeerName c 1)) c = Return p \<and>
     defineReplicaSet std_lib p ''etcd'' = Return rs \<and> etcd_env rs EnvInitialCluster ic \<and>
     map c_Args (ps_Containers (pod_spec pod)) = [args] \<and> ''--etcd-initial-cluster='' @ ic \<in> set args"
proof -
  have "(case expectedObjects std_lib sized_restore of
      Return (c, peers, pvcs) \<Rightarrow> 1 < length peers \<and>
        podForRestore std_lib \<lparr>RestorePodImage = ''i'', rr_ProxyURL = ''p''\<rparr> (shareDefaults sized_restore)
          (peers ! 1) ''c-1'' \<noteq> Panic
    | Panic \<Rightarrow> False)"
    by code_simp
  then obtain c peers pvcs pod where eo: "expectedObjects std_lib sized_restore = Return (c, peers, pvcs)"
    "1 < length peers"
    "podForRestore std_lib \<lparr>RestorePodImage = ''i'', rr_ProxyURL = ''p''\<rparr> (shareDefaults sized_restore)
       (peers ! 1) ''c-1'' = Return pod"
    by (auto split: outcome.splits dest: outcome_not_Panic)
  from restore_pod_matches_peer [OF this, of "''etcd''"] eo show ?thesis by fastforce
qed

end
